(* ===== verification/Prelude.thy ===== *)
theory Prelude
  imports Main "HOL-Library.Word"
begin

text \<open>
  Shared vocabulary of the development: bytes and control characters, searching in byte
  strings the way \<open>std::string::find\<close> and \<open>std::string_view::substr\<close> do it, 64-bit
  unsigned arithmetic written out on \<open>nat\<close>, and the association lists that stand for
  \<open>std::unordered_map\<close>. The locale \<open>keyed_map\<close> is the contract that the C++ container asks
  of its \<open>KeyEqual\<close> argument; its lemmas are proved once and reused for header maps
  (case-insensitive keys) and parameter maps (exact keys).

  A C++ \<open>char\<close> is an Isabelle \<open>char\<close> (one byte), a \<open>std::string\<close> or
  \<open>std::string_view\<close> is a \<open>string\<close>.
\<close>

section \<open>Bytes\<close>

abbreviation NUL :: char where "NUL \<equiv> CHR 0x00"
abbreviation TAB :: char where "TAB \<equiv> CHR 0x09"
abbreviation LF :: char where "LF \<equiv> CHR 0x0A"
abbreviation CR :: char where "CR \<equiv> CHR 0x0D"
abbreviation SP :: char where "SP \<equiv> CHR 0x20"
abbreviation DQ :: char where "DQ \<equiv> CHR 0x22"
abbreviation SQ :: char where "SQ \<equiv> CHR 0x27"
abbreviation CRLF :: string where "CRLF \<equiv> [CR, LF]"

text \<open>The value of a byte, and the byte of a value (reduced modulo 256 as the cast does).\<close>

abbreviation ord :: "char \<Rightarrow> nat" where "ord c \<equiv> of_char c"
abbreviation chr :: "nat \<Rightarrow> char" where "chr n \<equiv> char_of n"

named_theorems byte_simps \<open>facts about single bytes\<close>
named_theorems map_laws \<open>lookup and update laws of the key/value maps\<close>

section \<open>Searching in strings\<close>

text \<open>\<open>s.find(c)\<close>: the index of the first occurrence; \<open>None\<close> is \<open>npos\<close>.\<close>

fun find_char :: "'a \<Rightarrow> 'a list \<Rightarrow> nat option" where
  "find_char c [] = None"
| "find_char c (x # xs) = (if x = c then Some 0 else map_option Suc (find_char c xs))"

text \<open>\<open>s.rfind(c)\<close>: the index of the last occurrence.\<close>

fun rfind_char :: "'a \<Rightarrow> 'a list \<Rightarrow> nat option" where
  "rfind_char c [] = None"
| "rfind_char c (x # xs) =
     (case rfind_char c xs of
        Some n \<Rightarrow> Some (Suc n)
      | None \<Rightarrow> if x = c then Some 0 else None)"

text \<open>\<open>s.find(pat)\<close> for a substring.\<close>

fun find_sub :: "'a list \<Rightarrow> 'a list \<Rightarrow> nat option" where
  "find_sub pat [] = (if pat = [] then Some 0 else None)"
| "find_sub pat (x # xs) =
     (if take (length pat) (x # xs) = pat then Some 0 else map_option Suc (find_sub pat xs))"

text \<open>Joining pieces with a separator, as the code's \<open>if (i) out += sep\<close> loops do.\<close>

fun join_with :: "'a list \<Rightarrow> 'a list list \<Rightarrow> 'a list" where
  "join_with sep [] = []"
| "join_with sep [x] = x"
| "join_with sep (x # y # zs) = x @ sep @ join_with sep (y # zs)"

section \<open>64-bit unsigned arithmetic on \<open>nat\<close>\<close>

definition u64_add :: "nat \<Rightarrow> nat \<Rightarrow> nat" where
  "u64_add a b = (a + b) mod 2 ^ 64"

definition u64_sub :: "nat \<Rightarrow> nat \<Rightarrow> nat" where
  "u64_sub a b = (a + 2 ^ 64 - b mod 2 ^ 64) mod 2 ^ 64"

definition u64_mul :: "nat \<Rightarrow> nat \<Rightarrow> nat" where
  "u64_mul a b = (a * b) mod 2 ^ 64"

section \<open>Association lists for \<open>std::unordered_map\<close>\<close>

text \<open>
  \<open>eq\<close> is the container's \<open>KeyEqual\<close>. \<open>kv_set\<close> is \<open>m[k] = v\<close>: an existing entry keeps its
  stored key and gets the new value, a missing one is added. The container's iteration order
  is unspecified; functions that iterate take the order as an argument.
\<close>

fun kv_get :: "('k \<Rightarrow> 'k \<Rightarrow> bool) \<Rightarrow> ('k \<times> 'v) list \<Rightarrow> 'k \<Rightarrow> 'v option" where
  "kv_get eq [] k = None"
| "kv_get eq ((k', v) # m) k = (if eq k' k then Some v else kv_get eq m k)"

fun kv_set :: "('k \<Rightarrow> 'k \<Rightarrow> bool) \<Rightarrow> 'k \<Rightarrow> 'v \<Rightarrow> ('k \<times> 'v) list \<Rightarrow> ('k \<times> 'v) list" where
  "kv_set eq k v [] = [(k, v)]"
| "kv_set eq k v ((k', v') # m) =
     (if eq k' k then (k', v) # m else (k', v') # kv_set eq k v m)"

fun kv_del :: "('k \<Rightarrow> 'k \<Rightarrow> bool) \<Rightarrow> 'k \<Rightarrow> ('k \<times> 'v) list \<Rightarrow> ('k \<times> 'v) list" where
  "kv_del eq k [] = []"
| "kv_del eq k ((k', v') # m) = (if eq k' k then m else (k', v') # kv_del eq k m)"

text \<open>The container's invariant: no two entries have equal keys.\<close>

fun kv_wf :: "('k \<Rightarrow> 'k \<Rightarrow> bool) \<Rightarrow> ('k \<times> 'v) list \<Rightarrow> bool" where
  "kv_wf eq [] = True"
| "kv_wf eq ((k, v) # m) = (kv_get eq m k = None \<and> kv_wf eq m)"

subsection \<open>The contract of \<open>KeyEqual\<close>\<close>

locale keyed_map =
  fixes eq :: "'k \<Rightarrow> 'k \<Rightarrow> bool"
  assumes eq_refl: "eq k k"
    and eq_sym: "eq a b \<Longrightarrow> eq b a"
    and eq_trans: "eq a b \<Longrightarrow> eq b c \<Longrightarrow> eq a c"
begin

lemma eq_cong: "eq a b \<Longrightarrow> eq c a = eq c b"
  using eq_sym eq_trans by blast

lemma get_cong: "eq a b \<Longrightarrow> kv_get eq m a = kv_get eq m b"
proof (induction m)
  case Nil
  show ?case by simp
next
  case (Cons e m)
  obtain k v where "e = (k, v)" by (cases e)
  with Cons eq_cong [OF Cons.prems, of k] show ?case by simp
qed

lemma get_set_same: "eq a b \<Longrightarrow> kv_get eq (kv_set eq a v m) b = Some v"
proof (induction m)
  case Nil
  then show ?case by simp
next
  case (Cons e m)
  obtain k w where e: "e = (k, w)" by (cases e)
  show ?case
  proof (cases "eq k a")
    case True
    with Cons.prems eq_trans have "eq k b" by blast
    with True e show ?thesis by simp
  next
    case False
    with Cons.prems eq_sym eq_trans have "\<not> eq k b" by blast
    with False e Cons show ?thesis by simp
  qed
qed

lemma get_set_other: "\<not> eq a b \<Longrightarrow> kv_get eq (kv_set eq a v m) b = kv_get eq m b"
proof (induction m)
  case Nil
  then show ?case by simp
next
  case (Cons e m)
  obtain k w where e: "e = (k, w)" by (cases e)
  show ?case
  proof (cases "eq k a")
    case True
    with Cons.prems eq_sym eq_trans have "\<not> eq k b" by blast
    with True e show ?thesis by simp
  next
    case False
    with e Cons show ?thesis by simp
  qed
qed

lemma get_set: "kv_get eq (kv_set eq a v m) b = (if eq a b then Some v else kv_get eq m b)"
  by (simp add: get_set_same get_set_other)

lemma wf_set: "kv_wf eq m \<Longrightarrow> kv_wf eq (kv_set eq a v m)"
proof (induction m)
  case Nil
  then show ?case by simp
next
  case (Cons e m)
  obtain k w where e: "e = (k, w)" by (cases e)
  show ?case
  proof (cases "eq k a")
    case True
    with e Cons.prems show ?thesis by simp
  next
    case False
    with eq_sym have "\<not> eq a k" by blast
    with False e Cons show ?thesis by (simp add: get_set)
  qed
qed

lemma get_del: "kv_wf eq m \<Longrightarrow> kv_get eq (kv_del eq a m) b = (if eq a b then None else kv_get eq m b)"
proof (induction m)
  case Nil
  then show ?case by simp
next
  case (Cons e m)
  obtain k w where e: "e = (k, w)" by (cases e)
  show ?case
  proof (cases "eq k a")
    case ka: True
    show ?thesis
    proof (cases "eq a b")
      case True
      with ka eq_trans have "eq k b" by blast
      then have "kv_get eq m b = kv_get eq m k" by (rule get_cong [THEN sym])
      with True ka e Cons.prems show ?thesis by simp
    next
      case False
      with ka eq_sym eq_trans have "\<not> eq k b" by blast
      with False ka e show ?thesis by simp
    qed
  next
    case ka: False
    have "eq a b \<Longrightarrow> \<not> eq k b" using ka eq_sym eq_trans by blast
    with ka e Cons show ?thesis by simp
  qed
qed

lemma wf_del: "kv_wf eq m \<Longrightarrow> kv_wf eq (kv_del eq a m)"
proof (induction m)
  case Nil
  then show ?case by simp
next
  case (Cons e m)
  obtain k w where e: "e = (k, w)" by (cases e)
  show ?case
  proof (cases "eq k a")
    case True
    with e Cons.prems show ?thesis by simp
  next
    case False
    with e Cons show ?thesis by (simp add: get_del)
  qed
qed

lemma length_set: "length (kv_set eq a v m) = (case kv_get eq m a of None \<Rightarrow> Suc (length m) | Some _ \<Rightarrow> length m)"
proof (induction m)
  case Nil
  then show ?case by simp
next
  case (Cons e m)
  then show ?case by (cases e) (auto split: option.splits)
qed

lemma get_None_iff: "kv_get eq m a = None \<longleftrightarrow> (\<forall>(k, v) \<in> set m. \<not> eq k a)"
proof (induction m)
  case Nil
  then show ?case by simp
next
  case (Cons e m)
  then show ?case by (cases e) simp
qed

end

text \<open>Exact keys: \<open>std::unordered_map<std::string, T>\<close> with the default \<open>KeyEqual\<close>.\<close>

interpretation pm: keyed_map "(=) :: 'k \<Rightarrow> 'k \<Rightarrow> bool"
  by unfold_locales auto

lemmas pm_laws [map_laws] = pm.get_set pm.get_del pm.wf_set pm.wf_del

text \<open>Erasing the entries that fail a test, as the pruning loops do.\<close>

lemma get_filtered: "kv_wf (=) m \<Longrightarrow> kv_get (=) (filter (\<lambda>(k, e). P k e) m) k =
  (case kv_get (=) m k of None \<Rightarrow> None | Some e \<Rightarrow> if P k e then Some e else None)"
  by (induction m) (auto split: option.splits if_splits)

lemma wf_filtered: "kv_wf (=) m \<Longrightarrow> kv_wf (=) (filter (\<lambda>(k, e). P k e) m)"
  by (induction m) (auto simp: get_filtered)

lemma card_keys: "kv_wf (=) m \<Longrightarrow> card {k. kv_get (=) m k \<noteq> None} = length m \<and> finite {k. kv_get (=) m k \<noteq> None}"
proof (induction m)
  case Nil
  then show ?case by simp
next
  case (Cons x m)
  obtain k v where x: "x = (k, v)" by (cases x)
  have "{k'. kv_get (=) (x # m) k' \<noteq> None} = insert k {k'. kv_get (=) m k' \<noteq> None}" using x by auto
  with Cons x show ?case by simp
qed

section \<open>Lemmas on searching\<close>

lemma find_char_Some_iff:
  "find_char c s = Some n \<longleftrightarrow> n < length s \<and> s ! n = c \<and> c \<notin> set (take n s)"
proof (induction s arbitrary: n)
  case Nil
  then show ?case by simp
next
  case (Cons x s)
  then show ?case by (cases n) auto
qed

lemma find_char_None_iff: "find_char c s = None \<longleftrightarrow> c \<notin> set s"
  by (induction s) auto

lemma find_char_append_hit: "c \<notin> set xs \<Longrightarrow> find_char c (xs @ c # ys) = Some (length xs)"
  by (induction xs) auto

lemma find_char_append_miss:
  assumes "c \<notin> set xs"
  shows "find_char c (xs @ ys) = map_option (\<lambda>n. length xs + n) (find_char c ys)"
proof (cases "find_char c ys")
  case None
  moreover from None assms have "find_char c (xs @ ys) = None"
    by (simp only: find_char_None_iff) simp
  ultimately show ?thesis by simp
next
  case (Some n)
  with assms show ?thesis by (induction xs) auto
qed

lemma find_char_split: "find_char c s = Some n \<Longrightarrow> s = take n s @ c # drop (Suc n) s"
  using id_take_nth_drop [of n s] by (simp add: find_char_Some_iff)

lemma find_char_less: "find_char c s = Some n \<Longrightarrow> n < length s"
  by (simp add: find_char_Some_iff)

lemma rfind_char_None_iff: "rfind_char c s = None \<longleftrightarrow> c \<notin> set s"
  by (induction s) (auto split: option.splits)

lemma rfind_char_append_hit: "c \<notin> set ys \<Longrightarrow> rfind_char c (xs @ c # ys) = Some (length xs)"
proof (induction xs)
  case Nil
  then show ?case by (simp add: rfind_char_None_iff [THEN iffD2])
next
  case (Cons x xs)
  then show ?case by simp
qed

lemma rfind_char_less: "rfind_char c s = Some n \<Longrightarrow> n < length s"
  by (induction s arbitrary: n) (auto split: option.splits if_splits)

lemma rfind_char_split:
  "rfind_char c s = Some n \<Longrightarrow> s = take n s @ c # drop (Suc n) s \<and> c \<notin> set (drop (Suc n) s)"
proof (induction s arbitrary: n)
  case Nil
  then show ?case by simp
next
  case (Cons x s)
  show ?case
  proof (cases "rfind_char c s")
    case None
    with Cons.prems show ?thesis by (auto simp: rfind_char_None_iff split: if_splits)
  next
    case (Some m)
    with Cons.prems have "n = Suc m" by simp
    with Cons.IH [OF Some] show ?thesis by simp
  qed
qed

lemma find_sub_bound: "find_sub pat s = Some n \<Longrightarrow> n + length pat \<le> length s"
proof (induction s arbitrary: n)
  case Nil
  then show ?case by (simp split: if_splits)
next
  case (Cons x s)
  show ?case
  proof (cases "take (length pat) (x # s) = pat")
    case True
    then have "length pat \<le> length (x # s)" by (metis length_take min.cobounded1)
    with True Cons.prems show ?thesis by simp
  next
    case False
    with Cons show ?thesis by auto
  qed
qed

lemma find_sub_hit: "find_sub pat s = Some n \<Longrightarrow> take (length pat) (drop n s) = pat"
  by (induction s arbitrary: n) (auto split: if_splits)

lemma find_sub_skip: "c \<notin> set l \<Longrightarrow> find_sub (c # pat) (l @ s) = map_option ((+) (length l)) (find_sub (c # pat) s)"
proof (induction l)
  case Nil
  show ?case by (cases "find_sub (c # pat) s") simp_all
next
  case (Cons a l)
  then show ?case by (cases "find_sub (c # pat) s") auto
qed

lemma find_crlf: "CR \<notin> set l \<Longrightarrow> find_sub CRLF (l @ CRLF @ s) = Some (length l)"
  by (simp add: find_sub_skip)

lemma find_sub_extend: "find_sub pat s = Some n \<Longrightarrow> find_sub pat (s @ t) = Some n"
proof (induction s arbitrary: n)
  case Nil
  then show ?case by (cases t) (auto split: if_splits)
next
  case (Cons x s)
  have "length pat \<le> length (x # s)" using find_sub_bound [OF Cons.prems] by simp
  then have "take (length pat) ((x # s) @ t) = take (length pat) (x # s)" unfolding take_append by simp
  then show ?case using Cons.prems Cons.IH unfolding append_Cons find_sub.simps
    by (auto split: if_splits)
qed

lemma div_mod_eqI: "x = q * m + r \<Longrightarrow> r < m \<Longrightarrow> x div m = q \<and> x mod m = (r :: nat)"
  by (metis add.commute div_mult_self_is_m div_less mod_less mod_mult_self1 mult.commute not_less_zero div_mult_self3 add_cancel_right_right bot_nat_0.not_eq_extremum)

lemma nat_div_eqI: "x = q * m + r \<Longrightarrow> r < m \<Longrightarrow> x div m = (q :: nat)"
  using div_mod_eqI by blast

lemma nat_mod_eqI: "x = q * m + r \<Longrightarrow> r < m \<Longrightarrow> x mod m = (r :: nat)"
  using div_mod_eqI by blast

lemma u64_add_small: "a + b < 2 ^ 64 \<Longrightarrow> u64_add a b = a + b"
  by (simp add: u64_add_def)

lemma u64_sub_small: "b \<le> a \<Longrightarrow> a < 2 ^ 64 \<Longrightarrow> u64_sub a b = a - b"
proof -
  assume "b \<le> a" "a < 2 ^ 64"
  then have "a + 2 ^ 64 - b mod 2 ^ 64 = (a - b) + 2 ^ 64" by simp
  moreover have "((a - b) + 2 ^ 64) mod 2 ^ 64 = (a - b) mod 2 ^ (64 :: nat)"
    by (rule mod_add_self2)
  ultimately show ?thesis using \<open>a < 2 ^ 64\<close> by (simp add: u64_sub_def)
qed

lemma ord_less_256 [simp]: "ord c < 256"
  by simp

lemma ord_chr [byte_simps]: "ord (chr n) = n mod 256"
  by (rule of_char_of)

lemma chr_ord [simp]: "chr (ord c) = c"
  by (rule char_of_char)

lemma ord_inject [byte_simps]: "ord c = ord d \<longleftrightarrow> c = d"
  by (metis chr_ord)

section \<open>Incremental consumers\<close>

text \<open>
  The contract of every component that is fed a byte stream in pieces (the request parser, the
  digests, the frame reader): feeding two pieces one after the other is feeding their
  concatenation, as long as the state satisfies the component's invariant. How the peer or the
  kernel cuts the stream then makes no difference.
\<close>

locale incremental =
  fixes inv :: "'s \<Rightarrow> bool"
    and feed :: "'s \<Rightarrow> 'a list \<Rightarrow> 's"
  assumes feed_Nil: "inv s \<Longrightarrow> feed s [] = s"
    and feed_append: "inv s \<Longrightarrow> feed s (xs @ ys) = feed (feed s xs) ys"
    and feed_inv: "inv s \<Longrightarrow> inv (feed s xs)"
begin

lemma feed_concat: "inv s \<Longrightarrow> foldl feed s xss = feed s (concat xss)"
  by (induction xss arbitrary: s) (simp_all add: feed_Nil feed_append feed_inv)

lemma feed_split: "inv s \<Longrightarrow> concat xss = concat yss \<Longrightarrow> foldl feed s xss = foldl feed s yss"
  by (simp add: feed_concat)

lemma feed_bytes: "inv s \<Longrightarrow> foldl (\<lambda>s x. feed s [x]) s xs = feed s xs"
proof (induction xs arbitrary: s)
  case Nil
  then show ?case by (simp add: feed_Nil)
next
  case (Cons x xs)
  then have "foldl (\<lambda>s x. feed s [x]) s (x # xs) = feed (feed s [x]) xs" by (simp add: feed_inv)
  also have "\<dots> = feed s ([x] @ xs)" by (rule feed_append [OF Cons.prems, symmetric])
  finally show ?case by simp
qed

end

end
