(* ===== verification/CLib.thy ===== *)
theory CLib
  imports Prelude
begin

text \<open>
  The parts of the C and C++ standard library that the program's behaviour rests on: the
  integer scanners \<open>strtoll\<close> and \<open>strtoull\<close> with their end pointer, sign, prefix and
  \<open>ERANGE\<close> rules, \<open>std::stoull\<close>/\<open>std::stoll\<close> on top of them, and \<open>std::to_string\<close>.
  They are standard functions, not code of the repository, and are modelled from the C
  standard: white space is skipped first, a sign is accepted even by the unsigned scanner
  (which negates modulo \<open>2 ^ 64\<close>), base 16 accepts a \<open>0x\<close> prefix.
\<close>

section \<open>Definitions\<close>

text \<open>\<open>s.c_str()\<close> as a C function sees it: up to the first NUL byte.\<close>

definition c_str :: "string \<Rightarrow> string" where
  "c_str s = takeWhile (\<lambda>c. c \<noteq> NUL) s"

definition is_space :: "char \<Rightarrow> bool" where
  "is_space c \<longleftrightarrow> ord c = 32 \<or> 9 \<le> ord c \<and> ord c \<le> 13"

definition digit_value :: "char \<Rightarrow> nat option" where
  "digit_value c =
     (if 48 \<le> ord c \<and> ord c \<le> 57 then Some (ord c - 48)
      else if 97 \<le> ord c \<and> ord c \<le> 122 then Some (ord c - 97 + 10)
      else if 65 \<le> ord c \<and> ord c \<le> 90 then Some (ord c - 65 + 10)
      else None)"

definition is_digit_in :: "nat \<Rightarrow> char \<Rightarrow> bool" where
  "is_digit_in base c = (case digit_value c of None \<Rightarrow> False | Some d \<Rightarrow> d < base)"

fun digits_value :: "nat \<Rightarrow> nat \<Rightarrow> string \<Rightarrow> nat" where
  "digits_value base acc [] = acc"
| "digits_value base acc (c # cs) =
     digits_value base (base * acc + (case digit_value c of None \<Rightarrow> 0 | Some d \<Rightarrow> d)) cs"

text \<open>The optional \<open>0x\<close> prefix: taken only when a hexadecimal digit follows.\<close>

definition hex_prefix :: "nat \<Rightarrow> string \<Rightarrow> nat" where
  "hex_prefix base s =
     (if base = 16 \<and> length s \<ge> 3 \<and> s ! 0 = CHR ''0'' \<and>
         (s ! 1 = CHR ''x'' \<or> s ! 1 = CHR ''X'') \<and> is_digit_in 16 (s ! 2)
      then 2 else 0)"

text \<open>
  The scan both functions share: the sign, the magnitude, and the offset of the end pointer
  (0, i.e.\ the start of the string, when no digit was found).
\<close>

definition scan_int :: "nat \<Rightarrow> string \<Rightarrow> bool \<times> nat \<times> nat" where
  "scan_int base str =
     (let s = c_str str;
          ws = length (takeWhile is_space s);
          s1 = drop ws s;
          neg = (s1 \<noteq> [] \<and> hd s1 = CHR ''-'');
          sg = (if s1 \<noteq> [] \<and> (hd s1 = CHR ''-'' \<or> hd s1 = CHR ''+'') then 1 else 0);
          s2 = drop sg s1;
          px = hex_prefix base s2;
          ds = takeWhile (is_digit_in base) (drop px s2)
      in if ds = [] then (False, 0, 0)
         else (neg, digits_value base 0 ds, ws + sg + px + length ds))"

text \<open>\<open>strtoll\<close>: (value, end offset, \<open>errno = ERANGE\<close>).\<close>

definition strtoll :: "nat \<Rightarrow> string \<Rightarrow> int \<times> nat \<times> bool" where
  "strtoll base str =
     (case scan_int base str of (neg, m, e) \<Rightarrow>
        if neg then (if m > 2 ^ 63 then (- (2 ^ 63), e, True) else (- int m, e, False))
        else (if m > 2 ^ 63 - 1 then (2 ^ 63 - 1, e, True) else (int m, e, False)))"

text \<open>\<open>strtoull\<close>: a leading minus negates the value modulo \<open>2 ^ 64\<close>, without an error.\<close>

definition strtoull :: "nat \<Rightarrow> string \<Rightarrow> nat \<times> nat \<times> bool" where
  "strtoull base str =
     (case scan_int base str of (neg, m, e) \<Rightarrow>
        if m > 2 ^ 64 - 1 then (2 ^ 64 - 1, e, True)
        else if neg then ((2 ^ 64 - m) mod 2 ^ 64, e, False)
        else (m, e, False))"

text \<open>\<open>*endp != 0\<close>: the scan stopped before the end of the C string.\<close>

definition at_end :: "string \<Rightarrow> nat \<Rightarrow> bool" where
  "at_end str e \<longleftrightarrow> e = length (c_str str)"

text \<open>
  \<open>std::stoull\<close> and \<open>std::stoll\<close> (64-bit \<open>long\<close>, so \<open>std::stoul\<close> too): \<open>None\<close> is the
  exception (\<open>invalid_argument\<close> or \<open>out_of_range\<close>), otherwise the value and \<open>*pos\<close>.
\<close>

definition stoull :: "nat \<Rightarrow> string \<Rightarrow> (nat \<times> nat) option" where
  "stoull base str =
     (case strtoull base str of (v, e, r) \<Rightarrow> if e = 0 \<or> r then None else Some (v, e))"

definition stoll :: "nat \<Rightarrow> string \<Rightarrow> (int \<times> nat) option" where
  "stoll base str =
     (case strtoll base str of (v, e, r) \<Rightarrow> if e = 0 \<or> r then None else Some (v, e))"

text \<open>\<open>std::stoi\<close>: \<open>out_of_range\<close> also when the value does not fit an \<open>int\<close>.\<close>

definition stoi :: "string \<Rightarrow> (int \<times> nat) option" where
  "stoi str =
     (case stoll 10 str of None \<Rightarrow> None
      | Some (v, e) \<Rightarrow> if v < - (2 ^ 31) \<or> v > 2 ^ 31 - 1 then None else Some (v, e))"

text \<open>\<open>std::to_string\<close> of an unsigned and of a signed integer.\<close>

fun show_nat :: "nat \<Rightarrow> string" where
  "show_nat n = (if n < 10 then [chr (48 + n)] else show_nat (n div 10) @ [chr (48 + n mod 10)])"

declare show_nat.simps [simp del]

definition show_int :: "int \<Rightarrow> string" where
  "show_int i = (if i < 0 then CHR ''-'' # show_nat (nat (- i)) else show_nat (nat i))"

section \<open>Decimal round trip\<close>

definition is_dec :: "char \<Rightarrow> bool" where
  "is_dec c \<longleftrightarrow> 48 \<le> ord c \<and> ord c \<le> 57"

lemma digit_value_dec: "is_dec c \<Longrightarrow> digit_value c = Some (ord c - 48)"
  by (simp add: digit_value_def is_dec_def)

lemma is_dec_digit: "is_dec c \<Longrightarrow> is_digit_in 10 c"
  by (auto simp: is_digit_in_def digit_value_dec is_dec_def)

lemma is_dec_chr: "n < 10 \<Longrightarrow> is_dec (chr (48 + n))"
  by (simp add: is_dec_def byte_simps)

lemma show_nat_dec: "\<forall>c \<in> set (show_nat n). is_dec c"
proof (induction n rule: show_nat.induct)
  case (1 n)
  show ?case
  proof (cases "n < 10")
    case True
    then show ?thesis by (subst show_nat.simps) (simp add: is_dec_chr)
  next
    case False
    with "1.IH" show ?thesis by (subst show_nat.simps) (simp add: is_dec_chr)
  qed
qed

lemma show_nat_nonempty [simp]: "show_nat n \<noteq> []"
  by (subst show_nat.simps) simp

lemma digits_value_append: "digits_value b a (xs @ ys) = digits_value b (digits_value b a xs) ys"
  by (induction xs arbitrary: a) auto

lemma digits_value_show_nat: "digits_value 10 0 (show_nat n) = n"
proof (induction n rule: show_nat.induct)
  case (1 n)
  have d: "digit_value (chr (48 + k)) = Some k" if "k < 10" for k
    using that by (simp add: digit_value_def byte_simps)
  show ?case
  proof (cases "n < 10")
    case True
    then show ?thesis by (subst show_nat.simps) (simp add: d)
  next
    case False
    with "1.IH" show ?thesis by (subst show_nat.simps) (simp add: d digits_value_append)
  qed
qed

lemma is_dec_not_space: "is_dec c \<Longrightarrow> \<not> is_space c"
  by (auto simp: is_dec_def is_space_def)

lemma dec_c_str: "\<forall>c \<in> set s. is_dec c \<Longrightarrow> c_str s = s"
  by (auto simp: c_str_def takeWhile_eq_all_conv is_dec_def)

text \<open>A non-empty string of decimal digits scans to its value and is consumed entirely.\<close>

lemma scan_int_dec:
  assumes "s \<noteq> []" and "\<forall>c \<in> set s. is_dec c"
  shows "scan_int 10 s = (False, digits_value 10 0 s, length s)"
proof -
  obtain c cs where s: "s = c # cs" using assms(1) by (cases s) auto
  have c: "is_dec c" using assms(2) s by simp
  then have nc: "c \<noteq> CHR ''-''" "c \<noteq> CHR ''+''" by (auto simp: is_dec_def)
  have tw: "takeWhile (is_digit_in 10) s = s"
    using assms(2) by (auto simp: takeWhile_eq_all_conv is_dec_digit)
  have ws: "takeWhile is_space s = []" using c s by (simp add: is_dec_not_space)
  have hp: "hex_prefix 10 s = 0" by (simp add: hex_prefix_def)
  show ?thesis
    using tw ws hp nc s dec_c_str [OF assms(2)] by (simp add: scan_int_def Let_def)
qed

lemma strtoll_show_nat: "n < 2 ^ 63 \<Longrightarrow> strtoll 10 (show_nat n) = (int n, length (show_nat n), False)"
  by (simp add: strtoll_def scan_int_dec show_nat_dec digits_value_show_nat)

lemma strtoull_show_nat: "n < 2 ^ 64 \<Longrightarrow> strtoull 10 (show_nat n) = (n, length (show_nat n), False)"
  by (simp add: strtoull_def scan_int_dec show_nat_dec digits_value_show_nat)

lemma at_end_show_nat: "at_end (show_nat n) (length (show_nat n))"
  by (simp add: at_end_def dec_c_str show_nat_dec)

lemma show_nat_inject: "show_nat m = show_nat n \<Longrightarrow> m = n"
  by (metis digits_value_show_nat)

lemma stoll_range: "stoll b s = Some (v, e) \<Longrightarrow> - (2 ^ 63) \<le> v \<and> v \<le> 2 ^ 63 - 1"
  by (auto simp: stoll_def strtoll_def split: prod.splits if_splits)

lemma strtoull_range: "strtoull b s = (v, e, r) \<Longrightarrow> v < 2 ^ 64"
  by (auto simp: strtoull_def split: prod.splits if_splits)

end
