(* ===== verification/Utils.thy ===== *)
theory Utils
  imports CLib
begin

text \<open>
  The inline helpers of \<open>include/socketify/detail/utils.h\<close> and the hex, comparison and date
  helpers of \<open>src/detail/utils.cpp\<close>: ASCII case folding, trimming, splitting, percent
  decoding, query-string parsing, hex encoding, constant-time comparison and HTTP dates.
  A loop over a view with a moving start index is a recursion on the rest of the view.
\<close>

section \<open>Definitions\<close>

subsection \<open>Case folding and prefixes\<close>

definition ascii_lower :: "char \<Rightarrow> char" where
  "ascii_lower c = (if 65 \<le> ord c \<and> ord c \<le> 90 then chr (ord c - 65 + 97) else c)"

definition iequal_ascii :: "string \<Rightarrow> string \<Rightarrow> bool" where
  "iequal_ascii a b \<longleftrightarrow>
     length a = length b \<and> list_all2 (\<lambda>x y. ascii_lower x = ascii_lower y) a b"

definition to_lower_copy :: "string \<Rightarrow> string" where
  "to_lower_copy s = map ascii_lower s"

definition starts_with :: "string \<Rightarrow> string \<Rightarrow> bool" where
  "starts_with s pfx \<longleftrightarrow> length pfx \<le> length s \<and> take (length pfx) s = pfx"

definition istarts_with :: "string \<Rightarrow> string \<Rightarrow> bool" where
  "istarts_with s pfx \<longleftrightarrow>
     (if length s < length pfx then False else iequal_ascii (take (length pfx) s) pfx)"

subsection \<open>Trimming and splitting\<close>

definition is_blank :: "char \<Rightarrow> bool" where
  "is_blank c \<longleftrightarrow> c = SP \<or> c = TAB"

definition trim_view :: "string \<Rightarrow> string" where
  "trim_view s = (let t = dropWhile is_blank s in rev (dropWhile is_blank (rev t)))"

function split_view :: "string \<Rightarrow> char \<Rightarrow> string list" where
  "split_view s sep =
     (case find_char sep s of
        None \<Rightarrow> if s \<noteq> [] then [s] else []
      | Some pos \<Rightarrow>
          (if pos > 0 then [take pos s] else []) @ split_view (drop (Suc pos) s) sep)"
  by pat_completeness auto
termination
  by (relation "measure (\<lambda>(s, sep). length s)") (auto dest: find_char_less)

declare split_view.simps [simp del]

subsection \<open>Percent decoding\<close>

definition hex_value :: "char \<Rightarrow> nat option" where
  "hex_value c =
     (if 48 \<le> ord c \<and> ord c \<le> 57 then Some (ord c - 48)
      else if 97 \<le> ord c \<and> ord c \<le> 102 then Some (ord c - 97 + 10)
      else if 65 \<le> ord c \<and> ord c \<le> 70 then Some (ord c - 65 + 10)
      else None)"

text \<open>\<open>None\<close> is the return value \<open>false\<close>.\<close>

fun url_decode :: "bool \<Rightarrow> string \<Rightarrow> string option" where
  "url_decode plus_as_space [] = Some []"
| "url_decode plus_as_space (c # cs) =
     (if c = CHR ''%'' then
        (case cs of
           h # l # rest \<Rightarrow>
             (case (hex_value h, hex_value l) of
                (Some hi, Some lo) \<Rightarrow>
                  map_option ((#) (chr (16 * hi + lo))) (url_decode plus_as_space rest)
              | _ \<Rightarrow> None)
         | _ \<Rightarrow> None)
      else if c = CHR ''+'' \<and> plus_as_space then
        map_option ((#) SP) (url_decode plus_as_space cs)
      else map_option ((#) c) (url_decode plus_as_space cs))"

type_synonym param_map = "(string \<times> string) list"

definition decode_or_raw :: "string \<Rightarrow> string" where
  "decode_or_raw s = (case url_decode True s of None \<Rightarrow> s | Some d \<Rightarrow> d)"

text \<open>One piece of a query string: the body of the loop of \<open>parse_query_string\<close>.\<close>

definition add_query_pair :: "string \<Rightarrow> param_map \<Rightarrow> param_map" where
  "add_query_pair pair out =
     (if pair = [] then out
      else let (key, val) =
             (case find_char CHR ''='' pair of
                None \<Rightarrow> (pair, [])
              | Some eq \<Rightarrow> (take eq pair, drop (Suc eq) pair));
             k = decode_or_raw key;
             v = decode_or_raw val
           in if k \<noteq> [] then kv_set (=) k v out else out)"

definition parse_query_string :: "string \<Rightarrow> param_map \<Rightarrow> param_map" where
  "parse_query_string qs out = fold add_query_pair (split_view qs CHR ''&'') out"

subsection \<open>Hex, comparison\<close>

definition hex_digits :: string where
  "hex_digits = ''0123456789abcdef''"

definition hex_encode :: "string \<Rightarrow> string" where
  "hex_encode s = concat (map (\<lambda>c. [hex_digits ! (ord c div 16), hex_digits ! (ord c mod 16)]) s)"

text \<open>
  \<open>random_token\<close>: the bytes come from \<open>std::random_device\<close>, four at a time, as 32-bit values
  in the host's (little-endian) byte order; \<open>rd\<close> is the sequence of values it returns.
\<close>

definition rd_bytes :: "nat \<Rightarrow> string" where
  "rd_bytes v = map (\<lambda>i. chr (v div 256 ^ i mod 256)) [0..<4]"

definition random_token :: "(nat \<Rightarrow> nat) \<Rightarrow> nat \<Rightarrow> string" where
  "random_token rd bytes =
     hex_encode (take bytes (concat (map (\<lambda>k. rd_bytes (rd k)) [0..<(bytes + 3) div 4])))"

text \<open>The loop accumulates the differing bits of all positions before it looks at the result.\<close>

definition constant_time_equal :: "string \<Rightarrow> string \<Rightarrow> bool" where
  "constant_time_equal a b =
     (if length a \<noteq> length b then False
      else fold (\<lambda>(x, y) diff. Bit_Operations.or diff (Bit_Operations.xor (ord x) (ord y)))
             (zip a b) (0 :: nat) = 0)"

subsection \<open>HTTP dates\<close>

text \<open>
  \<open>gmtime_r\<close> and \<open>strftime\<close> with \<open>%a, %d %b %Y %H:%M:%S GMT\<close>: the proleptic Gregorian
  calendar, counted from 1 March of year 0 so that the leap day is the last of its year: eras of 400
  years, in them centuries, spans of four years, years, months of 31 and 30 days in turn.
\<close>

definition civil_from_days :: "int \<Rightarrow> int \<times> int \<times> int" where
  "civil_from_days days =
     (let z = days + 719468;
          era = z div 146097;
          doe = z mod 146097;
          c = min 3 (doe div 36524);
          doc = doe - 36524 * c;
          q = doc div 1461;
          doq = doc mod 1461;
          a = min 3 (doq div 365);
          doy = doq - 365 * a;
          mp = (5 * doy + 2) div 153;
          d = doy - (153 * mp + 2) div 5 + 1;
          m = (if mp < 10 then mp + 3 else mp - 9)
      in (400 * era + 100 * c + 4 * q + a + (if m \<le> 2 then 1 else 0), m, d))"

definition two_digits :: "int \<Rightarrow> string" where
  "two_digits n = [chr (48 + nat (n div 10)), chr (48 + nat (n mod 10))]"

definition day_names :: "string list" where
  "day_names = [''Sun'', ''Mon'', ''Tue'', ''Wed'', ''Thu'', ''Fri'', ''Sat'']"

definition month_names :: "string list" where
  "month_names = [''Jan'', ''Feb'', ''Mar'', ''Apr'', ''May'', ''Jun'',
                  ''Jul'', ''Aug'', ''Sep'', ''Oct'', ''Nov'', ''Dec'']"

definition http_date :: "int \<Rightarrow> string" where
  "http_date unix_seconds =
     (let days = unix_seconds div 86400;
          sod = unix_seconds mod 86400;
          (y, m, d) = civil_from_days days
      in day_names ! nat ((days + 4) mod 7) @ '', '' @ two_digits d @ '' '' @
         month_names ! nat (m - 1) @ '' '' @ show_int y @ '' '' @
         two_digits (sod div 3600) @ '':'' @ two_digits (sod mod 3600 div 60) @ '':'' @
         two_digits (sod mod 60) @ '' GMT'')"

section \<open>Case folding\<close>

lemma ascii_lower_idem [simp]: "ascii_lower (ascii_lower c) = ascii_lower c"
  by (auto simp: ascii_lower_def byte_simps)

lemma iequal_ascii_iff: "iequal_ascii a b \<longleftrightarrow> to_lower_copy a = to_lower_copy b"
  by (auto simp: iequal_ascii_def to_lower_copy_def list_all2_conv_all_nth list_eq_iff_nth_eq)

lemma to_lower_copy_idem [simp]: "to_lower_copy (to_lower_copy s) = to_lower_copy s"
  by (simp add: to_lower_copy_def)

lemma length_to_lower_copy [simp]: "length (to_lower_copy s) = length s"
  by (simp add: to_lower_copy_def)

lemma iequal_ascii_refl [simp]: "iequal_ascii a a"
  by (simp add: iequal_ascii_iff)

lemma starts_with_append [simp]: "starts_with (p @ s) p"
  by (simp add: starts_with_def)

lemma starts_with_iff: "starts_with s p \<longleftrightarrow> (\<exists>t. s = p @ t)"
  by (auto simp: starts_with_def) (metis append_take_drop_id)

section \<open>Trimming\<close>

lemma trim_view_no_blank_ends:
  "trim_view s \<noteq> [] \<Longrightarrow> \<not> is_blank (hd (trim_view s)) \<and> \<not> is_blank (last (trim_view s))"
proof -
  assume ne: "trim_view s \<noteq> []"
  define t where "t = dropWhile is_blank s"
  define u where "u = dropWhile is_blank (rev t)"
  have tr: "trim_view s = rev u" by (simp add: trim_view_def t_def u_def Let_def)
  with ne have "u \<noteq> []" by simp
  then have l: "\<not> is_blank (hd u)" unfolding u_def using hd_dropWhile by blast
  have "\<exists>p. rev t = p @ u" unfolding u_def by (metis takeWhile_dropWhile_id)
  then obtain p where p: "rev t = p @ u" ..
  then have t: "t = rev u @ rev p" by (metis rev_append rev_rev_ident)
  with \<open>u \<noteq> []\<close> have "t \<noteq> []" "hd t = hd (rev u)" by auto
  moreover from \<open>t \<noteq> []\<close> have "\<not> is_blank (hd t)" unfolding t_def using hd_dropWhile by blast
  ultimately show ?thesis using tr l \<open>u \<noteq> []\<close> by (simp add: last_rev)
qed

lemma trim_view_id: "s = [] \<or> \<not> is_blank (hd s) \<and> \<not> is_blank (last s) \<Longrightarrow> trim_view s = s"
proof (cases s)
  case Nil
  then show ?thesis by (simp add: trim_view_def)
next
  case (Cons c cs)
  assume "s = [] \<or> \<not> is_blank (hd s) \<and> \<not> is_blank (last s)"
  with Cons have a: "\<not> is_blank (hd s)" "\<not> is_blank (last s)" by auto
  from a(1) Cons have d: "dropWhile is_blank s = s" by simp
  have "rev s \<noteq> []" "hd (rev s) = last s" using Cons by (simp_all add: hd_rev)
  with a(2) have "dropWhile is_blank (rev s) = rev s" by (metis dropWhile.simps(2) list.collapse)
  with d show ?thesis by (simp add: trim_view_def)
qed

lemma trim_view_idem [simp]: "trim_view (trim_view s) = trim_view s"
  using trim_view_no_blank_ends by (intro trim_view_id) auto

lemma trim_view_pad:
  "\<forall>c \<in> set l. is_blank c \<Longrightarrow> \<forall>c \<in> set r. is_blank c \<Longrightarrow> trim_view (l @ s @ r) = trim_view s"
proof -
  assume l: "\<forall>c \<in> set l. is_blank c" and r: "\<forall>c \<in> set r. is_blank c"
  have *: "rev (dropWhile is_blank (rev (t @ r))) = rev (dropWhile is_blank (rev t))" for t
  proof -
    have "\<And>c. c \<in> set (rev r) \<Longrightarrow> is_blank c" using r by simp
    then have "dropWhile is_blank (rev r @ rev t) = dropWhile is_blank (rev t)"
      by (rule dropWhile_append2)
    then show ?thesis by simp
  qed
  show ?thesis
  proof (cases "\<forall>c \<in> set s. is_blank c")
    case True
    have "\<forall>c \<in> set (l @ s @ r). is_blank c" using True l r by auto
    then have "dropWhile is_blank (l @ s @ r) = []" by (simp only: dropWhile_eq_Nil_conv)
    moreover from True have "dropWhile is_blank s = []" by (simp only: dropWhile_eq_Nil_conv)
    ultimately show ?thesis unfolding trim_view_def by (simp only: rev.simps dropWhile.simps)
  next
    case False
    then obtain c where c: "c \<in> set s" "\<not> is_blank c" by blast
    have "dropWhile is_blank (l @ s @ r) = dropWhile is_blank s @ r"
      using l c by (simp add: dropWhile_append2 dropWhile_append1)
    then show ?thesis using * by (simp add: trim_view_def)
  qed
qed

section \<open>Splitting\<close>

text \<open>The reference: all fields between separators, empty ones included.\<close>

fun fields :: "char \<Rightarrow> string \<Rightarrow> string list" where
  "fields sep [] = [[]]"
| "fields sep (c # cs) =
     (if c = sep then [] # fields sep cs
      else (case fields sep cs of [] \<Rightarrow> [[c]] | f # fs \<Rightarrow> (c # f) # fs))"

lemma fields_nonempty [simp]: "fields sep s \<noteq> []"
  by (induction s) (auto split: list.splits)

lemma fields_no_sep: "sep \<notin> set s \<Longrightarrow> fields sep s = [s]"
  by (induction s) auto

lemma fields_append_sep: "sep \<notin> set xs \<Longrightarrow> fields sep (xs @ sep # ys) = xs # fields sep ys"
  by (induction xs) auto

lemma split_view_fields: "split_view s sep = filter (\<lambda>f. f \<noteq> []) (fields sep s)"
proof (induction s sep rule: split_view.induct)
  case (1 s sep)
  show ?case
  proof (cases "find_char sep s")
    case None
    then have "sep \<notin> set s" by (simp add: find_char_None_iff)
    with None show ?thesis by (subst split_view.simps) (simp add: fields_no_sep)
  next
    case (Some pos)
    from Some have "sep \<notin> set (take pos s)" and s: "s = take pos s @ sep # drop (Suc pos) s"
      by (auto simp: find_char_Some_iff dest: find_char_split intro: find_char_split)
    then have f: "fields sep s = take pos s # fields sep (drop (Suc pos) s)"
      by (metis fields_append_sep)
    have "pos < length s" using Some by (rule find_char_less)
    then have "take pos s \<noteq> [] \<longleftrightarrow> pos > 0" by auto
    with Some "1.IH" [OF Some] f show ?thesis by (subst split_view.simps) auto
  qed
qed

lemma fields_pieces: "f \<in> set (fields sep s) \<Longrightarrow> sep \<notin> set f"
proof (induction s arbitrary: f)
  case Nil
  then show ?case by simp
next
  case (Cons c cs)
  then show ?case by (cases "fields sep cs") (auto split: if_splits)
qed

lemma split_view_pieces: "p \<in> set (split_view s sep) \<Longrightarrow> p \<noteq> [] \<and> sep \<notin> set p"
  by (auto simp: split_view_fields dest: fields_pieces)

text \<open>Joining non-empty separator-free pieces and splitting gives the pieces back.\<close>

lemma fields_join:
  "ps \<noteq> [] \<Longrightarrow> \<forall>p \<in> set ps. sep \<notin> set p \<Longrightarrow> fields sep (join_with [sep] ps) = ps"
proof (induction "[sep]" ps rule: join_with.induct)
  case 1
  then show ?case by simp
next
  case (2 x)
  then show ?case by (simp add: fields_no_sep)
next
  case (3 x y zs)
  then show ?case by (simp add: fields_append_sep)
qed

lemma split_view_join:
  "\<forall>p \<in> set ps. p \<noteq> [] \<and> sep \<notin> set p \<Longrightarrow> split_view (join_with [sep] ps) sep = ps"
proof (cases ps)
  case Nil
  then show ?thesis by (simp add: split_view_fields)
next
  case (Cons a list)
  assume "\<forall>p \<in> set ps. p \<noteq> [] \<and> sep \<notin> set p"
  with Cons show ?thesis
    by (simp add: split_view_fields fields_join filter_id_conv del: join_with.simps)
qed

section \<open>Percent decoding\<close>

text \<open>The reference encoder: every byte as \<open>%XX\<close>.\<close>

definition percent_byte :: "char \<Rightarrow> string" where
  "percent_byte c = [CHR ''%'', hex_digits ! (ord c div 16), hex_digits ! (ord c mod 16)]"

lemma hex_digit_value: "n < 16 \<Longrightarrow> hex_value (hex_digits ! n) = Some n"
proof -
  assume "n < 16"
  then have "n \<in> set [0..<16]" by simp
  moreover have "\<forall>n \<in> set [0..<16]. hex_value (hex_digits ! n) = Some n"
    by (simp add: upt_rec hex_digits_def hex_value_def)
  ultimately show ?thesis by blast
qed

lemma ord_div_16: "ord c div 16 < 16"
  by (rule less_mult_imp_div_less) simp

lemma url_decode_percent_byte:
  "url_decode p (percent_byte c @ s) = map_option ((#) c) (url_decode p s)"
proof -
  have "16 * (ord c div 16) + ord c mod 16 = ord c" by simp
  then show ?thesis
    by (simp add: percent_byte_def hex_digit_value ord_div_16 mult.commute)
qed

lemma url_decode_plain:
  "c \<noteq> CHR ''%'' \<Longrightarrow> \<not> (c = CHR ''+'' \<and> p) \<Longrightarrow>
   url_decode p (c # s) = map_option ((#) c) (url_decode p s)"
  by auto

text \<open>An encoder may leave any byte but \<open>%\<close> (and \<open>+\<close> in form mode) as it is.\<close>

definition percent_encode :: "(char \<Rightarrow> bool) \<Rightarrow> string \<Rightarrow> string" where
  "percent_encode safe s = concat (map (\<lambda>c. if safe c then [c] else percent_byte c) s)"

lemma url_decode_encode:
  assumes "\<And>c. safe c \<Longrightarrow> c \<noteq> CHR ''%'' \<and> \<not> (c = CHR ''+'' \<and> p)"
  shows "url_decode p (percent_encode safe s) = Some s"
proof (induction s)
  case Nil
  show ?case by (simp add: percent_encode_def)
next
  case (Cons c s)
  show ?case
  proof (cases "safe c")
    case True
    then have "percent_encode safe (c # s) = c # percent_encode safe s"
      by (simp add: percent_encode_def)
    then show ?thesis using Cons assms [OF True] url_decode_plain [of c p] by simp
  next
    case False
    then have "percent_encode safe (c # s) = percent_byte c @ percent_encode safe s"
      by (simp add: percent_encode_def)
    then show ?thesis using Cons url_decode_percent_byte by simp
  qed
qed

lemma url_decode_length: "url_decode p s = Some d \<Longrightarrow> length d \<le> length s"
proof (induction p s arbitrary: d rule: url_decode.induct)
  case (1 p)
  then show ?case by simp
next
  case (2 p c cs)
  show ?case
  proof (cases "c = CHR ''%''")
    case True
    with "2.prems" obtain h l rest hi lo e where
      "cs = h # l # rest" "hex_value h = Some hi" "hex_value l = Some lo"
      "url_decode p rest = Some e" "d = chr (16 * hi + lo) # e"
      by (auto split: list.splits option.splits)
    with "2.IH"(1) [OF True, of h "l # rest" l rest] show ?thesis by fastforce
  next
    case False
    with "2.prems" obtain b e where e: "url_decode p cs = Some e" "d = b # e"
      by (auto split: if_splits)
    then have "length e \<le> length cs"
      using "2.IH"(2,3) [OF False] by (cases "c = CHR ''+'' \<and> p") auto
    with e show ?thesis by simp
  qed
qed

section \<open>Hex and comparison\<close>

lemma length_hex_encode: "length (hex_encode s) = 2 * length s"
  by (induction s) (auto simp: hex_encode_def)

lemma length_rd_bytes [simp]: "length (rd_bytes v) = 4"
  by (simp add: rd_bytes_def)

lemma length_concat_const: "\<forall>x \<in> set xs. length (f x) = k \<Longrightarrow> length (concat (map f xs)) = k * length xs"
  by (induction xs) auto

lemma length_random_token: "length (random_token rd n) = 2 * n"
proof -
  have "length (concat (map (\<lambda>k. rd_bytes (rd k)) [0..<(n + 3) div 4])) = 4 * ((n + 3) div 4)"
    by (subst length_concat_const [where k = 4]) auto
  moreover have "n \<le> 4 * ((n + 3) div 4)" by linarith
  ultimately show ?thesis by (simp add: random_token_def length_hex_encode)
qed

lemma xor_ord_0: "Bit_Operations.xor (ord x) (ord y) = 0 \<longleftrightarrow> x = y"
proof
  assume "Bit_Operations.xor (ord x) (ord y) = 0"
  then have "bit (ord x) n = bit (ord y) n" for n
    by (metis bit_0_eq bit_xor_iff bot_apply bot_bool_def)
  then have "ord x = ord y" by (rule bit_eqI)
  then show "x = y" by (simp add: byte_simps)
qed simp

lemma or_eq_0: "Bit_Operations.or (a :: nat) b = 0 \<longleftrightarrow> a = 0 \<and> b = 0"
  by (auto simp: or_eq_0_iff)

lemma constant_time_fold:
  "fold (\<lambda>(x, y) diff. Bit_Operations.or diff (Bit_Operations.xor (ord x) (ord y))) xys (d :: nat) = 0
   \<longleftrightarrow> d = 0 \<and> (\<forall>(x, y) \<in> set xys. x = y)"
  by (induction xys arbitrary: d) (auto simp: or_eq_0 xor_ord_0)

lemma constant_time_equal_iff: "constant_time_equal a b \<longleftrightarrow> a = b"
proof (cases "length a = length b")
  case True
  then have "(\<forall>(x, y) \<in> set (zip a b). x = y) \<longleftrightarrow> a = b"
    by (auto simp: set_zip list_eq_iff_nth_eq)
  with True show ?thesis by (simp add: constant_time_equal_def constant_time_fold)
next
  case False
  then show ?thesis by (auto simp: constant_time_equal_def)
qed

end
