(* ===== verification/Http.thy ===== *)
theory Http
  imports Utils
begin

text \<open>
  The core HTTP vocabulary of \<open>include/socketify/http.h\<close> and \<open>src/http.cpp\<close>: methods,
  status codes and reason phrases, MIME types, and the case-insensitive header map with its
  hash. A \<open>static_cast<Status>\<close> of a number that is not an enumerator is \<open>OtherStatus\<close>.
\<close>

section \<open>Definitions\<close>

subsection \<open>Case-insensitive keys\<close>

definition tolower_ascii :: "char \<Rightarrow> char" where
  "tolower_ascii c = (if ord c \<ge> 65 \<and> ord c \<le> 90 then chr (ord c - 65 + 97) else c)"

text \<open>FNV-1a over the lowercased bytes, in \<open>std::size_t\<close> (64 bits).\<close>

definition fnv_step :: "64 word \<Rightarrow> char \<Rightarrow> 64 word" where
  "fnv_step h c =
     (Bit_Operations.xor h (word_of_nat (ord (tolower_ascii c)))) * 1099511628211"

definition ci_hash :: "string \<Rightarrow> 64 word" where
  "ci_hash s = foldl fnv_step 1469598103934665603 s"

definition ci_equal :: "string \<Rightarrow> string \<Rightarrow> bool" where
  "ci_equal a b \<longleftrightarrow>
     length a = length b \<and> list_all2 (\<lambda>x y. tolower_ascii x = tolower_ascii y) a b"

type_synonym header_map = "(string \<times> string) list"

subsection \<open>Methods\<close>

datatype http_method =
    UNKNOWN | GET | POST | PUT | PATCH | DELETE | OPTIONS | HEAD | CONNECT | TRACE | ANY

text \<open>\<open>static_cast<int>\<close> of a method, the order the router sorts by.\<close>

fun method_num :: "http_method \<Rightarrow> nat" where
  "method_num UNKNOWN = 0"
| "method_num GET = 1"
| "method_num POST = 2"
| "method_num PUT = 3"
| "method_num PATCH = 4"
| "method_num DELETE = 5"
| "method_num OPTIONS = 6"
| "method_num HEAD = 7"
| "method_num CONNECT = 8"
| "method_num TRACE = 9"
| "method_num ANY = 10"

fun method_to_string :: "http_method \<Rightarrow> string" where
  "method_to_string GET = ''GET''"
| "method_to_string POST = ''POST''"
| "method_to_string PUT = ''PUT''"
| "method_to_string PATCH = ''PATCH''"
| "method_to_string DELETE = ''DELETE''"
| "method_to_string OPTIONS = ''OPTIONS''"
| "method_to_string HEAD = ''HEAD''"
| "method_to_string CONNECT = ''CONNECT''"
| "method_to_string TRACE = ''TRACE''"
| "method_to_string ANY = ''ANY''"
| "method_to_string UNKNOWN = ''UNKNOWN''"

definition ieq :: "string \<Rightarrow> string \<Rightarrow> bool" where
  "ieq a b \<longleftrightarrow>
     length a = length b \<and> list_all2 (\<lambda>x y. tolower_ascii x = tolower_ascii y) a b"

definition method_from_string :: "string \<Rightarrow> http_method" where
  "method_from_string s =
     (if ieq s ''GET'' then GET
      else if ieq s ''POST'' then POST
      else if ieq s ''PUT'' then PUT
      else if ieq s ''PATCH'' then PATCH
      else if ieq s ''DELETE'' then DELETE
      else if ieq s ''OPTIONS'' then OPTIONS
      else if ieq s ''HEAD'' then HEAD
      else if ieq s ''TRACE'' then TRACE
      else if ieq s ''CONNECT'' then CONNECT
      else UNKNOWN)"

subsection \<open>Status codes\<close>

datatype status =
    Continue | SwitchingProtocols | Processing
  | OK | Created | Accepted | NoContent | PartialContent
  | MovedPermanently | Found | SeeOther | NotModified | TemporaryRedirect | PermanentRedirect
  | BadRequest | Unauthorized | Forbidden | NotFound | MethodNotAllowed | NotAcceptable
  | RequestTimeout | Conflict | Gone | LengthRequired | PayloadTooLarge | URITooLong
  | UnsupportedMediaType | RangeNotSatisfiable | UnprocessableEntity | TooManyRequests
  | RequestHeaderFieldsTooLarge
  | InternalServerError | NotImplemented | BadGateway | ServiceUnavailable | GatewayTimeout
  | HTTPVersionNotSupported
  | OtherStatus nat

fun status_num :: "status \<Rightarrow> nat" where
  "status_num Continue = 100"
| "status_num SwitchingProtocols = 101"
| "status_num Processing = 102"
| "status_num OK = 200"
| "status_num Created = 201"
| "status_num Accepted = 202"
| "status_num NoContent = 204"
| "status_num PartialContent = 206"
| "status_num MovedPermanently = 301"
| "status_num Found = 302"
| "status_num SeeOther = 303"
| "status_num NotModified = 304"
| "status_num TemporaryRedirect = 307"
| "status_num PermanentRedirect = 308"
| "status_num BadRequest = 400"
| "status_num Unauthorized = 401"
| "status_num Forbidden = 403"
| "status_num NotFound = 404"
| "status_num MethodNotAllowed = 405"
| "status_num NotAcceptable = 406"
| "status_num RequestTimeout = 408"
| "status_num Conflict = 409"
| "status_num Gone = 410"
| "status_num LengthRequired = 411"
| "status_num PayloadTooLarge = 413"
| "status_num URITooLong = 414"
| "status_num UnsupportedMediaType = 415"
| "status_num RangeNotSatisfiable = 416"
| "status_num UnprocessableEntity = 422"
| "status_num TooManyRequests = 429"
| "status_num RequestHeaderFieldsTooLarge = 431"
| "status_num InternalServerError = 500"
| "status_num NotImplemented = 501"
| "status_num BadGateway = 502"
| "status_num ServiceUnavailable = 503"
| "status_num GatewayTimeout = 504"
| "status_num HTTPVersionNotSupported = 505"
| "status_num (OtherStatus n) = n"

definition all_statuses :: "status list" where
  "all_statuses =
     [Continue, SwitchingProtocols, Processing, OK, Created, Accepted, NoContent,
      PartialContent, MovedPermanently, Found, SeeOther, NotModified, TemporaryRedirect,
      PermanentRedirect, BadRequest, Unauthorized, Forbidden, NotFound, MethodNotAllowed,
      NotAcceptable, RequestTimeout, Conflict, Gone, LengthRequired, PayloadTooLarge,
      URITooLong, UnsupportedMediaType, RangeNotSatisfiable, UnprocessableEntity,
      TooManyRequests, RequestHeaderFieldsTooLarge, InternalServerError, NotImplemented,
      BadGateway, ServiceUnavailable, GatewayTimeout, HTTPVersionNotSupported]"

text \<open>\<open>static_cast<Status>(code)\<close>.\<close>

definition status_of_num :: "nat \<Rightarrow> status" where
  "status_of_num n =
     (case List.find (\<lambda>s. status_num s = n) all_statuses of
        Some s \<Rightarrow> s | None \<Rightarrow> OtherStatus n)"

fun reason :: "status \<Rightarrow> string" where
  "reason Continue = ''Continue''"
| "reason SwitchingProtocols = ''Switching Protocols''"
| "reason Processing = ''Processing''"
| "reason OK = ''OK''"
| "reason Created = ''Created''"
| "reason Accepted = ''Accepted''"
| "reason NoContent = ''No Content''"
| "reason PartialContent = ''Partial Content''"
| "reason MovedPermanently = ''Moved Permanently''"
| "reason Found = ''Found''"
| "reason SeeOther = ''See Other''"
| "reason NotModified = ''Not Modified''"
| "reason TemporaryRedirect = ''Temporary Redirect''"
| "reason PermanentRedirect = ''Permanent Redirect''"
| "reason BadRequest = ''Bad Request''"
| "reason Unauthorized = ''Unauthorized''"
| "reason Forbidden = ''Forbidden''"
| "reason NotFound = ''Not Found''"
| "reason MethodNotAllowed = ''Method Not Allowed''"
| "reason NotAcceptable = ''Not Acceptable''"
| "reason RequestTimeout = ''Request Timeout''"
| "reason Conflict = ''Conflict''"
| "reason Gone = ''Gone''"
| "reason LengthRequired = ''Length Required''"
| "reason PayloadTooLarge = ''Payload Too Large''"
| "reason URITooLong = ''URI Too Long''"
| "reason UnsupportedMediaType = ''Unsupported Media Type''"
| "reason RangeNotSatisfiable = ''Range Not Satisfiable''"
| "reason UnprocessableEntity = ''Unprocessable Entity''"
| "reason TooManyRequests = ''Too Many Requests''"
| "reason RequestHeaderFieldsTooLarge = ''Request Header Fields Too Large''"
| "reason InternalServerError = ''Internal Server Error''"
| "reason NotImplemented = ''Not Implemented''"
| "reason BadGateway = ''Bad Gateway''"
| "reason ServiceUnavailable = ''Service Unavailable''"
| "reason GatewayTimeout = ''Gateway Timeout''"
| "reason HTTPVersionNotSupported = ''HTTP Version Not Supported''"
| "reason (OtherStatus n) = ''Unknown''"

subsection \<open>MIME types\<close>

definition kDefaultMime :: string where
  "kDefaultMime = ''application/octet-stream''"

definition mime_table :: "(string \<times> string) list" where
  "mime_table =
     [(''.html'', ''text/html; charset=utf-8''),
      (''.htm'', ''text/html; charset=utf-8''),
      (''.css'', ''text/css; charset=utf-8''),
      (''.js'', ''application/javascript; charset=utf-8''),
      (''.mjs'', ''application/javascript; charset=utf-8''),
      (''.json'', ''application/json; charset=utf-8''),
      (''.svg'', ''image/svg+xml''),
      (''.png'', ''image/png''),
      (''.jpg'', ''image/jpeg''),
      (''.jpeg'', ''image/jpeg''),
      (''.gif'', ''image/gif''),
      (''.webp'', ''image/webp''),
      (''.txt'', ''text/plain; charset=utf-8''),
      (''.xml'', ''application/xml; charset=utf-8''),
      (''.pdf'', ''application/pdf''),
      (''.wasm'', ''application/wasm''),
      (''.ico'', ''image/x-icon''),
      (''.avif'', ''image/avif''),
      (''.bmp'', ''image/bmp''),
      (''.md'', ''text/markdown; charset=utf-8''),
      (''.csv'', ''text/csv; charset=utf-8''),
      (''.mp3'', ''audio/mpeg''),
      (''.ogg'', ''audio/ogg''),
      (''.wav'', ''audio/wav''),
      (''.mp4'', ''video/mp4''),
      (''.webm'', ''video/webm''),
      (''.woff'', ''font/woff''),
      (''.woff2'', ''font/woff2''),
      (''.ttf'', ''font/ttf''),
      (''.otf'', ''font/otf''),
      (''.eot'', ''application/vnd.ms-fontobject''),
      (''.zip'', ''application/zip''),
      (''.gz'', ''application/gzip''),
      (''.tar'', ''application/x-tar''),
      (''.map'', ''application/json; charset=utf-8'')]"

definition mime_from_ext :: "string \<Rightarrow> string" where
  "mime_from_ext ext =
     (let e = map tolower_ascii ext
      in case List.find (\<lambda>p. e = fst p) mime_table of
           Some p \<Rightarrow> snd p | None \<Rightarrow> kDefaultMime)"

definition content_type_for_path :: "string \<Rightarrow> string" where
  "content_type_for_path path =
     (case rfind_char CHR ''.'' path of
        None \<Rightarrow> kDefaultMime
      | Some dot \<Rightarrow>
          (case rfind_char CHR ''/'' path of
             Some slash \<Rightarrow>
               if dot < slash then kDefaultMime else mime_from_ext (drop dot path)
           | None \<Rightarrow> mime_from_ext (drop dot path)))"

subsection \<open>Header names and the header map\<close>

abbreviation H_ContentLength :: string where "H_ContentLength \<equiv> ''Content-Length''"
abbreviation H_ContentType :: string where "H_ContentType \<equiv> ''Content-Type''"
abbreviation H_Connection :: string where "H_Connection \<equiv> ''Connection''"
abbreviation H_Cookie :: string where "H_Cookie \<equiv> ''Cookie''"
abbreviation H_Location :: string where "H_Location \<equiv> ''Location''"
abbreviation H_TransferEncoding :: string where "H_TransferEncoding \<equiv> ''Transfer-Encoding''"
abbreviation H_AcceptEncoding :: string where "H_AcceptEncoding \<equiv> ''Accept-Encoding''"
abbreviation H_ContentEncoding :: string where "H_ContentEncoding \<equiv> ''Content-Encoding''"
abbreviation H_ETag :: string where "H_ETag \<equiv> ''ETag''"
abbreviation H_LastModified :: string where "H_LastModified \<equiv> ''Last-Modified''"
abbreviation H_Range :: string where "H_Range \<equiv> ''Range''"
abbreviation H_ContentRange :: string where "H_ContentRange \<equiv> ''Content-Range''"
abbreviation H_CacheControl :: string where "H_CacheControl \<equiv> ''Cache-Control''"
abbreviation H_XRequestId :: string where "H_XRequestId \<equiv> ''X-Request-Id''"

definition hm_get :: "header_map \<Rightarrow> string \<Rightarrow> string option" where
  "hm_get h k = kv_get ci_equal h k"

definition hm_set :: "string \<Rightarrow> string \<Rightarrow> header_map \<Rightarrow> header_map" where
  "hm_set k v h = kv_set ci_equal k v h"

text \<open>\<open>find_header_\<close>, \<open>Request::header\<close> and \<open>get_header\<close>: the value, or an empty view.\<close>

definition find_header :: "header_map \<Rightarrow> string \<Rightarrow> string" where
  "find_header h k = (case hm_get h k of None \<Rightarrow> [] | Some v \<Rightarrow> v)"

section \<open>Key equality and hash\<close>

lemma tolower_ascii_eq: "tolower_ascii = ascii_lower"
  by (rule ext) (simp add: tolower_ascii_def ascii_lower_def)

lemma ci_equal_eq: "ci_equal = iequal_ascii"
  by (intro ext) (simp add: ci_equal_def iequal_ascii_def tolower_ascii_eq)

lemma ci_equal_iff: "ci_equal a b \<longleftrightarrow> to_lower_copy a = to_lower_copy b"
  by (simp add: ci_equal_eq iequal_ascii_iff)

lemma ieq_iff: "ieq a b \<longleftrightarrow> to_lower_copy a = to_lower_copy b"
  using ci_equal_iff [of a b] by (simp add: ci_equal_def ieq_def)

text \<open>
  What \<open>std::unordered_map\<close> asks of its two functors together: equality is an equivalence
  and equal keys have equal hashes.
\<close>

locale hashed_map = keyed_map eq for eq :: "'k \<Rightarrow> 'k \<Rightarrow> bool" +
  fixes hash :: "'k \<Rightarrow> 'h"
  assumes hash_cong: "eq a b \<Longrightarrow> hash a = hash b"
begin

lemma hash_neq: "hash a \<noteq> hash b \<Longrightarrow> \<not> eq a b"
  using hash_cong by blast

text \<open>A lookup that compares only the keys in the bucket of the same hash finds the same entry.\<close>

lemma get_bucket: "kv_get eq m k = kv_get eq (filter (\<lambda>e. hash (fst e) = hash k) m) k"
proof (induction m)
  case Nil
  show ?case by simp
next
  case (Cons e m)
  then show ?case using hash_cong [of "fst e" k] by (cases e) auto
qed

end

lemma fnv_lower: "ci_hash (to_lower_copy s) = ci_hash s"
proof -
  have "foldl fnv_step h (map ascii_lower s) = foldl fnv_step h s" for h
    by (induction s arbitrary: h) (simp_all add: fnv_step_def tolower_ascii_eq)
  then show ?thesis by (simp add: ci_hash_def to_lower_copy_def)
qed

interpretation hm: hashed_map ci_equal ci_hash
proof unfold_locales
  show "ci_equal a b \<Longrightarrow> ci_hash a = ci_hash b" for a b
    by (metis ci_equal_iff fnv_lower)
qed (auto simp: ci_equal_iff)

lemma hm_get_set [map_laws]:
  "hm_get (hm_set a v h) b = (if ci_equal a b then Some v else hm_get h b)"
  by (simp add: hm_get_def hm_set_def hm.get_set)

lemma hm_wf_set [map_laws]: "kv_wf ci_equal h \<Longrightarrow> kv_wf ci_equal (hm_set k v h)"
  by (simp add: hm_set_def hm.wf_set)

lemma hm_get_Nil [simp]: "hm_get [] k = None"
  by (simp add: hm_get_def)

lemma find_header_Nil [simp]: "find_header [] k = []"
  by (simp add: find_header_def)

lemma find_header_set [map_laws]:
  "find_header (hm_set a v h) b = (if ci_equal a b then v else find_header h b)"
  by (simp add: find_header_def hm_get_set)

section \<open>Methods, statuses, MIME types\<close>

instantiation http_method :: linorder
begin

definition less_eq_http_method :: "http_method \<Rightarrow> http_method \<Rightarrow> bool" where
  "less_eq_http_method a b \<longleftrightarrow> method_num a \<le> method_num b"

definition less_http_method :: "http_method \<Rightarrow> http_method \<Rightarrow> bool" where
  "less_http_method a b \<longleftrightarrow> method_num a < method_num b"

instance
proof
  fix x y z :: http_method
  have inj: "method_num x = method_num y \<Longrightarrow> x = y" by (cases x; cases y) auto
  show "(x < y) = (x \<le> y \<and> \<not> y \<le> x)"
    by (auto simp: less_eq_http_method_def less_http_method_def)
  show "x \<le> x" by (simp add: less_eq_http_method_def)
  show "x \<le> y \<Longrightarrow> y \<le> z \<Longrightarrow> x \<le> z" by (simp add: less_eq_http_method_def)
  show "x \<le> y \<Longrightarrow> y \<le> x \<Longrightarrow> x = y" by (rule inj) (simp add: less_eq_http_method_def)
  show "x \<le> y \<or> y \<le> x" by (auto simp: less_eq_http_method_def)
qed

end

lemma method_from_string_lower: "method_from_string (to_lower_copy s) = method_from_string s"
  by (simp add: method_from_string_def ieq_iff)

lemma method_roundtrip:
  "m \<noteq> UNKNOWN \<Longrightarrow> m \<noteq> ANY \<Longrightarrow> method_from_string (method_to_string m) = m"
  by (cases m) (simp_all add: method_from_string_def ieq_def tolower_ascii_def)

lemma method_from_string_ANY: "method_from_string s \<noteq> ANY"
  by (simp add: method_from_string_def)

lemma status_num_roundtrip_all: "list_all (\<lambda>s. status_of_num (status_num s) = s) all_statuses"
  by code_simp

lemma status_num_roundtrip: "s \<in> set all_statuses \<Longrightarrow> status_of_num (status_num s) = s"
  using status_num_roundtrip_all by (simp only: list_all_iff)

lemma mime_from_ext_ci:
  assumes "ci_equal a b" shows "mime_from_ext a = mime_from_ext b"
proof -
  from assms have "map tolower_ascii a = map tolower_ascii b"
    by (simp only: ci_equal_iff tolower_ascii_eq to_lower_copy_def)
  then show ?thesis by (simp only: mime_from_ext_def)
qed

end
