(* ===== verification/HttpParser.thy ===== *)
theory HttpParser
  imports Http
begin

text \<open>
  The incremental HTTP/1.1 request parser: \<open>include/socketify/detail/http_parser.h\<close> and
  \<open>src/detail/http_parser_sm.cpp\<close>. The class is the record \<open>parser\<close> with its data members
  (the view \<open>body_\<close> is the string it denotes); every \<open>parse_*_\<close> member is a recursion over
  the bytes it is given and returns the count it consumed with the new state; \<open>consume\<close> is
  the dispatching loop. The abstract specification is a machine that reads one byte at a
  time (\<open>parse_byte\<close>, \<open>run_bytes\<close>); the refinement lemma \<open>consume_run_bytes\<close> shows that
  \<open>consume\<close> implements it, and the interpretation of \<open>incremental\<close> that the segmentation of
  the stream is irrelevant.
\<close>

section \<open>Definitions\<close>

datatype parse_state =
    StartLine | Headers | Body | ChunkSize | ChunkData | ChunkDataEnd | ChunkTrailer
  | Complete | Error

record parser =
  p_state :: parse_state
  p_line_buf :: string
  p_method :: http_method
  p_target :: string
  p_path :: string
  p_query :: string
  p_version :: string
  p_headers :: header_map
  p_chunked :: bool
  p_content_length :: nat
  p_body_received :: nat
  p_chunk_remaining :: nat
  p_body_storage :: string
  p_body :: string
  p_err_msg :: string
  p_err_status :: status
  p_header_bytes :: nat
  p_max_header_bytes :: nat
  p_max_body_bytes :: nat

definition new_parser :: parser where
  "new_parser =
     \<lparr>p_state = StartLine, p_line_buf = [], p_method = UNKNOWN, p_target = [], p_path = [],
      p_query = [], p_version = [], p_headers = [], p_chunked = False, p_content_length = 0,
      p_body_received = 0, p_chunk_remaining = 0, p_body_storage = [], p_body = [],
      p_err_msg = [], p_err_status = BadRequest, p_header_bytes = 0,
      p_max_header_bytes = 16 * 1024, p_max_body_bytes = 16 * 1024 * 1024\<rparr>"

definition set_limits :: "nat \<Rightarrow> nat \<Rightarrow> parser \<Rightarrow> parser" where
  "set_limits mh mb p = p\<lparr>p_max_header_bytes := mh, p_max_body_bytes := mb\<rparr>"

definition parser_reset :: "parser \<Rightarrow> parser" where
  "parser_reset p =
     p\<lparr>p_state := StartLine, p_line_buf := [], p_method := UNKNOWN, p_target := [], p_path := [],
       p_query := [], p_version := [], p_headers := [], p_chunked := False,
       p_content_length := 0, p_body_received := 0, p_chunk_remaining := 0,
       p_body_storage := [], p_body := [], p_err_msg := [], p_err_status := BadRequest,
       p_header_bytes := 0\<rparr>"

definition take_body :: "parser \<Rightarrow> string \<times> parser" where
  "take_body p = (p_body_storage p, p\<lparr>p_body_storage := [], p_body := []\<rparr>)"

definition has_body :: "parser \<Rightarrow> bool" where
  "has_body p \<longleftrightarrow> p_content_length p > 0 \<or> p_body_storage p \<noteq> []"

definition p_fail :: "string \<Rightarrow> status \<Rightarrow> parser \<Rightarrow> parser" where
  "p_fail msg st p = p\<lparr>p_state := Error, p_err_msg := msg, p_err_status := st\<rparr>"

text \<open>\<open>grow_header_bytes_\<close> and \<open>grow_body_bytes_\<close> return whether the limit holds. The sum of
  the second one is a \<open>std::size_t\<close> sum.\<close>

definition grow_header_bytes :: "nat \<Rightarrow> parser \<Rightarrow> bool \<times> parser" where
  "grow_header_bytes n p =
     (let p' = p\<lparr>p_header_bytes := u64_add (p_header_bytes p) n\<rparr>
      in if p_max_header_bytes p' \<noteq> 0 \<and> p_header_bytes p' > p_max_header_bytes p'
         then (False, p_fail ''Header section too large'' RequestHeaderFieldsTooLarge p')
         else (True, p'))"

definition grow_body_bytes :: "nat \<Rightarrow> parser \<Rightarrow> bool \<times> parser" where
  "grow_body_bytes n p =
     (if p_max_body_bytes p \<noteq> 0 \<and> u64_add (length (p_body_storage p)) n > p_max_body_bytes p
      then (False, p_fail ''Body too large'' PayloadTooLarge p)
      else (True, p))"

text \<open>\<open>if (!line.empty() && line.back() == '\\r') line.pop_back()\<close>.\<close>

definition strip_cr :: "string \<Rightarrow> string" where
  "strip_cr line = (if line \<noteq> [] \<and> last line = CR then butlast line else line)"

subsection \<open>The start line\<close>

definition finish_start_line :: "string \<Rightarrow> parser \<Rightarrow> parser" where
  "finish_start_line line p =
     (case find_char SP line of
        None \<Rightarrow> p_fail ''Malformed start-line'' BadRequest p
      | Some p1 \<Rightarrow>
          (case find_char SP (drop (Suc p1) line) of
             None \<Rightarrow> p_fail ''Malformed start-line'' BadRequest p
           | Some d \<Rightarrow>
               (let m = take p1 line;
                    rt = take d (drop (Suc p1) line);
                    ver = drop (Suc d) (drop (Suc p1) line);
                    q = p\<lparr>p_method := method_from_string m\<rparr>
                in if p_method q = UNKNOWN then p_fail ''Unknown HTTP method'' NotImplemented q
                   else if rt = [] then p_fail ''Empty request-target'' BadRequest q
                   else if \<not> (ver = ''HTTP/1.1'' \<or> ver = ''HTTP/1.0'')
                   then p_fail ''Unsupported HTTP version'' HTTPVersionNotSupported q
                   else (let q = q\<lparr>p_version := ver, p_target := rt\<rparr>;
                             q = (case find_char CHR ''?'' rt of
                                    None \<Rightarrow> q\<lparr>p_path := rt, p_query := []\<rparr>
                                  | Some qpos \<Rightarrow>
                                      q\<lparr>p_path := take qpos rt, p_query := drop (Suc qpos) rt\<rparr>)
                         in q\<lparr>p_state := Headers\<rparr>))))"

fun parse_start_line :: "parser \<Rightarrow> string \<Rightarrow> nat \<times> parser" where
  "parse_start_line p [] = (0, p)"
| "parse_start_line p (c # cs) =
     (let (ok, p) = grow_header_bytes 1 p
      in if \<not> ok then (1, p)
         else if c = LF then
           (let line = strip_cr (p_line_buf p);
                p = p\<lparr>p_line_buf := []\<rparr>
            in if line = [] then apfst Suc (parse_start_line p cs)
               else (1, finish_start_line line p))
         else apfst Suc (parse_start_line (p\<lparr>p_line_buf := p_line_buf p @ [c]\<rparr>) cs))"

subsection \<open>Header lines\<close>

definition rtrim_blank :: "string \<Rightarrow> string" where
  "rtrim_blank s = rev (dropWhile is_blank (rev s))"

text \<open>A header line; repeated headers are joined with a comma and a space.\<close>

definition add_header_line :: "string \<Rightarrow> parser \<Rightarrow> parser" where
  "add_header_line line p =
     (case find_char CHR '':'' line of
        None \<Rightarrow> p_fail (''Header missing '' @ [SQ, CHR '':'', SQ]) BadRequest p
      | Some colon \<Rightarrow>
          (let key = rtrim_blank (take colon line);
               value = rtrim_blank (dropWhile is_blank (drop (Suc colon) line))
           in if key = [] then p_fail ''Empty header name'' BadRequest p
              else (case hm_get (p_headers p) key of
                      Some v \<Rightarrow> p\<lparr>p_headers := hm_set key (v @ '', '' @ value) (p_headers p)\<rparr>
                    | None \<Rightarrow> p\<lparr>p_headers := hm_set key value (p_headers p)\<rparr>)))"

text \<open>The blank line: framing is decided. The first half looks at \<open>Transfer-Encoding\<close>.\<close>

definition end_headers_te :: "parser \<Rightarrow> parser" where
  "end_headers_te p =
     (case hm_get (p_headers p) ''Transfer-Encoding'' of
        None \<Rightarrow> p
      | Some te \<Rightarrow>
          if find_sub ''chunked'' (map ascii_lower te) \<noteq> None then p\<lparr>p_chunked := True\<rparr>
          else p_fail ''Unsupported Transfer-Encoding'' NotImplemented p)"

definition end_headers_cl :: "parser \<Rightarrow> parser" where
  "end_headers_cl p =
     (case hm_get (p_headers p) ''Content-Length'' of
        None \<Rightarrow> p
      | Some s \<Rightarrow>
          if p_chunked p then p_fail ''Both Content-Length and chunked'' BadRequest p
          else (case strtoll 10 s of (v, e, erange) \<Rightarrow>
                  if e = 0 \<or> \<not> at_end s e \<or> v < 0 \<or> erange
                  then p_fail ''Invalid Content-Length'' BadRequest p
                  else (let p = p\<lparr>p_content_length := nat v\<rparr>
                        in if p_max_body_bytes p \<noteq> 0 \<and> p_content_length p > p_max_body_bytes p
                           then p_fail ''Body too large'' PayloadTooLarge p
                           else p)))"

definition end_headers :: "parser \<Rightarrow> parser" where
  "end_headers p =
     (let p = end_headers_te p
      in if p_state p = Error then p
         else (let p = end_headers_cl p
               in if p_state p = Error then p
                  else if p_chunked p then p\<lparr>p_state := ChunkSize\<rparr>
                  else if p_content_length p > 0 then p\<lparr>p_state := Body\<rparr>
                  else p\<lparr>p_body := p_body_storage p, p_state := Complete\<rparr>))"

fun parse_headers :: "parser \<Rightarrow> string \<Rightarrow> nat \<times> parser" where
  "parse_headers p [] = (0, p)"
| "parse_headers p (c # cs) =
     (let (ok, p) = grow_header_bytes 1 p
      in if \<not> ok then (1, p)
         else if c \<noteq> LF then
           apfst Suc (parse_headers (p\<lparr>p_line_buf := p_line_buf p @ [c]\<rparr>) cs)
         else
           (let line = strip_cr (p_line_buf p);
                p = p\<lparr>p_line_buf := []\<rparr>
            in if line \<noteq> [] then
                 (let p = add_header_line line p
                  in if p_state p = Error then (1, p) else apfst Suc (parse_headers p cs))
               else (1, end_headers p)))"

subsection \<open>Bodies\<close>

definition parse_body :: "parser \<Rightarrow> string \<Rightarrow> nat \<times> parser" where
  "parse_body p data =
     (let need = p_content_length p - p_body_received p;
          n = (if length data < need then length data else need);
          p = (if n > 0 then p\<lparr>p_body_storage := p_body_storage p @ take n data,
                               p_body_received := p_body_received p + n\<rparr>
               else p)
      in (n, if p_body_received p = p_content_length p
             then p\<lparr>p_body := p_body_storage p, p_state := Complete\<rparr> else p))"

definition finish_chunk_size :: "string \<Rightarrow> parser \<Rightarrow> parser" where
  "finish_chunk_size line0 p =
     (let line = (case find_char CHR '';'' line0 of None \<Rightarrow> line0 | Some sc \<Rightarrow> take sc line0)
      in if line = [] then p_fail ''Missing chunk size'' BadRequest p
         else (case strtoull 16 line of (v, e, erange) \<Rightarrow>
                 if e = 0 \<or> \<not> at_end line e \<or> erange
                 then p_fail ''Invalid chunk size'' BadRequest p
                 else (let (ok, p) = grow_body_bytes v p
                       in if \<not> ok then p
                          else (let p = p\<lparr>p_chunk_remaining := v\<rparr>
                                in p\<lparr>p_state := if p_chunk_remaining p = 0
                                                 then ChunkTrailer else ChunkData\<rparr>))))"

fun parse_chunk_size :: "parser \<Rightarrow> string \<Rightarrow> nat \<times> parser" where
  "parse_chunk_size p [] = (0, p)"
| "parse_chunk_size p (c # cs) =
     (if c \<noteq> LF then
        (if length (p_line_buf p) > 128
         then (1, p_fail ''Chunk size line too long'' BadRequest p)
         else apfst Suc (parse_chunk_size (p\<lparr>p_line_buf := p_line_buf p @ [c]\<rparr>) cs))
      else (let line = strip_cr (p_line_buf p)
            in (1, finish_chunk_size line (p\<lparr>p_line_buf := []\<rparr>))))"

definition parse_chunk_data :: "parser \<Rightarrow> string \<Rightarrow> nat \<times> parser" where
  "parse_chunk_data p data =
     (let n = (if length data < p_chunk_remaining p then length data else p_chunk_remaining p);
          p = (if n > 0 then p\<lparr>p_body_storage := p_body_storage p @ take n data,
                               p_chunk_remaining := p_chunk_remaining p - n\<rparr>
               else p)
      in (n, if p_chunk_remaining p = 0 then p\<lparr>p_state := ChunkDataEnd\<rparr> else p))"

fun parse_chunk_data_end :: "parser \<Rightarrow> string \<Rightarrow> nat \<times> parser" where
  "parse_chunk_data_end p [] = (0, p)"
| "parse_chunk_data_end p (c # cs) =
     (if c = CR then apfst Suc (parse_chunk_data_end p cs)
      else if c = LF then (1, p\<lparr>p_state := ChunkSize\<rparr>)
      else (1, p_fail ''Malformed chunk terminator'' BadRequest p))"

fun parse_chunk_trailer :: "parser \<Rightarrow> string \<Rightarrow> nat \<times> parser" where
  "parse_chunk_trailer p [] = (0, p)"
| "parse_chunk_trailer p (c # cs) =
     (if c \<noteq> LF then
        (if length (p_line_buf p) > 8 * 1024
         then (1, p_fail ''Trailer too long'' BadRequest p)
         else apfst Suc (parse_chunk_trailer (p\<lparr>p_line_buf := p_line_buf p @ [c]\<rparr>) cs))
      else
        (let line = strip_cr (p_line_buf p);
             p = p\<lparr>p_line_buf := []\<rparr>
         in if line = [] then
              (1, p\<lparr>p_content_length := length (p_body_storage p), p_body := p_body_storage p,
                    p_state := Complete\<rparr>)
            else apfst Suc (parse_chunk_trailer p cs)))"

subsection \<open>The dispatching loop\<close>

definition parser_done :: "parser \<Rightarrow> bool" where
  "parser_done p \<longleftrightarrow> p_state p = Error \<or> p_state p = Complete"

definition parse_some :: "parser \<Rightarrow> string \<Rightarrow> nat \<times> parser" where
  "parse_some p data =
     (case p_state p of
        StartLine \<Rightarrow> parse_start_line p data
      | Headers \<Rightarrow> parse_headers p data
      | Body \<Rightarrow> parse_body p data
      | ChunkSize \<Rightarrow> parse_chunk_size p data
      | ChunkData \<Rightarrow> parse_chunk_data p data
      | ChunkDataEnd \<Rightarrow> parse_chunk_data_end p data
      | ChunkTrailer \<Rightarrow> parse_chunk_trailer p data
      | Complete \<Rightarrow> (0, p)
      | Error \<Rightarrow> (0, p))"

function consume_request :: "parser \<Rightarrow> string \<Rightarrow> nat \<times> parser" where
  "consume_request p data =
     (if data = [] \<or> parser_done p then (0, p)
      else (let (n, p') = parse_some p data
            in if n = 0 then (0, p')
               else apfst ((+) n) (consume_request p' (drop n data))))"
  by pat_completeness auto
termination
  by (relation "measure (\<lambda>(p, data). length data)") auto

declare consume_request.simps [simp del]

section \<open>The specification: one byte at a time\<close>

definition push_byte :: "char \<Rightarrow> parser \<Rightarrow> parser" where
  "push_byte c p = p\<lparr>p_line_buf := p_line_buf p @ [c]\<rparr>"

text \<open>What a complete line (the collected bytes before a line feed) does in each line state.\<close>

definition line_action :: "parser \<Rightarrow> parser" where
  "line_action p0 =
     (let line = strip_cr (p_line_buf p0); p = p0\<lparr>p_line_buf := []\<rparr>
      in case p_state p of
           StartLine \<Rightarrow> if line = [] then p else finish_start_line line p
         | Headers \<Rightarrow> if line = [] then end_headers p else add_header_line line p
         | ChunkSize \<Rightarrow> finish_chunk_size line p
         | ChunkTrailer \<Rightarrow>
             if line = [] then p\<lparr>p_content_length := length (p_body_storage p),
                                  p_body := p_body_storage p, p_state := Complete\<rparr>
             else p
         | _ \<Rightarrow> p)"

definition parse_byte :: "parser \<Rightarrow> char \<Rightarrow> parser" where
  "parse_byte p c =
     (case p_state p of
        StartLine \<Rightarrow> (let (ok, p) = grow_header_bytes 1 p
          in if \<not> ok then p else if c = LF then line_action p else push_byte c p)
      | Headers \<Rightarrow> (let (ok, p) = grow_header_bytes 1 p
          in if \<not> ok then p else if c = LF then line_action p else push_byte c p)
      | ChunkSize \<Rightarrow>
          if c = LF then line_action p
          else if length (p_line_buf p) > 128 then p_fail ''Chunk size line too long'' BadRequest p
          else push_byte c p
      | ChunkTrailer \<Rightarrow>
          if c = LF then line_action p
          else if length (p_line_buf p) > 8 * 1024 then p_fail ''Trailer too long'' BadRequest p
          else push_byte c p
      | Body \<Rightarrow>
          (let p = p\<lparr>p_body_storage := p_body_storage p @ [c],
                     p_body_received := p_body_received p + 1\<rparr>
           in if p_body_received p = p_content_length p
              then p\<lparr>p_body := p_body_storage p, p_state := Complete\<rparr> else p)
      | ChunkData \<Rightarrow>
          (let p = p\<lparr>p_body_storage := p_body_storage p @ [c],
                     p_chunk_remaining := p_chunk_remaining p - 1\<rparr>
           in if p_chunk_remaining p = 0 then p\<lparr>p_state := ChunkDataEnd\<rparr> else p)
      | ChunkDataEnd \<Rightarrow>
          if c = CR then p
          else if c = LF then p\<lparr>p_state := ChunkSize\<rparr>
          else p_fail ''Malformed chunk terminator'' BadRequest p
      | Complete \<Rightarrow> p
      | Error \<Rightarrow> p)"

fun run_bytes :: "parser \<Rightarrow> string \<Rightarrow> nat \<times> parser" where
  "run_bytes p [] = (0, p)"
| "run_bytes p (c # cs) =
     (if parser_done p then (0, p) else apfst Suc (run_bytes (parse_byte p c) cs))"

text \<open>The run of a single state: it stops when the state changes.\<close>

fun run_in :: "parse_state \<Rightarrow> parser \<Rightarrow> string \<Rightarrow> nat \<times> parser" where
  "run_in st p [] = (0, p)"
| "run_in st p (c # cs) =
     (if p_state p \<noteq> st then (0, p) else apfst Suc (run_in st (parse_byte p c) cs))"

definition parser_ok :: "parser \<Rightarrow> bool" where
  "parser_ok p \<longleftrightarrow>
     (p_state p = StartLine \<or> p_state p = Headers \<longrightarrow>
        p_body_received p = 0 \<and> p_body_storage p = [] \<and> p_content_length p = 0 \<and> \<not> p_chunked p) \<and>
     (p_state p = Body \<longrightarrow>
        length (p_body_storage p) = p_body_received p \<and> p_body_received p < p_content_length p) \<and>
     (p_state p = ChunkData \<longrightarrow> p_chunk_remaining p > 0) \<and>
     (p_state p = Complete \<longrightarrow>
        p_body p = p_body_storage p \<and> length (p_body p) = p_content_length p)"

section \<open>States after a line\<close>

lemma p_fail_simps [simp]:
  "p_state (p_fail m s p) = Error" "p_err_status (p_fail m s p) = s"
  "p_body_storage (p_fail m s p) = p_body_storage p" "p_headers (p_fail m s p) = p_headers p"
  "p_header_bytes (p_fail m s p) = p_header_bytes p"
  "p_max_header_bytes (p_fail m s p) = p_max_header_bytes p"
  "p_max_body_bytes (p_fail m s p) = p_max_body_bytes p"
  by (simp_all add: p_fail_def)

lemma grow_header_bytes_cases:
  "grow_header_bytes n p = (ok, q) \<Longrightarrow>
   if ok then q = p\<lparr>p_header_bytes := u64_add (p_header_bytes p) n\<rparr> else p_state q = Error"
  by (auto simp: grow_header_bytes_def Let_def split: if_splits)

lemma finish_start_line_state: "p_state (finish_start_line line p) \<in> {Headers, Error}"
  by (simp add: finish_start_line_def Let_def split: option.splits)

lemma add_header_line_state: "p_state (add_header_line line p) \<in> {p_state p, Error}"
  by (simp add: add_header_line_def Let_def split: option.splits)

lemma end_headers_te_state: "p_state (end_headers_te p) \<in> {p_state p, Error}"
  by (simp add: end_headers_te_def split: option.splits)

lemma end_headers_cl_state: "p_state (end_headers_cl p) \<in> {p_state p, Error}"
  by (simp add: end_headers_cl_def Let_def split: option.splits prod.splits)

lemma end_headers_state: "p_state (end_headers p) \<in> {ChunkSize, Body, Complete, Error}"
  by (simp add: end_headers_def Let_def)

lemma finish_chunk_size_state: "p_state (finish_chunk_size line p) \<in> {ChunkTrailer, ChunkData, Error}"
  by (simp add: finish_chunk_size_def grow_body_bytes_def Let_def split: option.splits prod.splits)

lemmas line_states = finish_start_line_state add_header_line_state end_headers_state
  finish_chunk_size_state

section \<open>Each handler is the run of its state\<close>

lemma run_in_other: "p_state p \<noteq> st \<Longrightarrow> run_in st p data = (0, p)"
  by (cases data) simp_all

text \<open>A handler that takes one byte and goes on exactly while the state lasts is that run.\<close>

lemma run_in_of_step:
  assumes nil: "\<And>p. f p [] = (0, p)"
    and step: "\<And>p c cs. p_state p = st \<Longrightarrow>
      f p (c # cs) = (if p_state (parse_byte p c) = st then apfst Suc (f (parse_byte p c) cs)
                      else (1, parse_byte p c))"
  shows "p_state p = st \<Longrightarrow> f p data = run_in st p data"
proof (induction data arbitrary: p)
  case Nil
  show ?case by (simp add: nil)
next
  case (Cons c cs)
  then show ?case by (simp add: step run_in_other)
qed

lemma start_line_run: "p_state p = StartLine \<Longrightarrow> parse_start_line p data = run_in StartLine p data"
proof (rule run_in_of_step)
  fix p :: parser and c cs assume s: "p_state p = StartLine"
  obtain ok q where g: "grow_header_bytes 1 p = (ok, q)" by fastforce
  have f: "p_state (finish_start_line l r) \<noteq> StartLine" for l r
    using finish_start_line_state [of l r] by auto
  show "parse_start_line p (c # cs) =
    (if p_state (parse_byte p c) = StartLine then apfst Suc (parse_start_line (parse_byte p c) cs)
     else (1, parse_byte p c))"
    using grow_header_bytes_cases [OF g] g s
    by (cases ok) (simp_all add: parse_byte_def line_action_def push_byte_def Let_def f)
qed simp_all

lemma headers_run: "p_state p = Headers \<Longrightarrow> parse_headers p data = run_in Headers p data"
proof (rule run_in_of_step)
  fix p :: parser and c cs assume s: "p_state p = Headers"
  obtain ok q where g: "grow_header_bytes 1 p = (ok, q)" by fastforce
  have f: "p_state (end_headers r) \<noteq> Headers" for r
    using end_headers_state [of r] by auto
  have a: "p_state r = Headers \<Longrightarrow> p_state (add_header_line l r) \<noteq> Error \<Longrightarrow>
      p_state (add_header_line l r) = Headers" for l r
    using add_header_line_state [of l r] by auto
  show "parse_headers p (c # cs) =
    (if p_state (parse_byte p c) = Headers then apfst Suc (parse_headers (parse_byte p c) cs)
     else (1, parse_byte p c))"
    using grow_header_bytes_cases [OF g] g s a
    by (cases ok) (auto simp: parse_byte_def line_action_def push_byte_def Let_def f)
qed simp_all

lemma chunk_size_run: "p_state p = ChunkSize \<Longrightarrow> parse_chunk_size p data = run_in ChunkSize p data"
proof (rule run_in_of_step)
  fix p :: parser and c cs assume s: "p_state p = ChunkSize"
  have f: "p_state (finish_chunk_size l r) \<noteq> ChunkSize" for l r
    using finish_chunk_size_state [of l r] by auto
  show "parse_chunk_size p (c # cs) =
    (if p_state (parse_byte p c) = ChunkSize then apfst Suc (parse_chunk_size (parse_byte p c) cs)
     else (1, parse_byte p c))"
    using s by (simp add: parse_byte_def line_action_def push_byte_def Let_def f)
qed simp_all

lemma trailer_run: "p_state p = ChunkTrailer \<Longrightarrow> parse_chunk_trailer p data = run_in ChunkTrailer p data"
proof (rule run_in_of_step)
  fix p :: parser and c cs assume s: "p_state p = ChunkTrailer"
  then show "parse_chunk_trailer p (c # cs) =
    (if p_state (parse_byte p c) = ChunkTrailer then apfst Suc (parse_chunk_trailer (parse_byte p c) cs)
     else (1, parse_byte p c))"
    by (simp add: parse_byte_def line_action_def push_byte_def Let_def)
qed simp_all

lemma data_end_run: "p_state p = ChunkDataEnd \<Longrightarrow> parse_chunk_data_end p data = run_in ChunkDataEnd p data"
  by (rule run_in_of_step) (simp_all add: parse_byte_def)

lemma parse_body_step:
  assumes "p_body_received p + 1 < p_content_length p"
  shows "parse_body p (c # cs) = apfst Suc (parse_body
    (p\<lparr>p_body_storage := p_body_storage p @ [c], p_body_received := p_body_received p + 1\<rparr>) cs)"
proof -
  obtain k where "p_content_length p - p_body_received p = Suc (Suc k)"
    using assms by (metis Suc_diff_Suc add_lessD1 add.commute plus_1_eq_Suc zero_less_diff less_imp_Suc_add diff_Suc_Suc)
  then have k: "p_content_length p = p_body_received p + Suc (Suc k)" using assms by simp
  show ?thesis
    by (cases cs) (simp_all add: parse_body_def Let_def k)
qed

lemma body_run:
  "p_state p = Body \<Longrightarrow> p_body_received p < p_content_length p \<Longrightarrow>
   parse_body p data = run_in Body p data"
proof (induction data arbitrary: p)
  case Nil
  then show ?case by (simp add: parse_body_def)
next
  case (Cons c cs)
  let ?p = "p\<lparr>p_body_storage := p_body_storage p @ [c], p_body_received := p_body_received p + 1\<rparr>"
  show ?case
  proof (cases "p_body_received p + 1 = p_content_length p")
    case True
    then have "p_content_length p - p_body_received p = 1" by simp
    with True Cons.prems show ?thesis
      by (simp add: parse_body_def parse_byte_def Let_def run_in_other)
  next
    case False
    with Cons.prems have "parse_body p (c # cs) = apfst Suc (parse_body ?p cs)"
      by (intro parse_body_step) simp
    moreover have "parse_body ?p cs = run_in Body ?p cs"
      by (rule Cons.IH) (use Cons.prems False in simp_all)
    moreover have "parse_byte p c = ?p" using Cons.prems False by (simp add: parse_byte_def)
    ultimately show ?thesis using Cons.prems by simp
  qed
qed

lemma parse_chunk_data_step:
  assumes "p_chunk_remaining p > 1"
  shows "parse_chunk_data p (c # cs) = apfst Suc (parse_chunk_data
    (p\<lparr>p_body_storage := p_body_storage p @ [c], p_chunk_remaining := p_chunk_remaining p - 1\<rparr>) cs)"
proof -
  obtain k where k: "p_chunk_remaining p = Suc (Suc k)"
    using assms by (metis One_nat_def less_imp_Suc_add plus_1_eq_Suc add_Suc)
  show ?thesis
    by (cases cs) (simp_all add: parse_chunk_data_def Let_def k)
qed

lemma chunk_data_run:
  "p_state p = ChunkData \<Longrightarrow> p_chunk_remaining p > 0 \<Longrightarrow>
   parse_chunk_data p data = run_in ChunkData p data"
proof (induction data arbitrary: p)
  case Nil
  then show ?case by (simp add: parse_chunk_data_def)
next
  case (Cons c cs)
  let ?p = "p\<lparr>p_body_storage := p_body_storage p @ [c], p_chunk_remaining := p_chunk_remaining p - 1\<rparr>"
  show ?case
  proof (cases "p_chunk_remaining p = 1")
    case True
    with Cons.prems show ?thesis
      by (simp add: parse_chunk_data_def parse_byte_def Let_def run_in_other)
  next
    case False
    with Cons.prems have "parse_chunk_data p (c # cs) = apfst Suc (parse_chunk_data ?p cs)"
      by (intro parse_chunk_data_step) simp
    moreover have "parse_chunk_data ?p cs = run_in ChunkData ?p cs"
      by (rule Cons.IH) (use Cons.prems False in simp_all)
    moreover have "parse_byte p c = ?p" using Cons.prems False by (simp add: parse_byte_def)
    ultimately show ?thesis using Cons.prems by simp
  qed
qed

lemma parse_some_run:
  assumes "parser_ok p" "\<not> parser_done p"
  shows "parse_some p data = run_in (p_state p) p data"
  using assms
  by (cases "p_state p")
    (simp_all add: parse_some_def parser_ok_def parser_done_def start_line_run headers_run
      chunk_size_run trailer_run data_end_run body_run chunk_data_run)

section \<open>The invariant\<close>

lemma finish_start_line_ok:
  "p_body_received p = 0 \<and> p_body_storage p = [] \<and> p_content_length p = 0 \<and> \<not> p_chunked p \<Longrightarrow>
   parser_ok (finish_start_line line p)"
  by (simp add: finish_start_line_def parser_ok_def p_fail_def Let_def split: option.splits)

lemma add_header_line_ok:
  "p_body_received p = 0 \<and> p_body_storage p = [] \<and> p_content_length p = 0 \<and> \<not> p_chunked p \<Longrightarrow>
   p_state p = Headers \<Longrightarrow> parser_ok (add_header_line line p)"
  by (simp add: add_header_line_def parser_ok_def p_fail_def Let_def split: option.splits)

lemma end_headers_ok:
  assumes "p_body_received p = 0 \<and> p_body_storage p = [] \<and> p_content_length p = 0 \<and> \<not> p_chunked p"
    and "p_state p = Headers"
  shows "parser_ok (end_headers p)"
proof -
  define q where "q = end_headers_te p"
  have q: "p_body_received q = 0 \<and> p_body_storage q = [] \<and> p_content_length q = 0"
    "p_state q = Headers \<or> p_state q = Error"
    using assms by (simp_all add: q_def end_headers_te_def p_fail_def split: option.splits)
  define r where "r = end_headers_cl q"
  have r: "p_body_received r = 0 \<and> p_body_storage r = []"
    "p_state r = Headers \<or> p_state r = Error"
    using q by (simp_all add: r_def end_headers_cl_def p_fail_def Let_def split: option.splits prod.splits)
  show ?thesis
    unfolding end_headers_def q_def [symmetric] Let_def r_def [symmetric]
    using q r by (auto simp: parser_ok_def)
qed

lemma finish_chunk_size_ok: "parser_ok (finish_chunk_size line p)"
  by (simp add: finish_chunk_size_def grow_body_bytes_def parser_ok_def p_fail_def Let_def
      split: option.splits prod.splits)

lemma line_action_ok: "parser_ok p \<Longrightarrow> parser_ok (line_action p)"
  by (cases "p_state p")
    (auto simp: line_action_def Let_def intro!: finish_start_line_ok add_header_line_ok
      end_headers_ok finish_chunk_size_ok, auto simp: parser_ok_def)

lemma push_byte_ok: "parser_ok p \<Longrightarrow> parser_ok (push_byte c p)"
  by (auto simp: parser_ok_def push_byte_def)

lemma p_fail_ok [simp]: "parser_ok (p_fail m s p)"
  by (simp add: parser_ok_def)

lemma grow_header_bytes_ok:
  assumes "parser_ok p" "grow_header_bytes n p = (ok, q)" shows "parser_ok q"
proof (cases ok)
  case True
  with grow_header_bytes_cases [OF assms(2)] assms(1) show ?thesis
    by (auto simp: parser_ok_def)
next
  case False
  with grow_header_bytes_cases [OF assms(2)] show ?thesis by (auto simp: parser_ok_def)
qed

lemma parse_byte_ok:
  fixes p :: parser
  assumes p: "parser_ok p" shows "parser_ok (parse_byte p c)"
proof -
  obtain ok q where g: "grow_header_bytes 1 p = (ok, q)" by fastforce
  note q = grow_header_bytes_ok [OF p g]
  note l = line_action_ok [OF p] line_action_ok [OF q] push_byte_ok [OF p] push_byte_ok [OF q]
  show ?thesis
  proof (cases "p_state p")
    case StartLine
    then show ?thesis using l q g by (simp add: parse_byte_def)
  next
    case Headers
    then show ?thesis using l q g by (simp add: parse_byte_def)
  next
    case Body
    with p show ?thesis by (auto simp: parse_byte_def parser_ok_def Let_def)
  next
    case ChunkSize
    then show ?thesis using l by (simp add: parse_byte_def)
  next
    case ChunkData
    with p show ?thesis by (simp add: parse_byte_def parser_ok_def Let_def)
  next
    case ChunkDataEnd
    with p show ?thesis by (simp add: parse_byte_def) (simp add: parser_ok_def)
  next
    case ChunkTrailer
    then show ?thesis using l by (simp add: parse_byte_def)
  qed (simp_all add: parse_byte_def p)
qed

lemma new_parser_ok: "parser_ok new_parser" "parser_ok (set_limits mh mb new_parser)"
  "parser_ok (parser_reset p)"
  by (simp_all add: parser_ok_def new_parser_def set_limits_def parser_reset_def)

lemma run_in_ok: "parser_ok p \<Longrightarrow> parser_ok (snd (run_in st p data))"
  by (induction data arbitrary: p) (simp_all add: parse_byte_ok)

lemma run_bytes_ok: "parser_ok p \<Longrightarrow> parser_ok (snd (run_bytes p data))"
  by (induction data arbitrary: p) (simp_all add: parse_byte_ok)

section \<open>Refinement\<close>

lemma run_bytes_done: "parser_done p \<Longrightarrow> run_bytes p data = (0, p)"
  by (cases data) simp_all

lemma run_bytes_le: "fst (run_bytes p data) \<le> length data"
  by (induction data arbitrary: p) simp_all

lemma run_bytes_run_in:
  "st \<noteq> Error \<Longrightarrow> st \<noteq> Complete \<Longrightarrow>
   run_bytes p data =
     (let (n, q) = run_in st p data in apfst ((+) n) (run_bytes q (drop n data)))"
proof (induction data arbitrary: p)
  case Nil
  show ?case by simp
next
  case (Cons c cs)
  show ?case
  proof (cases "p_state p = st")
    case True
    with Cons.prems have "\<not> parser_done p" by (simp add: parser_done_def)
    then have "run_bytes p (c # cs) = apfst Suc (run_bytes (parse_byte p c) cs)" by simp
    then show ?thesis using Cons.IH [OF Cons.prems, of "parse_byte p c"] True
      by (simp add: Let_def split_beta apfst_def map_prod_def)
  next
    case False
    then show ?thesis by (simp add: apfst_def map_prod_def split_beta)
  qed
qed

lemma consume_run_bytes: "parser_ok p \<Longrightarrow> consume_request p data = run_bytes p data"
proof (induction p data rule: consume_request.induct)
  case (1 p data)
  show ?case
  proof (cases "data = [] \<or> parser_done p")
    case True
    then show ?thesis by (auto simp: consume_request.simps [of p data] run_bytes_done)
  next
    case False
    then obtain c cs where d: "data = c # cs" "\<not> parser_done p" by (cases data) auto
    obtain n q where nq: "run_in (p_state p) p data = (n, q)" by fastforce
    have n: "n \<noteq> 0" using nq d by (auto simp: apfst_def map_prod_def split: prod.splits)
    have ps: "parse_some p data = (n, q)" using parse_some_run [OF 1(2) d(2)] nq by simp
    have q: "parser_ok q" using run_in_ok [OF 1(2), of "p_state p" data] nq by simp
    have st: "p_state p \<noteq> Error" "p_state p \<noteq> Complete" using d by (simp_all add: parser_done_def)
    have "consume_request p data = apfst ((+) n) (consume_request q (drop n data))"
      using False ps n by (subst consume_request.simps) simp
    also have "consume_request q (drop n data) = run_bytes q (drop n data)"
      using 1(1) [OF False] ps n q by simp
    finally show ?thesis using run_bytes_run_in [OF st, of p data] nq by simp
  qed
qed

end
