(* ===== verification/ParserLaws.thy ===== *)
theory ParserLaws
  imports HttpParser
begin

text \<open>
  What the request parser promises to the server: the stream may be cut anywhere, nothing
  past the end of a message is consumed, the limits hold, and a request written by a client
  (with a \<open>Content-Length\<close> or with the chunked coding) is parsed back to its parts.
\<close>

section \<open>Segmentation\<close>

lemma run_bytes_append:
  "run_bytes p (xs @ ys) =
     (let (n, q) = run_bytes p xs in apfst ((+) n) (run_bytes q ys))"
proof (induction xs arbitrary: p)
  case Nil
  show ?case by (simp add: apfst_def map_prod_def)
next
  case (Cons c cs)
  then show ?case
    by (cases "parser_done p") (simp_all add: run_bytes_done Let_def apfst_def map_prod_def split_beta)
qed

definition parser_feed :: "parser \<Rightarrow> string \<Rightarrow> parser" where
  "parser_feed p data = snd (consume_request p data)"

interpretation parser_stream: incremental parser_ok parser_feed
proof unfold_locales
  fix s :: parser and xs ys :: string
  assume s: "parser_ok s"
  have q: "parser_ok (snd (run_bytes s xs))" using run_bytes_ok [OF s] .
  show "parser_feed s [] = s" using s by (simp add: parser_feed_def consume_run_bytes)
  show "parser_feed s (xs @ ys) = parser_feed (parser_feed s xs) ys"
    using s q by (simp add: parser_feed_def consume_run_bytes run_bytes_append split_beta)
  show "parser_ok (parser_feed s xs)" using s q by (simp add: parser_feed_def consume_run_bytes)
qed

lemma run_bytes_all: "\<not> parser_done (snd (run_bytes p data)) \<Longrightarrow> fst (run_bytes p data) = length data"
proof (induction data arbitrary: p)
  case Nil
  then show ?case by simp
next
  case (Cons c cs)
  then show ?case by (cases "parser_done p") simp_all
qed

text \<open>A finished message is the shortest prefix that finishes it.\<close>

lemma run_bytes_prefix:
  "run_bytes p data = (n, q) \<Longrightarrow> run_bytes p (take n data) = (n, q)
   \<and> (\<forall>k < n. \<not> parser_done (snd (run_bytes p (take k data))))"
proof (induction data arbitrary: p n)
  case Nil
  then show ?case by simp
next
  case (Cons c cs)
  show ?case
  proof (cases "parser_done p")
    case True
    with Cons.prems show ?thesis by simp
  next
    case False
    with Cons.prems obtain m where m: "n = Suc m" "run_bytes (parse_byte p c) cs = (m, q)"
      by (cases "run_bytes (parse_byte p c) cs") auto
    note ih = Cons.IH [OF m(2)]
    have "\<not> parser_done (snd (run_bytes p (take k (c # cs))))" if "k < n" for k
      using that False ih m(1) by (cases k) auto
    with ih m False show ?thesis by simp
  qed
qed

section \<open>Lines\<close>

definition hdr_budget :: "parser \<Rightarrow> nat \<Rightarrow> bool" where
  "hdr_budget p n \<longleftrightarrow>
     p_header_bytes p + n < 2 ^ 64 \<and>
     (p_max_header_bytes p = 0 \<or> p_header_bytes p + n \<le> p_max_header_bytes p)"

lemma grow_within: "hdr_budget p n \<Longrightarrow> n > 0 \<Longrightarrow>
   grow_header_bytes 1 p = (True, p\<lparr>p_header_bytes := p_header_bytes p + 1\<rparr>)"
  by (auto simp: hdr_budget_def grow_header_bytes_def Let_def u64_add_small)

lemma run_line_bytes:
  "p_state p = StartLine \<or> p_state p = Headers \<Longrightarrow> LF \<notin> set l \<Longrightarrow> hdr_budget p (length l) \<Longrightarrow>
   run_bytes p (l @ rest) =
     apfst ((+) (length l))
       (run_bytes (p\<lparr>p_line_buf := p_line_buf p @ l, p_header_bytes := p_header_bytes p + length l\<rparr>) rest)"
proof (induction l arbitrary: p)
  case Nil
  then show ?case by (simp add: apfst_def map_prod_def)
next
  case (Cons c l)
  let ?q = "p\<lparr>p_line_buf := p_line_buf p @ [c], p_header_bytes := p_header_bytes p + 1\<rparr>"
  have c: "c \<noteq> LF" using Cons.prems by auto
  have b: "parse_byte p c = ?q"
    using grow_within [OF Cons.prems(3)] Cons.prems(1) c by (auto simp: parse_byte_def push_byte_def)
  have "run_bytes ?q (l @ rest) = apfst ((+) (length l))
       (run_bytes (?q\<lparr>p_line_buf := p_line_buf ?q @ l, p_header_bytes := p_header_bytes ?q + length l\<rparr>) rest)"
    by (rule Cons.IH) (use Cons.prems in \<open>auto simp: hdr_budget_def\<close>)
  moreover have "\<not> parser_done p" using Cons.prems(1) by (auto simp: parser_done_def)
  ultimately show ?case using b by (simp add: apfst_def map_prod_def split_beta)
qed

text \<open>A whole header-section line, its line feed included.\<close>

lemma run_line:
  assumes "p_state p = StartLine \<or> p_state p = Headers" "p_line_buf p = []" "LF \<notin> set l"
    and "hdr_budget p (length l + 1)"
  shows "run_bytes p (l @ LF # rest) =
     apfst ((+) (length l + 1))
       (run_bytes (line_action (p\<lparr>p_line_buf := l, p_header_bytes := p_header_bytes p + (length l + 1)\<rparr>)) rest)"
proof -
  let ?q = "p\<lparr>p_line_buf := l, p_header_bytes := p_header_bytes p + length l\<rparr>"
  have bl: "hdr_budget p (length l)" and bq: "hdr_budget ?q 1"
    using assms(4) by (auto simp: hdr_budget_def)
  have "run_bytes p (l @ LF # rest) = apfst ((+) (length l)) (run_bytes ?q (LF # rest))"
    using run_line_bytes [OF assms(1,3) bl, of "LF # rest"] assms(2) by simp
  moreover have "parse_byte ?q LF =
      line_action (p\<lparr>p_line_buf := l, p_header_bytes := p_header_bytes p + (length l + 1)\<rparr>)"
    using grow_within [OF bq] assms(1) by (auto simp: parse_byte_def)
  moreover have "\<not> parser_done ?q" using assms(1) by (auto simp: parser_done_def)
  ultimately show ?thesis by (simp add: apfst_def map_prod_def split_beta)
qed

section \<open>Rendering a request\<close>

definition render_header :: "string \<times> string \<Rightarrow> string" where
  "render_header kv = fst kv @ '': '' @ snd kv @ CRLF"

definition render_head :: "http_method \<Rightarrow> string \<Rightarrow> string \<Rightarrow> header_map \<Rightarrow> string" where
  "render_head m target ver hs =
     (method_to_string m @ SP # target @ SP # ver @ CRLF) @ concat (map render_header hs) @ CRLF"

definition target_ok :: "string \<Rightarrow> bool" where
  "target_ok t \<longleftrightarrow> t \<noteq> [] \<and> SP \<notin> set t \<and> LF \<notin> set t"

definition header_ok :: "string \<times> string \<Rightarrow> bool" where
  "header_ok kv \<longleftrightarrow>
     fst kv \<noteq> [] \<and> CHR '':'' \<notin> set (fst kv) \<and> LF \<notin> set (fst kv) \<and> \<not> is_blank (last (fst kv)) \<and>
     LF \<notin> set (snd kv) \<and> trim_view (snd kv) = snd kv"

lemma strip_cr_CR [simp]: "strip_cr (l @ [CR]) = l"
  by (simp add: strip_cr_def)

lemma rtrim_id: "s \<noteq> [] \<Longrightarrow> \<not> is_blank (last s) \<Longrightarrow> rtrim_blank s = s"
proof -
  assume "s \<noteq> []" "\<not> is_blank (last s)"
  then have "rev s \<noteq> []" "\<not> is_blank (hd (rev s))" by (simp_all add: hd_rev)
  then have "dropWhile is_blank (rev s) = rev s" by (metis dropWhile.simps(2) list.collapse)
  then show ?thesis by (simp add: rtrim_blank_def)
qed

lemma is_blank_SP [simp]: "is_blank SP" by (simp add: is_blank_def)

lemma hm_set_absent: "hm_get h k = None \<Longrightarrow> hm_set k v h = h @ [(k, v)]"
proof (induction h)
  case Nil
  show ?case by (simp add: hm_set_def)
next
  case (Cons e h)
  then show ?case by (cases e) (auto simp: hm_set_def hm_get_def split: if_splits)
qed

lemma add_header_render:
  assumes "header_ok kv" "hm_get (p_headers p) (fst kv) = None"
  shows "add_header_line (fst kv @ '': '' @ snd kv) p = p\<lparr>p_headers := p_headers p @ [kv]\<rparr>"
proof -
  have "find_char CHR '':'' (fst kv @ '': '' @ snd kv) = Some (length (fst kv))"
    using find_char_append_hit [of "CHR '':''" "fst kv" "SP # snd kv"] assms(1) by (simp add: header_ok_def)
  moreover have "rtrim_blank (dropWhile is_blank (snd kv)) = snd kv"
    using assms(1) by (simp add: header_ok_def trim_view_def rtrim_blank_def Let_def)
  moreover have "rtrim_blank (fst kv) = fst kv" "fst kv \<noteq> []"
    using assms(1) by (simp_all add: header_ok_def rtrim_id)
  ultimately show ?thesis
    using assms(2) by (simp add: add_header_line_def Let_def hm_set_absent)
qed

lemma run_header_line:
  assumes "header_ok kv" "hm_get (p_headers p) (fst kv) = None" "p_state p = Headers" "p_line_buf p = []"
    and "hdr_budget p (length (render_header kv))"
  shows "run_bytes p (render_header kv @ rest) =
     apfst ((+) (length (render_header kv)))
       (run_bytes (p\<lparr>p_headers := p_headers p @ [kv],
                    p_header_bytes := p_header_bytes p + length (render_header kv)\<rparr>) rest)"
proof -
  let ?l = "(fst kv @ '': '' @ snd kv) @ [CR]"
  have r: "render_header kv @ rest = ?l @ LF # rest" "length (render_header kv) = length ?l + 1"
    by (simp_all add: render_header_def)
  have nl: "LF \<notin> set ?l" using assms(1) by (auto simp: header_ok_def)
  have b: "hdr_budget p (length ?l + 1)" using assms(5) by (simp only: r(2))
  let ?q = "p\<lparr>p_header_bytes := p_header_bytes p + (length ?l + 1), p_line_buf := []\<rparr>"
  have "line_action (p\<lparr>p_line_buf := ?l, p_header_bytes := p_header_bytes p + (length ?l + 1)\<rparr>)
      = add_header_line (fst kv @ '': '' @ snd kv) ?q"
    unfolding line_action_def Let_def using assms(3) by (simp del: append_assoc)
  also have "\<dots> = ?q\<lparr>p_headers := p_headers ?q @ [kv]\<rparr>"
    by (rule add_header_render) (use assms in simp_all)
  also have "\<dots> = p\<lparr>p_headers := p_headers p @ [kv],
      p_header_bytes := p_header_bytes p + length (render_header kv)\<rparr>"
    using assms(4) r(2) by (cases p) simp
  finally show ?thesis
    using run_line [OF disjI2 [OF assms(3)] assms(4) nl b, of rest] r by (simp only:)
qed

lemma hm_get_snoc: "hm_get (h @ [(k, v)]) k' = (case hm_get h k' of Some w \<Rightarrow> Some w | None \<Rightarrow> if ci_equal k k' then Some v else None)"
proof (induction h)
  case Nil
  show ?case by (simp add: hm_get_def)
next
  case (Cons e h)
  then show ?case by (cases e) (simp add: hm_get_def)
qed

text \<open>No two headers of the list have the same name, case ignored, and none is in \<open>h\<close> yet.\<close>

fun fresh_headers :: "header_map \<Rightarrow> header_map \<Rightarrow> bool" where
  "fresh_headers h [] = True"
| "fresh_headers h (kv # hs) = (hm_get h (fst kv) = None \<and> fresh_headers (h @ [kv]) hs)"

lemma run_header_lines:
  "list_all header_ok hs \<Longrightarrow> fresh_headers (p_headers p) hs \<Longrightarrow> p_state p = Headers \<Longrightarrow>
   p_line_buf p = [] \<Longrightarrow> hdr_budget p (length (concat (map render_header hs))) \<Longrightarrow>
   run_bytes p (concat (map render_header hs) @ rest) =
     apfst ((+) (length (concat (map render_header hs))))
       (run_bytes (p\<lparr>p_headers := p_headers p @ hs,
                    p_header_bytes := p_header_bytes p + length (concat (map render_header hs))\<rparr>) rest)"
proof (induction hs arbitrary: p)
  case Nil
  then show ?case by (simp add: apfst_def map_prod_def)
next
  case (Cons kv hs)
  let ?n = "length (render_header kv)"
  let ?q = "p\<lparr>p_headers := p_headers p @ [kv], p_header_bytes := p_header_bytes p + ?n\<rparr>"
  have "run_bytes p (render_header kv @ concat (map render_header hs) @ rest) =
     apfst ((+) ?n) (run_bytes ?q (concat (map render_header hs) @ rest))"
    by (rule run_header_line) (use Cons.prems in \<open>auto simp: hdr_budget_def\<close>)
  also have "run_bytes ?q (concat (map render_header hs) @ rest) =
     apfst ((+) (length (concat (map render_header hs))))
       (run_bytes (?q\<lparr>p_headers := p_headers ?q @ hs,
                    p_header_bytes := p_header_bytes ?q + length (concat (map render_header hs))\<rparr>) rest)"
    by (rule Cons.IH) (use Cons.prems in \<open>auto simp: hdr_budget_def\<close>)
  finally show ?case by (simp add: apfst_def map_prod_def split_beta add.assoc)
qed

definition path_of :: "string \<Rightarrow> string" where
  "path_of t = takeWhile (\<lambda>c. c \<noteq> CHR ''?'') t"

definition query_of :: "string \<Rightarrow> string" where
  "query_of t = drop (Suc (length (path_of t))) t"

lemma find_char_takeWhile:
  "find_char x t = (if x \<in> set t then Some (length (takeWhile (\<lambda>c. c \<noteq> x) t)) else None)"
  by (induction t) auto

lemma find_qmark: "find_char CHR ''?'' t =
    (if CHR ''?'' \<in> set t then Some (length (path_of t)) else None)"
  by (simp add: find_char_takeWhile path_of_def)

lemma path_no_qmark: "CHR ''?'' \<notin> set t \<Longrightarrow> path_of t = t \<and> query_of t = []"
proof -
  assume "CHR ''?'' \<notin> set t"
  then have "path_of t = t" by (auto simp: path_of_def takeWhile_eq_all_conv)
  then show ?thesis by (simp add: query_of_def)
qed

lemma take_path: "take (length (path_of t)) t = path_of t"
  by (metis path_of_def takeWhile_eq_take length_take min_def take_all_iff takeWhile_dropWhile_id append_eq_conv_conj)

lemma method_string_no_SP: "m \<noteq> UNKNOWN \<Longrightarrow> SP \<notin> set (method_to_string m) \<and> LF \<notin> set (method_to_string m)"
  by (cases m) simp_all

lemma finish_start_line_render:
  assumes "m \<noteq> UNKNOWN" "m \<noteq> ANY" "target_ok t" "ver = ''HTTP/1.1'' \<or> ver = ''HTTP/1.0''"
  shows "finish_start_line (method_to_string m @ SP # t @ SP # ver) p =
    p\<lparr>p_method := m, p_version := ver, p_target := t, p_path := path_of t, p_query := query_of t,
      p_state := Headers\<rparr>"
proof -
  let ?m = "method_to_string m"
  have f1: "find_char SP (?m @ SP # t @ SP # ver) = Some (length ?m)"
    using method_string_no_SP [OF assms(1)] by (intro find_char_append_hit) simp
  have f2: "find_char SP (t @ SP # ver) = Some (length t)"
    using assms(3) by (intro find_char_append_hit) (simp add: target_ok_def)
  have d: "drop (Suc (length ?m)) (?m @ SP # t @ SP # ver) = t @ SP # ver" by simp
  have t: "t \<noteq> []" using assms(3) by (simp add: target_ok_def)
  have q: "drop (Suc (length (path_of t))) t = query_of t" by (simp add: query_of_def)
  show ?thesis
    using assms(1,4) t path_no_qmark [of t] method_roundtrip [OF assms(1,2)]
    by (simp add: finish_start_line_def f1 f2 d Let_def find_qmark take_path q split del: if_split)
      (simp add: take_path q split: if_split)
qed

lemma run_start_line:
  assumes "m \<noteq> UNKNOWN" "m \<noteq> ANY" "target_ok t" "ver = ''HTTP/1.1'' \<or> ver = ''HTTP/1.0''"
    and "p_state p = StartLine" "p_line_buf p = []"
  defines "l \<equiv> method_to_string m @ SP # t @ SP # ver @ CRLF"
  assumes "hdr_budget p (length l)"
  shows "run_bytes p (l @ rest) = apfst ((+) (length l))
    (run_bytes (p\<lparr>p_method := m, p_version := ver, p_target := t, p_path := path_of t,
       p_query := query_of t, p_state := Headers, p_header_bytes := p_header_bytes p + length l\<rparr>) rest)"
proof -
  let ?s = "method_to_string m @ SP # t @ SP # ver"
  let ?l = "?s @ [CR]"
  have r: "l @ rest = ?l @ LF # rest" "length l = length ?l + 1" by (simp_all add: l_def)
  have nl: "LF \<notin> set ?l"
    using assms(3,4) method_string_no_SP [OF assms(1)] by (auto simp: target_ok_def)
  have b: "hdr_budget p (length ?l + 1)" using assms(8) by (simp only: r(2))
  have ne: "?s \<noteq> []" by simp
  let ?q = "p\<lparr>p_header_bytes := p_header_bytes p + (length ?l + 1), p_line_buf := []\<rparr>"
  have "line_action (p\<lparr>p_line_buf := ?l, p_header_bytes := p_header_bytes p + (length ?l + 1)\<rparr>)
      = finish_start_line ?s ?q"
    unfolding line_action_def Let_def using assms(5) by (simp del: append_assoc)
  also have "\<dots> = ?q\<lparr>p_method := m, p_version := ver, p_target := t, p_path := path_of t,
       p_query := query_of t, p_state := Headers\<rparr>"
    by (rule finish_start_line_render [OF assms(1-4)])
  also have "\<dots> = p\<lparr>p_method := m, p_version := ver, p_target := t, p_path := path_of t,
       p_query := query_of t, p_state := Headers, p_header_bytes := p_header_bytes p + length l\<rparr>"
    using assms(6) r(2) by (cases p) simp
  finally show ?thesis
    using run_line [OF disjI1 [OF assms(5)] assms(6) nl b, of rest] r by (simp only:)
qed

section \<open>Requests with a known length\<close>

definition length_framed :: "header_map \<Rightarrow> string \<Rightarrow> bool" where
  "length_framed hs body \<longleftrightarrow>
     hm_get hs ''Transfer-Encoding'' = None \<and>
     (case hm_get hs ''Content-Length'' of
        None \<Rightarrow> body = [] | Some s \<Rightarrow> s = show_nat (length body))"

definition fresh_parser :: "parser \<Rightarrow> bool" where
  "fresh_parser p \<longleftrightarrow>
     p_line_buf p = [] \<and> \<not> p_chunked p \<and> p_content_length p = 0 \<and> p_body_received p = 0 \<and>
     p_body_storage p = []"

lemma end_headers_length:
  assumes "length_framed (p_headers p) body" "fresh_parser p" "p_state p = Headers"
    and "p_max_body_bytes p = 0 \<or> length body \<le> p_max_body_bytes p" "length body < 2 ^ 63"
  shows "end_headers p =
    (if body = [] then p\<lparr>p_body := [], p_state := Complete\<rparr>
     else p\<lparr>p_content_length := length body, p_state := Body\<rparr>)"
proof -
  have te: "end_headers_te p = p" using assms(1) by (simp add: end_headers_te_def length_framed_def)
  have cl: "end_headers_cl p = p\<lparr>p_content_length := length body\<rparr>"
  proof (cases "hm_get (p_headers p) ''Content-Length''")
    case None
    with assms(1,2) show ?thesis
      by (cases p) (simp add: end_headers_cl_def length_framed_def fresh_parser_def)
  next
    case (Some s)
    with assms(1) have s: "s = show_nat (length body)" by (simp add: length_framed_def)
    show ?thesis
      using Some assms(2-5) at_end_show_nat [of "length body"]
      by (auto simp: end_headers_cl_def s fresh_parser_def strtoll_show_nat Let_def)
  qed
  have n: "p\<lparr>p_content_length := 0\<rparr> = p" using assms(2) by (cases p) (simp add: fresh_parser_def)
  show ?thesis
    using assms(2,3) by (simp add: end_headers_def te cl fresh_parser_def n Let_def)
qed

lemma run_body_bytes:
  "p_state p = Body \<Longrightarrow> body \<noteq> [] \<Longrightarrow> p_content_length p = p_body_received p + length body \<Longrightarrow>
   run_bytes p (body @ rest) =
     (length body,
      p\<lparr>p_body_storage := p_body_storage p @ body, p_body_received := p_content_length p,
        p_body := p_body_storage p @ body, p_state := Complete\<rparr>)"
proof (induction body arbitrary: p)
  case Nil
  then show ?case by simp
next
  case (Cons c cs)
  have nd: "\<not> parser_done p" using Cons.prems(1) by (simp add: parser_done_def)
  show ?case
  proof (cases "cs = []")
    case True
    with Cons.prems nd show ?thesis
      by (simp add: parse_byte_def Let_def run_bytes_done parser_done_def)
  next
    case False
    let ?q = "p\<lparr>p_body_storage := p_body_storage p @ [c], p_body_received := p_body_received p + 1\<rparr>"
    have "parse_byte p c = ?q" using Cons.prems False by (simp add: parse_byte_def Let_def)
    moreover have "run_bytes ?q (cs @ rest) =
      (length cs, ?q\<lparr>p_body_storage := p_body_storage ?q @ cs, p_body_received := p_content_length ?q,
        p_body := p_body_storage ?q @ cs, p_state := Complete\<rparr>)"
      by (rule Cons.IH) (use Cons.prems False in simp_all)
    ultimately show ?thesis using nd by simp
  qed
qed

text \<open>The head of a request brings a fresh parser to the blank line with all parts read.\<close>

definition head_parsed :: "http_method \<Rightarrow> string \<Rightarrow> string \<Rightarrow> header_map \<Rightarrow> parser \<Rightarrow> parser" where
  "head_parsed m t ver hs p =
     p\<lparr>p_state := Headers, p_method := m, p_target := t, p_path := path_of t,
       p_query := query_of t, p_version := ver, p_headers := hs,
       p_header_bytes := length (render_head m t ver hs)\<rparr>"

definition request_ok :: "http_method \<Rightarrow> string \<Rightarrow> string \<Rightarrow> header_map \<Rightarrow> bool" where
  "request_ok m t ver hs \<longleftrightarrow>
     m \<noteq> UNKNOWN \<and> m \<noteq> ANY \<and> target_ok t \<and> (ver = ''HTTP/1.1'' \<or> ver = ''HTTP/1.0'') \<and>
     list_all header_ok hs \<and> fresh_headers [] hs"

definition head_fits :: "parser \<Rightarrow> nat \<Rightarrow> bool" where
  "head_fits p n \<longleftrightarrow> n < 2 ^ 64 \<and> (p_max_header_bytes p = 0 \<or> n \<le> p_max_header_bytes p)"

lemma reset_fresh [simp]:
  "fresh_parser (parser_reset p)" "p_state (parser_reset p) = StartLine"
  "p_headers (parser_reset p) = []" "p_header_bytes (parser_reset p) = 0"
  "p_max_header_bytes (parser_reset p) = p_max_header_bytes p"
  "p_max_body_bytes (parser_reset p) = p_max_body_bytes p" "p_line_buf (parser_reset p) = []"
  by (simp_all add: fresh_parser_def parser_reset_def)

lemma run_head:
  assumes ok: "request_ok m t ver hs" and fits: "head_fits p (length (render_head m t ver hs))"
  shows "run_bytes (parser_reset p) (render_head m t ver hs @ rest) =
    apfst ((+) (length (render_head m t ver hs)))
      (run_bytes (end_headers (head_parsed m t ver hs (parser_reset p))) rest)"
proof -
  let ?l = "method_to_string m @ SP # t @ SP # ver @ CRLF" and ?h = "concat (map render_header hs)"
  let ?p = "parser_reset p"
  let ?q = "?p\<lparr>p_method := m, p_version := ver, p_target := t, p_path := path_of t,
       p_query := query_of t, p_state := Headers, p_header_bytes := p_header_bytes ?p + length ?l\<rparr>"
  let ?r = "?q\<lparr>p_headers := p_headers ?q @ hs, p_header_bytes := p_header_bytes ?q + length ?h\<rparr>"
  have len: "length (render_head m t ver hs) = length ?l + length ?h + 2"
    by (simp add: render_head_def)
  have 1: "run_bytes ?p (?l @ ?h @ CRLF @ rest) = apfst ((+) (length ?l)) (run_bytes ?q (?h @ CRLF @ rest))"
    by (rule run_start_line) (use ok fits len in \<open>auto simp: request_ok_def head_fits_def hdr_budget_def\<close>)
  have 2: "run_bytes ?q (?h @ CRLF @ rest) = apfst ((+) (length ?h)) (run_bytes ?r (CRLF @ rest))"
    by (rule run_header_lines) (use ok fits len in \<open>auto simp: request_ok_def head_fits_def hdr_budget_def\<close>)
  have 3: "run_bytes ?r ([CR] @ LF # rest) = apfst ((+) (length [CR] + 1))
      (run_bytes (line_action (?r\<lparr>p_line_buf := [CR], p_header_bytes := p_header_bytes ?r + (length [CR] + 1)\<rparr>)) rest)"
    by (rule run_line) (use fits len in \<open>auto simp: head_fits_def hdr_budget_def\<close>)
  have "line_action (?r\<lparr>p_line_buf := [CR], p_header_bytes := p_header_bytes ?r + (length [CR] + 1)\<rparr>) =
      end_headers (head_parsed m t ver hs ?p)"
    using strip_cr_CR [of "[]"] len
    by (cases p) (simp add: line_action_def Let_def head_parsed_def parser_reset_def)
  with 1 2 3 len show ?thesis
    by (simp add: render_head_def apfst_def map_prod_def split_beta)
qed

lemma request_length_run:
  assumes ok: "request_ok m t ver hs" and fits: "head_fits p (length (render_head m t ver hs))"
    and fr: "length_framed hs body"
    and lim: "p_max_body_bytes p = 0 \<or> length body \<le> p_max_body_bytes p" "length body < 2 ^ 63"
  shows "case consume_request (parser_reset p) (render_head m t ver hs @ body @ rest) of (n, q) \<Rightarrow>
    n = length (render_head m t ver hs @ body) \<and> p_state q = Complete \<and> p_method q = m \<and> p_target q = t \<and> p_path q = path_of t \<and>
    p_query q = query_of t \<and> p_version q = ver \<and> p_headers q = hs \<and> p_body q = body"
proof -
  let ?h = "head_parsed m t ver hs (parser_reset p)"
  have e: "end_headers ?h =
    (if body = [] then ?h\<lparr>p_body := [], p_state := Complete\<rparr>
     else ?h\<lparr>p_content_length := length body, p_state := Body\<rparr>)"
    by (rule end_headers_length)
      (use fr lim in \<open>auto simp: head_parsed_def fresh_parser_def parser_reset_def\<close>)
  have c: "consume_request (parser_reset p) xs = run_bytes (parser_reset p) xs" for xs
    by (rule consume_run_bytes) (rule new_parser_ok)
  show ?thesis
  proof (cases "body = []")
    case True
    then show ?thesis using run_head [OF ok fits, of rest] e
      by (simp add: c run_bytes_done parser_done_def head_parsed_def)
  next
    case False
    let ?b = "?h\<lparr>p_content_length := length body, p_state := Body\<rparr>"
    have "run_bytes ?b (body @ rest) =
     (length body,
      ?b\<lparr>p_body_storage := p_body_storage ?b @ body, p_body_received := p_content_length ?b,
        p_body := p_body_storage ?b @ body, p_state := Complete\<rparr>)"
      by (rule run_body_bytes) (use False in \<open>simp_all add: head_parsed_def parser_reset_def\<close>)
    then have "run_bytes (parser_reset p) (render_head m t ver hs @ body @ rest) =
      (length (render_head m t ver hs) + length body, ?b\<lparr>p_body_storage := p_body_storage ?b @ body,
        p_body_received := p_content_length ?b, p_body := p_body_storage ?b @ body, p_state := Complete\<rparr>)"
      using run_head [OF ok fits, of "body @ rest"] e False by (simp only: if_False apfst_conv)
    then show ?thesis unfolding c by (simp add: head_parsed_def) (simp add: parser_reset_def)
  qed
qed

section \<open>Chunked requests\<close>

function show_hex :: "nat \<Rightarrow> string" where
  "show_hex n = (if n < 16 then [hex_digits ! n] else show_hex (n div 16) @ [hex_digits ! (n mod 16)])"
  by pat_completeness auto
termination by (relation "measure id") auto

declare show_hex.simps [simp del]

lemma hex_digit_facts:
  "\<forall>c \<in> set hex_digits. is_digit_in 16 c \<and> \<not> is_space c \<and> c \<notin> {CHR ''-'', CHR ''+'', NUL, LF, CR, CHR '';'', CHR ''x'', CHR ''X''}"
  by (simp add: hex_digits_def is_digit_in_def digit_value_def is_space_def)

lemma hex_digit_digit: "n < 16 \<Longrightarrow> digit_value (hex_digits ! n) = Some n"
proof -
  assume "n < 16"
  then have "n \<in> set [0..<16]" by simp
  moreover have "\<forall>n \<in> set [0..<16]. digit_value (hex_digits ! n) = Some n"
    by (simp add: upt_rec hex_digits_def digit_value_def)
  ultimately show ?thesis by blast
qed

lemma hex_digits_nth: "n < 16 \<Longrightarrow> hex_digits ! n \<in> set hex_digits"
  by (rule nth_mem) (simp add: hex_digits_def)

lemma show_hex_facts:
  "set (show_hex n) \<subseteq> set hex_digits \<and> show_hex n \<noteq> [] \<and> digits_value 16 0 (show_hex n) = n"
proof (induction n rule: show_hex.induct)
  case (1 n)
  show ?case
  proof (cases "n < 16")
    case True
    then show ?thesis by (subst show_hex.simps, subst show_hex.simps, subst show_hex.simps)
      (simp add: hex_digits_nth hex_digit_digit)
  next
    case False
    then show ?thesis using 1 by (subst show_hex.simps, subst show_hex.simps, subst show_hex.simps)
      (simp add: hex_digits_nth hex_digit_digit digits_value_append)
  qed
qed

lemma length_show_hex: "n < 16 ^ Suc k \<Longrightarrow> length (show_hex n) \<le> Suc k"
proof (induction k arbitrary: n)
  case 0
  then show ?case by (simp add: show_hex.simps)
next
  case (Suc k)
  have "n div 16 < 16 ^ Suc k"
    using Suc.prems by (simp add: less_mult_imp_div_less)
  from Suc.IH [OF this] show ?case by (subst show_hex.simps) simp
qed

lemma scan_hex:
  "scan_int 16 (show_hex n) = (False, n, length (show_hex n))" "c_str (show_hex n) = show_hex n"
proof -
  note f = show_hex_facts [of n]
  have all: "\<forall>c \<in> set (show_hex n). is_digit_in 16 c \<and> \<not> is_space c \<and>
      c \<notin> {CHR ''-'', CHR ''+'', NUL, LF, CR, CHR '';'', CHR ''x'', CHR ''X''}"
    using f hex_digit_facts by blast
  obtain c cs where s: "show_hex n = c # cs" using f by (cases "show_hex n") auto
  show cs: "c_str (show_hex n) = show_hex n"
    using all by (auto simp: c_str_def takeWhile_eq_all_conv)
  have hp: "hex_prefix 16 (show_hex n) = 0"
  proof -
    have "show_hex n ! 1 \<in> set (show_hex n)" if "length (show_hex n) \<ge> 3"
      using that by (intro nth_mem) simp
    with all show ?thesis by (auto simp: hex_prefix_def)
  qed
  have tw: "takeWhile (is_digit_in 16) (show_hex n) = show_hex n"
    using all by (auto simp: takeWhile_eq_all_conv)
  have ws: "takeWhile is_space (show_hex n) = []" using all s by simp
  have hd: "hd (show_hex n) \<noteq> CHR ''-''" "hd (show_hex n) \<noteq> CHR ''+''" using all s by auto
  show "scan_int 16 (show_hex n) = (False, n, length (show_hex n))"
    using f ws hp hd by (simp add: scan_int_def Let_def cs) (simp add: tw)
qed

lemma strtoull_hex: "n < 2 ^ 64 \<Longrightarrow> strtoull 16 (show_hex n) = (n, length (show_hex n), False)"
  by (simp add: strtoull_def scan_hex)

text \<open>Collecting a line that is not part of the header section.\<close>

lemma run_chunk_line_bytes:
  "p_state p = ChunkSize \<Longrightarrow> LF \<notin> set l \<Longrightarrow> length (p_line_buf p) + length l \<le> 129 \<Longrightarrow>
   run_bytes p (l @ rest) =
     apfst ((+) (length l)) (run_bytes (p\<lparr>p_line_buf := p_line_buf p @ l\<rparr>) rest)"
proof (induction l arbitrary: p)
  case Nil
  then show ?case by (simp add: apfst_def map_prod_def)
next
  case (Cons c l)
  let ?q = "p\<lparr>p_line_buf := p_line_buf p @ [c]\<rparr>"
  have "parse_byte p c = ?q" using Cons.prems by (auto simp: parse_byte_def push_byte_def)
  moreover have "run_bytes ?q (l @ rest) = apfst ((+) (length l))
      (run_bytes (?q\<lparr>p_line_buf := p_line_buf ?q @ l\<rparr>) rest)"
    by (rule Cons.IH) (use Cons.prems in auto)
  ultimately show ?case using Cons.prems(1)
    by (simp add: parser_done_def apfst_def map_prod_def split_beta)
qed

lemma run_chunk_size_line:
  assumes "p_state p = ChunkSize" "p_line_buf p = []" "n < 2 ^ 64"
    and "p_max_body_bytes p = 0 \<or> u64_add (length (p_body_storage p)) n \<le> p_max_body_bytes p"
  shows "run_bytes p (show_hex n @ CRLF @ rest) =
    apfst ((+) (length (show_hex n) + 2))
      (run_bytes (p\<lparr>p_chunk_remaining := n, p_state := if n = 0 then ChunkTrailer else ChunkData\<rparr>) rest)"
proof -
  let ?l = "show_hex n @ [CR]"
  note f = show_hex_facts [of n]
  have all: "\<forall>c \<in> set (show_hex n). c \<noteq> LF \<and> c \<noteq> CHR '';''"
    using f hex_digit_facts by blast
  have "length (show_hex n) \<le> Suc 15" by (rule length_show_hex) (use assms(3) in simp)
  then have 1: "run_bytes p (?l @ LF # rest) =
      apfst ((+) (length ?l)) (run_bytes (p\<lparr>p_line_buf := p_line_buf p @ ?l\<rparr>) (LF # rest))"
    by (intro run_chunk_line_bytes) (use assms all in auto)
  have sc: "find_char CHR '';'' (show_hex n) = None"
    using all by (auto simp: find_char_None_iff)
  have "parse_byte (p\<lparr>p_line_buf := p_line_buf p @ ?l\<rparr>) LF = finish_chunk_size (show_hex n) (p\<lparr>p_line_buf := []\<rparr>)"
    using assms(1,2) by (simp add: parse_byte_def line_action_def Let_def)
  also have "p\<lparr>p_line_buf := []\<rparr> = p" using assms(2) by (cases p) simp
  also have "finish_chunk_size (show_hex n) p =
      p\<lparr>p_chunk_remaining := n, p_state := if n = 0 then ChunkTrailer else ChunkData\<rparr>"
    using assms(3,4) f
    by (auto simp: finish_chunk_size_def sc strtoull_hex at_end_def scan_hex grow_body_bytes_def Let_def)
  finally show ?thesis using 1 assms(1)
    by (simp add: parser_done_def apfst_def map_prod_def split_beta)
qed

lemma run_chunk_data_bytes:
  "p_state p = ChunkData \<Longrightarrow> d \<noteq> [] \<Longrightarrow> p_chunk_remaining p = length d \<Longrightarrow>
   run_bytes p (d @ rest) = apfst ((+) (length d))
     (run_bytes (p\<lparr>p_body_storage := p_body_storage p @ d, p_chunk_remaining := 0,
        p_state := ChunkDataEnd\<rparr>) rest)"
proof (induction d arbitrary: p)
  case Nil
  then show ?case by simp
next
  case (Cons c cs)
  have nd: "\<not> parser_done p" using Cons.prems(1) by (simp add: parser_done_def)
  show ?case
  proof (cases "cs = []")
    case True
    with Cons.prems nd show ?thesis
      by (simp add: parse_byte_def Let_def apfst_def map_prod_def)
  next
    case False
    let ?q = "p\<lparr>p_body_storage := p_body_storage p @ [c], p_chunk_remaining := p_chunk_remaining p - 1\<rparr>"
    have "parse_byte p c = ?q" using Cons.prems False by (simp add: parse_byte_def Let_def)
    moreover have "run_bytes ?q (cs @ rest) = apfst ((+) (length cs))
       (run_bytes (?q\<lparr>p_body_storage := p_body_storage ?q @ cs, p_chunk_remaining := 0,
          p_state := ChunkDataEnd\<rparr>) rest)"
      by (rule Cons.IH) (use Cons.prems False in simp_all)
    ultimately show ?thesis using nd by (simp add: apfst_def map_prod_def split_beta)
  qed
qed

definition render_chunk :: "string \<Rightarrow> string" where
  "render_chunk d = show_hex (length d) @ CRLF @ d @ CRLF"

definition render_chunks :: "string list \<Rightarrow> string" where
  "render_chunks ds = concat (map render_chunk ds) @ show_hex 0 @ CRLF @ CRLF"

lemma run_chunk:
  assumes "p_state p = ChunkSize" "p_line_buf p = []" "d \<noteq> []"
    and "p_max_body_bytes p = 0 \<or> length (p_body_storage p) + length d \<le> p_max_body_bytes p"
    and "length (p_body_storage p) + length d < 2 ^ 64"
  shows "run_bytes p (render_chunk d @ rest) = apfst ((+) (length (render_chunk d)))
    (run_bytes (p\<lparr>p_body_storage := p_body_storage p @ d, p_chunk_remaining := 0\<rparr>) rest)"
proof -
  let ?q = "p\<lparr>p_chunk_remaining := length d, p_state := ChunkData\<rparr>"
  let ?r = "?q\<lparr>p_body_storage := p_body_storage ?q @ d, p_chunk_remaining := 0, p_state := ChunkDataEnd\<rparr>"
  have 1: "run_bytes p (show_hex (length d) @ CRLF @ d @ CRLF @ rest) =
      apfst ((+) (length (show_hex (length d)) + 2)) (run_bytes ?q (d @ CRLF @ rest))"
    using run_chunk_size_line [OF assms(1,2), of "length d"] assms(3-5) by (auto simp: u64_add_small)
  have 2: "run_bytes ?q (d @ CRLF @ rest) = apfst ((+) (length d)) (run_bytes ?r (CRLF @ rest))"
    by (rule run_chunk_data_bytes) (use assms(3) in simp_all)
  have "?r\<lparr>p_state := ChunkSize\<rparr> = p\<lparr>p_body_storage := p_body_storage p @ d, p_chunk_remaining := 0\<rparr>"
    using assms(1) by (cases p) simp
  then have 3: "run_bytes ?r (CRLF @ rest) = apfst ((+) 2)
      (run_bytes (p\<lparr>p_body_storage := p_body_storage p @ d, p_chunk_remaining := 0\<rparr>) rest)"
    by (simp add: parse_byte_def parser_done_def apfst_def map_prod_def split_beta)
  show ?thesis using 1 unfolding 2 3
    by (simp add: render_chunk_def apfst_def map_prod_def split_beta)
qed

lemma run_chunks:
  "p_state p = ChunkSize \<Longrightarrow> p_line_buf p = [] \<Longrightarrow> [] \<notin> set ds \<Longrightarrow>
   p_max_body_bytes p = 0 \<or> length (p_body_storage p) + length (concat ds) \<le> p_max_body_bytes p \<Longrightarrow>
   length (p_body_storage p) + length (concat ds) < 2 ^ 64 \<Longrightarrow>
   case run_bytes p (render_chunks ds @ rest) of (n, q) \<Rightarrow>
     n = length (render_chunks ds) \<and> p_state q = Complete \<and>
     p_body q = p_body_storage p @ concat ds \<and> p_content_length q = length (p_body q) \<and>
     p_method q = p_method p \<and> p_target q = p_target p \<and> p_path q = p_path p \<and>
     p_query q = p_query p \<and> p_version q = p_version p \<and> p_headers q = p_headers p"
proof (induction ds arbitrary: p)
  case Nil
  let ?q = "p\<lparr>p_chunk_remaining := 0, p_state := ChunkTrailer\<rparr>"
  have 1: "run_bytes p (show_hex 0 @ CRLF @ CRLF @ rest) =
      apfst ((+) (length (show_hex 0) + 2)) (run_bytes ?q (CRLF @ rest))"
    using run_chunk_size_line [OF Nil(1,2), of 0] Nil by (simp add: u64_add_small)
  have "run_bytes ?q (CRLF @ rest) = (2, ?q\<lparr>p_line_buf := [], p_content_length := length (p_body_storage p),
      p_body := p_body_storage p, p_state := Complete\<rparr>)"
    using strip_cr_CR [of "[]"] Nil(2)
    by (simp add: parse_byte_def push_byte_def line_action_def Let_def parser_done_def run_bytes_done)
  with 1 show ?case by (simp add: render_chunks_def)
next
  case (Cons d ds)
  let ?q = "p\<lparr>p_body_storage := p_body_storage p @ d, p_chunk_remaining := 0\<rparr>"
  have 1: "run_bytes p (render_chunk d @ render_chunks ds @ rest) =
      apfst ((+) (length (render_chunk d))) (run_bytes ?q (render_chunks ds @ rest))"
    by (rule run_chunk) (use Cons.prems in auto)
  have "case run_bytes ?q (render_chunks ds @ rest) of (n, q) \<Rightarrow>
     n = length (render_chunks ds) \<and> p_state q = Complete \<and>
     p_body q = p_body_storage ?q @ concat ds \<and> p_content_length q = length (p_body q) \<and>
     p_method q = p_method ?q \<and> p_target q = p_target ?q \<and> p_path q = p_path ?q \<and>
     p_query q = p_query ?q \<and> p_version q = p_version ?q \<and> p_headers q = p_headers ?q"
    by (rule Cons.IH) (use Cons.prems in auto)
  with 1 show ?case by (simp add: render_chunks_def split_beta)
qed

definition chunk_framed :: "header_map \<Rightarrow> bool" where
  "chunk_framed hs \<longleftrightarrow>
     hm_get hs ''Content-Length'' = None \<and>
     (case hm_get hs ''Transfer-Encoding'' of
        None \<Rightarrow> False | Some te \<Rightarrow> find_sub ''chunked'' (map ascii_lower te) \<noteq> None)"

lemma end_headers_chunked:
  assumes "chunk_framed (p_headers p)" "p_state p = Headers"
  shows "end_headers p = p\<lparr>p_chunked := True, p_state := ChunkSize\<rparr>"
proof -
  obtain te where te: "hm_get (p_headers p) ''Transfer-Encoding'' = Some te"
    "find_sub ''chunked'' (map ascii_lower te) \<noteq> None"
    and cl: "hm_get (p_headers p) ''Content-Length'' = None"
    using assms(1) by (auto simp: chunk_framed_def split: option.splits)
  have "end_headers_te p = p\<lparr>p_chunked := True\<rparr>" unfolding end_headers_te_def te(1) using te(2) by simp
  moreover have "end_headers_cl (p\<lparr>p_chunked := True\<rparr>) = p\<lparr>p_chunked := True\<rparr>"
    unfolding end_headers_cl_def using cl by simp
  ultimately show ?thesis using assms(2) by (simp add: end_headers_def)
qed

lemma request_chunked_run:
  assumes ok: "request_ok m t ver hs" and fits: "head_fits p (length (render_head m t ver hs))"
    and fr: "chunk_framed hs" and ne: "[] \<notin> set ds"
    and lim: "p_max_body_bytes p = 0 \<or> length (concat ds) \<le> p_max_body_bytes p"
      "length (concat ds) < 2 ^ 64"
  shows "case consume_request (parser_reset p) (render_head m t ver hs @ render_chunks ds @ rest) of (n, q) \<Rightarrow>
    n = length (render_head m t ver hs @ render_chunks ds) \<and> p_state q = Complete \<and>
    p_method q = m \<and> p_target q = t \<and> p_path q = path_of t \<and>
    p_query q = query_of t \<and> p_version q = ver \<and> p_headers q = hs \<and> p_body q = concat ds"
proof -
  let ?h = "head_parsed m t ver hs (parser_reset p)"
  have s: "p_state ?h = Headers" "p_headers ?h = hs" by (simp_all add: head_parsed_def)
  have e: "end_headers ?h = ?h\<lparr>p_chunked := True, p_state := ChunkSize\<rparr>"
    by (rule end_headers_chunked) (use fr s in simp_all)
  let ?c = "?h\<lparr>p_chunked := True, p_state := ChunkSize\<rparr>"
  have c: "consume_request (parser_reset p) xs = run_bytes (parser_reset p) xs" for xs
    by (rule consume_run_bytes) (rule new_parser_ok)
  have f: "p_method ?c = m" "p_target ?c = t" "p_path ?c = path_of t" "p_query ?c = query_of t"
    "p_version ?c = ver" "p_headers ?c = hs" "p_body_storage ?c = []"
    by (simp_all add: head_parsed_def) (simp add: parser_reset_def)
  have "case run_bytes ?c (render_chunks ds @ rest) of (n, q) \<Rightarrow>
     n = length (render_chunks ds) \<and> p_state q = Complete \<and>
     p_body q = p_body_storage ?c @ concat ds \<and> p_content_length q = length (p_body q) \<and>
     p_method q = p_method ?c \<and> p_target q = p_target ?c \<and> p_path q = p_path ?c \<and>
     p_query q = p_query ?c \<and> p_version q = p_version ?c \<and> p_headers q = p_headers ?c"
    by (rule run_chunks) (use ne lim f in \<open>auto simp: head_parsed_def\<close>)
  then show ?thesis using run_head [OF ok fits, of "render_chunks ds @ rest"]
    unfolding c e f by (simp add: split_beta)
qed

section \<open>Limits\<close>

text \<open>
  The body limit is checked with a sum of type \<open>std::size_t\<close>, so the invariant has a second
  disjunct: a declared chunk whose end lies beyond \<open>2 ^ 64\<close> passes the check. Such a chunk can
  never be received completely, so finished messages obey the limit.
\<close>

definition body_capped :: "parser \<Rightarrow> bool" where
  "body_capped p \<longleftrightarrow>
     p_max_body_bytes p = 0 \<or>
     (case p_state p of
        ChunkData \<Rightarrow> (let n = length (p_body_storage p) + p_chunk_remaining p
                      in n \<le> p_max_body_bytes p \<or> 2 ^ 64 \<le> n)
      | Body \<Rightarrow> p_content_length p \<le> p_max_body_bytes p
      | Error \<Rightarrow> True
      | _ \<Rightarrow> length (p_body_storage p) \<le> p_max_body_bytes p \<or> 2 ^ 64 \<le> length (p_body_storage p))"

definition head_capped :: "parser \<Rightarrow> bool" where
  "head_capped p \<longleftrightarrow>
     p_max_header_bytes p = 0 \<or> p_state p = Error \<or> p_header_bytes p \<le> p_max_header_bytes p"

lemma finish_start_line_simps [simp]:
  "p_body_storage (finish_start_line l p) = p_body_storage p"
  "p_max_body_bytes (finish_start_line l p) = p_max_body_bytes p"
  "p_max_header_bytes (finish_start_line l p) = p_max_header_bytes p"
  "p_header_bytes (finish_start_line l p) = p_header_bytes p"
  by (simp_all add: finish_start_line_def Let_def p_fail_def split: option.splits)

lemma add_header_line_simps [simp]:
  "p_body_storage (add_header_line l p) = p_body_storage p"
  "p_max_body_bytes (add_header_line l p) = p_max_body_bytes p"
  "p_max_header_bytes (add_header_line l p) = p_max_header_bytes p"
  "p_header_bytes (add_header_line l p) = p_header_bytes p"
  by (simp_all add: add_header_line_def Let_def p_fail_def split: option.splits)

lemma end_headers_te_simps [simp]:
  "p_body_storage (end_headers_te p) = p_body_storage p"
  "p_max_body_bytes (end_headers_te p) = p_max_body_bytes p"
  "p_max_header_bytes (end_headers_te p) = p_max_header_bytes p"
  "p_header_bytes (end_headers_te p) = p_header_bytes p"
  "p_content_length (end_headers_te p) = p_content_length p"
  by (simp_all add: end_headers_te_def p_fail_def split: option.splits)

lemma end_headers_cl_simps [simp]:
  "p_body_storage (end_headers_cl p) = p_body_storage p"
  "p_max_body_bytes (end_headers_cl p) = p_max_body_bytes p"
  "p_max_header_bytes (end_headers_cl p) = p_max_header_bytes p"
  "p_header_bytes (end_headers_cl p) = p_header_bytes p"
  by (simp_all add: end_headers_cl_def p_fail_def Let_def split: option.splits prod.splits)

lemma end_headers_simps [simp]:
  "p_body_storage (end_headers p) = p_body_storage p"
  "p_max_body_bytes (end_headers p) = p_max_body_bytes p"
  "p_max_header_bytes (end_headers p) = p_max_header_bytes p"
  "p_header_bytes (end_headers p) = p_header_bytes p"
  by (simp_all add: end_headers_def Let_def)

lemma finish_chunk_size_simps [simp]:
  "p_body_storage (finish_chunk_size l p) = p_body_storage p"
  "p_max_body_bytes (finish_chunk_size l p) = p_max_body_bytes p"
  "p_max_header_bytes (finish_chunk_size l p) = p_max_header_bytes p"
  "p_header_bytes (finish_chunk_size l p) = p_header_bytes p"
  by (simp_all add: finish_chunk_size_def grow_body_bytes_def Let_def p_fail_def split: option.splits prod.splits)

lemma line_action_simps [simp]:
  "p_body_storage (line_action p) = p_body_storage p"
  "p_max_body_bytes (line_action p) = p_max_body_bytes p"
  "p_max_header_bytes (line_action p) = p_max_header_bytes p"
  "p_header_bytes (line_action p) = p_header_bytes p"
  by (simp_all add: line_action_def Let_def split: parse_state.split)

lemma end_headers_cl_capped:
  "p_state p = Headers \<Longrightarrow> p_content_length p = 0 \<Longrightarrow> p_state (end_headers_cl p) = Headers \<Longrightarrow>
   p_max_body_bytes p = 0 \<or> p_content_length (end_headers_cl p) \<le> p_max_body_bytes p"
  by (auto simp: end_headers_cl_def Let_def split: option.splits prod.splits if_splits)

lemma end_headers_capped:
  assumes "p_state p = Headers" "p_content_length p = 0" "p_body_storage p = []"
  shows "body_capped (end_headers p)"
proof (cases "p_state (end_headers_te p) = Error \<or> p_state (end_headers_cl (end_headers_te p)) = Error")
  case True
  then show ?thesis by (auto simp: end_headers_def body_capped_def Let_def)
next
  case False
  then have "p_state (end_headers_te p) = Headers"
    using end_headers_te_state [of p] assms(1) by auto
  moreover from this have "p_state (end_headers_cl (end_headers_te p)) = Headers"
    using end_headers_cl_state [of "end_headers_te p"] False by auto
  ultimately have "p_max_body_bytes p = 0 \<or> p_content_length (end_headers_cl (end_headers_te p)) \<le> p_max_body_bytes p"
    using end_headers_cl_capped [of "end_headers_te p"] assms(2) by simp
  then show ?thesis using False assms(3) by (simp add: end_headers_def body_capped_def Let_def)
qed

lemma finish_chunk_size_capped:
  assumes "p_max_body_bytes p = 0 \<or> length (p_body_storage p) \<le> p_max_body_bytes p
      \<or> 2 ^ 64 \<le> length (p_body_storage p)"
  shows "body_capped (finish_chunk_size l p)"
proof -
  have u: "u64_add a b \<le> m \<Longrightarrow> a + b \<le> m \<or> 2 ^ 64 \<le> a + b" for a b m
    by (cases "a + b < 2 ^ 64") (simp_all add: u64_add_small)
  show ?thesis
    using assms u [of "length (p_body_storage p)" _ "p_max_body_bytes p"]
    by (auto simp: finish_chunk_size_def grow_body_bytes_def body_capped_def Let_def p_fail_def
        split: option.splits prod.splits)
qed

lemma line_action_capped:
  assumes ok: "parser_ok p" and cap: "body_capped p"
  shows "body_capped (line_action p)"
proof (cases "p_state p")
  case StartLine
  with cap finish_start_line_state [of "strip_cr (p_line_buf p)" "p\<lparr>p_line_buf := []\<rparr>"] show ?thesis
    by (auto simp: line_action_def body_capped_def Let_def)
next
  case Headers
  with ok have z: "p_content_length p = 0" "p_body_storage p = []" by (simp_all add: parser_ok_def)
  have "body_capped (add_header_line l (p\<lparr>p_line_buf := []\<rparr>))" for l
    using add_header_line_state [of l "p\<lparr>p_line_buf := []\<rparr>"] Headers z
    by (auto simp: body_capped_def)
  with Headers z show ?thesis
    by (simp add: line_action_def Let_def end_headers_capped)
next
  case ChunkSize
  with cap show ?thesis
    by (simp add: line_action_def Let_def body_capped_def [of p] finish_chunk_size_capped)
next
  case ChunkTrailer
  with cap show ?thesis by (simp add: line_action_def Let_def body_capped_def)
qed (use cap in \<open>simp_all add: line_action_def Let_def body_capped_def\<close>)

lemma push_byte_capped: "body_capped p \<Longrightarrow> body_capped (push_byte c p)"
  by (auto simp: body_capped_def push_byte_def Let_def split: parse_state.splits)

lemma body_capped_header_bytes [simp]: "body_capped (p\<lparr>p_header_bytes := n\<rparr>) = body_capped p"
  by (cases "p_state p") (simp_all add: body_capped_def)

lemma body_capped_fail [simp]: "body_capped (p_fail m s p)" "head_capped (p_fail m s p)"
  by (simp_all add: body_capped_def head_capped_def)

lemma grow_header_bytes_capped:
  assumes "grow_header_bytes n p = (ok, q)" "body_capped p"
  shows "body_capped q"
  using assms by (auto simp: grow_header_bytes_def Let_def split: if_splits)

lemma parse_byte_capped:
  assumes ok: "parser_ok p" and cap: "body_capped p"
  shows "body_capped (parse_byte p c)"
proof -
  obtain k q where g: "grow_header_bytes 1 p = (k, q)" by fastforce
  note q = grow_header_bytes_capped [OF g cap] grow_header_bytes_ok [OF ok g]
  note l = line_action_capped [OF ok cap] line_action_capped [OF q(2,1)]
    push_byte_capped [OF cap] push_byte_capped [OF q(1)]
  show ?thesis
  proof (cases "p_state p")
    case StartLine
    then show ?thesis using l q g by (simp add: parse_byte_def)
  next
    case Headers
    then show ?thesis using l q g by (simp add: parse_byte_def)
  next
    case Body
    with ok cap show ?thesis by (auto simp: parse_byte_def body_capped_def parser_ok_def Let_def)
  next
    case ChunkSize
    then show ?thesis using l by (simp add: parse_byte_def body_capped_def)
  next
    case ChunkData
    with ok have r: "p_chunk_remaining p > 0" by (simp add: parser_ok_def)
    show ?thesis
    proof (cases "p_chunk_remaining p = 1")
      case True
      with ChunkData cap show ?thesis by (auto simp: parse_byte_def body_capped_def Let_def)
    next
      case False
      with r have "Suc (length (p_body_storage p)) + (p_chunk_remaining p - 1) =
          length (p_body_storage p) + p_chunk_remaining p" "p_chunk_remaining p - 1 \<noteq> 0" by simp_all
      with ChunkData cap show ?thesis by (simp add: parse_byte_def body_capped_def Let_def)
    qed
  next
    case ChunkDataEnd
    with cap show ?thesis by (simp add: parse_byte_def body_capped_def)
  next
    case ChunkTrailer
    then show ?thesis using l by (simp add: parse_byte_def body_capped_def)
  qed (simp_all add: parse_byte_def cap)
qed

lemma head_capped_keep:
  "p_header_bytes q = p_header_bytes p \<Longrightarrow> p_max_header_bytes q = p_max_header_bytes p \<Longrightarrow>
   p_state p \<noteq> Error \<Longrightarrow> head_capped p \<Longrightarrow> head_capped q"
  by (auto simp: head_capped_def)

lemma parse_byte_head_capped:
  fixes p :: parser
  assumes hc: "head_capped p" shows "head_capped (parse_byte p c)"
proof -
  obtain k q where g: "grow_header_bytes 1 p = (k, q)" by fastforce
  have q: "head_capped q \<and> (k \<longrightarrow> p_state q = p_state p)"
    using g by (auto simp: grow_header_bytes_def head_capped_def p_fail_def Let_def split: if_splits)
  show ?thesis
  proof (cases "p_state p = StartLine \<or> p_state p = Headers")
    case True
    have "k \<Longrightarrow> head_capped (line_action q)" "k \<Longrightarrow> head_capped (push_byte c q)"
      using q True by (auto intro: head_capped_keep [of _ q] simp: push_byte_def)
    moreover from True g have "parse_byte p c =
        (if k then (if c = LF then line_action q else push_byte c q) else q)"
      by (elim disjE) (simp_all add: parse_byte_def)
    ultimately show ?thesis using q by simp
  next
    case False
    then show ?thesis using hc
      by (cases "p_state p")
        (auto simp: parse_byte_def push_byte_def Let_def head_capped_def)
  qed
qed

lemma parse_byte_max [simp]:
  "p_max_body_bytes (parse_byte p c) = p_max_body_bytes p"
  "p_max_header_bytes (parse_byte p c) = p_max_header_bytes p"
  by (auto simp: parse_byte_def push_byte_def grow_header_bytes_def Let_def p_fail_def
      split: parse_state.split prod.split)

lemma parse_byte_storage: "length (p_body_storage (parse_byte p c)) \<le> Suc (length (p_body_storage p))"
  by (auto simp: parse_byte_def push_byte_def grow_header_bytes_def Let_def p_fail_def
      split: parse_state.split prod.split)

lemma run_bytes_capped:
  "parser_ok p \<Longrightarrow> body_capped p \<Longrightarrow> head_capped p \<Longrightarrow>
   body_capped (snd (run_bytes p data)) \<and> head_capped (snd (run_bytes p data))"
  by (induction data arbitrary: p) (simp_all add: parse_byte_ok parse_byte_capped parse_byte_head_capped)

lemma run_bytes_max:
  "p_max_body_bytes (snd (run_bytes p data)) = p_max_body_bytes p \<and>
   p_max_header_bytes (snd (run_bytes p data)) = p_max_header_bytes p"
  by (induction data arbitrary: p) simp_all

lemma run_bytes_storage:
  "length (p_body_storage (snd (run_bytes p data))) \<le> length (p_body_storage p) + length data"
proof (induction data arbitrary: p)
  case Nil
  show ?case by simp
next
  case (Cons c cs)
  have "length (p_body_storage (snd (run_bytes (parse_byte p c) cs))) \<le>
      length (p_body_storage (parse_byte p c)) + length cs" by (rule Cons.IH)
  also have "\<dots> \<le> length (p_body_storage p) + length (c # cs)" using parse_byte_storage [of p c] by simp
  finally show ?case by simp
qed

lemma run_limits:
  assumes "consume_request (parser_reset p) data = (n, q)" "length data < 2 ^ 64"
  shows "p_max_body_bytes p > 0 \<Longrightarrow> p_state q = Complete \<Longrightarrow> length (p_body q) \<le> p_max_body_bytes p"
    and "p_max_header_bytes p > 0 \<Longrightarrow> p_state q \<noteq> Error \<Longrightarrow> p_header_bytes q \<le> p_max_header_bytes p"
proof -
  let ?p = "parser_reset p"
  have q: "q = snd (run_bytes ?p data)"
    using assms(1) by (simp add: consume_run_bytes new_parser_ok)
  have s0: "p_body_storage ?p = []" by (simp add: parser_reset_def)
  have "body_capped ?p" "head_capped ?p" by (simp_all add: body_capped_def head_capped_def s0)
  then have cap: "body_capped q" "head_capped q"
    using run_bytes_capped [OF new_parser_ok(3)] q by simp_all
  have m: "p_max_body_bytes q = p_max_body_bytes p" "p_max_header_bytes q = p_max_header_bytes p"
    using run_bytes_max [of ?p data] q by simp_all
  have ok: "parser_ok q" using run_bytes_ok [OF new_parser_ok(3)] q by simp
  have l: "length (p_body_storage q) < 2 ^ 64"
    using run_bytes_storage [of ?p data] s0 q assms(2) by simp
  show "p_max_body_bytes p > 0 \<Longrightarrow> p_state q = Complete \<Longrightarrow> length (p_body q) \<le> p_max_body_bytes p"
    using cap(1) m ok l by (simp add: body_capped_def parser_ok_def)
  show "p_max_header_bytes p > 0 \<Longrightarrow> p_state q \<noteq> Error \<Longrightarrow> p_header_bytes q \<le> p_max_header_bytes p"
    using cap(2) m by (simp add: head_capped_def)
qed

section \<open>A chunk that passes the check\<close>

lemma run_chunk_data_part:
  "p_state p = ChunkData \<Longrightarrow> length d < p_chunk_remaining p \<Longrightarrow>
   run_bytes p d = (length d, p\<lparr>p_body_storage := p_body_storage p @ d,
      p_chunk_remaining := p_chunk_remaining p - length d\<rparr>)"
proof (induction d arbitrary: p)
  case Nil
  then show ?case by simp
next
  case (Cons c cs)
  let ?q = "p\<lparr>p_body_storage := p_body_storage p @ [c], p_chunk_remaining := p_chunk_remaining p - 1\<rparr>"
  have "parse_byte p c = ?q" using Cons.prems by (simp add: parse_byte_def Let_def)
  moreover have "run_bytes ?q cs = (length cs, ?q\<lparr>p_body_storage := p_body_storage ?q @ cs,
      p_chunk_remaining := p_chunk_remaining ?q - length cs\<rparr>)"
    by (rule Cons.IH) (use Cons.prems in simp_all)
  ultimately show ?case using Cons.prems(1) by (simp add: parser_done_def)
qed

lemma chunk_wrap_run:
  assumes "p_state p = ChunkSize" "p_line_buf p = []" "length (p_body_storage p) = 1"
    and "length d < 2 ^ 64 - 1"
  shows "run_bytes p (show_hex (2 ^ 64 - 1) @ CRLF @ d) =
    (length (show_hex (2 ^ 64 - 1) @ CRLF @ d),
     p\<lparr>p_chunk_remaining := 2 ^ 64 - 1 - length d, p_state := ChunkData,
       p_body_storage := p_body_storage p @ d\<rparr>)"
proof -
  let ?n = "2 ^ 64 - 1 :: nat"
  let ?q = "p\<lparr>p_chunk_remaining := ?n, p_state := ChunkData\<rparr>"
  have "u64_add 1 ?n = 0" by (simp add: u64_add_def)
  then have "run_bytes p (show_hex ?n @ CRLF @ d) =
      apfst ((+) (length (show_hex ?n) + 2))
        (run_bytes (p\<lparr>p_chunk_remaining := ?n, p_state := if ?n = 0 then ChunkTrailer else ChunkData\<rparr>) d)"
    by (intro run_chunk_size_line) (use assms(1-3) in simp_all)
  moreover have "run_bytes ?q d = (length d, ?q\<lparr>p_body_storage := p_body_storage ?q @ d,
      p_chunk_remaining := p_chunk_remaining ?q - length d\<rparr>)"
    by (rule run_chunk_data_part) (use assms(4) in simp_all)
  ultimately show ?thesis by simp
qed

section \<open>Properties\<close>

text \<open>C1: On every reachable parser state, \<open>consume\<close> (with its seven handlers that each
  swallow as many bytes as they can) behaves exactly like the machine that reads one byte at a
  time: same count of consumed bytes, same resulting state.\<close>

theorem consume_refines_byte_machine:
  "parser_ok p \<Longrightarrow>
     consume_request p data = run_bytes p data \<and> parser_ok (snd (consume_request p data))"
  by (simp add: consume_run_bytes run_bytes_ok)

theorem consume_refines_byte_machine_witness:
  "consume_request new_parser ''GET'' = run_bytes new_parser ''GET''
     \<and> parser_ok (snd (consume_request new_parser ''GET''))"
  using consume_refines_byte_machine [OF new_parser_ok(1), of "''GET''"] .

text \<open>C2: How the network cuts the request stream into reads is irrelevant: feeding the pieces
  one after the other leaves the parser in the state that feeding the whole stream does.\<close>

theorem parser_split_invariance:
  "parser_ok p \<Longrightarrow> concat pieces = concat pieces' \<Longrightarrow>
     foldl parser_feed p pieces = foldl parser_feed p pieces' \<and>
     foldl parser_feed p pieces = parser_feed p (concat pieces)"
  by (simp add: parser_stream.feed_concat)

theorem parser_split_invariance_witness:
  "foldl parser_feed new_parser [''GE'', ''T /''] = foldl parser_feed new_parser [''G'', ''ET '', ''/''] \<and>
   foldl parser_feed new_parser [''GE'', ''T /''] = parser_feed new_parser (concat [''GE'', ''T /''])"
  by (rule parser_split_invariance [OF new_parser_ok(1)]) simp

text \<open>Bytes past the end of a message are never consumed, and no byte of an unfinished
  message is left: the parser stops at the shortest prefix that completes (or breaks) the
  message, and the rest of the input has no influence on the result.\<close>

lemma consume_stops_at_message_end:
  "consume_request (parser_reset p) data = (n, q) \<Longrightarrow>
     n \<le> length data \<and> (\<not> parser_done q \<longrightarrow> n = length data) \<and>
     consume_request (parser_reset p) (take n data) = (n, q) \<and>
     (\<forall>k < n. \<not> parser_done (snd (consume_request (parser_reset p) (take k data))))"
  using run_bytes_le [of "parser_reset p" data] run_bytes_all [of "parser_reset p" data]
    run_bytes_prefix [of "parser_reset p" data n q]
  by (simp add: consume_run_bytes new_parser_ok)

lemma consume_stops_at_message_end_example:
  "consume_request (parser_reset new_parser) [] = (0, parser_reset new_parser) \<and>
   \<not> parser_done (parser_reset new_parser)"
proof -
  have 1: "consume_request (parser_reset new_parser) [] = (0, parser_reset new_parser)"
    by (simp add: consume_request.simps)
  have "\<not> parser_done (parser_reset new_parser)" by (simp add: parser_done_def)
  with consume_stops_at_message_end [OF 1] 1 show ?thesis by simp
qed

text \<open>C3: A request rendered with any method, target and headers and a body announced by
  \<open>Content-Length\<close> is parsed back to exactly its parts, whatever follows it on the connection
  and whatever the parser parsed before its reset, and exactly its bytes are consumed.\<close>

theorem request_roundtrip:
  "request_ok m t ver hs \<Longrightarrow> head_fits p (length (render_head m t ver hs)) \<Longrightarrow>
   length_framed hs body \<Longrightarrow>
   p_max_body_bytes p = 0 \<or> length body \<le> p_max_body_bytes p \<Longrightarrow> length body < 2 ^ 63 \<Longrightarrow>
   case consume_request (parser_reset p) (render_head m t ver hs @ body @ rest) of (n, q) \<Rightarrow>
     n = length (render_head m t ver hs @ body) \<and> p_state q = Complete \<and> p_method q = m \<and>
     p_target q = t \<and> p_path q = path_of t \<and> p_query q = query_of t \<and> p_version q = ver \<and>
     p_headers q = hs \<and> p_body q = body"
  by (rule request_length_run)

theorem request_roundtrip_witness:
  "case consume_request (parser_reset new_parser)
     (render_head POST ''/a?b'' ''HTTP/1.1'' [(''Content-Length'', ''2'')] @ ''hi'' @ ''GET'') of (n, q) \<Rightarrow>
     n = length (render_head POST ''/a?b'' ''HTTP/1.1'' [(''Content-Length'', ''2'')] @ ''hi'') \<and>
     p_state q = Complete \<and> p_method q = POST \<and> p_target q = ''/a?b'' \<and>
     p_path q = path_of ''/a?b'' \<and> p_query q = query_of ''/a?b'' \<and> p_version q = ''HTTP/1.1'' \<and>
     p_headers q = [(''Content-Length'', ''2'')] \<and> p_body q = ''hi''"
proof (rule request_roundtrip)
  show "request_ok POST ''/a?b'' ''HTTP/1.1'' [(''Content-Length'', ''2'')]"
    by (simp add: request_ok_def target_ok_def header_ok_def is_blank_def trim_view_def)
  show "head_fits new_parser (length (render_head POST ''/a?b'' ''HTTP/1.1'' [(''Content-Length'', ''2'')]))"
    by (simp add: head_fits_def new_parser_def render_head_def render_header_def)
  show "length_framed [(''Content-Length'', ''2'')] ''hi''"
    by code_simp
qed (simp_all add: new_parser_def)

text \<open>C4: A chunked request is parsed back to the concatenation of its chunks, the chunk
  framing and the terminating chunk consumed and nothing after it.\<close>

theorem chunked_roundtrip:
  "request_ok m t ver hs \<Longrightarrow> head_fits p (length (render_head m t ver hs)) \<Longrightarrow>
   chunk_framed hs \<Longrightarrow> [] \<notin> set ds \<Longrightarrow>
   p_max_body_bytes p = 0 \<or> length (concat ds) \<le> p_max_body_bytes p \<Longrightarrow> length (concat ds) < 2 ^ 64 \<Longrightarrow>
   case consume_request (parser_reset p) (render_head m t ver hs @ render_chunks ds @ rest) of (n, q) \<Rightarrow>
     n = length (render_head m t ver hs @ render_chunks ds) \<and> p_state q = Complete \<and>
     p_method q = m \<and> p_target q = t \<and> p_path q = path_of t \<and> p_query q = query_of t \<and>
     p_version q = ver \<and> p_headers q = hs \<and> p_body q = concat ds"
  by (rule request_chunked_run)

theorem chunked_roundtrip_witness:
  "case consume_request (parser_reset new_parser)
     (render_head PUT ''/'' ''HTTP/1.1'' [(''Transfer-Encoding'', ''chunked'')] @ render_chunks [''ab'', ''c''] @ []) of (n, q) \<Rightarrow>
     n = length (render_head PUT ''/'' ''HTTP/1.1'' [(''Transfer-Encoding'', ''chunked'')] @ render_chunks [''ab'', ''c'']) \<and>
     p_state q = Complete \<and> p_method q = PUT \<and> p_target q = ''/'' \<and> p_path q = path_of ''/'' \<and>
     p_query q = query_of ''/'' \<and> p_version q = ''HTTP/1.1'' \<and>
     p_headers q = [(''Transfer-Encoding'', ''chunked'')] \<and> p_body q = concat [''ab'', ''c'']"
proof (rule chunked_roundtrip)
  show "request_ok PUT ''/'' ''HTTP/1.1'' [(''Transfer-Encoding'', ''chunked'')]"
    by (simp add: request_ok_def target_ok_def header_ok_def is_blank_def trim_view_def)
  show "head_fits new_parser (length (render_head PUT ''/'' ''HTTP/1.1'' [(''Transfer-Encoding'', ''chunked'')]))"
    by (simp add: head_fits_def new_parser_def render_head_def render_header_def)
  show "chunk_framed [(''Transfer-Encoding'', ''chunked'')]"
    by (simp add: chunk_framed_def hm_get_def ci_equal_def tolower_ascii_def ascii_lower_def)
qed (simp_all add: new_parser_def)



text \<open>A request with both a chunked \<open>Transfer-Encoding\<close> and a \<open>Content-Length\<close> is
  rejected with 400 at the blank line (the request-smuggling guard), and a
  \<open>Transfer-Encoding\<close> without \<open>chunked\<close> is rejected with 501.\<close>

lemma ambiguous_framing_rejected:
  "hm_get (p_headers p) ''Transfer-Encoding'' = Some te \<Longrightarrow> p_state p = Headers \<Longrightarrow>
   hm_get (p_headers p) ''Content-Length'' = Some cl \<Longrightarrow>
     p_state (end_headers p) = Error \<and>
     p_err_status (end_headers p) =
       (if find_sub ''chunked'' (map ascii_lower te) = None then NotImplemented else BadRequest)"
  by (simp add: end_headers_def end_headers_te_def end_headers_cl_def Let_def)

text \<open>The limit does not bound what the parser buffers: after a first chunk of one byte a
  declared chunk of \<open>2 ^ 64 - 1\<close> bytes passes the check (the sum wraps to zero), and every
  following byte is stored without an error, whatever \<open>max_body_bytes\<close> is.\<close>

theorem chunk_limit_bypass:
  "p_state p = ChunkSize \<Longrightarrow> p_line_buf p = [] \<Longrightarrow> length (p_body_storage p) = 1 \<Longrightarrow> parser_ok p \<Longrightarrow>
   length d < 2 ^ 64 - 1 \<Longrightarrow>
     case consume_request p (show_hex (2 ^ 64 - 1) @ CRLF @ d) of (n, q) \<Rightarrow>
       p_state q = ChunkData \<and> p_max_body_bytes q = p_max_body_bytes p \<and>
       length (p_body_storage q) = 1 + length d"
  by (simp only: consume_run_bytes chunk_wrap_run) simp

theorem chunk_limit_bypass_witness:
  "case consume_request (new_parser\<lparr>p_state := ChunkSize, p_body_storage := ''A'', p_max_body_bytes := 2\<rparr>)
      (show_hex (2 ^ 64 - 1) @ CRLF @ ''BCDEF'') of (n, q) \<Rightarrow>
       p_state q = ChunkData \<and> p_max_body_bytes q = 2 \<and> length (p_body_storage q) = 6"
proof -
  let ?p = "new_parser\<lparr>p_state := ChunkSize, p_body_storage := ''A'', p_max_body_bytes := 2\<rparr>"
  have "case consume_request ?p (show_hex (2 ^ 64 - 1) @ CRLF @ ''BCDEF'') of (n, q) \<Rightarrow>
       p_state q = ChunkData \<and> p_max_body_bytes q = p_max_body_bytes ?p \<and>
       length (p_body_storage q) = 1 + length ''BCDEF''"
    by (rule chunk_limit_bypass) (simp_all add: new_parser_def parser_ok_def)
  moreover have "p_max_body_bytes ?p = 2" "1 + length ''BCDEF'' = 6" by simp_all
  ultimately show ?thesis by (simp only:)
qed

end
