(* ===== verification/FramingLaws.thy ===== *)
theory FramingLaws
  imports ParserLaws
begin

text \<open>
  Request smuggling: no message of \<open>src/detail/http_parser_sm.cpp\<close> completes with framing that its
  header fields leave open. The statement is about every input; the proof is an invariant of the machine
  that reads one byte at a time.
\<close>

section \<open>What the header fields say of the body's length\<close>

text \<open>\<open>n\<close> is the length announced to a parser that is not reading chunks.\<close>

definition announces :: "header_map \<Rightarrow> nat \<Rightarrow> bool" where
  "announces hs n \<longleftrightarrow>
     (case hm_get hs ''Content-Length'' of
        None \<Rightarrow> n = 0
      | Some s \<Rightarrow> (case strtoll 10 s of (v, e, erange) \<Rightarrow> v = int n \<and> e \<noteq> 0 \<and> at_end s e \<and> \<not> erange))"

definition announces_chunks :: "header_map \<Rightarrow> bool" where
  "announces_chunks hs \<longleftrightarrow>
     hm_get hs ''Content-Length'' = None \<and>
     (case hm_get hs ''Transfer-Encoding'' of
        None \<Rightarrow> False | Some te \<Rightarrow> find_sub ''chunked'' (map ascii_lower te) \<noteq> None)"

definition framing_decided :: "parser \<Rightarrow> bool" where
  "framing_decided p \<longleftrightarrow>
     (if p_chunked p then announces_chunks (p_headers p)
      else hm_get (p_headers p) ''Transfer-Encoding'' = None \<and> announces (p_headers p) (p_content_length p))"

definition framing_ok :: "parser \<Rightarrow> bool" where
  "framing_ok p \<longleftrightarrow>
     (p_state p \<notin> {StartLine, Headers, Error} \<longrightarrow> framing_decided p) \<and>
     (p_state p \<in> {ChunkSize, ChunkData, ChunkDataEnd, ChunkTrailer} \<longrightarrow> p_chunked p)"

section \<open>The blank line decides\<close>

lemma end_headers_te_decides:
  assumes "p_state p = Headers" "\<not> p_chunked p"
  shows "p_state (end_headers_te p) = Error \<or>
    p_state (end_headers_te p) = Headers \<and> p_headers (end_headers_te p) = p_headers p \<and>
    (if p_chunked (end_headers_te p)
     then \<exists>te. hm_get (p_headers p) ''Transfer-Encoding'' = Some te \<and> find_sub ''chunked'' (map ascii_lower te) \<noteq> None
     else hm_get (p_headers p) ''Transfer-Encoding'' = None)"
  using assms by (auto simp: end_headers_te_def split: option.split)

lemma end_headers_cl_decides:
  assumes "p_state p = Headers" "p_content_length p = 0"
  shows "p_state (end_headers_cl p) = Error \<or>
    p_state (end_headers_cl p) = Headers \<and> p_headers (end_headers_cl p) = p_headers p \<and>
    p_chunked (end_headers_cl p) = p_chunked p \<and>
    (if p_chunked p then hm_get (p_headers p) ''Content-Length'' = None
     else announces (p_headers p) (p_content_length (end_headers_cl p)))"
proof (cases "hm_get (p_headers p) ''Content-Length''")
  case None
  then show ?thesis using assms by (simp add: end_headers_cl_def announces_def)
next
  case (Some s)
  obtain v e er where "strtoll 10 s = (v, e, er)" by (cases "strtoll 10 s") auto
  then show ?thesis using assms Some by (auto simp: end_headers_cl_def announces_def Let_def)
qed

lemma end_headers_framing:
  assumes "p_state p = Headers" "p_content_length p = 0" "\<not> p_chunked p"
  shows "framing_ok (end_headers p)"
proof -
  let ?q = "end_headers_te p"
  have c: "p_content_length ?q = 0" using assms(2) by simp
  show ?thesis
  proof (cases "p_state ?q = Error \<or> p_state (end_headers_cl ?q) = Error")
    case True
    then show ?thesis by (auto simp: end_headers_def framing_ok_def Let_def)
  next
    case False
    then have q: "p_state ?q = Headers" "p_headers ?q = p_headers p"
      "if p_chunked ?q
       then \<exists>te. hm_get (p_headers p) ''Transfer-Encoding'' = Some te \<and> find_sub ''chunked'' (map ascii_lower te) \<noteq> None
       else hm_get (p_headers p) ''Transfer-Encoding'' = None"
      using end_headers_te_decides [OF assms(1,3)] by blast+
    have r: "p_headers (end_headers_cl ?q) = p_headers p" "p_chunked (end_headers_cl ?q) = p_chunked ?q"
      "if p_chunked ?q then hm_get (p_headers p) ''Content-Length'' = None
       else announces (p_headers p) (p_content_length (end_headers_cl ?q))"
      using end_headers_cl_decides [OF q(1) c] False unfolding q(2) by blast+
    have "framing_decided (end_headers_cl ?q)"
      unfolding framing_decided_def r(1,2) using q(3) r(3) by (auto simp: announces_chunks_def split: if_splits)
    then show ?thesis
      using False by (auto simp: end_headers_def framing_ok_def framing_decided_def Let_def)
  qed
qed

section \<open>Reading the body changes nothing of it\<close>

lemma finish_chunk_size_keeps [simp]:
  "p_headers (finish_chunk_size l p) = p_headers p" "p_chunked (finish_chunk_size l p) = p_chunked p"
  "p_content_length (finish_chunk_size l p) = p_content_length p"
  by (simp_all add: finish_chunk_size_def grow_body_bytes_def p_fail_def Let_def split: option.splits prod.splits)

lemma framing_ok_cong:
  "p_headers q = p_headers p \<Longrightarrow> p_chunked q = p_chunked p \<Longrightarrow>
   p_chunked p \<or> p_content_length q = p_content_length p \<Longrightarrow> framing_decided q = framing_decided p"
  by (auto simp: framing_decided_def)

lemma line_action_framing:
  assumes "parser_ok p" "framing_ok p"
  shows "framing_ok (line_action p)"
proof (cases "p_state p")
  case StartLine
  then show ?thesis using finish_start_line_state [of "strip_cr (p_line_buf p)" "p\<lparr>p_line_buf := []\<rparr>"]
    by (auto simp: line_action_def framing_ok_def Let_def)
next
  case Headers
  then have z: "p_content_length p = 0" "\<not> p_chunked p" using assms(1) by (simp_all add: parser_ok_def)
  have "framing_ok (add_header_line l (p\<lparr>p_line_buf := []\<rparr>))" for l
    using add_header_line_state [of l "p\<lparr>p_line_buf := []\<rparr>"] Headers by (auto simp: framing_ok_def)
  then show ?thesis using Headers z by (simp add: line_action_def Let_def end_headers_framing)
next
  case ChunkSize
  then have "p_chunked p" "framing_decided p" using assms(2) by (simp_all add: framing_ok_def)
  then show ?thesis using ChunkSize by (simp add: line_action_def Let_def framing_ok_def framing_decided_def)
next
  case ChunkTrailer
  then have "p_chunked p" "framing_decided p" using assms(2) by (simp_all add: framing_ok_def)
  then show ?thesis using ChunkTrailer by (simp add: line_action_def Let_def framing_ok_def framing_decided_def)
qed (use assms(2) in \<open>simp_all add: line_action_def Let_def framing_ok_def framing_decided_def\<close>)

lemma framing_ok_same:
  "p_headers q = p_headers p \<Longrightarrow> p_chunked q = p_chunked p \<Longrightarrow> p_content_length q = p_content_length p \<Longrightarrow>
   p_state q = p_state p \<Longrightarrow> framing_ok p \<Longrightarrow> framing_ok q"
  by (simp add: framing_ok_def framing_decided_def)

lemma framing_ok_fail [simp]: "framing_ok (p_fail m s p)"
  by (simp add: framing_ok_def)

lemma framing_ok_push: "framing_ok p \<Longrightarrow> framing_ok (push_byte c p)"
  by (erule framing_ok_same [rotated -1]) (simp_all add: push_byte_def)

lemma grow_header_bytes_framing: "grow_header_bytes n p = (ok, q) \<Longrightarrow> framing_ok p \<Longrightarrow> framing_ok q"
  by (auto simp: grow_header_bytes_def Let_def framing_ok_def framing_decided_def split: if_splits)

lemma parse_byte_framing:
  fixes p :: parser
  assumes "parser_ok p" "framing_ok p"
  shows "framing_ok (parse_byte p c)"
proof -
  obtain k q where g: "grow_header_bytes 1 p = (k, q)" by fastforce
  note q = grow_header_bytes_ok [OF assms(1) g] grow_header_bytes_framing [OF g assms(2)]
  note l = line_action_framing [OF assms] line_action_framing [OF q] framing_ok_push [OF assms(2)] framing_ok_push [OF q(2)]
  show ?thesis
  proof (cases "p_state p")
    case StartLine
    then show ?thesis using l q g by (simp add: parse_byte_def)
  next
    case Headers
    then show ?thesis using l q g by (simp add: parse_byte_def)
  next
    case Body
    with assms(2) show ?thesis by (simp add: parse_byte_def framing_ok_def framing_decided_def Let_def)
  next
    case ChunkSize
    then show ?thesis using l by (simp add: parse_byte_def)
  next
    case ChunkData
    with assms(2) show ?thesis by (simp add: parse_byte_def framing_ok_def framing_decided_def Let_def)
  next
    case ChunkDataEnd
    with assms(2) show ?thesis by (simp add: parse_byte_def framing_ok_def framing_decided_def)
  next
    case ChunkTrailer
    then show ?thesis using l by (simp add: parse_byte_def)
  qed (simp_all add: parse_byte_def assms(2))
qed

lemma run_bytes_framing: "parser_ok p \<Longrightarrow> framing_ok p \<Longrightarrow> framing_ok (snd (run_bytes p data))"
  by (induction data arbitrary: p) (simp_all add: parse_byte_ok parse_byte_framing)

section \<open>The property\<close>

text \<open>C6: The length of a message is never a matter of interpretation. Whatever bytes arrive, a request that the
  parser completes carries at most one of \<open>Transfer-Encoding\<close> and \<open>Content-Length\<close>: with the former it names
  \<open>chunked\<close>, with the latter the body has exactly the length the whole field value denotes, and with neither the
  body is empty. A request that has both can only end in an error.\<close>

theorem framing_unambiguous:
  assumes "consume_request (parser_reset p) data = (n, q)" "p_state q = Complete"
  shows "case (hm_get (p_headers q) ''Transfer-Encoding'', hm_get (p_headers q) ''Content-Length'') of
      (None, None) \<Rightarrow> p_body q = []
    | (None, Some s) \<Rightarrow> \<exists>e. strtoll 10 s = (int (length (p_body q)), e, False) \<and> e \<noteq> 0 \<and> at_end s e
    | (Some te, None) \<Rightarrow> find_sub ''chunked'' (map ascii_lower te) \<noteq> None
    | (Some _, Some _) \<Rightarrow> False"
proof -
  have r: "q = snd (run_bytes (parser_reset p) data)" using assms(1) by (simp add: consume_run_bytes new_parser_ok)
  have "framing_ok (parser_reset p)" by (simp add: framing_ok_def)
  then have f: "framing_decided q"
    using run_bytes_framing [OF new_parser_ok(3), of p data] assms(2) by (simp add: r framing_ok_def)
  have b: "length (p_body q) = p_content_length q"
    using run_bytes_ok [OF new_parser_ok(3), of p data] assms(2) by (auto simp: r parser_ok_def)
  show ?thesis
  proof (cases "p_chunked q")
    case True
    then show ?thesis using f by (auto simp: framing_decided_def announces_chunks_def split: option.splits)
  next
    case False
    then show ?thesis using f b
      by (auto simp: framing_decided_def announces_def split: option.splits prod.splits)
  qed
qed

theorem framing_unambiguous_witness:
  "let q = snd (consume_request (parser_reset new_parser) (render_head POST ''/'' ''HTTP/1.1'' [(''Content-Length'', ''2'')] @ ''hi'' @ []))
   in p_state q = Complete \<and> (\<exists>e. strtoll 10 ''2'' = (int (length (p_body q)), e, False) \<and> e \<noteq> 0 \<and> at_end ''2'' e)"
proof -
  let ?hs = "[(''Content-Length'', ''2'')]"
  let ?r = "render_head POST ''/'' ''HTTP/1.1'' ?hs @ ''hi'' @ []"
  have k: "request_ok POST ''/'' ''HTTP/1.1'' ?hs"
    by (simp add: request_ok_def target_ok_def header_ok_def is_blank_def trim_view_def)
  have f: "head_fits new_parser (length (render_head POST ''/'' ''HTTP/1.1'' ?hs))"
    by (simp add: head_fits_def new_parser_def render_head_def render_header_def)
  have l: "length_framed ?hs ''hi''" by code_simp
  obtain n q where c: "consume_request (parser_reset new_parser) ?r = (n, q)" by fastforce
  have h: "p_state q = Complete" "p_headers q = ?hs"
    using request_length_run [OF k f l, of "[]"] c by (simp_all add: new_parser_def)
  have g: "hm_get ?hs ''Transfer-Encoding'' = None" "hm_get ?hs ''Content-Length'' = Some ''2''"
    by (simp_all add: hm_get_def ci_equal_def tolower_ascii_def ascii_lower_def)
  from framing_unambiguous [OF c h(1)] show ?thesis using c h(1) by (simp add: Let_def h(2) g)
qed

end
