(* ===== verification/Base64.thy ===== *)
theory Base64
  imports Utils
begin

text \<open>
  The base64 codecs of \<open>src/detail/utils.cpp\<close>: the padded standard alphabet (used for the
  WebSocket accept key) and the unpadded URL alphabet (used for cookies and tokens), with the
  decoder's 32-bit accumulator written out. The locale \<open>codec\<close> is the contract of an encoder
  and its decoder; it is interpreted on \<open>base64url_encode\<close>/\<open>base64url_decode\<close> here and on
  the other codecs of the program in their theories.
\<close>

section \<open>Definitions\<close>

definition kB64Std :: string where
  "kB64Std = ''ABCDEFGHIJKLMNOPQRSTUVWXYZabcdefghijklmnopqrstuvwxyz0123456789+/''"

definition kB64 :: string where
  "kB64 = ''ABCDEFGHIJKLMNOPQRSTUVWXYZabcdefghijklmnopqrstuvwxyz0123456789-_''"

text \<open>\<open>(v >> k) & 63\<close>.\<close>

abbreviation sextet :: "nat \<Rightarrow> nat \<Rightarrow> nat" where
  "sextet v k \<equiv> v div 2 ^ k mod 64"

fun base64_encode :: "string \<Rightarrow> string" where
  "base64_encode (a # b # c # rest) =
     (let v = ord a * 2 ^ 16 + ord b * 2 ^ 8 + ord c
      in [kB64Std ! sextet v 18, kB64Std ! sextet v 12, kB64Std ! sextet v 6, kB64Std ! sextet v 0]
         @ base64_encode rest)"
| "base64_encode [a] =
     (let v = ord a * 2 ^ 16
      in [kB64Std ! sextet v 18, kB64Std ! sextet v 12, CHR ''='', CHR ''=''])"
| "base64_encode [a, b] =
     (let v = ord a * 2 ^ 16 + ord b * 2 ^ 8
      in [kB64Std ! sextet v 18, kB64Std ! sextet v 12, kB64Std ! sextet v 6, CHR ''=''])"
| "base64_encode [] = []"

fun base64url_encode :: "string \<Rightarrow> string" where
  "base64url_encode (a # b # c # rest) =
     (let v = ord a * 2 ^ 16 + ord b * 2 ^ 8 + ord c
      in [kB64 ! sextet v 18, kB64 ! sextet v 12, kB64 ! sextet v 6, kB64 ! sextet v 0]
         @ base64url_encode rest)"
| "base64url_encode [a] =
     (let v = ord a * 2 ^ 16
      in [kB64 ! sextet v 18, kB64 ! sextet v 12])"
| "base64url_encode [a, b] =
     (let v = ord a * 2 ^ 16 + ord b * 2 ^ 8
      in [kB64 ! sextet v 18, kB64 ! sextet v 12, kB64 ! sextet v 6])"
| "base64url_encode [] = []"

text \<open>The lambda \<open>val\<close> of the decoder; \<open>None\<close> is its \<open>-1\<close>.\<close>

definition b64_val :: "char \<Rightarrow> nat option" where
  "b64_val c =
     (if 65 \<le> ord c \<and> ord c \<le> 90 then Some (ord c - 65)
      else if 97 \<le> ord c \<and> ord c \<le> 122 then Some (ord c - 97 + 26)
      else if 48 \<le> ord c \<and> ord c \<le> 57 then Some (ord c - 48 + 52)
      else if c = CHR ''-'' then Some 62
      else if c = CHR ''_'' then Some 63
      else None)"

text \<open>The decoder's loop: \<open>acc\<close> is a \<open>uint32_t\<close>, \<open>bits\<close> the number of pending bits.\<close>

fun b64_loop :: "nat \<Rightarrow> nat \<Rightarrow> string \<Rightarrow> string option" where
  "b64_loop acc bits [] = Some []"
| "b64_loop acc bits (c # cs) =
     (case b64_val c of
        None \<Rightarrow> None
      | Some v \<Rightarrow>
          (let acc' = (acc * 64 + v) mod 2 ^ 32;
               bits' = bits + 6
           in if bits' \<ge> 8
              then map_option ((#) (chr (acc' div 2 ^ (bits' - 8) mod 256)))
                     (b64_loop acc' (bits' - 8) cs)
              else b64_loop acc' bits' cs))"

definition base64url_decode :: "string \<Rightarrow> string option" where
  "base64url_decode s = (if length s mod 4 = 1 then None else b64_loop 0 0 s)"

section \<open>The contract of a codec\<close>

locale codec =
  fixes valid :: "'a \<Rightarrow> bool"
    and enc :: "'a \<Rightarrow> 'b"
    and dec :: "'b \<Rightarrow> 'a option"
  assumes dec_enc: "valid x \<Longrightarrow> dec (enc x) = Some x"
begin

lemma enc_inject: "valid x \<Longrightarrow> valid y \<Longrightarrow> enc x = enc y \<longleftrightarrow> x = y"
  using dec_enc by (metis option.inject)

lemma enc_decodes: "valid x \<Longrightarrow> dec (enc x) \<noteq> None"
  by (simp add: dec_enc)

end

section \<open>The URL alphabet round trip\<close>

lemma b64_val_kB64_all: "list_all (\<lambda>n. b64_val (kB64 ! n) = Some n) [0..<64]"
  by code_simp

lemma b64_val_kB64: "n < 64 \<Longrightarrow> b64_val (kB64 ! n) = Some n"
  using b64_val_kB64_all by (simp add: list_all_iff)

lemma b64_val_less: "b64_val c = Some v \<Longrightarrow> v < 64"
  by (auto simp: b64_val_def split: if_splits)

text \<open>A byte taken out of the accumulator never sees the bits lost to the 32-bit width.\<close>

lemma acc_byte: "k + 8 \<le> 32 \<Longrightarrow> (x mod 2 ^ 32) div 2 ^ k mod 256 = x div 2 ^ k mod (256 :: nat)"
proof -
  assume k: "k + 8 \<le> 32"
  have "take_bit 8 (drop_bit k (take_bit 32 x)) = take_bit 8 (drop_bit k x)"
    by (rule bit_eqI) (use k in \<open>auto simp: bit_take_bit_iff bit_drop_bit_eq\<close>)
  then show ?thesis by (simp add: take_bit_eq_mod drop_bit_eq_div)
qed

lemma acc_step: "(x mod m * 64 + v) mod m = (x * 64 + v) mod (m :: nat)"
  by (metis mod_add_left_eq mod_mult_left_eq)

lemma chr_eqI: "m mod 256 = ord c \<Longrightarrow> chr m = c"
  by (metis chr_ord char_of_mod_256)

lemma acc_chr: "k + 8 \<le> 32 \<Longrightarrow> chr ((x mod 2 ^ 32) div 2 ^ k) = chr (x div 2 ^ k)"
  by (metis acc_byte char_of_mod_256)

lemma b64_loop_emit:
  assumes "b64_val c = Some v" "m = k + 2" "m < 8"
  shows "b64_loop (x mod 2 ^ 32) m (c # cs) =
    map_option ((#) (chr ((x * 64 + v) div 2 ^ k))) (b64_loop ((x * 64 + v) mod 2 ^ 32) k cs)"
proof -
  have "b64_loop (x mod 2 ^ 32) m (c # cs) =
    map_option ((#) (chr ((x mod 2 ^ 32 * 64 + v) mod 2 ^ 32 div 2 ^ k)))
      (b64_loop ((x mod 2 ^ 32 * 64 + v) mod 2 ^ 32) k cs)"
    using assms by (simp add: Let_def)
  also have "(x mod 2 ^ 32 * 64 + v) mod 2 ^ 32 = (x * 64 + v) mod 2 ^ 32" by (rule acc_step)
  also have "chr ((x * 64 + v) mod 2 ^ 32 div 2 ^ k) = chr ((x * 64 + v) div 2 ^ k)"
    by (rule acc_chr) (use assms in simp)
  finally show ?thesis .
qed

lemma b64_loop_2:
  assumes "b64_val c1 = Some v1" "b64_val c2 = Some v2"
  shows "b64_loop acc 0 (c1 # c2 # cs) =
    map_option ((#) (chr (4 * v1 + v2 div 16)))
      (b64_loop (((acc * 64 + v1) * 64 + v2) mod 2 ^ 32) 4 cs)"
proof -
  have v: "v1 < 64" "v2 < 64" using assms by (auto dest: b64_val_less)
  have "((acc * 64 + v1) * 64 + v2) div 2 ^ 4 = (4 * v1 + v2 div 16) + acc * 256" by simp
  then have "chr (((acc * 64 + v1) * 64 + v2) div 2 ^ 4) = chr (4 * v1 + v2 div 16)"
    by (metis mod_mult_self1 char_of_mod_256)
  moreover have "b64_loop acc 0 (c1 # c2 # cs) = b64_loop ((acc * 64 + v1) mod 2 ^ 32) 6 (c2 # cs)"
    using assms(1) by (simp add: Let_def)
  moreover have "b64_loop ((acc * 64 + v1) mod 2 ^ 32) 6 (c2 # cs) =
    map_option ((#) (chr (((acc * 64 + v1) * 64 + v2) div 2 ^ 4)))
      (b64_loop (((acc * 64 + v1) * 64 + v2) mod 2 ^ 32) 4 cs)"
    by (rule b64_loop_emit) (use assms in simp_all)
  ultimately show ?thesis by (simp only:)
qed

lemma num_eqs: "(4 :: nat) = 2 + 2" "(2 :: nat) = 0 + 2" "(4 :: nat) < 8" "(2 :: nat) < 8"
  by simp_all

lemma b64_loop_3rd:
  assumes "b64_val c = Some v"
  shows "b64_loop (x mod 2 ^ 32) 4 (c # cs) =
    map_option ((#) (chr ((x * 64 + v) div 4))) (b64_loop ((x * 64 + v) mod 2 ^ 32) 2 cs)"
proof -
  have "(x * 64 + v) div 2 ^ 2 = (x * 64 + v) div 4" by simp
  with b64_loop_emit [OF assms num_eqs(1,3), of x cs] show ?thesis by (simp only:)
qed

lemma b64_loop_4th:
  assumes "b64_val c = Some v"
  shows "b64_loop (x mod 2 ^ 32) 2 (c # cs) =
    map_option ((#) (chr (x * 64 + v))) (b64_loop ((x * 64 + v) mod 2 ^ 32) 0 cs)"
proof -
  have "(x * 64 + v) div 2 ^ 0 = x * 64 + v" by simp
  with b64_loop_emit [OF assms num_eqs(2,4), of x cs] show ?thesis by (simp only:)
qed

lemma split_byte_div: "(x::nat) < m * n \<Longrightarrow> 0 < n \<Longrightarrow> \<exists>p q. x = n * p + q \<and> q < n \<and> p < m"
  by (rule exI [of _ "x div n"], rule exI [of _ "x mod n"]) (simp add: less_mult_imp_div_less)

lemma sextets:
  fixes p q r s t u :: nat
  assumes "p < 64" "q < 4" "r < 16" "s < 16" "t < 4" "u < 64"
  defines "v \<equiv> (4 * p + q) * 2 ^ 16 + (16 * r + s) * 2 ^ 8 + (64 * t + u)"
  shows "v div 2 ^ 18 mod 64 = p" "v div 2 ^ 12 mod 64 = 16 * q + r"
    "v div 2 ^ 6 mod 64 = 4 * s + t" "v div 2 ^ 0 mod 64 = u"
proof -
  have "v div 2 ^ 18 = p"
    by (rule nat_div_eqI [where r = "v - p * 2 ^ 18"]) (use assms in simp_all)
  with assms show "v div 2 ^ 18 mod 64 = p" by simp
  have "v div 2 ^ 12 = p * 64 + (16 * q + r)"
    by (rule nat_div_eqI [where r = "v - (p * 64 + (16 * q + r)) * 2 ^ 12"]) (use assms in simp_all)
  with assms show "v div 2 ^ 12 mod 64 = 16 * q + r" by simp
  have "v div 2 ^ 6 = (p * 64 + (16 * q + r)) * 64 + (4 * s + t)"
    by (rule nat_div_eqI [where r = u]) (use assms in simp_all)
  then show "v div 2 ^ 6 mod 64 = 4 * s + t"
    by (intro nat_mod_eqI [where q = "p * 64 + (16 * q + r)"]) (use assms in simp_all)
  show "v div 2 ^ 0 mod 64 = u"
    using div_mod_eqI [of v "((p * 64 + (16 * q + r)) * 64 + (4 * s + t))" 64 u] assms by simp
qed
lemma bytes_of_sextets:
  fixes p q r s t u :: nat
  assumes "p < 64" "q < 4" "r < 16" "s < 16" "t < 4" "u < 64"
  shows "4 * p + (16 * q + r) div 16 = 4 * p + q"
   "((x * 64 + (16 * q + r)) * 64 + (4 * s + t)) div 4 mod 256 = 16 * r + s"
   "((x * 64 + (4 * s + t)) * 64 + u) mod 256 = 64 * t + u"
proof -
  show "4 * p + (16 * q + r) div 16 = 4 * p + q" using assms by simp
  have "((x * 64 + (16 * q + r)) * 64 + (4 * s + t)) div 4 = (4 * x + q) * 256 + (16 * r + s)"
    by (rule nat_div_eqI [where r = t]) (use assms in simp_all)
  then show "((x * 64 + (16 * q + r)) * 64 + (4 * s + t)) div 4 mod 256 = 16 * r + s"
    by (intro nat_mod_eqI [where q = "4 * x + q"]) (use assms in simp_all)
  show "((x * 64 + (4 * s + t)) * 64 + u) mod 256 = 64 * t + u"
    by (rule nat_mod_eqI [where q = "16 * x + s"]) (use assms in simp_all)
qed
lemma byte_split: "\<exists>p q. ord c = n * p + q \<and> q < n \<and> p < m" if "m * n = 256"
  using that by (intro split_byte_div) (auto intro: ccontr)

lemma b64_loop_encode: "b64_loop acc 0 (base64url_encode s) = Some s"
proof (induction s arbitrary: acc rule: base64url_encode.induct)
  case (1 a b c rest)
  obtain p q where a: "ord a = 4 * p + q" "q < 4" "p < 64" using byte_split [of 64 4 a] by auto
  obtain r s where b: "ord b = 16 * r + s" "s < 16" "r < 16" using byte_split [of 16 16 b] by auto
  obtain t u where c: "ord c = 64 * t + u" "u < 64" "t < 4" using byte_split [of 4 64 c] by auto
  note ln = a(3,2) b(3,2) c(3,2)
  note byt = bytes_of_sextets [OF ln]
  have "base64url_encode (a # b # c # rest) =
      kB64 ! p # kB64 ! (16 * q + r) # kB64 ! (4 * s + t) # kB64 ! u # base64url_encode rest"
    by (simp only: base64url_encode.simps Let_def append.simps a(1) b(1) c(1) sextets [OF ln])
  moreover have "chr (4 * p + (16 * q + r) div 16) = a" using byt(1) a(1) by (metis chr_ord)
  moreover have "chr (((x * 64 + (16 * q + r)) * 64 + (4 * s + t)) div 4) = b" for x
    using byt(2) b(1) by (intro chr_eqI) simp
  moreover have "chr ((x * 64 + (4 * s + t)) * 64 + u) = c" for x
    using byt(3) c(1) by (intro chr_eqI) simp
  moreover have "p < 64" "16 * q + r < 64" "4 * s + t < 64" "u < 64" using ln by simp_all
  ultimately show ?case using 1 [OF refl]
    by (simp only: b64_loop_2 b64_loop_3rd b64_loop_4th b64_val_kB64 option.map)
next
  case (2 a)
  obtain p q where a: "ord a = 4 * p + q" "q < 4" "p < 64" using byte_split [of 64 4 a] by auto
  have ln: "p < 64" "q < 4" "0 < (16 :: nat)" "0 < (16 :: nat)" "0 < (4 :: nat)" "0 < (64 :: nat)"
    using a by simp_all
  have "base64url_encode [a] = [kB64 ! p, kB64 ! (16 * q + 0)]"
    using sextets [OF ln] a(1) by (simp add: Let_def)
  moreover have "chr (4 * p + (16 * q + 0) div 16) = a"
    using bytes_of_sextets(1) [OF ln] a(1) by (metis chr_ord)
  moreover have "p < 64" "16 * q + 0 < 64" using ln by simp_all
  ultimately show ?case
    by (simp only: b64_loop_2 b64_val_kB64 b64_loop.simps(1) option.map)
next
  case (3 a b)
  obtain p q where a: "ord a = 4 * p + q" "q < 4" "p < 64" using byte_split [of 64 4 a] by auto
  obtain r s where b: "ord b = 16 * r + s" "s < 16" "r < 16" using byte_split [of 16 16 b] by auto
  have ln: "p < 64" "q < 4" "r < 16" "s < 16" "0 < (4 :: nat)" "0 < (64 :: nat)"
    using a b by simp_all
  note byt = bytes_of_sextets [OF ln]
  have "base64url_encode [a, b] = [kB64 ! p, kB64 ! (16 * q + r), kB64 ! (4 * s + 0)]"
    using sextets(1-3) [OF ln] a(1) b(1) by (simp add: Let_def)
  moreover have "chr (4 * p + (16 * q + r) div 16) = a" using byt(1) a(1) by (metis chr_ord)
  moreover have "chr (((x * 64 + (16 * q + r)) * 64 + (4 * s + 0)) div 4) = b" for x
    using byt(2) b(1) by (intro chr_eqI) simp
  moreover have "p < 64" "16 * q + r < 64" "4 * s + 0 < 64" using ln by simp_all
  ultimately show ?case
    by (simp only: b64_loop_2 b64_loop_3rd b64_val_kB64 b64_loop.simps(1) option.map)
qed simp

lemma div_add3: "(3 + n) div 3 = Suc (n div 3)" "(5 + n) div 3 = Suc (Suc (Suc n) div 3)"
  by linarith+

lemma length_base64url_encode:
  "length (base64url_encode s) = 4 * (length s div 3) + (if length s mod 3 = 0 then 0 else length s mod 3 + 1)"
  by (induction s rule: base64url_encode.induct) (auto simp: Let_def div_add3)

lemma base64url_decode_encode: "base64url_decode (base64url_encode s) = Some s"
proof -
  have "length s mod 3 < 3" by simp
  then have "length (base64url_encode s) mod 4 \<noteq> 1"
    by (auto simp: length_base64url_encode)
  then show ?thesis by (simp add: base64url_decode_def b64_loop_encode)
qed

interpretation b64url: codec "\<lambda>_ :: string. True" base64url_encode base64url_decode
  by unfold_locales (rule base64url_decode_encode)

text \<open>Every character of an encoding is in the alphabet; in particular it holds no \<open>.\<close>.\<close>

lemma kB64_nth_set: "n < 64 \<Longrightarrow> kB64 ! n \<in> set kB64"
  by (rule nth_mem) (simp add: kB64_def)

lemma base64url_alphabet: "set (base64url_encode s) \<subseteq> set kB64"
  by (induction s rule: base64url_encode.induct) (auto simp: Let_def intro!: kB64_nth_set)

lemma kB64_no_dot: "CHR ''.'' \<notin> set kB64" "CHR '';'' \<notin> set kB64" "SP \<notin> set kB64"
  by (simp_all add: kB64_def)

lemma base64url_no_dot: "CHR ''.'' \<notin> set (base64url_encode s)"
  using base64url_alphabet kB64_no_dot by blast

lemma b64_loop_length:
  "b64_loop acc bits s = Some d \<Longrightarrow> bits < 8 \<Longrightarrow> length d = (6 * length s + bits) div 8"
proof (induction acc bits s arbitrary: d rule: b64_loop.induct)
  case (1 acc bits)
  then show ?case by simp
next
  case (2 acc bits c cs)
  then obtain v where v: "b64_val c = Some v" by (auto split: option.splits)
  show ?case
  proof (cases "bits + 6 \<ge> 8")
    case True
    with v "2.prems" obtain e where e: "length d = Suc (length e)"
      "b64_loop ((acc * 64 + v) mod 2 ^ 32) (bits + 6 - 8) cs = Some e"
      by (auto simp: Let_def)
    from "2.IH"(1) [OF v refl refl True e(2)] "2.prems" have "length e = (6 * length cs + (bits + 6 - 8)) div 8"
      by simp
    moreover have "6 * length (c # cs) + bits = 6 * length cs + (bits + 6 - 8) + 8" using True by simp
    ultimately show ?thesis using e by simp
  next
    case False
    with v "2.prems" have "b64_loop ((acc * 64 + v) mod 2 ^ 32) (bits + 6) cs = Some d"
      by (simp add: Let_def)
    from "2.IH"(2) [OF v refl refl False this] False show ?thesis by (simp add: algebra_simps)
  qed
qed

section \<open>The padded standard encoding\<close>

text \<open>It is the URL encoding with the two last symbols exchanged, padded to a multiple of four.\<close>

definition std_of_url :: "char \<Rightarrow> char" where
  "std_of_url c = (if c = CHR ''-'' then CHR ''+'' else if c = CHR ''_'' then CHR ''/'' else c)"

lemma kB64_std_all: "list_all (\<lambda>n. kB64Std ! n = std_of_url (kB64 ! n)) [0..<64]"
  by code_simp

lemma kB64_std: "n < 64 \<Longrightarrow> kB64Std ! n = std_of_url (kB64 ! n)"
  using kB64_std_all by (simp add: list_all_iff)

lemma base64_encode_url:
  "base64_encode s =
     map std_of_url (base64url_encode s) @ replicate ((3 - length s mod 3) mod 3) CHR ''=''"
  by (induction s rule: base64_encode.induct)
    (simp_all add: Let_def kB64_std numeral_2_eq_2 mod_Suc)

lemma length_base64_encode: "length (base64_encode s) = 4 * ((length s + 2) div 3)"
  by (induction s rule: base64_encode.induct) (simp_all add: Let_def div_add3)

end
