(* ===== verification/Digest.thy ===== *)
theory Digest
  imports Base64
begin

text \<open>
  SHA-256, HMAC-SHA256 and SHA-1 of \<open>src/detail/utils.cpp\<close>: the compression functions on
  32-bit words, and the context (\<open>h\<close>, \<open>total\<close>, \<open>buf\<close> with \<open>buflen\<close>) that collects
  the input into 64-byte blocks. The lemmas show that a context may be fed in any pieces (an
  interpretation of \<open>incremental\<close>), that \<open>finish\<close> terminates, and that the digest is the
  fold of the compression function over the blocks of the padded message of FIPS 180-4.
\<close>

unbundle bit_operations_syntax

section \<open>Definitions\<close>

subsection \<open>The compression functions\<close>

definition K256 :: "32 word list" where
  "K256 =
     [0x428a2f98, 0x71374491, 0xb5c0fbcf, 0xe9b5dba5, 0x3956c25b, 0x59f111f1] @
     [0x923f82a4, 0xab1c5ed5, 0xd807aa98, 0x12835b01, 0x243185be, 0x550c7dc3] @
     [0x72be5d74, 0x80deb1fe, 0x9bdc06a7, 0xc19bf174, 0xe49b69c1, 0xefbe4786] @
     [0x0fc19dc6, 0x240ca1cc, 0x2de92c6f, 0x4a7484aa, 0x5cb0a9dc, 0x76f988da] @
     [0x983e5152, 0xa831c66d, 0xb00327c8, 0xbf597fc7, 0xc6e00bf3, 0xd5a79147] @
     [0x06ca6351, 0x14292967, 0x27b70a85, 0x2e1b2138, 0x4d2c6dfc, 0x53380d13] @
     [0x650a7354, 0x766a0abb, 0x81c2c92e, 0x92722c85, 0xa2bfe8a1, 0xa81a664b] @
     [0xc24b8b70, 0xc76c51a3, 0xd192e819, 0xd6990624, 0xf40e3585, 0x106aa070] @
     [0x19a4c116, 0x1e376c08, 0x2748774c, 0x34b0bcb5, 0x391c0cb3, 0x4ed8aa4a] @
     [0x5b9cca4f, 0x682e6ff3, 0x748f82ee, 0x78a5636f, 0x84c87814, 0x8cc70208] @
     [0x90befffa, 0xa4506ceb, 0xbef9a3f7, 0xc67178f2]"

definition rotr :: "32 word \<Rightarrow> nat \<Rightarrow> 32 word" where
  "rotr x n = drop_bit n x OR push_bit (32 - n) x"

definition sha1_rotl :: "32 word \<Rightarrow> nat \<Rightarrow> 32 word" where
  "sha1_rotl x n = push_bit n x OR drop_bit (32 - n) x"

text \<open>The big-endian word at byte \<open>4 * i\<close> of a block.\<close>

definition be_word :: "string \<Rightarrow> nat \<Rightarrow> 32 word" where
  "be_word p i =
     push_bit 24 (of_nat (ord (p ! (4 * i)))) OR push_bit 16 (of_nat (ord (p ! (4 * i + 1)))) OR
     push_bit 8 (of_nat (ord (p ! (4 * i + 2)))) OR of_nat (ord (p ! (4 * i + 3)))"

text \<open>The bytes \<open>h[i] >> 24\<close>, \<open>>> 16\<close>, \<open>>> 8\<close> and \<open>h[i]\<close>.\<close>

definition word_bytes :: "32 word \<Rightarrow> string" where
  "word_bytes x = map (\<lambda>k. chr (unat (drop_bit k x))) [24, 16, 8, 0]"

fun sha256_schedule :: "nat \<Rightarrow> 32 word list \<Rightarrow> 32 word list" where
  "sha256_schedule 0 w = w"
| "sha256_schedule (Suc n) w =
     (let i = length w;
          s0 = rotr (w ! (i - 15)) 7 XOR rotr (w ! (i - 15)) 18 XOR drop_bit 3 (w ! (i - 15));
          s1 = rotr (w ! (i - 2)) 17 XOR rotr (w ! (i - 2)) 19 XOR drop_bit 10 (w ! (i - 2))
      in sha256_schedule n (w @ [w ! (i - 16) + s0 + w ! (i - 7) + s1]))"

fun sha256_rounds :: "(32 word \<times> 32 word) list \<Rightarrow>
    32 word \<times> 32 word \<times> 32 word \<times> 32 word \<times> 32 word \<times> 32 word \<times> 32 word \<times> 32 word \<Rightarrow>
    32 word list" where
  "sha256_rounds [] (a, b, c, d, e, f, g, hh) = [a, b, c, d, e, f, g, hh]"
| "sha256_rounds ((k, w) # kws) (a, b, c, d, e, f, g, hh) =
     (let S1 = rotr e 6 XOR rotr e 11 XOR rotr e 25;
          ch = (e AND f) XOR (NOT e AND g);
          t1 = hh + S1 + ch + k + w;
          S0 = rotr a 2 XOR rotr a 13 XOR rotr a 22;
          mj = (a AND b) XOR (a AND c) XOR (b AND c);
          t2 = S0 + mj
      in sha256_rounds kws (t1 + t2, a, b, c, d + t1, e, f, g))"

definition sha256_process :: "string \<Rightarrow> 32 word list \<Rightarrow> 32 word list" where
  "sha256_process p h =
     (let w = sha256_schedule 48 (map (be_word p) [0..<16])
      in map2 (+) h
           (sha256_rounds (zip K256 w) (h ! 0, h ! 1, h ! 2, h ! 3, h ! 4, h ! 5, h ! 6, h ! 7)))"

fun sha1_schedule :: "nat \<Rightarrow> 32 word list \<Rightarrow> 32 word list" where
  "sha1_schedule 0 w = w"
| "sha1_schedule (Suc n) w =
     (let i = length w
      in sha1_schedule n
           (w @ [sha1_rotl (w ! (i - 3) XOR w ! (i - 8) XOR w ! (i - 14) XOR w ! (i - 16)) 1]))"

fun sha1_rounds :: "nat \<Rightarrow> 32 word list \<Rightarrow>
    32 word \<times> 32 word \<times> 32 word \<times> 32 word \<times> 32 word \<Rightarrow> 32 word list" where
  "sha1_rounds i [] (a, b, c, d, e) = [a, b, c, d, e]"
| "sha1_rounds i (w # ws) (a, b, c, d, e) =
     (let (f, k) =
        (if i < 20 then ((b AND c) OR (NOT b AND d), 0x5A827999)
         else if i < 40 then (b XOR c XOR d, 0x6ED9EBA1)
         else if i < 60 then ((b AND c) OR (b AND d) OR (c AND d), 0x8F1BBCDC)
         else (b XOR c XOR d, 0xCA62C1D6));
          t = sha1_rotl a 5 + f + e + k + w
      in sha1_rounds (Suc i) ws (t, a, sha1_rotl b 30, c, d))"

definition sha1_process :: "string \<Rightarrow> 32 word list \<Rightarrow> 32 word list" where
  "sha1_process p h =
     (let w = sha1_schedule 64 (map (be_word p) [0..<16])
      in map2 (+) h (sha1_rounds 0 w (h ! 0, h ! 1, h ! 2, h ! 3, h ! 4)))"

subsection \<open>Contexts\<close>

text \<open>
  \<open>buf\<close> holds the first \<open>buflen\<close> bytes of the C array. The two classes have the same
  \<open>update\<close> and \<open>finish\<close> but for the compression function, which is the first argument here.
\<close>

record sha_ctx =
  ctx_h :: "32 word list"
  ctx_total :: nat
  ctx_buf :: string

text \<open>
  The loop of \<open>update\<close>. A full buffer never meets it (\<open>buflen < 64\<close> is an invariant);
  the guard stands for the loop that would copy nothing for ever.
\<close>

function sha_absorb :: "(string \<Rightarrow> 32 word list \<Rightarrow> 32 word list) \<Rightarrow> 32 word list \<Rightarrow> string \<Rightarrow>
    string \<Rightarrow> 32 word list \<times> string" where
  "sha_absorb proc h buf data =
     (if data = [] \<or> length buf \<ge> 64 then (h, buf)
      else let n = min (length data) (64 - length buf);
               buf' = buf @ take n data;
               rest = drop n data
           in if length buf' = 64 then sha_absorb proc (proc buf' h) [] rest
              else sha_absorb proc h buf' rest)"
  by pat_completeness auto
termination
  by (relation "measure (\<lambda>(proc, h, buf, data). length data)") auto

declare sha_absorb.simps [simp del]

definition sha_update :: "(string \<Rightarrow> 32 word list \<Rightarrow> 32 word list) \<Rightarrow> sha_ctx \<Rightarrow> string \<Rightarrow> sha_ctx" where
  "sha_update proc c data =
     (let (h, buf) = sha_absorb proc (ctx_h c) (ctx_buf c) data
      in \<lparr>ctx_h = h, ctx_total = u64_add (ctx_total c) (length data), ctx_buf = buf\<rparr>)"

text \<open>\<open>while (buflen != 56) update(&zero, 1)\<close>, with fuel; 64 steps always suffice.\<close>

fun sha_pad :: "(string \<Rightarrow> 32 word list \<Rightarrow> 32 word list) \<Rightarrow> nat \<Rightarrow> sha_ctx \<Rightarrow> sha_ctx option" where
  "sha_pad proc 0 c = (if length (ctx_buf c) = 56 then Some c else None)"
| "sha_pad proc (Suc n) c =
     (if length (ctx_buf c) = 56 then Some c else sha_pad proc n (sha_update proc c [NUL]))"

definition be64 :: "nat \<Rightarrow> string" where
  "be64 bits = map (\<lambda>i. chr (bits div 2 ^ (56 - 8 * i) mod 256)) [0..<8]"

definition sha_finish :: "(string \<Rightarrow> 32 word list \<Rightarrow> 32 word list) \<Rightarrow> sha_ctx \<Rightarrow> string option" where
  "sha_finish proc c =
     (let bits = u64_mul (ctx_total c) 8
      in case sha_pad proc 64 (sha_update proc c [CHR 0x80]) of
           None \<Rightarrow> None
         | Some c' \<Rightarrow> Some (concat (map word_bytes (ctx_h (sha_update proc c' (be64 bits))))))"

definition sha256_init :: sha_ctx where
  "sha256_init =
     \<lparr>ctx_h = [0x6a09e667, 0xbb67ae85, 0x3c6ef372, 0xa54ff53a,
                0x510e527f, 0x9b05688c, 0x1f83d9ab, 0x5be0cd19],
      ctx_total = 0, ctx_buf = []\<rparr>"

definition sha1_init :: sha_ctx where
  "sha1_init =
     \<lparr>ctx_h = [0x67452301, 0xEFCDAB89, 0x98BADCFE, 0x10325476, 0xC3D2E1F0],
      ctx_total = 0, ctx_buf = []\<rparr>"

definition sha256 :: "string \<Rightarrow> string" where
  "sha256 data =
     (case sha_finish sha256_process (sha_update sha256_process sha256_init data) of
        None \<Rightarrow> [] | Some d \<Rightarrow> d)"

definition sha1 :: "string \<Rightarrow> string" where
  "sha1 data =
     (case sha_finish sha1_process (sha_update sha1_process sha1_init data) of
        None \<Rightarrow> [] | Some d \<Rightarrow> d)"

definition xor_byte :: "nat \<Rightarrow> char \<Rightarrow> char" where
  "xor_byte k c = chr (ord c XOR k)"

definition hmac_sha256 :: "string \<Rightarrow> string \<Rightarrow> string" where
  "hmac_sha256 key data =
     (let k = (if length key > 64 then sha256 key else key);
          kblock = k @ replicate (64 - length k) NUL;
          inner = map (xor_byte 0x36) kblock @ data;
          ih = sha256 inner;
          outer = map (xor_byte 0x5c) kblock @ ih
      in sha256 outer)"

section \<open>The reference: blocks of a padded message\<close>

function blocks_fold :: "(string \<Rightarrow> 32 word list \<Rightarrow> 32 word list) \<Rightarrow> 32 word list \<Rightarrow> string \<Rightarrow>
    32 word list \<times> string" where
  "blocks_fold proc h data =
     (if length data < 64 then (h, data)
      else blocks_fold proc (proc (take 64 data) h) (drop 64 data))"
  by pat_completeness auto
termination
  by (relation "measure (\<lambda>(proc, h, data). length data)") auto

declare blocks_fold.simps [simp del]

definition fips_pad :: "string \<Rightarrow> string" where
  "fips_pad data =
     data @ CHR 0x80 # replicate ((119 - length data mod 64) mod 64) NUL @ be64 (8 * length data)"

lemma blocks_fold_append:
  "blocks_fold proc h (xs @ ys) =
     (case blocks_fold proc h xs of (h', r) \<Rightarrow> blocks_fold proc h' (r @ ys))"
proof (induction proc h xs rule: blocks_fold.induct)
  case (1 proc h data)
  show ?case
  proof (cases "length data < 64")
    case True
    then show ?thesis by (simp add: blocks_fold.simps [of proc h data])
  next
    case False
    then have "blocks_fold proc h (data @ ys) =
        blocks_fold proc (proc (take 64 data) h) (drop 64 data @ ys)"
      by (subst blocks_fold.simps) simp
    with 1 [OF False] False show ?thesis by (simp add: blocks_fold.simps [of proc h data])
  qed
qed

lemma blocks_fold_rest: "blocks_fold proc h xs = (h', r) \<Longrightarrow> length r < 64 \<and> length r = length xs mod 64"
proof (induction proc h xs rule: blocks_fold.induct)
  case (1 proc h data)
  then show ?case
    by (cases "length data < 64") (auto simp: blocks_fold.simps [of proc h data] le_mod_geq)
qed

lemma absorb_blocks:
  "length buf < 64 \<Longrightarrow> sha_absorb proc h buf data = blocks_fold proc h (buf @ data)"
proof (induction proc h buf data rule: sha_absorb.induct)
  case (1 proc h buf data)
  show ?case
  proof (cases "data = []")
    case True
    with 1 show ?thesis by (simp add: sha_absorb.simps blocks_fold.simps)
  next
    case False
    define n where "n = min (length data) (64 - length buf)"
    have d: "\<not> (data = [] \<or> length buf \<ge> 64)" using False "1.prems" by simp
    show ?thesis
    proof (cases "length (buf @ take n data) = 64")
      case True
      then have "length buf + n = 64" "n \<le> length data" by (auto simp: n_def)
      then have "take 64 (buf @ data) = buf @ take n data" "drop 64 (buf @ data) = drop n data"
        "\<not> length (buf @ data) < 64"
        by (auto simp: \<open>length buf + n = 64\<close> [symmetric])
      with "1.IH"(1) [OF d n_def refl refl True] True d show ?thesis
        by (subst sha_absorb.simps, subst blocks_fold.simps) (simp add: n_def Let_def)
    next
      case False
      then have "length (buf @ take n data) < 64" "drop n data = []" "take n data = data"
        using d by (auto simp: n_def min_def split: if_splits)
      with "1.IH"(2) [OF d n_def refl refl False] False d show ?thesis
        by (subst sha_absorb.simps) (simp add: n_def Let_def)
    qed
  qed
qed

definition ctx_ok :: "sha_ctx \<Rightarrow> bool" where
  "ctx_ok c \<longleftrightarrow> length (ctx_buf c) < 64 \<and> ctx_total c < 2 ^ 64"

lemma sha_update_ok: "ctx_ok c \<Longrightarrow> ctx_ok (sha_update proc c data)"
  by (auto simp: ctx_ok_def sha_update_def absorb_blocks u64_add_def split: prod.splits
      dest: blocks_fold_rest)

lemma sha_update_append:
  assumes "ctx_ok c"
  shows "sha_update proc c (xs @ ys) = sha_update proc (sha_update proc c xs) ys"
proof -
  have b: "length (ctx_buf c) < 64" using assms by (simp add: ctx_ok_def)
  obtain h r where hr: "blocks_fold proc (ctx_h c) (ctx_buf c @ xs) = (h, r)" by fastforce
  with blocks_fold_rest have r: "length r < 64" by blast
  have "blocks_fold proc (ctx_h c) (ctx_buf c @ xs @ ys) = blocks_fold proc h (r @ ys)"
    using blocks_fold_append [of proc "ctx_h c" "ctx_buf c @ xs" ys] hr by simp
  with hr b r show ?thesis
    by (simp add: sha_update_def absorb_blocks u64_add_def mod_simps add.assoc split: prod.splits)
qed

lemma sha_update_Nil: "ctx_ok c \<Longrightarrow> sha_update proc c [] = c"
  by (simp add: sha_update_def sha_absorb.simps ctx_ok_def u64_add_def)

interpretation sha: incremental ctx_ok "sha_update proc"
  by unfold_locales (simp_all add: sha_update_Nil sha_update_append sha_update_ok)

section \<open>Padding\<close>

lemma buf_length_update:
  "ctx_ok c \<Longrightarrow> length (ctx_buf (sha_update proc c data)) = (length (ctx_buf c) + length data) mod 64"
  by (auto simp: ctx_ok_def sha_update_def absorb_blocks split: prod.splits dest: blocks_fold_rest)

text \<open>The arithmetic of the padding, checked for every fill level of the buffer.\<close>

lemma pad_arith_all:
  "list_all (\<lambda>r. (120 - (r + 1) mod 64) mod 64 = (119 - r) mod 64
      \<and> (r + (1 + ((119 - r) mod 64 + 8))) mod 64 = 0
      \<and> (r = 56 \<or> (120 - r) mod 64 = Suc ((120 - (r + 1) mod 64) mod 64))) [0..<64]"
  by code_simp

lemma pad_arith:
  assumes "r < 64"
  shows "(120 - (r + 1) mod 64) mod 64 = (119 - r) mod 64"
    and "(r + (1 + ((119 - r) mod 64 + 8))) mod 64 = 0"
    and "r \<noteq> 56 \<Longrightarrow> (120 - r) mod 64 = Suc ((120 - (r + 1) mod 64) mod 64)"
proof -
  have "r \<in> set [0..<64]" using assms by simp
  with pad_arith_all show "(120 - (r + 1) mod 64) mod 64 = (119 - r) mod 64"
    "(r + (1 + ((119 - r) mod 64 + 8))) mod 64 = 0"
    "r \<noteq> 56 \<Longrightarrow> (120 - r) mod 64 = Suc ((120 - (r + 1) mod 64) mod 64)"
    unfolding list_all_iff by blast+
qed

text \<open>The zero loop stops after exactly the missing number of bytes.\<close>

lemma sha_pad_zeros:
  "ctx_ok c \<Longrightarrow> (120 - length (ctx_buf c)) mod 64 \<le> fuel \<Longrightarrow>
   sha_pad proc fuel c = Some (sha_update proc c (replicate ((120 - length (ctx_buf c)) mod 64) NUL))"
proof (induction fuel arbitrary: c)
  case 0
  then have "length (ctx_buf c) < 64" by (simp add: ctx_ok_def)
  moreover from "0.prems"(2) have "(120 - length (ctx_buf c)) mod 64 = 0" by (simp only: le_zero_eq)
  ultimately have "length (ctx_buf c) = 56" using pad_arith(3) [of "length (ctx_buf c)"] by force
  with 0 show ?case by (simp add: sha_update_Nil)
next
  case (Suc n)
  let ?b = "length (ctx_buf c)" and ?c = "sha_update proc c [NUL]"
  from Suc.prems have b: "?b < 64" by (simp add: ctx_ok_def)
  show ?case
  proof (cases "?b = 56")
    case True
    with Suc.prems show ?thesis by (simp add: sha_update_Nil)
  next
    case False
    define m where "m = (120 - ?b) mod 64"
    have b': "length (ctx_buf ?c) = (?b + 1) mod 64"
      using buf_length_update [OF Suc.prems(1), of proc "[NUL]"] by simp
    have s: "m = Suc ((120 - (?b + 1) mod 64) mod 64)"
      unfolding m_def using pad_arith(3) [OF b False] .
    then have "sha_pad proc n ?c =
        Some (sha_update proc ?c (replicate (m - 1) NUL))"
      using Suc.IH [OF sha_update_ok [OF Suc.prems(1)], of proc "[NUL]"] b' Suc.prems(2)
      by (simp add: m_def)
    moreover have "sha_update proc ?c (replicate (m - 1) NUL) = sha_update proc c (replicate m NUL)"
      using sha_update_append [OF Suc.prems(1), of proc "[NUL]" "replicate (m - 1) NUL"] s
      by (metis append_Cons append_Nil diff_Suc_1 replicate_Suc)
    ultimately show ?thesis using False by (simp add: m_def)
  qed
qed

lemma sha_update_init:
  assumes "ctx_buf c = []" "ctx_total c = 0"
  shows "sha_update proc c data =
    (let (h, r) = blocks_fold proc (ctx_h c) data
     in \<lparr>ctx_h = h, ctx_total = length data mod 2 ^ 64, ctx_buf = r\<rparr>)"
  using assms by (simp add: sha_update_def absorb_blocks u64_add_def)

lemma be64_mod: "be64 (n mod 2 ^ 64) = be64 n"
proof -
  have "(n mod 2 ^ 64) div 2 ^ k mod 256 = n div 2 ^ k mod (256 :: nat)" if "k + 8 \<le> 64" for k
  proof -
    have "take_bit 8 (drop_bit k (take_bit 64 n)) = take_bit 8 (drop_bit k n)"
      by (rule bit_eqI) (use that in \<open>auto simp: bit_take_bit_iff bit_drop_bit_eq\<close>)
    then show ?thesis by (simp add: take_bit_eq_mod drop_bit_eq_div)
  qed
  then show ?thesis by (auto simp: be64_def)
qed

lemma pad_amount: "(120 - (n + 1) mod 64) mod 64 = (119 - n mod 64) mod (64 :: nat)"
proof -
  have "(n + 1) mod 64 = (n mod 64 + 1) mod 64" by (rule mod_add_left_eq [symmetric])
  then show ?thesis using pad_arith(1) [of "n mod 64"] by (simp only: mod_less_divisor)
qed

text \<open>Init, update and finish compute the fold over the blocks of the padded message.\<close>

lemma sha_finish_padded:
  assumes "ctx_buf c = []" "ctx_total c = 0"
  shows "sha_finish proc (sha_update proc c data) =
    Some (concat (map word_bytes (fst (blocks_fold proc (ctx_h c) (fips_pad data)))))"
proof -
  let ?z = "replicate ((119 - length data mod 64) mod 64) NUL"
  have ok: "ctx_ok c" using assms by (simp add: ctx_ok_def)
  define c1 where "c1 = sha_update proc (sha_update proc c data) [CHR 0x80]"
  have c1: "c1 = sha_update proc c (data @ [CHR 0x80])" and ok1: "ctx_ok c1"
    unfolding c1_def using ok by (simp_all add: sha_update_append sha_update_ok)
  have b1: "length (ctx_buf c1) = (length data + 1) mod 64"
    unfolding c1 using buf_length_update [OF ok] assms by simp
  have le: "(119 - length data mod 64) mod 64 \<le> 64"
    by (rule less_imp_le, rule mod_less_divisor) simp
  have pad: "sha_pad proc 64 c1 = Some (sha_update proc c1 ?z)"
    using sha_pad_zeros [OF ok1, of 64 proc] le unfolding b1 pad_amount by blast
  have t: "ctx_total (sha_update proc c data) = length data mod 2 ^ 64"
    using assms by (simp add: sha_update_init split: prod.splits)
  have "u64_mul (length data mod 2 ^ 64) 8 = (8 * length data) mod 2 ^ 64"
    unfolding u64_mul_def by (metis mod_mult_left_eq mult.commute)
  then have be: "be64 (u64_mul (length data mod 2 ^ 64) 8) = be64 (8 * length data)"
    by (simp only: be64_mod)
  have "sha_update proc (sha_update proc c1 ?z) (be64 (8 * length data)) = sha_update proc c (fips_pad data)"
    unfolding c1 fips_pad_def using ok by (simp add: sha_update_append [symmetric])
  then show ?thesis
    using pad be t assms unfolding c1_def
    by (simp add: sha_finish_def Let_def sha_update_init split: prod.splits)
qed

lemma length_fips_pad: "length (fips_pad data) mod 64 = 0"
proof -
  have "length (be64 m) = 8" for m by (simp add: be64_def)
  moreover have "(n + (1 + ((119 - n mod 64) mod 64 + 8))) mod 64 = 0" for n :: nat
  proof -
    have "(n mod 64 + (1 + ((119 - n mod 64) mod 64 + 8))) mod 64 = 0"
      by (rule pad_arith(2)) simp
    then show ?thesis by (metis mod_add_left_eq)
  qed
  ultimately show ?thesis by (simp add: fips_pad_def)
qed

lemma sha256_padded:
  "sha256 data = concat (map word_bytes (fst (blocks_fold sha256_process (ctx_h sha256_init) (fips_pad data))))"
  by (simp add: sha256_def sha256_init_def sha_finish_padded)

lemma sha1_padded:
  "sha1 data = concat (map word_bytes (fst (blocks_fold sha1_process (ctx_h sha1_init) (fips_pad data))))"
  by (simp add: sha1_def sha1_init_def sha_finish_padded)

section \<open>Digest lengths\<close>

lemma length_sha256_rounds [simp]: "length (sha256_rounds kws s) = 8"
  by (induction kws s rule: sha256_rounds.induct) (simp_all add: Let_def)

lemma length_sha1_rounds [simp]: "length (sha1_rounds i ws s) = 5"
  by (induction i ws s rule: sha1_rounds.induct) (simp_all add: Let_def split: prod.splits)

lemma blocks_fold_length:
  assumes "\<And>p h. length h = n \<Longrightarrow> length (proc p h) = n" "length h = n"
  shows "length (fst (blocks_fold proc h data)) = n"
  using assms
proof (induction proc h data rule: blocks_fold.induct)
  case (1 proc h data)
  then show ?case by (cases "length data < 64") (simp_all add: blocks_fold.simps [of proc h data])
qed

lemma length_word_bytes: "length (word_bytes x) = 4"
  by (simp add: word_bytes_def)

lemma length_sha256: "length (sha256 data) = 32"
proof -
  have "length (fst (blocks_fold sha256_process (ctx_h sha256_init) (fips_pad data))) = 8"
    by (rule blocks_fold_length) (simp_all add: sha256_process_def sha256_init_def Let_def)
  then show ?thesis
    by (simp add: sha256_padded length_concat_const [where k = 4] length_word_bytes)
qed

lemma length_sha1: "length (sha1 data) = 20"
proof -
  have "length (fst (blocks_fold sha1_process (ctx_h sha1_init) (fips_pad data))) = 5"
    by (rule blocks_fold_length) (simp_all add: sha1_process_def sha1_init_def Let_def)
  then show ?thesis
    by (simp add: sha1_padded length_concat_const [where k = 4] length_word_bytes)
qed

lemma length_hmac: "length (hmac_sha256 key data) = 32"
  by (simp add: hmac_sha256_def Let_def length_sha256)

end
