(* ===== verification/Messages.thy ===== *)
theory Messages
  imports Http
begin

text \<open>
  Requests, responses, cookies: \<open>include/socketify/request.h\<close>, \<open>response.h\<close>,
  \<open>cookies.h\<close> and \<open>src/request.cpp\<close>, \<open>src/response.cpp\<close>, \<open>src/cookies.cpp\<close>. Views that
  point into an object's own storage are the strings they denote. A \<open>shared_ptr<void>\<close> (a
  request local, the state of a stream) is an abstract address. Files are seen through the
  argument \<open>fsize\<close>: the size of a file that can be opened. The JSON library is an argument
  wherever its serializer is called.
\<close>

section \<open>Requests\<close>

record request =
  rq_method :: http_method
  rq_path :: string
  rq_target :: string
  rq_version :: string
  rq_remote_ip :: string
  rq_headers :: header_map
  rq_query :: param_map
  rq_params :: param_map
  rq_cookies :: param_map
  rq_body :: string
  rq_locals :: "(string \<times> nat) list"

definition empty_request :: request where
  "empty_request =
     \<lparr>rq_method = UNKNOWN, rq_path = [], rq_target = [], rq_version = [], rq_remote_ip = [],
      rq_headers = [], rq_query = [], rq_params = [], rq_cookies = [], rq_body = [],
      rq_locals = []\<rparr>"

definition req_header :: "request \<Rightarrow> string \<Rightarrow> string" where
  "req_header rq key = (case hm_get (rq_headers rq) key of None \<Rightarrow> [] | Some v \<Rightarrow> v)"

definition req_cookie :: "request \<Rightarrow> string \<Rightarrow> string" where
  "req_cookie rq key = (case kv_get (=) (rq_cookies rq) key of None \<Rightarrow> [] | Some v \<Rightarrow> v)"

definition req_query_value :: "request \<Rightarrow> string \<Rightarrow> string" where
  "req_query_value rq key = (case kv_get (=) (rq_query rq) key of None \<Rightarrow> [] | Some v \<Rightarrow> v)"

definition req_set_local :: "string \<Rightarrow> nat \<Rightarrow> request \<Rightarrow> request" where
  "req_set_local key v rq = rq\<lparr>rq_locals := kv_set (=) key v (rq_locals rq)\<rparr>"

definition req_local :: "request \<Rightarrow> string \<Rightarrow> nat option" where
  "req_local rq key = kv_get (=) (rq_locals rq) key"

definition req_has_body :: "request \<Rightarrow> bool" where
  "req_has_body rq \<longleftrightarrow> rq_body rq \<noteq> []"

text \<open>\<open>Request::json\<close>: \<open>parse\<close> is \<open>nlohmann::json::parse\<close> without exceptions.\<close>

definition req_json :: "(string \<Rightarrow> 'j option) \<Rightarrow> request \<Rightarrow> 'j option" where
  "req_json parse rq = (if rq_body rq = [] then None else parse (rq_body rq))"

section \<open>Cookies\<close>

datatype same_site = SameSiteNone | Lax | Strict

record cookie =
  ck_name :: string
  ck_value :: string
  ck_path :: string
  ck_domain :: string
  ck_max_age :: "int option"
  ck_expires :: "int option"
  ck_secure :: bool
  ck_http_only :: bool
  ck_same_site :: "same_site option"

definition new_cookie :: "string \<Rightarrow> string \<Rightarrow> cookie" where
  "new_cookie name value =
     \<lparr>ck_name = name, ck_value = value, ck_path = [], ck_domain = [], ck_max_age = None,
      ck_expires = None, ck_secure = False, ck_http_only = False, ck_same_site = None\<rparr>"

fun same_site_to_string :: "same_site \<Rightarrow> string" where
  "same_site_to_string SameSiteNone = ''None''"
| "same_site_to_string Lax = ''Lax''"
| "same_site_to_string Strict = ''Strict''"

definition cookie_to_string :: "cookie \<Rightarrow> string" where
  "cookie_to_string c =
     ck_name c @ ''='' @ ck_value c
     @ (if ck_path c \<noteq> [] then ''; Path='' @ ck_path c else [])
     @ (if ck_domain c \<noteq> [] then ''; Domain='' @ ck_domain c else [])
     @ (case ck_max_age c of Some n \<Rightarrow> ''; Max-Age='' @ show_int n | None \<Rightarrow> [])
     @ (case ck_expires c of Some t \<Rightarrow> ''; Expires='' @ http_date t | None \<Rightarrow> [])
     @ (if ck_secure c then ''; Secure'' else [])
     @ (if ck_http_only c then ''; HttpOnly'' else [])
     @ (case ck_same_site c of Some s \<Rightarrow> ''; SameSite='' @ same_site_to_string s | None \<Rightarrow> [])"

definition strip_quotes :: "string \<Rightarrow> string" where
  "strip_quotes v =
     (if length v \<ge> 2 \<and> hd v = DQ \<and> last v = DQ then take (length v - 2) (drop 1 v) else v)"

text \<open>One piece of a \<open>Cookie\<close> header: the body of the loop.\<close>

definition add_cookie_pair :: "string \<Rightarrow> param_map \<Rightarrow> param_map" where
  "add_cookie_pair pair0 out =
     (let pair = trim_view pair0
      in if pair = [] then out
         else (case find_char CHR ''='' pair of
                 None \<Rightarrow> out
               | Some eq \<Rightarrow>
                   if eq = 0 then out
                   else (let key = trim_view (take eq pair);
                             val = strip_quotes (trim_view (drop (Suc eq) pair))
                         in if key \<noteq> [] then kv_set (=) key val out else out)))"

definition parse_cookie_header :: "string \<Rightarrow> param_map \<Rightarrow> param_map" where
  "parse_cookie_header header out = fold add_cookie_pair (split_view header CHR '';'') out"

definition cookie_expired :: "string \<Rightarrow> string \<Rightarrow> string" where
  "cookie_expired name path =
     cookie_to_string ((new_cookie name [])\<lparr>ck_path := path, ck_max_age := Some 0, ck_expires := Some 0\<rparr>)"

section \<open>Responses\<close>

datatype resp_kind = Buffered | File | Stream | PulseUpgrade

record response =
  rs_status :: nat
  rs_headers :: header_map
  rs_set_cookies :: "string list"
  rs_ended :: bool
  rs_kind :: resp_kind
  rs_body :: string
  rs_file_path :: string
  rs_file_offset :: nat
  rs_file_length :: nat
  rs_stream :: "nat option"

definition new_response :: response where
  "new_response =
     \<lparr>rs_status = 0, rs_headers = [], rs_set_cookies = [], rs_ended = False, rs_kind = Buffered,
      rs_body = [], rs_file_path = [], rs_file_offset = 0, rs_file_length = 0, rs_stream = None\<rparr>"

definition res_status :: "status \<Rightarrow> response \<Rightarrow> response" where
  "res_status s r = r\<lparr>rs_status := status_num s\<rparr>"

definition res_set_header :: "string \<Rightarrow> string \<Rightarrow> response \<Rightarrow> response" where
  "res_set_header k v r = r\<lparr>rs_headers := hm_set k v (rs_headers r)\<rparr>"

definition res_set_cookie :: "string \<Rightarrow> response \<Rightarrow> response" where
  "res_set_cookie line r = r\<lparr>rs_set_cookies := rs_set_cookies r @ [line]\<rparr>"

definition res_clear_cookie :: "string \<Rightarrow> string \<Rightarrow> response \<Rightarrow> response" where
  "res_clear_cookie name path r = res_set_cookie (cookie_expired name path) r"

definition default_status :: "response \<Rightarrow> response" where
  "default_status r = (if rs_status r = 0 then r\<lparr>rs_status := 200\<rparr> else r)"

definition res_send :: "string \<Rightarrow> string \<Rightarrow> response \<Rightarrow> bool \<times> response" where
  "res_send body content_type r =
     (if rs_ended r then (False, r)
      else let r = (if hm_get (rs_headers r) H_ContentType = None
                    then res_set_header H_ContentType content_type r else r);
               r = default_status (r\<lparr>rs_body := body\<rparr>)
           in (True, r\<lparr>rs_ended := True\<rparr>))"

text \<open>\<open>dump\<close> is the text \<open>j.dump()\<close> of the document.\<close>

definition res_json :: "string \<Rightarrow> response \<Rightarrow> bool \<times> response" where
  "res_json dump r =
     (if rs_ended r then (False, r)
      else let r = res_set_header H_ContentType ''application/json; charset=utf-8'' r;
               r = default_status (r\<lparr>rs_body := dump\<rparr>)
           in (True, r\<lparr>rs_ended := True\<rparr>))"

text \<open>\<open>error_doc m\<close> is the serialization of the object \<open>{"error": m}\<close>.\<close>

definition res_json_error :: "(string \<Rightarrow> string) \<Rightarrow> status \<Rightarrow> string \<Rightarrow> response \<Rightarrow> bool \<times> response" where
  "res_json_error error_doc s message r =
     (if rs_ended r then (False, r) else res_json (error_doc message) (res_status s r))"

abbreviation text_plain :: string where
  "text_plain \<equiv> ''text/plain; charset=utf-8''"

definition res_send_status :: "status \<Rightarrow> response \<Rightarrow> bool \<times> response" where
  "res_send_status s r =
     (if rs_ended r then (False, r)
      else res_send (reason s @ [LF]) text_plain (res_status s r))"

definition res_write :: "string \<Rightarrow> response \<Rightarrow> bool \<times> response" where
  "res_write chunk r =
     (if rs_ended r then (False, r)
      else (True, if chunk \<noteq> [] then r\<lparr>rs_body := rs_body r @ chunk\<rparr> else r))"

definition res_end :: "response \<Rightarrow> response" where
  "res_end r = (if rs_ended r then r else (default_status r)\<lparr>rs_ended := True\<rparr>)"

definition res_redirect :: "string \<Rightarrow> nat \<Rightarrow> response \<Rightarrow> response" where
  "res_redirect url code r =
     (if rs_ended r then r
      else let r = r\<lparr>rs_status := code mod 2 ^ 16\<rparr>;
               r = res_set_header H_Location url r;
               r = r\<lparr>rs_body := ''<html><head><title>Redirect</title></head><body>Redirecting to ''
                              @ url @ ''</body></html>''\<rparr>;
               r = res_set_header H_ContentType ''text/html; charset=utf-8'' r
           in r\<lparr>rs_ended := True\<rparr>)"

text \<open>\<open>std::filesystem::path::filename\<close>.\<close>

definition path_filename :: "string \<Rightarrow> string" where
  "path_filename p = (case rfind_char CHR ''/'' p of None \<Rightarrow> p | Some i \<Rightarrow> drop (Suc i) p)"

definition default_file_type :: "string \<Rightarrow> response \<Rightarrow> response" where
  "default_file_type fs_path r =
     (if hm_get (rs_headers r) H_ContentType = None
      then res_set_header H_ContentType (content_type_for_path fs_path) r else r)"

definition res_send_file :: "(string \<Rightarrow> nat option) \<Rightarrow> string \<Rightarrow> bool \<Rightarrow> string \<Rightarrow> response \<Rightarrow> bool \<times> response" where
  "res_send_file fsize fs_path download download_name r =
     (if rs_ended r then (False, r)
      else (case fsize fs_path of
              None \<Rightarrow> (False, r)
            | Some sz \<Rightarrow>
                (let r = r\<lparr>rs_kind := File, rs_file_path := fs_path, rs_file_offset := 0,
                           rs_file_length := sz\<rparr>;
                     r = default_file_type fs_path r;
                     r = (if download then
                            (let name = (if download_name = [] then path_filename fs_path
                                         else download_name)
                             in res_set_header ''Content-Disposition''
                                  (''attachment; filename='' @ [DQ] @ name @ [DQ]) r)
                          else r)
                 in (True, r\<lparr>rs_ended := True\<rparr>))))"

definition res_send_file_range :: "(string \<Rightarrow> nat option) \<Rightarrow> string \<Rightarrow> nat \<Rightarrow> nat \<Rightarrow> response \<Rightarrow> bool \<times> response" where
  "res_send_file_range fsize fs_path offset len r =
     (if rs_ended r then (False, r)
      else (case fsize fs_path of
              None \<Rightarrow> (False, r)
            | Some sz \<Rightarrow>
                if offset > sz \<or> u64_add offset len > sz then (False, r)
                else (let r = r\<lparr>rs_kind := File, rs_file_path := fs_path, rs_file_offset := offset,
                                rs_file_length := len\<rparr>;
                          r = default_file_type fs_path r
                      in (True, r\<lparr>rs_ended := True\<rparr>))))"

definition mark_stream :: "nat \<Rightarrow> response \<Rightarrow> response" where
  "mark_stream st r = r\<lparr>rs_kind := Stream, rs_stream := Some st, rs_ended := True\<rparr>"

definition mark_pulse :: "nat \<Rightarrow> response \<Rightarrow> response" where
  "mark_pulse st r = r\<lparr>rs_kind := PulseUpgrade, rs_stream := Some st, rs_ended := True\<rparr>"

definition res_take_body :: "response \<Rightarrow> string \<times> response" where
  "res_take_body r = (rs_body r, r\<lparr>rs_body := []\<rparr>)"

section \<open>Responses end once\<close>

text \<open>The operations that write or finish a response, as one type.\<close>

datatype finish_op =
    Send string string | SendJson string | SendStatus status | Write string | End
  | Redirect string nat | SendFile string bool string | SendFileRange string nat nat

fun run_finish :: "(string \<Rightarrow> nat option) \<Rightarrow> finish_op \<Rightarrow> response \<Rightarrow> response" where
  "run_finish fsize (Send b ct) r = snd (res_send b ct r)"
| "run_finish fsize (SendJson d) r = snd (res_json d r)"
| "run_finish fsize (SendStatus s) r = snd (res_send_status s r)"
| "run_finish fsize (Write c) r = snd (res_write c r)"
| "run_finish fsize End r = res_end r"
| "run_finish fsize (Redirect u c) r = res_redirect u c r"
| "run_finish fsize (SendFile p d n) r = snd (res_send_file fsize p d n r)"
| "run_finish fsize (SendFileRange p i l) r = snd (res_send_file_range fsize p i l r)"

lemmas res_defs = res_send_def res_json_def res_send_status_def res_write_def res_end_def
  res_redirect_def res_send_file_def res_send_file_range_def res_set_header_def res_status_def
  default_status_def default_file_type_def

lemma run_finish_ended: "rs_ended r \<Longrightarrow> run_finish fsize op r = r"
  by (cases op) (simp_all add: res_defs)

text \<open>Every operation but \<open>write\<close> and a failed file open ends the response.\<close>

fun finishes :: "(string \<Rightarrow> nat option) \<Rightarrow> finish_op \<Rightarrow> bool" where
  "finishes fsize (Write c) = False"
| "finishes fsize (SendFile p d n) = (fsize p \<noteq> None)"
| "finishes fsize (SendFileRange p i l) =
     (case fsize p of None \<Rightarrow> False | Some sz \<Rightarrow> i \<le> sz \<and> u64_add i l \<le> sz)"
| "finishes fsize op = True"

lemma run_finish_ends: "finishes fsize op \<Longrightarrow> rs_ended (run_finish fsize op r)"
  by (cases op) (auto simp: res_defs Let_def split: option.splits)

lemma run_finishes_first:
  "\<exists>op \<in> set ops. finishes fsize op \<Longrightarrow> rs_ended (fold (run_finish fsize) ops r)"
proof (induction ops arbitrary: r)
  case Nil
  then show ?case by simp
next
  case (Cons op ops)
  have keep: "rs_ended r \<Longrightarrow> fold (run_finish fsize) os r = r" for os r
    by (induction os) (simp_all add: run_finish_ended)
  show ?case
  proof (cases "finishes fsize op")
    case True
    then show ?thesis by (simp add: run_finish_ends keep)
  next
    case False
    with Cons show ?thesis by auto
  qed
qed

lemma fold_run_finish_ended: "rs_ended r \<Longrightarrow> fold (run_finish fsize) ops r = r"
  by (induction ops) (simp_all add: run_finish_ended)

lemma response_ends_once_fold:
  assumes "finishes fsize op"
  shows "fold (run_finish fsize) (op # ops) r = run_finish fsize op r"
  using run_finish_ends [OF assms] by (simp add: fold_run_finish_ended)

text \<open>A file response names a range of the file, unless the 64-bit sum wraps.\<close>

lemma send_file_range_bounds:
  "res_send_file_range fsize p i l r = (True, q) \<Longrightarrow> i < 2 ^ 64 \<Longrightarrow> l < 2 ^ 64 \<Longrightarrow>
   \<exists>sz. fsize p = Some sz \<and> rs_file_offset q = i \<and> rs_file_length q = l \<and> i \<le> sz \<and>
     (i + l \<le> sz \<or> 2 ^ 64 \<le> i + l)"
  by (cases "i + l < 2 ^ 64")
    (auto simp: res_send_file_range_def default_file_type_def res_set_header_def Let_def u64_add_small
      split: option.splits if_splits)

section \<open>Cookie headers\<close>

definition cookie_ok :: "string \<times> string \<Rightarrow> bool" where
  "cookie_ok kv \<longleftrightarrow>
     fst kv \<noteq> [] \<and> CHR ''='' \<notin> set (fst kv) \<and> CHR '';'' \<notin> set (fst kv) \<and> CHR '';'' \<notin> set (snd kv) \<and>
     trim_view (fst kv) = fst kv \<and> trim_view (snd kv) = snd kv \<and> DQ \<notin> set (snd kv)"

definition render_pair :: "string \<times> string \<Rightarrow> string" where
  "render_pair kv = fst kv @ ''='' @ snd kv"

lemma trim_view_pair:
  assumes "cookie_ok kv" shows "trim_view (render_pair kv) = fst kv @ ''='' @ trim_view (snd kv)"
proof -
  have k: "fst kv \<noteq> []" "trim_view (fst kv) = fst kv" "trim_view (snd kv) = snd kv"
    using assms by (simp_all add: cookie_ok_def)
  from k(1,2) trim_view_no_blank_ends [of "fst kv"] have h: "\<not> is_blank (hd (fst kv))" by auto
  have "\<not> is_blank (last (render_pair kv))"
  proof (cases "snd kv = []")
    case True
    then show ?thesis by (simp add: render_pair_def is_blank_def)
  next
    case False
    then have "last (render_pair kv) = last (snd kv)" by (simp add: render_pair_def)
    then show ?thesis using False k(3) trim_view_no_blank_ends [of "snd kv"] by auto
  qed
  with h k show ?thesis by (simp add: trim_view_id render_pair_def)
qed

lemma strip_quotes_none: "DQ \<notin> set v \<Longrightarrow> strip_quotes v = v"
  by (cases v) (auto simp: strip_quotes_def)

lemma add_cookie_render:
  assumes "cookie_ok kv" "\<forall>c \<in> set pre. is_blank c"
  shows "add_cookie_pair (pre @ render_pair kv) out = kv_set (=) (fst kv) (snd kv) out"
proof -
  have t: "trim_view (pre @ render_pair kv) = render_pair kv"
    using trim_view_pad [of pre "[]" "render_pair kv"] assms trim_view_pair [OF assms(1)]
    by (simp add: cookie_ok_def render_pair_def)
  have "find_char CHR ''='' (render_pair kv) = Some (length (fst kv))"
    using assms(1) find_char_append_hit [of "CHR ''=''" "fst kv" "snd kv"]
    by (simp add: cookie_ok_def render_pair_def)
  with t assms(1) show ?thesis
    by (simp add: add_cookie_pair_def Let_def) (simp add: render_pair_def cookie_ok_def strip_quotes_none)
qed

text \<open>The \<open>Cookie\<close> header a browser sends for a list of cookies.\<close>

definition render_cookies :: "(string \<times> string) list \<Rightarrow> string" where
  "render_cookies cs = join_with [CHR '';''] (case cs of [] \<Rightarrow> [] | c # cs' \<Rightarrow> render_pair c # map (\<lambda>c. SP # render_pair c) cs')"

lemma fold_add_cookies:
  "list_all cookie_ok cs \<Longrightarrow>
   fold add_cookie_pair (map (\<lambda>c. SP # render_pair c) cs) out = fold (\<lambda>(k, v). kv_set (=) k v) cs out"
proof (induction cs arbitrary: out)
  case Nil
  show ?case by simp
next
  case (Cons c cs)
  then show ?case using add_cookie_render [of c "[SP]" out]
    by (simp add: is_blank_def split_beta)
qed

lemma split_render_cookies:
  assumes "list_all cookie_ok (c # cs)"
  shows "split_view (render_cookies (c # cs)) CHR '';'' = render_pair c # map (\<lambda>c. SP # render_pair c) cs"
proof -
  have "cookie_ok x \<Longrightarrow> CHR '';'' \<notin> set (render_pair x) \<and> render_pair x \<noteq> []" for x
    by (simp add: cookie_ok_def render_pair_def)
  with assms show ?thesis
    unfolding render_cookies_def list.case
    by (intro split_view_join) (auto simp: list_all_iff)
qed

lemma parse_render_cookies:
  assumes "list_all cookie_ok cs"
  shows "parse_cookie_header (render_cookies cs) out = fold (\<lambda>(k, v). kv_set (=) k v) cs out"
proof (cases cs)
  case Nil
  then show ?thesis
    by (simp add: parse_cookie_header_def render_cookies_def split_view.simps)
next
  case (Cons c cs')
  with assms show ?thesis
    using add_cookie_render [of c "[]" out] split_render_cookies [of c cs'] fold_add_cookies [of cs']
    by (simp add: parse_cookie_header_def split_beta)
qed

text \<open>The range check wraps: a length of \<open>2 ^ 64 - 1\<close> from offset 5 is accepted.\<close>

lemma send_file_range_wrap:
  "fst (res_send_file_range (\<lambda>_. Some 10) p 5 (2 ^ 64 - 1) new_response)
   \<and> rs_file_length (snd (res_send_file_range (\<lambda>_. Some 10) p 5 (2 ^ 64 - 1) new_response)) = 2 ^ 64 - 1"
  by (simp add: res_send_file_range_def new_response_def u64_add_def default_file_type_def
      res_set_header_def Let_def)

section \<open>Properties\<close>



text \<open>The \<open>Cookie\<close> header a client renders for a list of cookies is parsed back to
  exactly these name/value pairs (a repeated name keeps its last value).\<close>

theorem cookie_header_roundtrip:
  "list_all cookie_ok cs \<Longrightarrow>
     parse_cookie_header (render_cookies cs) out = fold (\<lambda>(k, v). kv_set (=) k v) cs out"
  by (rule parse_render_cookies)

theorem cookie_header_roundtrip_witness:
  "parse_cookie_header (render_cookies [(''sid'', ''abc''), (''t'', [])]) [] = [(''sid'', ''abc''), (''t'', [])]"
  using cookie_header_roundtrip [of "[(''sid'', ''abc''), (''t'', [])]" "[]"]
  by (simp add: cookie_ok_def is_blank_def trim_view_def)

end
