(* ===== verification/Router.thy ===== *)
theory Router
  imports Messages
begin

text \<open>
  The router: \<open>include/socketify/router.h\<close>, \<open>src/router.cpp\<close> and the built-in middleware of
  \<open>src/middleware.cpp\<close>. A C++ middleware \<open>void(Request&, Response&, Next)\<close> is an interaction
  tree (\<open>prog\<close>): it changes the world, calls \<open>next\<close> any number of times, sees the world (and
  the exception, if one was thrown) after each call, and ends by returning or throwing. The
  world is the record \<open>ctx\<close>: request, response and whatever else the application touches. The
  index variables the C++ closures share (\<open>idx\<close>, \<open>j\<close>, \<open>handled\<close>) are threaded explicitly.
\<close>

section \<open>Patterns\<close>

datatype seg = Static string | Param string | Wildcard string

function split_path :: "string \<Rightarrow> string list" where
  "split_path s =
     (if s = [] then []
      else (case find_char CHR ''/'' s of
              None \<Rightarrow> [s]
            | Some pos \<Rightarrow>
                (if pos > 0 then [take pos s] else []) @ split_path (drop (Suc pos) s)))"
  by pat_completeness auto
termination
  by (relation "measure length") (auto dest: find_char_less)

declare split_path.simps [simp del]

fun compile_parts :: "string list \<Rightarrow> seg list" where
  "compile_parts [] = []"
| "compile_parts (part # parts) =
     (if part = [] then compile_parts parts
      else if hd part = CHR '':'' then Param (tl part) # compile_parts parts
      else if hd part = CHR ''*'' then [Wildcard (tl part)]
      else Static part # compile_parts parts)"

definition compile_pattern :: "string \<Rightarrow> seg list" where
  "compile_pattern pattern = (if pattern = [] then [] else compile_parts (split_path pattern))"

text \<open>The two-index loop of \<open>match_and_bind_\<close> and the check after it.\<close>

fun match_loop :: "param_map \<Rightarrow> string list \<Rightarrow> seg list \<Rightarrow> param_map option" where
  "match_loop ps [] [] = Some ps"
| "match_loop ps [] [Wildcard n] = Some (kv_set (=) n [] ps)"
| "match_loop ps [] segs = None"
| "match_loop ps parts [] = None"
| "match_loop ps (p # parts) (Static t # segs) = (if p \<noteq> t then None else match_loop ps parts segs)"
| "match_loop ps (p # parts) (Param n # segs) = match_loop (kv_set (=) n p ps) parts segs"
| "match_loop ps (p # parts) (Wildcard n # segs) =
     match_loop (kv_set (=) n (join_with [CHR ''/''] (p # parts)) ps) [] segs"

definition match_and_bind :: "string \<Rightarrow> seg list \<Rightarrow> param_map option" where
  "match_and_bind path segs =
     (if segs = [] then (if path = ''/'' \<or> path = [] then Some [] else None)
      else match_loop [] (split_path path) segs)"

definition prefix_matches :: "string \<Rightarrow> string \<Rightarrow> bool" where
  "prefix_matches pattern pfx0 =
     (if pfx0 = [] \<or> pfx0 = ''/'' then True
      else let pfx = (if last pfx0 = CHR ''/'' then butlast pfx0 else pfx0)
           in if \<not> starts_with pattern pfx then False
              else length pattern = length pfx \<or> pattern ! length pfx = CHR ''/'')"

section \<open>Middleware\<close>

datatype 'w prog = Ret 'w | Throw string 'w | Next 'w "'w \<Rightarrow> string option \<Rightarrow> 'w prog"

type_synonym 'w mware = "'w \<Rightarrow> 'w prog"

text \<open>A terminal handler returns the world and the exception it threw, if any.\<close>

type_synonym 'w handler = "'w \<Rightarrow> 'w \<times> string option"

primrec exec_prog :: "'w prog \<Rightarrow> ('s \<Rightarrow> 'w \<Rightarrow> 's \<times> 'w \<times> string option) \<Rightarrow> 's \<Rightarrow> 's \<times> 'w \<times> string option" where
  "exec_prog (Ret w) nxt s = (s, w, None)"
| "exec_prog (Throw e w) nxt s = (s, w, Some e)"
| "exec_prog (Next w k) nxt s =
     (case nxt s w of (s', w', e) \<Rightarrow> exec_prog (k w' e) nxt s')"

text \<open>
  A chain: the closure that is passed as \<open>next\<close>. It returns at once when the response is
  ended, else runs the middleware at the shared index (incremented before the call), else the
  final stage. The recursion is through the calls the middleware makes, each with a larger
  index, so the number of remaining middlewares is enough fuel.
\<close>

fun run_chain :: "nat \<Rightarrow> ('w \<Rightarrow> bool) \<Rightarrow> 'w mware list \<Rightarrow>
    (nat \<times> 'x \<Rightarrow> 'w \<Rightarrow> (nat \<times> 'x) \<times> 'w \<times> string option) \<Rightarrow>
    nat \<times> 'x \<Rightarrow> 'w \<Rightarrow> (nat \<times> 'x) \<times> 'w \<times> string option" where
  "run_chain fuel ended mws fin (i, x) w =
     (if ended w then ((i, x), w, None)
      else if i < length mws then
        (case fuel of
           0 \<Rightarrow> ((i, x), w, Some ''fuel'')
         | Suc f \<Rightarrow> exec_prog ((mws ! i) w) (run_chain f ended mws fin) (Suc i, x))
      else fin (i, x) w)"

declare run_chain.simps [simp del]

record 'e ctx =
  cx_req :: request
  cx_res :: response
  cx_ext :: 'e

definition cx_ended :: "'e ctx \<Rightarrow> bool" where
  "cx_ended w = rs_ended (cx_res w)"

section \<open>Routes and groups\<close>

record 'e route =
  rt_method :: http_method
  rt_pattern :: string
  rt_handler :: "'e ctx handler"
  rt_mws :: "'e ctx mware list"
  rt_segs :: "seg list"

record 'e group =
  gr_prefix :: string
  gr_mws :: "'e ctx mware list"

record 'e router =
  ro_routes :: "'e route list"
  ro_global :: "'e ctx mware list"
  ro_groups :: "'e group list"

definition add_route :: "http_method \<Rightarrow> string \<Rightarrow> 'e ctx handler \<Rightarrow> 'e router \<Rightarrow> 'e router" where
  "add_route m pattern h ro =
     ro\<lparr>ro_routes := ro_routes ro @
       [\<lparr>rt_method = m, rt_pattern = pattern, rt_handler = h, rt_mws = [],
         rt_segs = compile_pattern pattern\<rparr>]\<rparr>"

definition router_use :: "'e ctx mware \<Rightarrow> 'e router \<Rightarrow> 'e router" where
  "router_use mw ro = ro\<lparr>ro_global := ro_global ro @ [mw]\<rparr>"

definition route_use :: "'e ctx mware \<Rightarrow> 'e route \<Rightarrow> 'e route" where
  "route_use mw r = r\<lparr>rt_mws := rt_mws r @ [mw]\<rparr>"

definition add_group :: "string \<Rightarrow> 'e router \<Rightarrow> 'e router" where
  "add_group prefix ro = ro\<lparr>ro_groups := ro_groups ro @ [\<lparr>gr_prefix = prefix, gr_mws = []\<rparr>]\<rparr>"

definition group_use :: "'e ctx mware \<Rightarrow> 'e group \<Rightarrow> 'e group" where
  "group_use mw g = g\<lparr>gr_mws := gr_mws g @ [mw]\<rparr>"

definition group_full_pattern :: "string \<Rightarrow> string \<Rightarrow> string" where
  "group_full_pattern prefix pattern =
     (if prefix \<noteq> [] \<and> last prefix = CHR ''/'' \<and> pattern \<noteq> [] \<and> hd pattern = CHR ''/''
      then butlast prefix else prefix) @ pattern"

definition group_add_route :: "'e group \<Rightarrow> http_method \<Rightarrow> string \<Rightarrow> 'e ctx handler \<Rightarrow> 'e router \<Rightarrow> 'e router" where
  "group_add_route g m pattern h ro = add_route m (group_full_pattern (gr_prefix g) pattern) h ro"

section \<open>Dispatch\<close>

definition method_ok :: "http_method \<Rightarrow> http_method \<Rightarrow> bool" where
  "method_ok req_m route_m \<longleftrightarrow>
     route_m = ANY \<or> route_m = req_m \<or> (req_m = HEAD \<and> route_m = GET)"

text \<open>The lookup loop: the matched route with its bindings, whether any pattern matched the
  path, and the methods collected for \<open>Allow\<close>.\<close>

fun lookup_loop :: "http_method \<Rightarrow> string \<Rightarrow> 'e route list \<Rightarrow> bool \<Rightarrow> http_method list \<Rightarrow>
    ('e route \<times> param_map) option \<times> bool \<times> http_method list" where
  "lookup_loop m path [] any allowed = (None, any, allowed)"
| "lookup_loop m path (r # rs) any allowed =
     (case match_and_bind path (rt_segs r) of
        None \<Rightarrow> lookup_loop m path rs any allowed
      | Some candidate \<Rightarrow>
          if method_ok m (rt_method r) then (Some (r, candidate), True, allowed)
          else lookup_loop m path rs True
                 (if rt_method r \<noteq> UNKNOWN \<and> rt_method r \<noteq> ANY
                  then allowed @ [rt_method r] else allowed))"

definition allow_methods :: "http_method list \<Rightarrow> http_method list" where
  "allow_methods allowed =
     (let a = remdups_adj (sort allowed)
      in if GET \<in> set a \<and> HEAD \<notin> set a then a @ [HEAD] else a)"

definition allow_header :: "http_method list \<Rightarrow> string" where
  "allow_header allowed = join_with '', '' (map method_to_string (allow_methods allowed))"

definition handler_stage :: "'e ctx handler \<Rightarrow> 'e ctx mware" where
  "handler_stage h w = (case h w of (w', None) \<Rightarrow> Ret w' | (w', Some e) \<Rightarrow> Throw e w')"

definition route_chain :: "'e router \<Rightarrow> 'e route \<Rightarrow> 'e ctx mware list" where
  "route_chain ro r =
     concat (map gr_mws (filter (\<lambda>g. prefix_matches (rt_pattern r) (gr_prefix g)) (ro_groups ro)))
     @ rt_mws r @ [handler_stage (rt_handler r)]"

text \<open>\<open>step\<close>: past the end of the chain it returns.\<close>

definition run_route :: "'e ctx mware list \<Rightarrow> 'e ctx \<Rightarrow> 'e ctx \<times> string option" where
  "run_route chain w =
     (case run_chain (length chain) cx_ended chain (\<lambda>s w. (s, w, None)) (0, ()) w of
        (_, w', e) \<Rightarrow> (w', e))"

definition upd_res :: "(response \<Rightarrow> response) \<Rightarrow> 'e ctx \<Rightarrow> 'e ctx" where
  "upd_res f w = w\<lparr>cx_res := f (cx_res w)\<rparr>"

text \<open>The terminal stage of the global chain; the second component of the state is \<open>handled\<close>.\<close>

definition terminal_stage :: "'e router \<Rightarrow> nat \<times> bool \<Rightarrow> 'e ctx \<Rightarrow> (nat \<times> bool) \<times> 'e ctx \<times> string option" where
  "terminal_stage ro s w =
     (case lookup_loop (rq_method (cx_req w)) (rq_path (cx_req w)) (ro_routes ro) False [] of
        (Some (r, bound), _, _) \<Rightarrow>
          (let w = w\<lparr>cx_req := (cx_req w)\<lparr>rq_params := bound\<rparr>\<rparr>
           in case run_route (route_chain ro r) w of (w', e) \<Rightarrow> ((fst s, True), w', e))
      | (None, path_matched_any, allowed) \<Rightarrow>
          if path_matched_any then
            ((fst s, True),
             upd_res (\<lambda>r. snd (res_send (''Method Not Allowed'' @ [LF]) text_plain
               (res_set_header ''Allow'' (allow_header allowed) (res_status MethodNotAllowed r)))) w,
             None)
          else (s, w, None))"

definition dispatch :: "'e router \<Rightarrow> 'e ctx \<Rightarrow> bool \<times> 'e ctx \<times> string option" where
  "dispatch ro w =
     (case run_chain (length (ro_global ro)) cx_ended (ro_global ro) (terminal_stage ro) (0, False) w of
        ((_, handled), w', e) \<Rightarrow> (handled \<or> cx_ended w', w', e))"

section \<open>Built-in middleware\<close>

text \<open>\<open>tok\<close> is the token \<open>random_token(8)\<close> returns at this call.\<close>

definition request_id :: "string \<Rightarrow> 'e ctx mware" where
  "request_id tok w =
     (let id0 = req_header (cx_req w) H_XRequestId;
          w = (if id0 = [] then w\<lparr>cx_req := (cx_req w)\<lparr>rq_headers := hm_set H_XRequestId tok (rq_headers (cx_req w))\<rparr>\<rparr> else w);
          rid = (if id0 = [] then tok else id0)
      in Next (upd_res (res_set_header H_XRequestId rid) w)
           (\<lambda>w e. case e of None \<Rightarrow> Ret w | Some x \<Rightarrow> Throw x w))"

definition body_limit :: "nat \<Rightarrow> 'e ctx mware" where
  "body_limit max_bytes w =
     (if length (rq_body (cx_req w)) > max_bytes
      then Ret (upd_res (\<lambda>r. snd (res_send (''Payload Too Large'' @ [LF]) text_plain (res_status PayloadTooLarge r))) w)
      else Next w (\<lambda>w e. case e of None \<Rightarrow> Ret w | Some x \<Rightarrow> Throw x w))"

end
