(* ===== verification/RouterLaws.thy ===== *)
theory RouterLaws
  imports Router
begin

text \<open>
  What the router promises: patterns match exactly the paths of a declarative matching
  relation and bind exactly its parameters, the first registered route that accepts method and
  path is taken, a 405 names exactly the methods that would do, middleware nests around the
  handler in registration order, and a chain always terminates.
\<close>

section \<open>Paths and patterns\<close>

lemma split_path_view: "split_path s = split_view s CHR ''/''"
proof (induction s rule: split_path.induct)
  case (1 s)
  show ?case
  proof (cases "s = []")
    case True
    then show ?thesis by (simp add: split_path.simps split_view.simps)
  next
    case False
    with 1 show ?thesis
      by (subst split_path.simps, subst split_view.simps) (auto split: option.split)
  qed
qed

lemma split_path_pieces: "p \<in> set (split_path s) \<Longrightarrow> p \<noteq> [] \<and> CHR ''/'' \<notin> set p"
  unfolding split_path_view by (rule split_view_pieces)

lemma split_path_join:
  "\<forall>p \<in> set ps. p \<noteq> [] \<and> CHR ''/'' \<notin> set p \<Longrightarrow> split_path (join_with ''/'' ps) = ps"
  unfolding split_path_view by (rule split_view_join)

fun wild_last :: "seg list \<Rightarrow> bool" where
  "wild_last [] = True"
| "wild_last (Wildcard n # segs) = (segs = [])"
| "wild_last (_ # segs) = wild_last segs"

lemma compile_wild_last: "wild_last (compile_pattern pattern)"
proof -
  have "wild_last (compile_parts parts)" for parts
    by (induction parts) auto
  then show ?thesis by (simp add: compile_pattern_def)
qed

text \<open>The declarative reading of a compiled pattern: a literal matches itself, a parameter
  one component, a wildcard at the end all remaining components.\<close>

inductive seg_matches :: "seg list \<Rightarrow> string list \<Rightarrow> (string \<times> string) list \<Rightarrow> bool" where
  sm_end: "seg_matches [] [] []"
| sm_static: "seg_matches segs parts bs \<Longrightarrow> seg_matches (Static t # segs) (t # parts) bs"
| sm_param: "seg_matches segs parts bs \<Longrightarrow> seg_matches (Param n # segs) (v # parts) ((n, v) # bs)"
| sm_wild: "seg_matches [Wildcard n] parts [(n, join_with ''/'' parts)]"

inductive_cases seg_matches_NilE: "seg_matches [] parts bs"
inductive_cases seg_matches_StaticE: "seg_matches (Static t # segs) parts bs"
inductive_cases seg_matches_ParamE: "seg_matches (Param n # segs) parts bs"
inductive_cases seg_matches_WildE: "seg_matches (Wildcard n # segs) parts bs"

definition bind_all :: "(string \<times> string) list \<Rightarrow> param_map \<Rightarrow> param_map" where
  "bind_all bs ps = fold (\<lambda>(k, v). kv_set (=) k v) bs ps"

lemma bind_all_simps [simp]:
  "bind_all [] ps = ps" "bind_all ((k, v) # bs) ps = bind_all bs (kv_set (=) k v ps)"
  by (simp_all add: bind_all_def)

lemma match_loop_complete: "seg_matches segs parts bs \<Longrightarrow> match_loop ps parts segs = Some (bind_all bs ps)"
proof (induction arbitrary: ps rule: seg_matches.induct)
  case (sm_wild n parts)
  then show ?case by (cases parts) simp_all
qed simp_all

lemma match_loop_sound:
  "match_loop ps parts segs = Some qs \<Longrightarrow> wild_last segs \<Longrightarrow>
   \<exists>bs. seg_matches segs parts bs \<and> qs = bind_all bs ps"
proof (induction ps parts segs rule: match_loop.induct)
  case (1 ps)
  then show ?case by (auto intro!: exI [of _ "[]"] seg_matches.intros)
next
  case (2 ps n)
  then show ?case using sm_wild [of n "[]"] by auto
next
  case (5 ps p parts t segs)
  then show ?case by (auto split: if_splits intro: sm_static)
next
  case (6 ps p parts n segs)
  then obtain bs where "seg_matches segs parts bs" "qs = bind_all bs (kv_set (=) n p ps)" by auto
  then show ?case by (intro exI [of _ "(n, p) # bs"]) (simp add: sm_param)
next
  case (7 ps p parts n segs)
  then have "segs = []" "qs = kv_set (=) n (join_with ''/'' (p # parts)) ps" by simp_all
  then show ?case using sm_wild [of n "p # parts"] by auto
qed simp_all

lemma match_and_bind_iff:
  assumes "compile_pattern pattern \<noteq> []"
  shows "match_and_bind path (compile_pattern pattern) = Some ps \<longleftrightarrow>
    (\<exists>bs. seg_matches (compile_pattern pattern) (split_path path) bs \<and> ps = bind_all bs [])"
  using assms match_loop_sound [OF _ compile_wild_last] match_loop_complete
  by (fastforce simp: match_and_bind_def)

section \<open>Lookup\<close>

definition route_matches :: "string \<Rightarrow> 'e route \<Rightarrow> bool" where
  "route_matches path r \<longleftrightarrow> match_and_bind path (rt_segs r) \<noteq> None"

definition route_accepts :: "http_method \<Rightarrow> string \<Rightarrow> 'e route \<Rightarrow> bool" where
  "route_accepts m path r \<longleftrightarrow> route_matches path r \<and> method_ok m (rt_method r)"

lemma lookup_loop_find:
  "lookup_loop m path rs any allowed =
     (case List.find (route_accepts m path) rs of
        Some r \<Rightarrow>
          (Some (r, the (match_and_bind path (rt_segs r))), True,
           snd (snd (lookup_loop m path rs any allowed)))
      | None \<Rightarrow>
          (None, any \<or> (\<exists>r \<in> set rs. route_matches path r),
           allowed @ map rt_method (filter (\<lambda>r. route_matches path r \<and> rt_method r \<noteq> UNKNOWN) rs)))"
proof (induction rs arbitrary: any allowed)
  case Nil
  show ?case by simp
next
  case (Cons r rs)
  show ?case
  proof (cases "match_and_bind path (rt_segs r)")
    case None
    then have "\<not> route_matches path r" "\<not> route_accepts m path r"
      by (simp_all add: route_matches_def route_accepts_def)
    with None Cons [of any allowed] show ?thesis by (simp split: option.splits)
  next
    case (Some c)
    then have rm: "route_matches path r" by (simp add: route_matches_def)
    show ?thesis
    proof (cases "method_ok m (rt_method r)")
      case True
      with Some rm show ?thesis by (simp add: route_accepts_def)
    next
      case False
      then have "rt_method r \<noteq> ANY" by (auto simp: method_ok_def)
      with False Some rm Cons [of True "if rt_method r \<noteq> UNKNOWN \<and> rt_method r \<noteq> ANY
                  then allowed @ [rt_method r] else allowed"]
      show ?thesis by (auto simp: route_accepts_def split: option.splits)
    qed
  qed
qed

lemma distinct_remdups_adj_sorted: "sorted xs \<Longrightarrow> distinct (remdups_adj (xs :: 'a :: linorder list))"
proof (induction xs rule: remdups_adj.induct)
  case (3 x y xs)
  show ?case
  proof (cases "x = y")
    case False
    with 3(3) have "x \<notin> set (y # xs)" by auto
    with 3 False show ?thesis by simp
  qed (use 3 in simp)
qed simp_all

lemma set_allow_methods:
  "set (allow_methods ms) = set ms \<union> (if GET \<in> set ms then {HEAD} else {}) \<and> distinct (allow_methods ms)"
proof -
  have "sorted (sort ms)" by simp
  then have "distinct (remdups_adj (sort ms))" by (rule distinct_remdups_adj_sorted)
  then show ?thesis by (auto simp: allow_methods_def Let_def)
qed

section \<open>Chains\<close>

lemma exec_prog_cong:
  assumes nxt: "\<And>s w. P s \<Longrightarrow> nxt s w = nxt' s w \<and> P (fst (nxt s w))"
  shows "P s \<Longrightarrow> exec_prog p nxt s = exec_prog p nxt' s \<and> P (fst (exec_prog p nxt s))"
proof (induction p arbitrary: s)
  case (Next w k)
  obtain s' w' e where n: "nxt s w = (s', w', e)" by (metis prod_cases3)
  with nxt [OF Next.prems, of w] have "nxt' s w = (s', w', e)" "P s'" by simp_all
  moreover from this have "exec_prog (k w' e) nxt s' = exec_prog (k w' e) nxt' s' \<and>
      P (fst (exec_prog (k w' e) nxt s'))"
    by (intro Next.IH [of "k w'" "k w' e"]) simp_all
  ultimately show ?case using n by auto
qed simp_all

text \<open>More fuel than there are middlewares left makes no difference, and the shared index only
  grows, as long as the final stage does not lower it.\<close>

lemma run_chain_fuel:
  assumes fin: "\<And>s w. fst s \<le> fst (fst (fin s w))"
  shows "length mws \<le> fst s + fuel \<Longrightarrow>
    run_chain fuel ended mws fin s w = run_chain (fuel + k) ended mws fin s w \<and>
    fst s \<le> fst (fst (run_chain fuel ended mws fin s w))"
proof (induction fuel arbitrary: s w)
  case 0
  obtain i x where s: "s = (i, x)" by fastforce
  with 0 have "\<not> i < length mws" by simp
  then show ?case using fin [of "(i, x)" w] s
    by (simp add: run_chain.simps [of _ ended mws fin i x w])
next
  case (Suc f)
  obtain i x where s: "s = (i, x)" by fastforce
  show ?case
  proof (cases "i < length mws \<and> \<not> ended w")
    case True
    let ?n = "run_chain f ended mws fin" and ?n' = "run_chain (f + k) ended mws fin"
    have h: "Suc i \<le> fst t \<Longrightarrow> ?n t u = ?n' t u \<and> Suc i \<le> fst (fst (?n t u))" for t u
      using Suc.IH [of t u] Suc.prems s by fastforce
    have "exec_prog ((mws ! i) w) ?n (Suc i, x) = exec_prog ((mws ! i) w) ?n' (Suc i, x) \<and>
        Suc i \<le> fst (fst (exec_prog ((mws ! i) w) ?n (Suc i, x)))"
      by (rule exec_prog_cong [where P = "\<lambda>t. Suc i \<le> fst t"]) (rule h, assumption, simp)
    with True s show ?thesis by (auto simp: run_chain.simps [of _ ended mws fin i x w])
  next
    case False
    then show ?thesis using fin [of "(i, x)" w] s
      by (simp add: run_chain.simps [of _ ended mws fin i x w])
  qed
qed

text \<open>A middleware that does something before and something after the rest of the chain, and
  passes exceptions on.\<close>

definition around :: "('w \<Rightarrow> 'w) \<times> ('w \<Rightarrow> 'w) \<Rightarrow> 'w mware" where
  "around pp w = Next (fst pp w) (\<lambda>w' e. case e of None \<Rightarrow> Ret (snd pp w') | Some x \<Rightarrow> Throw x w')"

lemma run_chain_around_from:
  assumes "i \<le> length ps"
    and "\<forall>k. i \<le> k \<and> k \<le> length ps \<longrightarrow> \<not> ended (fold fst (drop i (take k ps)) w)"
  shows "run_chain (length ps - i) ended (map around ps) fin (i, x) w =
    (case fin (length ps, x) (fold fst (drop i ps) w) of
       (s, w', e) \<Rightarrow> (s, if e = None then foldr snd (drop i ps) w' else w', e))"
  using assms
proof (induction "length ps - i" arbitrary: i w)
  case 0
  then have "i = length ps" by simp
  moreover have "\<not> ended w" using 0(3) [rule_format, of i] calculation by simp
  ultimately show ?case by (simp add: run_chain.simps split: prod.split)
next
  case (Suc n)
  then have i: "i < length ps" by simp
  have d: "drop i ps = ps ! i # drop (Suc i) ps" using i by (rule Cons_nth_drop_Suc [symmetric])
  have live: "\<not> ended w" using Suc.prems(2) [rule_format, of i] i by simp
  have live': "\<forall>k. Suc i \<le> k \<and> k \<le> length ps \<longrightarrow>
      \<not> ended (fold fst (drop (Suc i) (take k ps)) (fst (ps ! i) w))"
  proof (intro allI impI)
    fix k assume k: "Suc i \<le> k \<and> k \<le> length ps"
    then have "drop i (take k ps) = ps ! i # drop (Suc i) (take k ps)"
      using Cons_nth_drop_Suc [of i "take k ps", symmetric] by simp
    with Suc.prems(2) [rule_format, of k] k
    show "\<not> ended (fold fst (drop (Suc i) (take k ps)) (fst (ps ! i) w))" by simp
  qed
  have ih: "run_chain (length ps - Suc i) ended (map around ps) fin (Suc i, x) (fst (ps ! i) w) =
    (case fin (length ps, x) (fold fst (drop (Suc i) ps) (fst (ps ! i) w)) of
       (s, w', e) \<Rightarrow> (s, if e = None then foldr snd (drop (Suc i) ps) w' else w', e))"
    by (rule Suc.hyps(1)) (use Suc i live' in auto)
  have f: "length ps - i = Suc (length ps - Suc i)" using i by simp
  show ?case
    using live i ih d unfolding f
    by (simp add: run_chain.simps [of "Suc _"] around_def split: prod.splits option.splits)
qed

lemma run_chain_around:
  assumes "\<forall>k \<le> length ps. \<not> ended (fold fst (take k ps) w)"
  shows "run_chain (length ps) ended (map around ps) fin (0, x) w =
    (case fin (length ps, x) (fold fst ps w) of
       (s, w', e) \<Rightarrow> (s, if e = None then foldr snd ps w' else w', e))"
  using run_chain_around_from [of 0 ps ended w fin x] assms by (simp split: prod.splits)

section \<open>Groups\<close>

lemma starts_with_butlast:
  "p \<noteq> [] \<Longrightarrow> starts_with (butlast p @ t) (butlast p)"
  by simp

lemma group_pattern_matches:
  assumes "pattern = [] \<or> hd pattern = CHR ''/'' \<or> prefix = [] \<or> last prefix = CHR ''/''"
  shows "prefix_matches (group_full_pattern prefix pattern) prefix"
proof (cases "prefix = [] \<or> prefix = ''/''")
  case True
  then show ?thesis by (auto simp: prefix_matches_def)
next
  case False
  show ?thesis
  proof (cases "last prefix = CHR ''/''")
    case True
    define q where "q = butlast prefix"
    have q: "prefix = q @ ''/''" using True False by (metis append_butlast_last_id q_def)
    have "\<exists>t. group_full_pattern prefix pattern = q @ t \<and> (t = [] \<or> hd t = CHR ''/'')"
      using q by (auto simp: group_full_pattern_def)
    then obtain t where t: "group_full_pattern prefix pattern = q @ t" "t = [] \<or> hd t = CHR ''/''" by blast
    then have "t = [] \<or> (q @ t) ! length q = CHR ''/''" by (cases t) auto
    with t(1) False q show ?thesis by (auto simp: prefix_matches_def)
  next
    case l: False
    then have g: "group_full_pattern prefix pattern = prefix @ pattern"
      by (simp add: group_full_pattern_def)
    have "pattern = [] \<or> (prefix @ pattern) ! length prefix = CHR ''/''"
      using assms l False by (cases pattern) auto
    with g l False show ?thesis by (auto simp: prefix_matches_def)
  qed
qed

lemma not_allowed_iff:
  assumes none: "List.find (route_accepts m path) rs = None" and m': "m' \<noteq> UNKNOWN"
  shows "m' \<in> set (allow_methods (map rt_method (filter (\<lambda>r. route_matches path r \<and> rt_method r \<noteq> UNKNOWN) rs)))
    \<longleftrightarrow> (\<exists>r \<in> set rs. route_accepts m' path r)"
proof -
  have any: "rt_method r \<noteq> ANY" if "r \<in> set rs" "route_matches path r" for r
    using none that by (auto simp: find_None_iff route_accepts_def method_ok_def)
  let ?ms = "map rt_method (filter (\<lambda>r. route_matches path r \<and> rt_method r \<noteq> UNKNOWN) rs)"
  have "m' \<in> set (allow_methods ?ms) \<longleftrightarrow> m' \<in> set ?ms \<or> (m' = HEAD \<and> GET \<in> set ?ms)"
    using set_allow_methods [of ?ms] by auto
  also have "\<dots> \<longleftrightarrow> (\<exists>r \<in> set rs. route_accepts m' path r)"
    using any m' by (auto simp: route_accepts_def method_ok_def image_iff)
  finally show ?thesis .
qed

section \<open>Properties\<close>

text \<open>C8: Pattern matching is exact: a compiled pattern matches a path, with given
  parameters, if and only if the declarative relation relates its segments to the path's
  components and the parameters are the bindings in order (a repeated name keeps the last).\<close>

theorem match_and_bind_exact:
  "compile_pattern pattern \<noteq> [] \<Longrightarrow>
     match_and_bind path (compile_pattern pattern) = Some ps \<longleftrightarrow>
     (\<exists>bs. seg_matches (compile_pattern pattern) (split_path path) bs \<and> ps = bind_all bs [])"
  by (rule match_and_bind_iff)

theorem match_and_bind_exact_witness:
  "match_and_bind ''/u/7/x/y'' (compile_pattern ''/u/:id/*rest'') = Some [(''id'', ''7''), (''rest'', ''x/y'')]"
proof -
  have c: "compile_pattern ''/u/:id/*rest'' = [Static ''u'', Param ''id'', Wildcard ''rest'']"
    and s: "split_path ''/u/7/x/y'' = [''u'', ''7'', ''x'', ''y'']" by code_simp+
  have "compile_pattern ''/u/:id/*rest'' \<noteq> []" using c by simp
  note iff = match_and_bind_exact [OF this, of "''/u/7/x/y''" "[(''id'', ''7''), (''rest'', ''x/y'')]"]
  have "seg_matches [Static ''u'', Param ''id'', Wildcard ''rest''] [''u'', ''7'', ''x'', ''y'']
      [(''id'', ''7''), (''rest'', join_with ''/'' [''x'', ''y''])]"
    by (intro seg_matches.intros)
  then have "\<exists>bs. seg_matches (compile_pattern ''/u/:id/*rest'') (split_path ''/u/7/x/y'') bs \<and>
      [(''id'', ''7''), (''rest'', ''x/y'')] = bind_all bs []"
    unfolding c s by (intro exI [of _ "[(''id'', ''7''), (''rest'', join_with ''/'' [''x'', ''y''])]"]) simp
  with iff show ?thesis by blast
qed

text \<open>C9: The routing decision of the terminal stage: the first registered route whose pattern
  matches the path and whose method fits runs, with its parameters bound; when only the path is
  known the answer is 405 with the \<open>Allow\<close> header; when nothing matches nothing happens.\<close>

theorem routing_decision:
  "terminal_stage ro s w =
     (let m = rq_method (cx_req w); path = rq_path (cx_req w); rs = ro_routes ro
      in case List.find (route_accepts m path) rs of
           Some r \<Rightarrow>
             (case run_route (route_chain ro r)
                (w\<lparr>cx_req := (cx_req w)\<lparr>rq_params := the (match_and_bind path (rt_segs r))\<rparr>\<rparr>) of
                (w', e) \<Rightarrow> ((fst s, True), w', e))
         | None \<Rightarrow>
             if \<exists>r \<in> set rs. route_matches path r then
               ((fst s, True),
                upd_res (\<lambda>r. snd (res_send (''Method Not Allowed'' @ [LF]) text_plain
                  (res_set_header ''Allow''
                    (allow_header (map rt_method (filter (\<lambda>r. route_matches path r \<and> rt_method r \<noteq> UNKNOWN) rs)))
                    (res_status MethodNotAllowed r)))) w, None)
             else (s, w, None))"
  unfolding terminal_stage_def Let_def
  by (subst lookup_loop_find) (simp split: option.split)

text \<open>The methods a 405 answer lists are exactly those for which the same path would have
  been accepted (including \<open>HEAD\<close> through a \<open>GET\<close> route), each once.\<close>

theorem allow_header_exact:
  "List.find (route_accepts m path) rs = None \<Longrightarrow> m' \<noteq> UNKNOWN \<Longrightarrow>
     distinct (allow_methods (map rt_method (filter (\<lambda>r. route_matches path r \<and> rt_method r \<noteq> UNKNOWN) rs))) \<and>
     (m' \<in> set (allow_methods (map rt_method (filter (\<lambda>r. route_matches path r \<and> rt_method r \<noteq> UNKNOWN) rs)))
       \<longleftrightarrow> (\<exists>r \<in> set rs. route_accepts m' path r))"
  using not_allowed_iff [of m path rs m'] set_allow_methods by blast

theorem allow_header_exact_witness:
  "HEAD \<in> set (allow_methods (map rt_method
     (filter (\<lambda>r. route_matches ''/'' r \<and> rt_method r \<noteq> UNKNOWN)
       [\<lparr>rt_method = GET, rt_pattern = ''/'', rt_handler = (\<lambda>w :: unit ctx. (w, None)), rt_mws = [], rt_segs = []\<rparr>])))"
proof -
  let ?r = "\<lparr>rt_method = GET, rt_pattern = ''/'', rt_handler = (\<lambda>w :: unit ctx. (w, None)), rt_mws = [], rt_segs = []\<rparr>"
  have n: "List.find (route_accepts POST ''/'') [?r] = None"
    by (simp add: route_accepts_def method_ok_def)
  have "\<exists>r \<in> set [?r]. route_accepts HEAD ''/'' r"
    by (simp add: route_accepts_def method_ok_def route_matches_def match_and_bind_def)
  then show ?thesis using allow_header_exact [OF n, of HEAD] by blast
qed

text \<open>C10: A chain of middleware always terminates: the recursion of \<open>next\<close> is bounded by the
  number of registered middlewares, whatever they do with \<open>next\<close> (call it repeatedly, not at
  all, after an exception), so more fuel than that never changes the outcome.\<close>

theorem dispatch_terminates:
  "run_chain (length (ro_global ro)) cx_ended (ro_global ro) (terminal_stage ro) (0, False) w =
     run_chain (length (ro_global ro) + k) cx_ended (ro_global ro) (terminal_stage ro) (0, False) w \<and>
   run_route chain w' =
     (case run_chain (length chain + k) cx_ended chain (\<lambda>s w. (s, w, None)) (0, ()) w' of
        (_, v, e) \<Rightarrow> (v, e))"
proof -
  have "fst s \<le> fst (fst (terminal_stage ro s w))" for s w
    by (auto simp: terminal_stage_def Let_def split: prod.splits option.splits)
  then have "run_chain (length (ro_global ro)) cx_ended (ro_global ro) (terminal_stage ro) (0, False) w =
     run_chain (length (ro_global ro) + k) cx_ended (ro_global ro) (terminal_stage ro) (0, False) w"
    by (intro conjunct1 [OF run_chain_fuel]) simp_all
  moreover have "run_chain (length chain) cx_ended chain (\<lambda>s w. (s, w, None)) (0, ()) w' =
     run_chain (length chain + k) cx_ended chain (\<lambda>s w. (s, w, None)) (0, ()) w'"
    by (intro conjunct1 [OF run_chain_fuel]) simp_all
  ultimately show ?thesis by (simp add: run_route_def)
qed

text \<open>C11: Global middleware nests around the router like an onion: what each does before
  \<open>next\<close> happens in registration order, then the routing stage, then what each does after
  \<open>next\<close> in reverse order; when the stage throws, the exception passes through all of them.\<close>

theorem middleware_onion_order:
  "ro_global ro = map around ps \<Longrightarrow>
   \<forall>k \<le> length ps. \<not> cx_ended (fold fst (take k ps) w) \<Longrightarrow>
     dispatch ro w =
       (case terminal_stage ro (length ps, False) (fold fst ps w) of
          ((_, handled), w', e) \<Rightarrow>
            (let v = (if e = None then foldr snd ps w' else w') in (handled \<or> cx_ended v, v, e)))"
  using run_chain_around [of ps cx_ended w "terminal_stage ro" False]
  by (simp add: dispatch_def Let_def split: prod.splits)

theorem middleware_onion_order_witness:
  "dispatch \<lparr>ro_routes = [], ro_global = map around [(\<lambda>w. w\<lparr>cx_ext := cx_ext w @ ''a''\<rparr>, \<lambda>w. w\<lparr>cx_ext := cx_ext w @ ''z''\<rparr>)],
      ro_groups = []\<rparr> \<lparr>cx_req = empty_request, cx_res = new_response, cx_ext = []\<rparr> =
    (False, \<lparr>cx_req = empty_request, cx_res = new_response, cx_ext = ''az''\<rparr>, None)"
proof -
  let ?ps = "[(\<lambda>w. w\<lparr>cx_ext := cx_ext w @ ''a''\<rparr>, \<lambda>w. w\<lparr>cx_ext := cx_ext w @ ''z''\<rparr>)] :: ((string ctx \<Rightarrow> string ctx) \<times> (string ctx \<Rightarrow> string ctx)) list"
  let ?ro = "\<lparr>ro_routes = [], ro_global = map around ?ps, ro_groups = []\<rparr>"
  let ?w = "\<lparr>cx_req = empty_request, cx_res = new_response, cx_ext = []\<rparr> :: string ctx"
  have live: "\<forall>k \<le> length ?ps. \<not> cx_ended (fold fst (take k ?ps) ?w)"
    by (auto simp: cx_ended_def new_response_def le_Suc_eq)
  have g: "ro_global ?ro = map around ?ps" by simp
  show ?thesis
    using middleware_onion_order [OF g live]
    by (simp add: terminal_stage_def cx_ended_def new_response_def)
qed



text \<open>Without the slash the route escapes the group: its full pattern is not under the prefix.\<close>

lemma group_middleware_skipped:
  "\<not> prefix_matches (group_full_pattern ''/admin'' ''users'') ''/admin''"
  by (simp add: prefix_matches_def group_full_pattern_def starts_with_def)

end
