(* ===== verification/Cors.thy ===== *)
theory Cors
  imports Router
begin

text \<open>
  The CORS middleware (\<open>src/cors.cpp\<close>) and the policy half of response compression
  (\<open>src/compression.cpp\<close>: which types are compressed, which encoding is negotiated). The
  zlib calls themselves are arguments of the functions that use them.
\<close>

section \<open>Compression policy\<close>

datatype encoding = EncNone | Gzip | Deflate

record comp_options =
  co_enable :: bool
  co_gzip :: bool
  co_deflate :: bool
  co_min_size :: nat
  co_types :: "string list"

definition default_comp_options :: comp_options where
  "default_comp_options =
     \<lparr>co_enable = True, co_gzip = True, co_deflate = True, co_min_size = 256,
      co_types = [''text/'', ''application/json'', ''application/javascript'', ''application/xml'',
                  ''application/xhtml+xml'', ''application/rss+xml'', ''image/svg+xml'']\<rparr>"

definition is_compressible_type :: "string \<Rightarrow> comp_options \<Rightarrow> bool" where
  "is_compressible_type ct opts =
     (if ct = [] then True
      else let l = to_lower_copy ct
           in if starts_with l ''image/'' then False
              else if starts_with l ''video/'' then False
              else if starts_with l ''audio/'' then False
              else if l = ''application/zip'' \<or> l = ''application/gzip'' \<or> l = ''application/x-gzip''
              then False
              else if co_types opts = [] then True
              else list_ex (\<lambda>p. starts_with l (to_lower_copy p)) (co_types opts))"

definition negotiate_accept_encoding :: "string \<Rightarrow> comp_options \<Rightarrow> encoding" where
  "negotiate_accept_encoding accept_enc opts =
     (if \<not> co_enable opts then EncNone
      else if accept_enc = [] then EncNone
      else let low = to_lower_copy accept_enc
           in if co_gzip opts \<and> find_sub ''gzip'' low \<noteq> None then Gzip
              else if co_deflate opts \<and> find_sub ''deflate'' low \<noteq> None then Deflate
              else EncNone)"

section \<open>CORS\<close>

record cors_options =
  cr_allow_origin :: string
  cr_reflect_origin :: bool
  cr_allow_methods :: string
  cr_allow_headers :: string
  cr_expose_headers :: string
  cr_allow_credentials :: bool
  cr_max_age_seconds :: int
  cr_allow_private_network :: bool
  cr_preflight_continue :: bool

definition default_cors_options :: cors_options where
  "default_cors_options =
     \<lparr>cr_allow_origin = ''*'', cr_reflect_origin = False,
      cr_allow_methods = ''GET,POST,PUT,PATCH,DELETE,OPTIONS,HEAD'', cr_allow_headers = [],
      cr_expose_headers = [], cr_allow_credentials = False, cr_max_age_seconds = 600,
      cr_allow_private_network = False, cr_preflight_continue = False\<rparr>"

definition append_vary :: "string \<Rightarrow> header_map \<Rightarrow> header_map" where
  "append_vary token h =
     (case hm_get h ''Vary'' of
        None \<Rightarrow> hm_set ''Vary'' token h
      | Some cur \<Rightarrow>
          if find_sub (to_lower_copy token) (to_lower_copy cur) = None
          then hm_set ''Vary'' (cur @ '', '' @ token) h else h)"

definition res_append_vary :: "string \<Rightarrow> response \<Rightarrow> response" where
  "res_append_vary token r = r\<lparr>rs_headers := append_vary token (rs_headers r)\<rparr>"

definition is_preflight :: "request \<Rightarrow> bool" where
  "is_preflight rq =
     (if rq_method rq \<noteq> OPTIONS then False
      else find_header (rq_headers rq) ''Access-Control-Request-Method'' \<noteq> [])"

text \<open>The value of \<open>Access-Control-Allow-Origin\<close> (\<open>None\<close>: not allowed) and \<open>set_vary_origin\<close>.\<close>

definition origin_allowed :: "string \<Rightarrow> cors_options \<Rightarrow> string option \<times> bool" where
  "origin_allowed origin opts =
     (if origin = [] then (None, False)
      else if cr_reflect_origin opts then (Some origin, True)
      else if cr_allow_origin opts = ''*'' then
        (if \<not> cr_allow_credentials opts then (Some ''*'', False) else (None, False))
      else if to_lower_copy origin \<noteq> to_lower_copy (cr_allow_origin opts) then (None, True)
      else (Some (cr_allow_origin opts), True))"

definition cors_origin_headers :: "cors_options \<Rightarrow> string option \<Rightarrow> bool \<Rightarrow> response \<Rightarrow> response" where
  "cors_origin_headers opts value vary r =
     (case value of
        None \<Rightarrow> r
      | Some v \<Rightarrow>
          (let r = res_set_header ''Access-Control-Allow-Origin'' v r;
               r = (if cr_allow_credentials opts
                    then res_set_header ''Access-Control-Allow-Credentials'' ''true'' r else r)
           in if vary then res_append_vary ''Origin'' r else r))"

definition cors_preflight_headers :: "cors_options \<Rightarrow> header_map \<Rightarrow> response \<Rightarrow> response" where
  "cors_preflight_headers opts rh r =
     (let req_method = find_header rh ''Access-Control-Request-Method'';
          r = (if cr_allow_methods opts \<noteq> [] then
                 res_set_header ''Access-Control-Allow-Methods'' (cr_allow_methods opts) r
               else if req_method \<noteq> [] then
                 res_set_header ''Access-Control-Allow-Methods'' req_method r
               else r);
          req_headers = find_header rh ''Access-Control-Request-Headers'';
          r = (if cr_allow_headers opts \<noteq> [] then
                 res_set_header ''Access-Control-Allow-Headers'' (cr_allow_headers opts) r
               else if req_headers \<noteq> [] then
                 res_append_vary ''Access-Control-Request-Headers''
                   (res_set_header ''Access-Control-Allow-Headers'' req_headers r)
               else r);
          r = (if cr_allow_private_network opts \<and>
                  find_header rh ''Access-Control-Request-Private-Network'' \<noteq> [] then
                 res_set_header ''Access-Control-Allow-Private-Network'' ''true'' r
               else r)
      in if cr_max_age_seconds opts > 0 then
           res_set_header ''Access-Control-Max-Age'' (show_int (cr_max_age_seconds opts)) r
         else r)"

definition pass_on :: "'w \<Rightarrow> string option \<Rightarrow> 'w prog" where
  "pass_on w e = (case e of None \<Rightarrow> Ret w | Some x \<Rightarrow> Throw x w)"

definition cors_middleware :: "cors_options \<Rightarrow> 'e ctx mware" where
  "cors_middleware opts w =
     (let rh = rq_headers (cx_req w); origin = find_header rh ''Origin''
      in if origin = [] then Next w pass_on
         else
           (let (value, vary) = origin_allowed origin opts;
                w = upd_res (cors_origin_headers opts value vary) w
            in if is_preflight (cx_req w) then
                 (let w = upd_res (cors_preflight_headers opts rh) w
                  in if value = None then
                       (if \<not> cr_preflight_continue opts then
                          Ret (upd_res (\<lambda>r. res_end (res_set_header H_ContentLength ''0'' (res_status NoContent r))) w)
                        else Next w pass_on)
                     else if \<not> cr_preflight_continue opts then
                       Ret (upd_res (\<lambda>r. res_end (res_set_header H_ContentType text_plain
                              (res_set_header H_ContentLength ''0'' (res_status NoContent r)))) w)
                     else Next w pass_on)
               else
                 (let w = (if cr_expose_headers opts \<noteq> [] then
                             upd_res (res_set_header ''Access-Control-Expose-Headers'' (cr_expose_headers opts)) w
                           else w)
                  in Next w pass_on)))"

section \<open>Lemmas\<close>

lemma hm_get_append_vary: "\<not> ci_equal ''Vary'' k \<Longrightarrow> hm_get (append_vary t h) k = hm_get h k"
  by (simp add: append_vary_def hm_get_set split: option.split)

lemma hm_get_res_set [simp]:
  "hm_get (rs_headers (res_set_header a v r)) k = (if ci_equal a k then Some v else hm_get (rs_headers r) k)"
  by (simp add: res_set_header_def hm_get_set)

lemma hm_get_res_vary [simp]:
  "\<not> ci_equal ''Vary'' k \<Longrightarrow> hm_get (rs_headers (res_append_vary t r)) k = hm_get (rs_headers r) k"
  by (simp add: res_append_vary_def hm_get_append_vary)

text \<open>Header names are compared by their lower-case forms; these are the pairs that matter.\<close>

lemma cors_names [simp]:
  "ci_equal ''Access-Control-Allow-Origin'' ''Access-Control-Allow-Origin''"
  "\<not> ci_equal ''Access-Control-Allow-Credentials'' ''Access-Control-Allow-Origin''"
  "\<not> ci_equal ''Access-Control-Allow-Methods'' ''Access-Control-Allow-Origin''"
  "\<not> ci_equal ''Access-Control-Allow-Headers'' ''Access-Control-Allow-Origin''"
  "\<not> ci_equal ''Access-Control-Allow-Private-Network'' ''Access-Control-Allow-Origin''"
  "\<not> ci_equal ''Access-Control-Max-Age'' ''Access-Control-Allow-Origin''"
  "\<not> ci_equal ''Access-Control-Expose-Headers'' ''Access-Control-Allow-Origin''"
  "\<not> ci_equal ''Content-Length'' ''Access-Control-Allow-Origin''"
  "\<not> ci_equal ''Content-Type'' ''Access-Control-Allow-Origin''"
  "\<not> ci_equal ''Vary'' ''Access-Control-Allow-Origin''"
  "\<not> ci_equal ''Access-Control-Allow-Origin'' ''Access-Control-Allow-Credentials''"
  "ci_equal ''Access-Control-Allow-Credentials'' ''Access-Control-Allow-Credentials''"
  "\<not> ci_equal ''Access-Control-Allow-Methods'' ''Access-Control-Allow-Credentials''"
  "\<not> ci_equal ''Access-Control-Allow-Headers'' ''Access-Control-Allow-Credentials''"
  "\<not> ci_equal ''Access-Control-Allow-Private-Network'' ''Access-Control-Allow-Credentials''"
  "\<not> ci_equal ''Access-Control-Max-Age'' ''Access-Control-Allow-Credentials''"
  "\<not> ci_equal ''Access-Control-Expose-Headers'' ''Access-Control-Allow-Credentials''"
  "\<not> ci_equal ''Content-Length'' ''Access-Control-Allow-Credentials''"
  "\<not> ci_equal ''Content-Type'' ''Access-Control-Allow-Credentials''"
  "\<not> ci_equal ''Vary'' ''Access-Control-Allow-Credentials''"
  by (simp_all add: ci_equal_def)

text \<open>The world a middleware hands on: to \<open>next\<close> or back to its caller.\<close>

fun prog_world :: "'w prog \<Rightarrow> 'w" where
  "prog_world (Ret w) = w"
| "prog_world (Throw e w) = w"
| "prog_world (Next w k) = w"

fun calls_next :: "'w prog \<Rightarrow> bool" where
  "calls_next (Next w k) = True"
| "calls_next _ = False"

definition acao :: "'e ctx \<Rightarrow> string option" where
  "acao w = hm_get (rs_headers (cx_res w)) ''Access-Control-Allow-Origin''"

definition acac :: "'e ctx \<Rightarrow> string option" where
  "acac w = hm_get (rs_headers (cx_res w)) ''Access-Control-Allow-Credentials''"

lemma rs_headers_end_status [simp]:
  "rs_headers (res_end r) = rs_headers r" "rs_headers (res_status s r) = rs_headers r"
  by (simp_all add: res_end_def default_status_def res_status_def)

lemma origin_headers_get:
  "hm_get (rs_headers (cors_origin_headers opts v vary r)) ''Access-Control-Allow-Origin'' =
     (case v of None \<Rightarrow> hm_get (rs_headers r) ''Access-Control-Allow-Origin'' | Some x \<Rightarrow> Some x)"
  "hm_get (rs_headers (cors_origin_headers opts v vary r)) ''Access-Control-Allow-Credentials'' =
     (if v \<noteq> None \<and> cr_allow_credentials opts then Some ''true''
      else hm_get (rs_headers r) ''Access-Control-Allow-Credentials'')"
  by (simp_all add: cors_origin_headers_def Let_def split: option.split)

lemma preflight_headers_get:
  "hm_get (rs_headers (cors_preflight_headers opts rh r)) ''Access-Control-Allow-Origin'' =
     hm_get (rs_headers r) ''Access-Control-Allow-Origin''"
  "hm_get (rs_headers (cors_preflight_headers opts rh r)) ''Access-Control-Allow-Credentials'' =
     hm_get (rs_headers r) ''Access-Control-Allow-Credentials''"
  by (simp_all add: cors_preflight_headers_def Let_def)

lemma cors_acao:
  fixes w :: "'e ctx" and opts :: cors_options
  assumes "acao w = None" "acac w = None"
  defines "v \<equiv> fst (origin_allowed (find_header (rq_headers (cx_req w)) ''Origin'') opts)"
  shows "acao (prog_world (cors_middleware opts w)) = v \<and>
    acac (prog_world (cors_middleware opts w)) = (if v \<noteq> None \<and> cr_allow_credentials opts then Some ''true'' else None)"
proof -
  let ?og = "find_header (rq_headers (cx_req w)) ''Origin''"
  obtain av vary where ov: "origin_allowed ?og opts = (av, vary)" by fastforce
  then have v: "v = av" by (simp add: v_def)
  show ?thesis
  proof (cases "?og = []")
    case True
    then have "av = None" using ov by (simp add: origin_allowed_def)
    with True assms(1,2) v show ?thesis by (simp add: cors_middleware_def)
  next
    case False
    show ?thesis unfolding v
      using assms(1,2) False ov
      by (auto simp: cors_middleware_def acao_def acac_def upd_res_def Let_def origin_headers_get
          preflight_headers_get split: option.split)
  qed
qed

text \<open>A wildcard answer is never combined with credentials (browsers refuse the pair).\<close>

lemma origin_allowed_wildcard:
  "fst (origin_allowed origin opts) = Some ''*'' \<Longrightarrow> origin \<noteq> ''*'' \<Longrightarrow> \<not> cr_allow_credentials opts"
  by (auto simp: origin_allowed_def split: if_splits)


lemma cors_calls_next:
  "calls_next (cors_middleware opts w) \<longleftrightarrow>
     find_header (rq_headers (cx_req w)) ''Origin'' = [] \<or> \<not> is_preflight (cx_req w) \<or> cr_preflight_continue opts"
  by (auto simp: cors_middleware_def Let_def upd_res_def split: prod.split)

text \<open>A denied origin is not announced in \<open>Vary\<close>, although the decision depended on it (and
  \<open>origin_allowed\<close> says so).\<close>

lemma cors_denied_without_vary:
  "origin_allowed ''https://evil'' (default_cors_options\<lparr>cr_allow_origin := ''https://good''\<rparr>) = (None, True) \<and>
   cors_origin_headers (default_cors_options\<lparr>cr_allow_origin := ''https://good''\<rparr>) None True r = r"
  by (simp add: origin_allowed_def cors_origin_headers_def default_cors_options_def to_lower_copy_def
      ascii_lower_def)

text \<open>The allowlist entry for SVG images can never be reached.\<close>

lemma svg_never_compressed: "\<not> is_compressible_type ''image/svg+xml'' default_comp_options"
  by (simp add: is_compressible_type_def to_lower_copy_def ascii_lower_def starts_with_def)

text \<open>A client that forbids gzip with a zero weight is nevertheless sent gzip.\<close>

lemma gzip_q0_negotiated: "negotiate_accept_encoding ''gzip;q=0'' default_comp_options = Gzip"
  by (simp add: negotiate_accept_encoding_def default_comp_options_def to_lower_copy_def ascii_lower_def)

section \<open>Properties\<close>

text \<open>The CORS middleware emits \<open>Access-Control-Allow-Origin\<close> exactly when the policy
  allows the request's origin, with exactly the policy's value; it announces credentials only
  with it and never together with the wildcard; and it ends preflight requests itself (without
  calling the rest of the chain) unless told to continue.\<close>

lemma cors_decision_exact:
  "acao w = None \<Longrightarrow> acac w = None \<Longrightarrow> find_header (rq_headers (cx_req w)) ''Origin'' = origin \<Longrightarrow>
     acao (prog_world (cors_middleware opts w)) = fst (origin_allowed origin opts) \<and>
     (acac (prog_world (cors_middleware opts w)) \<noteq> None \<longleftrightarrow>
        fst (origin_allowed origin opts) \<noteq> None \<and> cr_allow_credentials opts) \<and>
     (origin \<noteq> ''*'' \<and> acao (prog_world (cors_middleware opts w)) = Some ''*'' \<longrightarrow>
        acac (prog_world (cors_middleware opts w)) = None) \<and>
     (calls_next (cors_middleware opts w) \<longleftrightarrow>
        origin = [] \<or> \<not> is_preflight (cx_req w) \<or> cr_preflight_continue opts)"
  using cors_acao [of w opts] origin_allowed_wildcard [of origin opts] cors_calls_next [of opts w] by auto

lemma cors_decision_exact_example:
  "acao (prog_world (cors_middleware default_cors_options
     \<lparr>cx_req = empty_request\<lparr>rq_headers := [(''origin'', ''https://a'')]\<rparr>, cx_res = new_response, cx_ext = ()\<rparr>)) = Some ''*''"
proof -
  let ?w = "\<lparr>cx_req = empty_request\<lparr>rq_headers := [(''origin'', ''https://a'')]\<rparr>, cx_res = new_response, cx_ext = ()\<rparr>"
  have "ci_equal ''origin'' ''Origin''" by code_simp
  then have "acao ?w = None" "acac ?w = None" "find_header (rq_headers (cx_req ?w)) ''Origin'' = ''https://a''"
    by (simp_all add: acao_def acac_def new_response_def find_header_def hm_get_def)
  from cors_decision_exact [OF this, of default_cors_options] show ?thesis
    by (simp add: origin_allowed_def default_cors_options_def)
qed

end
