(* ===== verification/Respond.thy ===== *)
theory Respond
  imports Cors ParserLaws
begin

text \<open>
  How the server writes a response: \<open>serialize_response_\<close>, \<open>wants_close_\<close> and the output
  byte buffer's FIFO sibling \<open>include/socketify/detail/buffer.h\<close>. The clock (the date string),
  zlib and the iteration order of the header map are arguments.
\<close>

section \<open>The FIFO byte buffer\<close>

record buffer =
  bf_storage :: string
  bf_head :: nat

definition new_buffer :: buffer where
  "new_buffer = \<lparr>bf_storage = [], bf_head = 0\<rparr>"

definition buf_size :: "buffer \<Rightarrow> nat" where
  "buf_size b = length (bf_storage b) - bf_head b"

definition buf_view :: "buffer \<Rightarrow> string" where
  "buf_view b = take (buf_size b) (drop (bf_head b) (bf_storage b))"

definition buf_empty :: "buffer \<Rightarrow> bool" where
  "buf_empty b \<longleftrightarrow> buf_size b = 0"

definition maybe_compact :: "buffer \<Rightarrow> buffer" where
  "maybe_compact b =
     (if bf_head b > 4096 \<and> bf_head b > length (bf_storage b) div 2
      then b\<lparr>bf_storage := drop (bf_head b) (bf_storage b), bf_head := 0\<rparr> else b)"

definition buf_append :: "string \<Rightarrow> buffer \<Rightarrow> buffer" where
  "buf_append p b =
     (if p = [] then b
      else let b = maybe_compact b in b\<lparr>bf_storage := bf_storage b @ p\<rparr>)"

definition buf_consume :: "nat \<Rightarrow> buffer \<Rightarrow> buffer" where
  "buf_consume n b =
     (let b = b\<lparr>bf_head := bf_head b + (if n > buf_size b then buf_size b else n)\<rparr>
      in if bf_head b = length (bf_storage b) then b\<lparr>bf_storage := [], bf_head := 0\<rparr> else b)"

definition buf_clear :: "buffer \<Rightarrow> buffer" where
  "buf_clear b = b\<lparr>bf_storage := [], bf_head := 0\<rparr>"

definition buf_ok :: "buffer \<Rightarrow> bool" where
  "buf_ok b \<longleftrightarrow> bf_head b \<le> length (bf_storage b)"

subsection \<open>The queue it implements\<close>

text \<open>The contract: the view is the queue, appending extends it at the end, consuming drops
  from the front (clamped), and nothing else is observable.\<close>

locale byte_queue =
  fixes ok :: "'q \<Rightarrow> bool"
    and view :: "'q \<Rightarrow> string"
    and append :: "string \<Rightarrow> 'q \<Rightarrow> 'q"
    and consume :: "nat \<Rightarrow> 'q \<Rightarrow> 'q"
    and fresh :: 'q
  assumes fresh_ok: "ok fresh" and fresh_view: "view fresh = []"
    and append_ok: "ok q \<Longrightarrow> ok (append s q)"
    and append_view: "ok q \<Longrightarrow> view (append s q) = view q @ s"
    and consume_ok: "ok q \<Longrightarrow> ok (consume n q)"
    and consume_view: "ok q \<Longrightarrow> view (consume n q) = drop n (view q)"
begin

lemma append_all: "ok q \<Longrightarrow> ok (fold append ss q) \<and> view (fold append ss q) = view q @ concat ss"
  by (induction ss arbitrary: q) (simp_all add: append_ok append_view)

lemma consume_add: "ok q \<Longrightarrow> view (consume n (consume m q)) = view (consume (m + n) q)"
  by (simp add: consume_ok consume_view add.commute)

text \<open>Bytes leave in the order they came, whatever the interleaving.\<close>

lemma fifo: "ok q \<Longrightarrow> n \<le> length (view q) \<Longrightarrow>
  take n (view q) @ view (append s (consume n q)) = view q @ s"
  by (simp add: append_view consume_ok consume_view flip: append_assoc)

end

lemma maybe_compact_view: "buf_ok b \<Longrightarrow> buf_ok (maybe_compact b) \<and> buf_view (maybe_compact b) = buf_view b"
  by (simp add: buf_ok_def maybe_compact_def buf_view_def buf_size_def)

lemma buf_view_eq: "buf_ok b \<Longrightarrow> buf_view b = drop (bf_head b) (bf_storage b)"
  by (simp add: buf_view_def buf_size_def)

interpretation bufq: byte_queue buf_ok buf_view buf_append buf_consume new_buffer
proof unfold_locales
  show "buf_ok new_buffer" "buf_view new_buffer = []"
    by (simp_all add: buf_ok_def buf_view_def buf_size_def new_buffer_def)
next
  fix q s n assume q: "buf_ok q"
  let ?c = "maybe_compact q"
  have c: "buf_ok ?c" "buf_view ?c = buf_view q" using maybe_compact_view [OF q] by simp_all
  then show ok: "buf_ok (buf_append s q)" using q by (simp add: buf_append_def buf_ok_def Let_def)
  show "buf_view (buf_append s q) = buf_view q @ s"
    using c q ok by (auto simp: buf_append_def Let_def buf_view_eq) (simp add: buf_ok_def buf_view_eq)
  show "buf_ok (buf_consume n q)" using q by (auto simp: buf_consume_def buf_ok_def buf_size_def Let_def)
  show "buf_view (buf_consume n q) = drop n (buf_view q)"
    using q by (auto simp: buf_consume_def buf_view_def buf_size_def buf_ok_def Let_def drop_take min_def add.commute)
qed

section \<open>Serialization\<close>

definition wants_close :: "request \<Rightarrow> response \<Rightarrow> bool" where
  "wants_close rq rs =
     (let rconn = find_header (rq_headers rq) H_Connection
      in if rconn \<noteq> [] \<and> iequal_ascii rconn ''close'' then True
         else if rconn \<noteq> [] \<and> iequal_ascii rconn ''keep-alive'' then False
         else (let sconn = find_header (rs_headers rs) H_Connection
               in if sconn \<noteq> [] \<and> iequal_ascii sconn ''close'' then True
                  else rq_version rq = ''HTTP/1.0''))"

text \<open>zlib: \<open>gzip_compress\<close> and \<open>deflate_compress\<close>; \<open>None\<close> is their \<open>false\<close>.\<close>

record zlib_api =
  z_gzip :: "string \<Rightarrow> string option"
  z_deflate :: "string \<Rightarrow> string option"

text \<open>The compression step: the body to send and the \<open>Content-Encoding\<close> value.\<close>

definition compress_body :: "zlib_api \<Rightarrow> comp_options \<Rightarrow> request \<Rightarrow> response \<Rightarrow> string \<Rightarrow> string \<times> string" where
  "compress_body z opts rq rs body =
     (if rs_kind rs = Buffered \<and> co_enable opts \<and> body \<noteq> [] \<and>
         find_header (rs_headers rs) H_ContentEncoding = []
      then (let enc = negotiate_accept_encoding (find_header (rq_headers rq) H_AcceptEncoding) opts
            in if enc \<noteq> EncNone \<and> is_compressible_type (find_header (rs_headers rs) H_ContentType) opts
                  \<and> length body \<ge> co_min_size opts
               then (let (compressed, name) =
                       (case enc of Gzip \<Rightarrow> (z_gzip z body, ''gzip'')
                                  | Deflate \<Rightarrow> (z_deflate z body, ''deflate'')
                                  | EncNone \<Rightarrow> (None, []))
                     in case compressed of
                          Some c \<Rightarrow> if length c < length body then (c, name) else (body, [])
                        | None \<Rightarrow> (body, []))
               else (body, []))
      else (body, []))"

text \<open>The lambda \<open>begins_with\<close>: letters compared with bit 5 set.\<close>

definition begins_with_ci :: "string \<Rightarrow> string \<Rightarrow> bool" where
  "begins_with_ci s pfx \<longleftrightarrow>
     length pfx \<le> length s \<and>
     list_all2 (\<lambda>a b. Bit_Operations.or (ord a) 32 = Bit_Operations.or (ord b) 32) pfx (take (length pfx) s)"

definition forced_content_type :: "response \<Rightarrow> string \<Rightarrow> string" where
  "forced_content_type rs body =
     (if body \<noteq> [] \<and> find_header (rs_headers rs) H_ContentType = []
      then if begins_with_ci body ''<!doctype'' \<or> begins_with_ci body ''<html''
           then ''text/html; charset=utf-8'' else text_plain
      else [])"

definition header_line :: "string \<Rightarrow> string \<Rightarrow> string" where
  "header_line k v = k @ '': '' @ v @ CRLF"

text \<open>The loop over the header map, in the container's iteration order; the flag is \<open>have_vary\<close>.\<close>

fun emit_headers :: "header_map \<Rightarrow> string \<times> bool" where
  "emit_headers [] = ([], False)"
| "emit_headers ((k, v) # hs) =
     (let low = to_lower_copy k; (rest, vary) = emit_headers hs
      in if low = ''content-length'' \<or> low = ''connection'' then (rest, vary)
         else (header_line k v @ rest, low = ''vary'' \<or> vary))"

definition length_line :: "response \<Rightarrow> string \<Rightarrow> string" where
  "length_line rs body =
     (case rs_kind rs of
        Buffered \<Rightarrow> header_line ''Content-Length'' (show_nat (length body))
      | File \<Rightarrow> header_line ''Content-Length'' (show_nat (rs_file_length rs))
      | Stream \<Rightarrow> []
      | PulseUpgrade \<Rightarrow> [])"

definition connection_value :: "response \<Rightarrow> bool \<Rightarrow> string" where
  "connection_value rs close_connection =
     (if rs_kind rs = PulseUpgrade then ''Upgrade''
      else if close_connection then ''close'' else ''keep-alive'')"

text \<open>The text appended to \<open>out\<close>, and the response with its body taken.\<close>

definition serialize_response :: "zlib_api \<Rightarrow> string \<Rightarrow> (header_map \<Rightarrow> header_map) \<Rightarrow> comp_options \<Rightarrow>
    request \<Rightarrow> response \<Rightarrow> bool \<Rightarrow> bool \<Rightarrow> string \<times> response" where
  "serialize_response z date order opts rq rs0 head_request close_connection =
     (let (body0, rs) = (if rs_kind rs0 = Buffered then res_take_body rs0 else ([], rs0));
          (body, content_encoding) = compress_body z opts rq rs body0;
          forced = forced_content_type rs body;
          code = (if rs_status rs \<noteq> 0 then rs_status rs else 200);
          (fields, have_vary) = emit_headers (order (rs_headers rs))
      in (''HTTP/1.1 '' @ show_nat code @ [SP] @ reason (status_of_num code) @ CRLF
          @ header_line ''Date'' date @ header_line ''Server'' ''socketify''
          @ fields
          @ concat (map (header_line ''Set-Cookie'') (rs_set_cookies rs))
          @ (if forced \<noteq> [] then header_line ''Content-Type'' forced else [])
          @ (if content_encoding \<noteq> [] then
               header_line ''Content-Encoding'' content_encoding
               @ (if \<not> have_vary then header_line ''Vary'' ''Accept-Encoding'' else [])
             else [])
          @ length_line rs body
          @ header_line ''Connection'' (connection_value rs close_connection)
          @ CRLF
          @ (if \<not> head_request \<and> body \<noteq> [] then body else []), rs))"

section \<open>The structure of what is written\<close>

definition kept_header :: "string \<times> string \<Rightarrow> bool" where
  "kept_header kv \<longleftrightarrow> to_lower_copy (fst kv) \<noteq> ''content-length'' \<and> to_lower_copy (fst kv) \<noteq> ''connection''"

definition has_vary :: "header_map \<Rightarrow> bool" where
  "has_vary hs \<longleftrightarrow> (\<exists>kv \<in> set hs. kept_header kv \<and> to_lower_copy (fst kv) = ''vary'')"

lemma emit_headers_eq:
  "emit_headers hs = (concat (map render_header (filter kept_header hs)), has_vary hs)"
proof (induction hs)
  case Nil
  show ?case by (simp add: has_vary_def)
next
  case (Cons kv hs)
  then show ?case
    by (cases kv) (auto simp: has_vary_def kept_header_def header_line_def render_header_def Let_def)
qed

text \<open>The header fields of the response in the order they are written, and its body.\<close>

definition sent_body :: "zlib_api \<Rightarrow> comp_options \<Rightarrow> request \<Rightarrow> response \<Rightarrow> string \<times> string" where
  "sent_body z opts rq rs =
     (if rs_kind rs = Buffered then compress_body z opts rq (rs\<lparr>rs_body := []\<rparr>) (rs_body rs) else ([], []))"

definition response_fields :: "zlib_api \<Rightarrow> string \<Rightarrow> (header_map \<Rightarrow> header_map) \<Rightarrow> comp_options \<Rightarrow>
    request \<Rightarrow> response \<Rightarrow> bool \<Rightarrow> (string \<times> string) list" where
  "response_fields z date order opts rq rs close_connection =
     (let (body, enc) = sent_body z opts rq rs; forced = forced_content_type rs body;
          hs = order (rs_headers rs)
      in [(''Date'', date), (''Server'', ''socketify'')] @ filter kept_header hs
         @ map (\<lambda>c. (''Set-Cookie'', c)) (rs_set_cookies rs)
         @ (if forced \<noteq> [] then [(''Content-Type'', forced)] else [])
         @ (if enc \<noteq> [] then (''Content-Encoding'', enc) #
              (if has_vary hs then []
               else [(''Vary'', ''Accept-Encoding'')]) else [])
         @ (case rs_kind rs of
              Buffered \<Rightarrow> [(''Content-Length'', show_nat (length body))]
            | File \<Rightarrow> [(''Content-Length'', show_nat (rs_file_length rs))]
            | _ \<Rightarrow> [])
         @ [(''Connection'', connection_value rs close_connection)])"

definition status_line :: "response \<Rightarrow> string" where
  "status_line rs =
     (let code = (if rs_status rs \<noteq> 0 then rs_status rs else 200)
      in ''HTTP/1.1 '' @ show_nat code @ [SP] @ reason (status_of_num code) @ CRLF)"

lemma compress_body_nonbuffered: "rs_kind rs \<noteq> Buffered \<Longrightarrow> compress_body z opts rq rs b = (b, [])"
  by (simp add: compress_body_def)

lemma compress_take_body: "compress_body z opts rq (snd (res_take_body rs)) b = compress_body z opts rq (rs\<lparr>rs_body := []\<rparr>) b"
  by (simp add: res_take_body_def)

lemma forced_body_update [simp]: "forced_content_type (rs\<lparr>rs_body := x\<rparr>) b = forced_content_type rs b"
  by (simp add: forced_content_type_def)

lemma header_line_render: "header_line k v = render_header (k, v)"
  by (simp add: header_line_def render_header_def)

lemma header_line_fun: "header_line k = (\<lambda>v. render_header (k, v))"
  by (rule ext) (rule header_line_render)

lemma concat_cookie_lines:
  "concat (map (header_line ''Set-Cookie'') cs) = concat (map render_header (map (\<lambda>c. (''Set-Cookie'', c)) cs))"
  by (simp add: header_line_fun comp_def)

lemma serialize_structure:
  "fst (serialize_response z date order opts rq rs head_request close_connection) =
     status_line rs
     @ concat (map render_header (response_fields z date order opts rq rs close_connection))
     @ CRLF
     @ (if head_request then [] else fst (sent_body z opts rq rs))"
proof (cases "rs_kind rs = Buffered")
  case True
  obtain b enc where c: "compress_body z opts rq (rs\<lparr>rs_body := []\<rparr>) (rs_body rs) = (b, enc)" by fastforce
  show ?thesis
    using True c
    by (simp add: serialize_response_def res_take_body_def sent_body_def response_fields_def
        status_line_def emit_headers_eq concat_cookie_lines header_line_render length_line_def
        connection_value_def Let_def)
next
  case False
  then show ?thesis
    by (auto simp: serialize_response_def sent_body_def response_fields_def compress_body_nonbuffered
        status_line_def emit_headers_eq concat_cookie_lines header_line_render length_line_def
        connection_value_def Let_def split: resp_kind.split)
qed

definition field_values :: "string \<Rightarrow> (string \<times> string) list \<Rightarrow> string list" where
  "field_values k fs = map snd (filter (\<lambda>f. ci_equal k (fst f)) fs)"

lemma field_values_simps [simp]:
  "field_values k [] = []"
  "field_values k (f # fs) = (if ci_equal k (fst f) then [snd f] else []) @ field_values k fs"
  "field_values k (xs @ ys) = field_values k xs @ field_values k ys"
  by (simp_all add: field_values_def)

lemma framing_names [simp]:
  "\<not> ci_equal ''Content-Length'' ''Date''" "\<not> ci_equal ''Content-Length'' ''Server''"
  "\<not> ci_equal ''Content-Length'' ''Set-Cookie''" "\<not> ci_equal ''Content-Length'' ''Content-Type''"
  "\<not> ci_equal ''Content-Length'' ''Content-Encoding''" "\<not> ci_equal ''Content-Length'' ''Vary''"
  "\<not> ci_equal ''Content-Length'' ''Connection''" "ci_equal ''Content-Length'' ''Content-Length''"
  "\<not> ci_equal ''Connection'' ''Date''" "\<not> ci_equal ''Connection'' ''Server''"
  "\<not> ci_equal ''Connection'' ''Set-Cookie''" "\<not> ci_equal ''Connection'' ''Content-Type''"
  "\<not> ci_equal ''Connection'' ''Content-Encoding''" "\<not> ci_equal ''Connection'' ''Vary''"
  "\<not> ci_equal ''Connection'' ''Content-Length''" "ci_equal ''Connection'' ''Connection''"
  by (code_simp)+

lemma kept_not_framing:
  "field_values ''Content-Length'' (filter kept_header hs) = []"
  "field_values ''Connection'' (filter kept_header hs) = []"
proof -
  have "to_lower_copy ''Content-Length'' = ''content-length''" "to_lower_copy ''Connection'' = ''connection''"
    by code_simp+
  then show "field_values ''Content-Length'' (filter kept_header hs) = []"
    "field_values ''Connection'' (filter kept_header hs) = []"
    by (auto simp: field_values_def kept_header_def ci_equal_iff filter_empty_conv)
qed

lemma cookie_fields_values:
  "field_values ''Content-Length'' (map (\<lambda>c. (''Set-Cookie'', c)) cs) = []"
  "field_values ''Connection'' (map (\<lambda>c. (''Set-Cookie'', c)) cs) = []"
  by (induction cs) simp_all

lemma response_fields_framing:
  "field_values ''Content-Length'' (response_fields z date order opts rq rs close_connection) =
     (case rs_kind rs of
        Buffered \<Rightarrow> [show_nat (length (fst (sent_body z opts rq rs)))]
      | File \<Rightarrow> [show_nat (rs_file_length rs)]
      | _ \<Rightarrow> [])"
  "field_values ''Connection'' (response_fields z date order opts rq rs close_connection) =
     [connection_value rs close_connection]"
  by (simp_all add: response_fields_def Let_def kept_not_framing cookie_fields_values split_beta
      split: resp_kind.split)

text \<open>Compression shortens the body or leaves it alone, and announces itself exactly then.\<close>

lemma compress_body_cases:
  "compress_body z opts rq rs body = (b, enc) \<Longrightarrow>
     (enc = [] \<and> b = body) \<or>
     (length b < length body \<and>
       ((enc = ''gzip'' \<and> z_gzip z body = Some b) \<or> (enc = ''deflate'' \<and> z_deflate z body = Some b)))"
  by (auto simp: compress_body_def Let_def split: if_splits encoding.splits option.splits)

section \<open>Properties\<close>


text \<open>Compression is transparent: if zlib's output decodes to its input, what the announced
  \<open>Content-Encoding\<close> decodes to is the handler's body, and the bytes sent never grow.\<close>

lemma compression_transparent:
  "(\<And>s c. z_gzip z s = Some c \<Longrightarrow> gunzip c = s) \<Longrightarrow> (\<And>s c. z_deflate z s = Some c \<Longrightarrow> inflate c = s) \<Longrightarrow>
   sent_body z opts rq rs = (b, enc) \<Longrightarrow> rs_kind rs = Buffered \<Longrightarrow>
     (if enc = ''gzip'' then gunzip b else if enc = ''deflate'' then inflate b else b) = rs_body rs \<and>
     length b \<le> length (rs_body rs)"
  using compress_body_cases [of z opts rq "rs\<lparr>rs_body := []\<rparr>" "rs_body rs" b enc]
  by (auto simp: sent_body_def)

lemma compression_transparent_example:
  "sent_body \<lparr>z_gzip = (\<lambda>_. None), z_deflate = (\<lambda>_. None)\<rparr> default_comp_options empty_request
     (new_response\<lparr>rs_body := ''hello''\<rparr>) = (''hello'', [])"
proof -
  let ?z = "\<lparr>z_gzip = (\<lambda>_. None), z_deflate = (\<lambda>_. None)\<rparr>"
  obtain b enc where s: "sent_body ?z default_comp_options empty_request (new_response\<lparr>rs_body := ''hello''\<rparr>) = (b, enc)"
    by fastforce
  have k: "rs_kind (new_response\<lparr>rs_body := ''hello''\<rparr>) = Buffered" by (simp add: new_response_def)
  have "enc = []"
    using s by (simp add: sent_body_def compress_body_def default_comp_options_def new_response_def
        empty_request_def negotiate_accept_encoding_def find_header_def hm_get_def)
  moreover have "(if enc = ''gzip'' then b else if enc = ''deflate'' then b else b) = ''hello''"
    using compression_transparent [of ?z "\<lambda>x. x" "\<lambda>x. x", OF _ _ s k] by simp
  ultimately show ?thesis using s by simp
qed

end
