(* ===== verification/PulseFrame.thy ===== *)
theory PulseFrame
  imports Digest Messages
begin

text \<open>
  WebSocket framing and handshake of \<open>src/pulse.cpp\<close>: the token search in headers, the accept
  key, \<open>encode_frame\<close> and \<open>decode_frame\<close>. The lemmas show that what a client encodes (masked)
  is decoded to itself, that a prefix of a frame asks for more bytes and nothing else, and that
  more bytes never change a decoded frame.
\<close>

section \<open>Handshake\<close>

text \<open>Both helpers split at every comma, empty pieces included: \<open>fields\<close>.\<close>

definition header_has_token :: "string \<Rightarrow> string \<Rightarrow> bool" where
  "header_has_token header token =
     list_ex (\<lambda>part. iequal_ascii (trim_view part) token) (Utils.fields CHR '','' header)"

definition pick_subprotocol :: "string \<Rightarrow> string list \<Rightarrow> string" where
  "pick_subprotocol client_list wanted =
     (if wanted = [] \<or> client_list = [] then []
      else (case List.find (\<lambda>part. list_ex (iequal_ascii (trim_view part)) wanted) (Utils.fields CHR '','' client_list) of
              None \<Rightarrow> []
            | Some part \<Rightarrow>
                (case List.find (iequal_ascii (trim_view part)) wanted of Some w \<Rightarrow> w | None \<Rightarrow> [])))"

definition kGuid :: string where
  "kGuid = ''258EAFA5-E914-47DA-95CA-C5AB0DC85B11''"

definition accept_key :: "string \<Rightarrow> string" where
  "accept_key client_key = base64_encode (sha1 (client_key @ kGuid))"

section \<open>Frames\<close>

text \<open>The \<open>k\<close> low bytes of \<open>n\<close>, most significant first.\<close>

definition be_bytes :: "nat \<Rightarrow> nat \<Rightarrow> string" where
  "be_bytes k n = map (\<lambda>i. chr (n div 256 ^ (k - 1 - i) mod 256)) [0..<k]"

definition encode_frame :: "nat \<Rightarrow> string \<Rightarrow> bool \<Rightarrow> string" where
  "encode_frame opcode payload fin =
     chr ((if fin then 128 else 0) + opcode mod 16) #
     (if length payload < 126 then [chr (length payload)]
      else if length payload \<le> 65535 then chr 126 # be_bytes 2 (length payload)
      else chr 127 # be_bytes 8 (length payload))
     @ payload"

datatype decoded =
    NeedMore
  | ProtocolError
  | Frame (fr_opcode: nat) (fr_fin: bool) (fr_payload: string) (fr_consumed: nat)

fun be_value :: "nat \<Rightarrow> string \<Rightarrow> nat" where
  "be_value acc [] = acc"
| "be_value acc (c # cs) = be_value (acc * 256 + ord c) cs"

definition unmask :: "string \<Rightarrow> string \<Rightarrow> string" where
  "unmask key data = map (\<lambda>i. chr (Bit_Operations.xor (ord (data ! i)) (ord (key ! (i mod 4))))) [0..<length data]"

text \<open>The part after the length: the checks, the mask, the payload.\<close>

definition decode_payload :: "string \<Rightarrow> nat \<Rightarrow> nat \<Rightarrow> nat \<Rightarrow> decoded" where
  "decode_payload data max_payload len off =
     (if len > max_payload then ProtocolError
      else if ord (data ! 1) < 128 then ProtocolError
      else if length data < off + 4 + len then NeedMore
      else Frame (ord (data ! 0) mod 16) (ord (data ! 0) \<ge> 128)
             (unmask (take 4 (drop off data)) (take len (drop (off + 4) data)))
             (off + 4 + len))"

definition decode_frame :: "string \<Rightarrow> nat \<Rightarrow> decoded" where
  "decode_frame data max_payload =
     (if length data < 2 then NeedMore
      else let len7 = ord (data ! 1) mod 128
           in if len7 = 126 then
                (if length data < 4 then NeedMore
                 else decode_payload data max_payload (be_value 0 (take 2 (drop 2 data))) 4)
              else if len7 = 127 then
                (if length data < 10 then NeedMore
                 else let len = be_value 0 (take 8 (drop 2 data))
                      in if len div 2 ^ 63 \<noteq> 0 then ProtocolError
                         else decode_payload data max_payload len 10)
              else decode_payload data max_payload len7 2)"

section \<open>Big-endian numbers\<close>

lemma length_be_bytes [simp]: "length (be_bytes k n) = k"
  by (simp add: be_bytes_def)

lemma be_value_append: "be_value acc (xs @ ys) = be_value (be_value acc xs) ys"
  by (induction xs arbitrary: acc) simp_all

lemma be_bytes_Suc: "be_bytes (Suc k) n = be_bytes k (n div 256) @ [chr (n mod 256)]"
proof -
  have "n div 256 ^ (Suc k - 1 - i) mod 256 = n div 256 div 256 ^ (k - 1 - i) mod 256" if "i < k" for i
  proof -
    have "Suc k - 1 - i = Suc (k - 1 - i)" using that by simp
    then show ?thesis by (simp only: power_Suc div_mult2_eq)
  qed
  then show ?thesis by (simp add: be_bytes_def)
qed

lemma be_value_bytes: "be_value 0 (be_bytes k n) = n mod 256 ^ k"
proof (induction k arbitrary: n)
  case 0
  show ?case by (simp add: be_bytes_def)
next
  case (Suc k)
  have "be_value 0 (be_bytes (Suc k) n) = (n div 256 mod 256 ^ k) * 256 + n mod 256"
    by (simp add: be_bytes_Suc be_value_append Suc byte_simps)
  also have "\<dots> = n mod (256 * 256 ^ k)" by (simp add: mod_mult2_eq mult.commute)
  finally show ?case by simp
qed

section \<open>Masking\<close>

lemma xor_byte_less: "Bit_Operations.xor (ord a) (ord b) < 256"
proof -
  have "take_bit 8 (ord c) = ord c" for c by (simp add: take_bit_eq_mod)
  then have "take_bit 8 (Bit_Operations.xor (ord a) (ord b)) = Bit_Operations.xor (ord a) (ord b)"
    by (simp only: take_bit_xor)
  moreover have "take_bit 8 n < 256" for n :: nat by (simp add: take_bit_eq_mod)
  ultimately show ?thesis by metis
qed

lemma length_unmask [simp]: "length (unmask key d) = length d"
  by (simp add: unmask_def)

lemma unmask_unmask: "unmask key (unmask key d) = d"
proof (rule nth_equalityI)
  fix i assume i: "i < length (unmask key (unmask key d))"
  let ?k = "ord (key ! (i mod 4))"
  have "ord (unmask key d ! i) = Bit_Operations.xor (ord (d ! i)) ?k"
    using i xor_byte_less by (simp add: unmask_def byte_simps)
  then have "unmask key (unmask key d) ! i = chr (Bit_Operations.xor (Bit_Operations.xor (ord (d ! i)) ?k) ?k)"
    using i by (simp add: unmask_def)
  also have "\<dots> = d ! i" by (simp add: xor.assoc)
  finally show "unmask key (unmask key d) ! i = d ! i" .
qed simp

section \<open>Round trip\<close>

text \<open>A client's frame: the same layout with the mask bit set, the key and the masked payload.\<close>

definition client_frame :: "string \<Rightarrow> nat \<Rightarrow> string \<Rightarrow> bool \<Rightarrow> string" where
  "client_frame key opcode payload fin =
     chr ((if fin then 128 else 0) + opcode mod 16) #
     (if length payload < 126 then [chr (128 + length payload)]
      else if length payload \<le> 65535 then chr 254 # be_bytes 2 (length payload)
      else chr 255 # be_bytes 8 (length payload))
     @ key @ unmask key payload"

lemma first_byte:
  "ord (chr ((if fin then 128 else 0) + opcode mod 16)) mod 16 = opcode mod 16"
  "128 \<le> ord (chr ((if fin then 128 else 0) + opcode mod 16)) \<longleftrightarrow> fin"
proof -
  have "opcode mod 16 < 16" by simp
  then have s: "((if fin then 128 else 0) + opcode mod 16) mod 256 = (if fin then 128 else 0) + opcode mod 16"
    by simp
  show "ord (chr ((if fin then 128 else 0) + opcode mod 16)) mod 16 = opcode mod 16"
    unfolding ord_chr s by (cases fin) (simp_all add: mod_add_eq [symmetric, of 128])
  show "128 \<le> ord (chr ((if fin then 128 else 0) + opcode mod 16)) \<longleftrightarrow> fin"
    unfolding ord_chr s using \<open>opcode mod 16 < 16\<close> by (cases fin) simp_all
qed

text \<open>What follows the length bytes is decoded the same way for the three header forms.\<close>

lemma decode_payload_frame:
  assumes "data = hdr @ key @ unmask key payload @ rest" "length hdr = off" "length key = 4"
    and "2 \<le> off" "128 \<le> ord (hdr ! 1)" "length payload \<le> max_payload"
  shows "decode_payload data max_payload (length payload) off =
    Frame (ord (hdr ! 0) mod 16) (128 \<le> ord (hdr ! 0)) payload (off + 4 + length payload)"
proof -
  have "data ! 0 = hdr ! 0" "data ! 1 = hdr ! 1" using assms(1,2,4) by (auto simp: nth_append)
  moreover have "drop off data = key @ unmask key payload @ rest" using assms(1,2) by simp
  then have "take 4 (drop off data) = key" "drop 4 (drop off data) = unmask key payload @ rest"
    using assms(3) by simp_all
  moreover have "drop (off + 4) data = drop 4 (drop off data)" by (simp add: add.commute)
  ultimately show ?thesis
    using assms by (simp add: decode_payload_def unmask_unmask)
qed

lemma decode_client_frame:
  assumes k: "length key = 4" and len: "length payload \<le> max_payload" "length payload < 2 ^ 63"
  shows "decode_frame (client_frame key opcode payload fin @ rest) max_payload =
    Frame (opcode mod 16) fin payload (length (client_frame key opcode payload fin))"
proof -
  let ?n = "length payload" and ?b0 = "chr ((if fin then 128 else 0) + opcode mod 16)"
  let ?data = "client_frame key opcode payload fin @ rest"
  consider "?n < 126" | "\<not> ?n < 126" "?n \<le> 65535" | "\<not> ?n \<le> 65535" by linarith
  then show ?thesis
  proof cases
    case 1
    have d: "?data = [?b0, chr (128 + ?n)] @ key @ unmask key payload @ rest"
      using 1 by (simp add: client_frame_def)
    have b1: "ord (chr (128 + ?n)) = 128 + ?n" using 1 by (simp add: byte_simps)
    have "decode_payload ?data max_payload ?n 2 =
        Frame (ord ([?b0, chr (128 + ?n)] ! 0) mod 16) (128 \<le> ord ([?b0, chr (128 + ?n)] ! 0)) payload (2 + 4 + ?n)"
      by (rule decode_payload_frame [OF d]) (use k len b1 in simp_all)
    moreover have "ord (?data ! 1) mod 128 = ?n" unfolding d using b1 1 by simp
    moreover have "2 \<le> length ?data" unfolding d by simp
    ultimately show ?thesis
      using 1 k first_byte [of fin opcode] by (simp add: decode_frame_def client_frame_def Let_def)
  next
    case 2
    let ?h = "?b0 # chr 254 # be_bytes 2 ?n"
    have d: "?data = ?h @ key @ unmask key payload @ rest"
      using 2 by (simp add: client_frame_def)
    have b1: "ord (chr 254) = 254" by (simp add: byte_simps)
    have "decode_payload ?data max_payload ?n 4 =
        Frame (ord (?h ! 0) mod 16) (128 \<le> ord (?h ! 0)) payload (4 + 4 + ?n)"
      by (rule decode_payload_frame [OF d]) (use k len b1 in simp_all)
    moreover have "ord (?data ! 1) mod 128 = 126" unfolding d using b1 by simp
    moreover have "be_value 0 (take 2 (drop 2 ?data)) = ?n" unfolding d using 2 by (simp add: be_value_bytes)
    moreover have "4 \<le> length ?data" unfolding d by simp
    ultimately show ?thesis
      using 2 k first_byte [of fin opcode] by (simp add: decode_frame_def client_frame_def Let_def)
  next
    case 3
    let ?h = "?b0 # chr 255 # be_bytes 8 ?n"
    have d: "?data = ?h @ key @ unmask key payload @ rest"
      using 3 by (simp add: client_frame_def)
    have b1: "ord (chr 255) = 255" by (simp add: byte_simps)
    have "decode_payload ?data max_payload ?n 10 =
        Frame (ord (?h ! 0) mod 16) (128 \<le> ord (?h ! 0)) payload (10 + 4 + ?n)"
      by (rule decode_payload_frame [OF d]) (use k len b1 in simp_all)
    moreover have "ord (?data ! 1) mod 128 = 127" unfolding d using b1 by simp
    moreover have "be_value 0 (take 8 (drop 2 ?data)) = ?n" unfolding d using len(2) by (simp add: be_value_bytes)
    moreover have "10 \<le> length ?data" unfolding d by simp
    moreover have "?n div 2 ^ 63 = 0" using len(2) by simp
    ultimately show ?thesis
      using 3 k first_byte [of fin opcode] by (simp add: decode_frame_def client_frame_def Let_def)
  qed
qed

text \<open>A frame without the mask bit, i.e.\ one a server sends, is refused.\<close>

lemma decode_payload_unmasked: "ord (data ! 1) < 128 \<Longrightarrow> decode_payload data m len off = ProtocolError"
  by (simp add: decode_payload_def)

lemma decode_server_frame: "decode_frame (encode_frame opcode payload fin @ rest) max_payload = ProtocolError"
proof -
  let ?n = "length payload"
  consider "?n < 126" | "\<not> ?n < 126" "?n \<le> 65535" | "\<not> ?n \<le> 65535" by linarith
  then show ?thesis
    by cases (simp_all add: encode_frame_def decode_frame_def Let_def decode_payload_unmasked byte_simps)
qed

section \<open>Prefixes\<close>

lemma decode_payload_more:
  assumes "decode_payload data m len off \<noteq> NeedMore" "2 \<le> length data" "2 \<le> off"
  shows "decode_payload (data @ ext) m len off = decode_payload data m len off"
proof -
  have n: "(data @ ext) ! 0 = data ! 0" "(data @ ext) ! 1 = data ! 1"
    using assms(2) by (auto simp: nth_append)
  show ?thesis
  proof (cases "m < len \<or> ord (data ! 1) < 128")
    case True
    then show ?thesis using n by (auto simp: decode_payload_def)
  next
    case False
    with assms(1) have "off + 4 + len \<le> length data" by (auto simp: decode_payload_def split: if_splits)
    then have "take 4 (drop off (data @ ext)) = take 4 (drop off data)"
      "take len (drop (off + 4) (data @ ext)) = take len (drop (off + 4) data)" by simp_all
    with n show ?thesis using \<open>off + 4 + len \<le> length data\<close> by (simp add: decode_payload_def)
  qed
qed

lemma decode_frame_more:
  assumes "decode_frame data m \<noteq> NeedMore"
  shows "decode_frame (data @ ext) m = decode_frame data m"
proof -
  have l: "2 \<le> length data" using assms by (simp add: decode_frame_def split: if_splits)
  then have n: "(data @ ext) ! 1 = data ! 1" by (auto simp: nth_append)
  consider "ord (data ! 1) mod 128 = 126" | "ord (data ! 1) mod 128 = 127"
    | "ord (data ! 1) mod 128 \<noteq> 126" "ord (data ! 1) mod 128 \<noteq> 127" by blast
  then show ?thesis
  proof cases
    case 1
    with assms l have "4 \<le> length data" by (auto simp: decode_frame_def Let_def split: if_splits)
    with 1 l n assms show ?thesis by (simp add: decode_frame_def Let_def decode_payload_more)
  next
    case 2
    with assms l have "10 \<le> length data" by (auto simp: decode_frame_def Let_def split: if_splits)
    with 2 l n assms show ?thesis
      by (cases "be_value 0 (take 8 (drop 2 data)) div 2 ^ 63 = 0")
        (simp_all add: decode_frame_def Let_def decode_payload_more)
  next
    case 3
    with l n assms show ?thesis by (simp add: decode_frame_def Let_def decode_payload_more)
  qed
qed

lemma decode_payload_bounds:
  "decode_payload data m len off = Frame op fin p n \<Longrightarrow>
   n \<le> length data \<and> length p \<le> m \<and> off + 4 \<le> n \<and> op < 16"
  by (auto simp: decode_payload_def split: if_splits)

lemma decode_frame_bounds:
  "decode_frame data m = Frame op fin p n \<Longrightarrow> n \<le> length data \<and> length p \<le> m \<and> 0 < n \<and> op < 16"
  by (auto simp: decode_frame_def Let_def split: if_splits dest!: decode_payload_bounds)

section \<open>Properties\<close>

text \<open>C14: Whatever frame a client sends (any opcode, payload, masking key, length form) is
  decoded to its parts, exactly its bytes are consumed, and what follows is not looked at.\<close>

theorem frame_roundtrip:
  "length key = 4 \<Longrightarrow> length payload \<le> max_payload \<Longrightarrow> length payload < 2 ^ 63 \<Longrightarrow>
     decode_frame (client_frame key opcode payload fin @ rest) max_payload =
       Frame (opcode mod 16) fin payload (length (client_frame key opcode payload fin))"
  by (rule decode_client_frame)

theorem frame_roundtrip_witness:
  "decode_frame (client_frame ''abcd'' 1 ''hello'' True @ ''xyz'') 100 =
     Frame 1 True ''hello'' (length (client_frame ''abcd'' 1 ''hello'' True))"
  using frame_roundtrip [of "''abcd''" "''hello''" 100 1 True "''xyz''"] by simp

text \<open>Unmasked frames are a protocol error, whatever they contain: no frame the server
  itself encodes is ever accepted as a client's frame.\<close>

theorem unmasked_frame_rejected:
  "decode_frame (encode_frame opcode payload fin @ rest) max_payload = ProtocolError"
  by (rule decode_server_frame)

end
