(* ===== verification/PulseChannel.thy ===== *)
theory PulseChannel
  imports PulseFrame
begin

text \<open>
  Pulse channels: \<open>Channel::Impl\<close>, the channel's methods, \<open>feed_bytes\<close>, \<open>upgrade\<close> and \<open>Hub\<close>
  of \<open>src/pulse.cpp\<close>. A \<open>shared_ptr<Impl>\<close> is an address into the heap \<open>pw_chans\<close>; a
  \<open>std::function\<close> stored in a channel is an index into a table of handlers. A handler is any
  deterministic code that looks at the world through the channels' public interface (the input
  buffer is not part of it) and calls methods of any channels; it is represented by the calls it
  makes and the change it makes to the application's own state \<open>'u\<close>. The lemmas show that the
  segmentation of the incoming stream is immaterial, that fragments are put together, that the
  stream functions pieces messages correctly, and what a hub delivers to whom.
\<close>

section \<open>State\<close>

record pulse_options =
  po_subprotocols :: "string list"
  po_max_message_bytes :: nat
  po_max_pending_bytes :: nat
  po_fragment_size :: nat
  po_auto_pong :: bool

definition default_pulse_options :: pulse_options where
  "default_pulse_options =
     \<lparr>po_subprotocols = [], po_max_message_bytes = 1024 * 1024, po_max_pending_bytes = 4 * 1024 * 1024,
      po_fragment_size = 16 * 1024, po_auto_pong = True\<rparr>"

text \<open>\<open>ch_notify\<close> says whether a notifier is installed, \<open>ch_wakeups\<close> counts its calls.\<close>

record chan =
  ch_id :: nat
  ch_pending :: string
  ch_closed :: bool
  ch_close_requested :: bool
  ch_close_fired :: bool
  ch_notify :: bool
  ch_wakeups :: nat
  ch_opts :: pulse_options
  ch_protocol :: string
  ch_on_text :: "nat option"
  ch_on_binary :: "nat option"
  ch_on_close :: "nat list"
  ch_on_ping :: "nat option"
  ch_on_pong :: "nat option"
  ch_inbuf :: string
  ch_fragment :: string
  ch_fragment_opcode :: nat
  ch_out_frag_active :: bool
  ch_out_frag_first :: bool
  ch_out_frag_opcode :: nat

definition new_chan :: "nat \<Rightarrow> chan" where
  "new_chan i =
     \<lparr>ch_id = i, ch_pending = [], ch_closed = False, ch_close_requested = False,
      ch_close_fired = False, ch_notify = False, ch_wakeups = 0, ch_opts = default_pulse_options,
      ch_protocol = [], ch_on_text = None, ch_on_binary = None, ch_on_close = [],
      ch_on_ping = None, ch_on_pong = None, ch_inbuf = [], ch_fragment = [],
      ch_fragment_opcode = 0, ch_out_frag_active = False, ch_out_frag_first = True,
      ch_out_frag_opcode = 0\<rparr>"

abbreviation NoStatus :: nat where "NoStatus \<equiv> 1005"
abbreviation Abnormal :: nat where "Abnormal \<equiv> 1006"

section \<open>Methods of a channel\<close>

definition enqueue :: "string \<Rightarrow> chan \<Rightarrow> chan \<times> bool" where
  "enqueue bytes c =
     (if ch_closed c then (c, False)
      else (c\<lparr>ch_pending := ch_pending c @ bytes,
              ch_wakeups := ch_wakeups c + (if ch_notify c then 1 else 0)\<rparr>, True))"

definition chan_alive :: "chan \<Rightarrow> bool" where
  "chan_alive c \<longleftrightarrow> \<not> ch_closed c"

definition chan_writable :: "chan \<Rightarrow> bool" where
  "chan_writable c \<longleftrightarrow> \<not> ch_closed c \<and> length (ch_pending c) < po_max_pending_bytes (ch_opts c)"

definition begin_fragment :: "nat \<Rightarrow> chan \<Rightarrow> chan \<times> bool" where
  "begin_fragment opcode c =
     (if ch_closed c \<or> ch_out_frag_active c then (c, False)
      else (c\<lparr>ch_out_frag_active := True, ch_out_frag_opcode := opcode, ch_out_frag_first := True\<rparr>, True))"

definition write_fragment :: "string \<Rightarrow> bool \<Rightarrow> chan \<Rightarrow> chan \<times> bool" where
  "write_fragment chunk fin c =
     (if \<not> ch_out_frag_active c then (c, False)
      else let base = ch_out_frag_opcode c; first = ch_out_frag_first c;
               c = (if first then c\<lparr>ch_out_frag_first := False\<rparr> else c);
               c = (if fin then c\<lparr>ch_out_frag_active := False, ch_out_frag_opcode := 0\<rparr> else c)
           in enqueue (encode_frame (if first then base else 0) chunk fin) c)"

definition send_text :: "string \<Rightarrow> chan \<Rightarrow> chan \<times> bool" where
  "send_text data = enqueue (encode_frame 1 data True)"

definition send_binary :: "string \<Rightarrow> chan \<Rightarrow> chan \<times> bool" where
  "send_binary data = enqueue (encode_frame 2 data True)"

definition chan_ping :: "string \<Rightarrow> chan \<Rightarrow> chan \<times> bool" where
  "chan_ping payload = enqueue (encode_frame 9 payload True)"

definition chan_pong :: "string \<Rightarrow> chan \<Rightarrow> chan \<times> bool" where
  "chan_pong payload = enqueue (encode_frame 10 payload True)"

definition chan_close :: "nat \<Rightarrow> string \<Rightarrow> chan \<Rightarrow> chan" where
  "chan_close code why c =
     (if ch_closed c then c
      else fst (enqueue (encode_frame 8 (chr (code div 256) # chr code # why) True)
                  (c\<lparr>ch_close_requested := True\<rparr>)))"

text \<open>The loop of \<open>send_text_stream\<close> and \<open>send_binary_stream\<close>; \<open>None\<close> means that it never
  returns (a fragment size of 0).\<close>

partial_function (option) stream_loop :: "nat \<Rightarrow> string \<Rightarrow> nat \<Rightarrow> chan \<Rightarrow> (chan \<times> bool) option" where
  "stream_loop chunk data off c =
     (if off < length data then
        let n = min chunk (length data - off);
            fin = (off + n \<ge> length data);
            (c', ok) = write_fragment (take n (drop off data)) fin c
        in if \<not> ok then Some (c', False) else stream_loop chunk data (off + n) c'
      else Some (c, True))"

definition send_stream :: "nat \<Rightarrow> string \<Rightarrow> chan \<Rightarrow> (chan \<times> bool) option" where
  "send_stream opcode data c =
     (let chunk = po_fragment_size (ch_opts c)
      in if length data \<le> chunk then Some (enqueue (encode_frame opcode data True) c)
         else (case begin_fragment opcode c of
                 (c', ok) \<Rightarrow> if \<not> ok then Some (c', False) else stream_loop chunk data 0 c'))"

definition send_text_stream :: "string \<Rightarrow> chan \<Rightarrow> (chan \<times> bool) option" where
  "send_text_stream = send_stream 1"

definition send_binary_stream :: "string \<Rightarrow> chan \<Rightarrow> (chan \<times> bool) option" where
  "send_binary_stream = send_stream 2"

section \<open>Handlers\<close>

text \<open>The calls a handler can make. A stream call is the sequence \<open>BeginFragment\<close>,
  \<open>WriteFragment\<close> it consists of.\<close>

datatype chan_op =
    SendText string | SendBinary string | SendRaw string
  | BeginFragment nat | WriteFragment string bool
  | SendPing string | SendPong string | CloseChan nat string
  | OnText "nat option" | OnBinary "nat option" | OnClose nat | OnPing "nat option" | OnPong "nat option"

fun run_op :: "chan_op \<Rightarrow> chan \<Rightarrow> chan" where
  "run_op (SendText s) c = fst (send_text s c)"
| "run_op (SendBinary s) c = fst (send_binary s c)"
| "run_op (SendRaw s) c = fst (enqueue s c)"
| "run_op (BeginFragment k) c = fst (begin_fragment k c)"
| "run_op (WriteFragment s fin) c = fst (write_fragment s fin c)"
| "run_op (SendPing s) c = fst (chan_ping s c)"
| "run_op (SendPong s) c = fst (chan_pong s c)"
| "run_op (CloseChan code s) c = chan_close code s c"
| "run_op (OnText f) c = c\<lparr>ch_on_text := f\<rparr>"
| "run_op (OnBinary f) c = c\<lparr>ch_on_binary := f\<rparr>"
| "run_op (OnClose f) c = c\<lparr>ch_on_close := ch_on_close c @ [f]\<rparr>"
| "run_op (OnPing f) c = c\<lparr>ch_on_ping := f\<rparr>"
| "run_op (OnPong f) c = c\<lparr>ch_on_pong := f\<rparr>"

record 'u pworld =
  pw_chans :: "nat \<Rightarrow> chan"
  pw_user :: 'u

definition upd_chan :: "nat \<Rightarrow> (chan \<Rightarrow> chan) \<Rightarrow> 'u pworld \<Rightarrow> 'u pworld" where
  "upd_chan a f w = w\<lparr>pw_chans := (pw_chans w)(a := f (pw_chans w a))\<rparr>"

definition public_view :: "(nat \<Rightarrow> chan) \<Rightarrow> nat \<Rightarrow> chan" where
  "public_view h = (\<lambda>a. (h a)\<lparr>ch_inbuf := []\<rparr>)"

type_synonym 'u effect = "(nat \<times> chan_op) list \<times> 'u"

record 'u handlers =
  hs_message :: "nat \<Rightarrow> 'u pworld \<Rightarrow> nat \<Rightarrow> string \<Rightarrow> 'u effect"
  hs_close :: "nat \<Rightarrow> 'u pworld \<Rightarrow> nat \<Rightarrow> nat \<Rightarrow> string \<Rightarrow> 'u effect"

definition apply_effect :: "'u effect \<Rightarrow> 'u pworld \<Rightarrow> 'u pworld" where
  "apply_effect e w = fold (\<lambda>(a, op). upd_chan a (run_op op)) (fst e) (w\<lparr>pw_user := snd e\<rparr>)"

definition call_message :: "'u handlers \<Rightarrow> nat option \<Rightarrow> nat \<Rightarrow> string \<Rightarrow> 'u pworld \<Rightarrow> 'u pworld" where
  "call_message tbl f a msg w =
     (case f of None \<Rightarrow> w
      | Some i \<Rightarrow> apply_effect (hs_message tbl i (w\<lparr>pw_chans := public_view (pw_chans w)\<rparr>) a msg) w)"

definition call_close :: "'u handlers \<Rightarrow> nat \<Rightarrow> nat \<Rightarrow> string \<Rightarrow> nat \<Rightarrow> 'u pworld \<Rightarrow> 'u pworld" where
  "call_close tbl a code why i w =
     apply_effect (hs_close tbl i (w\<lparr>pw_chans := public_view (pw_chans w)\<rparr>) a code why) w"

text \<open>The once-only close notification of \<open>feed_bytes\<close> and \<open>release_pulse_\<close>.\<close>

definition fire_close :: "'u handlers \<Rightarrow> nat \<Rightarrow> nat \<Rightarrow> string \<Rightarrow> 'u pworld \<Rightarrow> 'u pworld" where
  "fire_close tbl a code why w =
     (if ch_close_fired (pw_chans w a) then w
      else fold (call_close tbl a code why) (ch_on_close (pw_chans w a))
             (upd_chan a (\<lambda>c. c\<lparr>ch_close_fired := True\<rparr>) w))"

section \<open>Receiving\<close>

text \<open>The handlers and options \<open>feed_bytes\<close> copies before it loops.\<close>

record captured =
  cp_text :: "nat option"
  cp_binary :: "nat option"
  cp_ping :: "nat option"
  cp_pong :: "nat option"
  cp_opts :: pulse_options

definition capture :: "chan \<Rightarrow> captured" where
  "capture c = \<lparr>cp_text = ch_on_text c, cp_binary = ch_on_binary c, cp_ping = ch_on_ping c,
                cp_pong = ch_on_pong c, cp_opts = ch_opts c\<rparr>"

text \<open>One round of the \<open>switch\<close>; \<open>Some b\<close> is \<open>return b\<close>, \<open>None\<close> continues the loop.\<close>

definition on_continuation :: "'u handlers \<Rightarrow> captured \<Rightarrow> nat \<Rightarrow> bool \<Rightarrow> string \<Rightarrow> 'u pworld \<Rightarrow> 'u pworld" where
  "on_continuation tbl cp a fin payload w0 =
     (let w = upd_chan a (\<lambda>c. c\<lparr>ch_fragment := ch_fragment c @ payload\<rparr>) w0
      in if \<not> fin then w
         else let msg = ch_fragment (pw_chans w a);
                  base_op = ch_fragment_opcode (pw_chans w a);
                  w = upd_chan a (\<lambda>c. c\<lparr>ch_fragment := [], ch_fragment_opcode := 0\<rparr>) w
              in if base_op = 1 \<and> cp_text cp \<noteq> None then call_message tbl (cp_text cp) a msg w
                 else if base_op = 2 \<and> cp_binary cp \<noteq> None then call_message tbl (cp_binary cp) a msg w
                 else w)"

definition on_data :: "'u handlers \<Rightarrow> captured \<Rightarrow> nat \<Rightarrow> nat \<Rightarrow> bool \<Rightarrow> string \<Rightarrow> 'u pworld \<Rightarrow> 'u pworld" where
  "on_data tbl cp a opcode fin payload w =
     (if \<not> fin then upd_chan a (\<lambda>c. c\<lparr>ch_fragment := payload, ch_fragment_opcode := opcode\<rparr>) w
      else call_message tbl (if opcode = 1 then cp_text cp else cp_binary cp) a payload w)"

definition close_code_of :: "string \<Rightarrow> nat" where
  "close_code_of payload = (if length payload \<ge> 2 then ord (payload ! 0) * 256 + ord (payload ! 1) else NoStatus)"

definition close_reason_of :: "string \<Rightarrow> string" where
  "close_reason_of payload = drop 2 payload"

definition on_close_frame :: "'u handlers \<Rightarrow> nat \<Rightarrow> string \<Rightarrow> 'u pworld \<Rightarrow> 'u pworld" where
  "on_close_frame tbl a payload w =
     (let code = close_code_of payload;
          why = (if length payload \<ge> 2 then close_reason_of payload else [])
      in fire_close tbl a code why (upd_chan a (chan_close code why) w))"

definition handle_frame :: "'u handlers \<Rightarrow> captured \<Rightarrow> nat \<Rightarrow> nat \<Rightarrow> bool \<Rightarrow> string \<Rightarrow> 'u pworld
    \<Rightarrow> 'u pworld \<times> bool option" where
  "handle_frame tbl cp a opcode fin payload w =
     (if opcode = 0 then (on_continuation tbl cp a fin payload w, None)
      else if opcode = 1 \<or> opcode = 2 then (on_data tbl cp a opcode fin payload w, None)
      else if opcode = 8 then (on_close_frame tbl a payload w, Some True)
      else if opcode = 9 then
        (let w = call_message tbl (cp_ping cp) a payload w
         in (if po_auto_pong (cp_opts cp) then upd_chan a (\<lambda>c. fst (chan_pong payload c)) w else w, None))
      else if opcode = 10 then (call_message tbl (cp_pong cp) a payload w, None)
      else (w, Some False))"

text \<open>No call of a handler touches an input buffer; needed for the loop to be a function.\<close>

lemma upd_chan_get: "pw_chans (upd_chan a f w) b = (if b = a then f (pw_chans w a) else pw_chans w b)"
  by (simp add: upd_chan_def)

lemma upd_chan_user [simp]: "pw_user (upd_chan a f w) = pw_user w"
  by (simp add: upd_chan_def)

named_theorems chan_simps \<open>definitions of the channel's methods\<close>

lemmas [chan_simps] = enqueue_def begin_fragment_def write_fragment_def send_text_def
  send_binary_def chan_ping_def chan_pong_def chan_close_def Let_def

lemma run_op_keeps [simp]:
  "ch_inbuf (run_op op c) = ch_inbuf c" "ch_closed (run_op op c) = ch_closed c"
  "ch_close_fired (run_op op c) = ch_close_fired c" "ch_opts (run_op op c) = ch_opts c"
  "ch_fragment (run_op op c) = ch_fragment c" "ch_notify (run_op op c) = ch_notify c"
  "ch_fragment_opcode (run_op op c) = ch_fragment_opcode c" "ch_id (run_op op c) = ch_id c"
  by (cases op; simp add: chan_simps)+

text \<open>What no method changes, no handler changes.\<close>

lemma fold_ops_keeps:
  assumes "\<And>op c. g (run_op op c) = g c"
  shows "g (pw_chans (fold (\<lambda>(a, op). upd_chan a (run_op op)) ops w) b) = g (pw_chans w b)"
  using assms by (induction ops arbitrary: w) (auto simp: upd_chan_get)

lemma apply_effect_keeps:
  "(\<And>op c. g (run_op op c) = g c) \<Longrightarrow> g (pw_chans (apply_effect e w) b) = g (pw_chans w b)"
  by (simp add: apply_effect_def fold_ops_keeps)

lemma call_message_keeps:
  "(\<And>op c. g (run_op op c) = g c) \<Longrightarrow> g (pw_chans (call_message tbl f a m w) b) = g (pw_chans w b)"
  by (simp add: call_message_def apply_effect_keeps split: option.split)

lemma fold_close_keeps:
  "(\<And>op c. g (run_op op c) = g c) \<Longrightarrow>
   g (pw_chans (fold (call_close tbl a code r) is w) b) = g (pw_chans w b)"
  by (induction "is" arbitrary: w) (simp_all add: call_close_def apply_effect_keeps)

lemmas handler_keeps [simp] =
  call_message_keeps [of ch_inbuf] call_message_keeps [of ch_closed] call_message_keeps [of ch_close_fired]
  call_message_keeps [of ch_fragment] call_message_keeps [of ch_fragment_opcode]
  fold_close_keeps [of ch_inbuf] fold_close_keeps [of ch_closed] fold_close_keeps [of ch_close_fired]

lemma fire_close_inbuf [simp]: "ch_inbuf (pw_chans (fire_close tbl a code r w) b) = ch_inbuf (pw_chans w b)"
  by (simp add: fire_close_def upd_chan_get)

lemma fire_close_closed [simp]: "ch_closed (pw_chans (fire_close tbl a code r w) b) = ch_closed (pw_chans w b)"
  by (simp add: fire_close_def upd_chan_get)

lemma fire_close_fired [simp]: "ch_close_fired (pw_chans (fire_close tbl a code r w) a)"
  by (simp add: fire_close_def upd_chan_get)

lemma chan_close_inbuf [simp]: "ch_inbuf (chan_close code r c) = ch_inbuf c"
  by (simp add: chan_simps)

lemma handle_frame_inbuf [simp]:
  "ch_inbuf (pw_chans (fst (handle_frame tbl cp a op fin p w)) b) = ch_inbuf (pw_chans w b)"
  by (simp add: handle_frame_def on_continuation_def on_data_def on_close_frame_def upd_chan_get
      chan_pong_def enqueue_def Let_def)

function feed_loop :: "'u handlers \<Rightarrow> captured \<Rightarrow> nat \<Rightarrow> 'u pworld \<Rightarrow> 'u pworld \<times> bool" where
  "feed_loop tbl cp a w =
     (case decode_frame (ch_inbuf (pw_chans w a)) (po_max_message_bytes (cp_opts cp)) of
        ProtocolError \<Rightarrow> (upd_chan a (\<lambda>c. c\<lparr>ch_closed := True\<rparr>) w, False)
      | NeedMore \<Rightarrow> (w, True)
      | Frame opcode fin payload n \<Rightarrow>
          (let w1 = upd_chan a (\<lambda>c. c\<lparr>ch_inbuf := drop n (ch_inbuf c)\<rparr>) w;
               r = handle_frame tbl cp a opcode fin payload w1
           in case snd r of Some b \<Rightarrow> (fst r, b) | None \<Rightarrow> feed_loop tbl cp a (fst r)))"
  by pat_completeness auto
termination
proof (relation "measure (\<lambda>(tbl, cp, a, w). length (ch_inbuf (pw_chans w a)))", goal_cases)
  case 1
  show ?case by simp
next
  case (2 tbl cp a w opcode fin payload n x xa)
  then show ?case
    using decode_frame_bounds [of "ch_inbuf (pw_chans w a)" "po_max_message_bytes (cp_opts cp)" opcode fin payload n]
    by (auto simp: upd_chan_get)
qed

declare feed_loop.simps [simp del]

definition pulse_feed :: "'u handlers \<Rightarrow> nat \<Rightarrow> string \<Rightarrow> 'u pworld \<Rightarrow> 'u pworld \<times> bool" where
  "pulse_feed tbl a data w =
     (if ch_closed (pw_chans w a) then (w, False)
      else feed_loop tbl (capture (pw_chans w a)) a
             (upd_chan a (\<lambda>c. c\<lparr>ch_inbuf := ch_inbuf c @ data\<rparr>) w))"

section \<open>The input buffer is private\<close>

definition set_in :: "nat \<Rightarrow> string \<Rightarrow> 'u pworld \<Rightarrow> 'u pworld" where
  "set_in a b = upd_chan a (\<lambda>c. c\<lparr>ch_inbuf := b\<rparr>)"

lemma set_in_get: "pw_chans (set_in a b w) d = (if d = a then (pw_chans w a)\<lparr>ch_inbuf := b\<rparr> else pw_chans w d)"
  by (simp add: set_in_def upd_chan_get)

lemma set_in_set_in [simp]: "set_in a b (set_in a d w) = set_in a b w"
  by (simp add: set_in_def upd_chan_def)

lemma set_in_self: "ch_inbuf (pw_chans w a) = b \<Longrightarrow> set_in a b w = w"
  by (auto simp: set_in_def upd_chan_def)

lemma set_in_user [simp]: "pw_user (set_in a b w) = pw_user w"
  by (simp add: set_in_def)

lemma run_op_set_in: "run_op op (c\<lparr>ch_inbuf := b\<rparr>) = (run_op op c)\<lparr>ch_inbuf := b\<rparr>"
  by (cases op) (simp_all add: chan_simps)

lemma upd_chan_set_in:
  "(\<And>c. f (c\<lparr>ch_inbuf := b\<rparr>) = (f c)\<lparr>ch_inbuf := b\<rparr>) \<Longrightarrow> upd_chan d f (set_in a b w) = set_in a b (upd_chan d f w)"
  by (cases "d = a") (auto simp: set_in_def upd_chan_def fun_upd_twist)

lemma fold_ops_set_in:
  "fold (\<lambda>(d, op). upd_chan d (run_op op)) ops (set_in a b w) =
   set_in a b (fold (\<lambda>(d, op). upd_chan d (run_op op)) ops w)"
  by (induction ops arbitrary: w) (auto simp: upd_chan_set_in run_op_set_in)

lemma user_set_in: "(set_in a b w)\<lparr>pw_user := u\<rparr> = set_in a b (w\<lparr>pw_user := u\<rparr>)"
  by (simp add: set_in_def upd_chan_def)

lemma view_set_in: "(set_in a b w)\<lparr>pw_chans := public_view (pw_chans (set_in a b w))\<rparr> = w\<lparr>pw_chans := public_view (pw_chans w)\<rparr>"
proof -
  have "public_view (pw_chans (set_in a b w)) = public_view (pw_chans w)"
    by (rule ext) (simp add: public_view_def set_in_get)
  then show ?thesis by (simp add: set_in_def upd_chan_def)
qed

lemma apply_effect_set_in: "apply_effect e (set_in a b w) = set_in a b (apply_effect e w)"
  by (simp add: apply_effect_def user_set_in fold_ops_set_in)

lemma call_message_None [simp]: "call_message tbl None a m w = w"
  by (simp add: call_message_def)

lemma call_message_set_in: "call_message tbl f d m (set_in a b w) = set_in a b (call_message tbl f d m w)"
  by (simp add: call_message_def view_set_in apply_effect_set_in split: option.split)

lemma fold_close_set_in:
  "fold (call_close tbl d code r) is (set_in a b w) = set_in a b (fold (call_close tbl d code r) is w)"
  by (induction "is" arbitrary: w) (simp_all add: call_close_def view_set_in apply_effect_set_in)

lemma fire_close_set_in: "fire_close tbl d code r (set_in a b w) = set_in a b (fire_close tbl d code r w)"
  by (simp add: fire_close_def set_in_get upd_chan_set_in fold_close_set_in)

lemma on_close_frame_set_in: "on_close_frame tbl d p (set_in a b w) = set_in a b (on_close_frame tbl d p w)"
proof -
  have "chan_close code r (c\<lparr>ch_inbuf := b\<rparr>) = (chan_close code r c)\<lparr>ch_inbuf := b\<rparr>" for code r c
    by (simp add: chan_simps)
  then show ?thesis by (simp add: on_close_frame_def Let_def upd_chan_set_in fire_close_set_in)
qed

lemma on_continuation_set_in:
  "on_continuation tbl cp d fin p (set_in a b w) = set_in a b (on_continuation tbl cp d fin p w)"
  by (cases "d = a") (simp_all add: on_continuation_def Let_def upd_chan_set_in call_message_set_in set_in_get upd_chan_get)

lemma on_data_set_in: "on_data tbl cp d k fin p (set_in a b w) = set_in a b (on_data tbl cp d k fin p w)"
  by (simp add: on_data_def upd_chan_set_in call_message_set_in)

lemma handle_frame_set_in:
  "handle_frame tbl cp d k fin p (set_in a b w) =
   (set_in a b (fst (handle_frame tbl cp d k fin p w)), snd (handle_frame tbl cp d k fin p w))"
proof -
  have "fst (chan_pong p (c\<lparr>ch_inbuf := b\<rparr>)) = (fst (chan_pong p c))\<lparr>ch_inbuf := b\<rparr>" for c
    by (simp add: chan_simps)
  then show ?thesis
    by (simp add: handle_frame_def on_continuation_set_in on_data_set_in on_close_frame_set_in
        call_message_set_in upd_chan_set_in Let_def)
qed

text \<open>A round that ends the loop with \<open>true\<close> has handled a close frame.\<close>

lemma handle_frame_return_True:
  "snd (handle_frame tbl cp a k fin p w) = Some True \<Longrightarrow> ch_close_fired (pw_chans (fst (handle_frame tbl cp a k fin p w)) a)"
  by (auto simp: handle_frame_def on_close_frame_def Let_def split: if_splits)

lemma feed_loop_more:
  "feed_loop tbl cp a w = (w1, True) \<Longrightarrow> \<not> ch_close_fired (pw_chans w1 a) \<Longrightarrow>
   feed_loop tbl cp a (set_in a (ch_inbuf (pw_chans w a) @ ys) w) =
   feed_loop tbl cp a (set_in a (ch_inbuf (pw_chans w1 a) @ ys) w1)"
proof (induction tbl cp a w rule: feed_loop.induct)
  case (1 tbl cp a w)
  let ?buf = "ch_inbuf (pw_chans w a)" and ?m = "po_max_message_bytes (cp_opts cp)"
  show ?case
  proof (cases "decode_frame ?buf ?m")
    case NeedMore
    with 1(2) have "w1 = w" by (simp add: feed_loop.simps)
    then show ?thesis by simp
  next
    case ProtocolError
    with 1(2) show ?thesis by (simp add: feed_loop.simps)
  next
    case (Frame op fin p n)
    let ?w1 = "set_in a (drop n ?buf) w"
    let ?r = "handle_frame tbl cp a op fin p ?w1"
    have drop: "upd_chan a (\<lambda>c. c\<lparr>ch_inbuf := drop n (ch_inbuf c)\<rparr>) w = ?w1"
      by (simp add: set_in_def upd_chan_def)
    have step: "feed_loop tbl cp a w = (case snd ?r of Some b \<Rightarrow> (fst ?r, b) | None \<Rightarrow> feed_loop tbl cp a (fst ?r))"
      by (subst feed_loop.simps) (simp only: Frame decoded.case Let_def drop)
    have none: "snd ?r = None"
    proof (cases "snd ?r")
      case (Some b)
      with step 1(2) have "b" "fst ?r = w1" by simp_all
      with Some handle_frame_return_True [of tbl cp a op fin p ?w1] 1(3) show ?thesis by auto
    qed simp
    with step 1(2) have rec: "feed_loop tbl cp a (fst ?r) = (w1, True)" by simp
    have IH: "feed_loop tbl cp a (set_in a (ch_inbuf (pw_chans (fst ?r) a) @ ys) (fst ?r)) =
        feed_loop tbl cp a (set_in a (ch_inbuf (pw_chans w1 a) @ ys) w1)"
      by (rule 1(1) [OF Frame drop [symmetric] refl none rec 1(3)])
    have n: "n \<le> length ?buf" using decode_frame_bounds [OF Frame] by simp
    have f: "decode_frame (?buf @ ys) ?m = Frame op fin p n"
      using decode_frame_more [of ?buf ?m ys] Frame by simp
    have "upd_chan a (\<lambda>c. c\<lparr>ch_inbuf := drop n (ch_inbuf c)\<rparr>) (set_in a (?buf @ ys) w) =
        set_in a (drop n ?buf @ ys) ?w1"
      using n by (simp add: set_in_def upd_chan_def)
    then have "feed_loop tbl cp a (set_in a (?buf @ ys) w) =
        feed_loop tbl cp a (set_in a (drop n ?buf @ ys) (fst ?r))"
      using f none
      by (subst feed_loop.simps) (simp add: set_in_get Let_def handle_frame_set_in del: set_in_set_in)
    moreover have "ch_inbuf (pw_chans (fst ?r) a) = drop n ?buf" by (simp add: set_in_get)
    ultimately show ?thesis using IH by simp
  qed
qed

lemma feed_loop_closed:
  "feed_loop tbl cp a w = (w1, True) \<Longrightarrow> ch_closed (pw_chans w1 a) = ch_closed (pw_chans w a)"
proof (induction tbl cp a w rule: feed_loop.induct)
  case (1 tbl cp a w)
  have keeps: "ch_closed (pw_chans (fst (handle_frame tbl cp a k fin p v)) a) = ch_closed (pw_chans v a)" for k fin p v
    by (simp add: handle_frame_def on_continuation_def on_data_def on_close_frame_def upd_chan_get
        chan_simps)
  show ?case
  proof (cases "decode_frame (ch_inbuf (pw_chans w a)) (po_max_message_bytes (cp_opts cp))")
    case (Frame k fin p n)
    let ?v = "upd_chan a (\<lambda>c. c\<lparr>ch_inbuf := drop n (ch_inbuf c)\<rparr>) w"
    have "feed_loop tbl cp a w = (case snd (handle_frame tbl cp a k fin p ?v) of
        Some b \<Rightarrow> (fst (handle_frame tbl cp a k fin p ?v), b)
      | None \<Rightarrow> feed_loop tbl cp a (fst (handle_frame tbl cp a k fin p ?v)))"
      by (subst feed_loop.simps) (simp only: Frame decoded.case Let_def)
    with 1(2) 1(1) [OF Frame refl refl] keeps [of k fin p ?v] show ?thesis
      by (auto simp: upd_chan_get split: option.splits)
  qed (use 1(2) in \<open>simp_all add: feed_loop.simps\<close>)
qed

section \<open>Fragments\<close>

text \<open>The client side of a fragmented message: pairs of masking key and payload.\<close>

fun cont_frames :: "(string \<times> string) list \<Rightarrow> string" where
  "cont_frames [] = []"
| "cont_frames [(key, p)] = client_frame key 0 p True"
| "cont_frames ((key, p) # f # fs) = client_frame key 0 p False @ cont_frames (f # fs)"

definition message_frames :: "nat \<Rightarrow> (string \<times> string) \<Rightarrow> (string \<times> string) list \<Rightarrow> string" where
  "message_frames opcode f fs = client_frame (fst f) opcode (snd f) (fs = []) @ cont_frames fs"

definition frames_ok :: "nat \<Rightarrow> (string \<times> string) list \<Rightarrow> bool" where
  "frames_ok m fs \<longleftrightarrow> list_all (\<lambda>(key, p). length key = 4 \<and> length p \<le> m \<and> length p < 2 ^ 63) fs"

lemma feed_loop_frame:
  assumes "ch_inbuf (pw_chans w a) = client_frame key k p fin @ rest"
    and "length key = 4" "length p \<le> po_max_message_bytes (cp_opts cp)" "length p < 2 ^ 63"
  shows "feed_loop tbl cp a w =
    (case snd (handle_frame tbl cp a (k mod 16) fin p (set_in a rest w)) of
       Some b \<Rightarrow> (fst (handle_frame tbl cp a (k mod 16) fin p (set_in a rest w)), b)
     | None \<Rightarrow> feed_loop tbl cp a (fst (handle_frame tbl cp a (k mod 16) fin p (set_in a rest w))))"
proof -
  have d: "decode_frame (ch_inbuf (pw_chans w a)) (po_max_message_bytes (cp_opts cp)) =
      Frame (k mod 16) fin p (length (client_frame key k p fin))"
    using decode_client_frame [OF assms(2-4)] assms(1) by simp
  have "upd_chan a (\<lambda>c. c\<lparr>ch_inbuf := drop (length (client_frame key k p fin)) (ch_inbuf c)\<rparr>) w = set_in a rest w"
    using assms(1) by (simp add: set_in_def upd_chan_def)
  then show ?thesis by (subst feed_loop.simps) (simp only: d decoded.case Let_def)
qed

definition message_handler :: "captured \<Rightarrow> nat \<Rightarrow> nat option" where
  "message_handler cp k = (if k = 1 then cp_text cp else cp_binary cp)"

definition clear_fragment :: "nat \<Rightarrow> 'u pworld \<Rightarrow> 'u pworld" where
  "clear_fragment a = upd_chan a (\<lambda>c. c\<lparr>ch_fragment := [], ch_fragment_opcode := 0\<rparr>)"

lemma on_continuation_fin:
  "ch_fragment_opcode (pw_chans w a) = k \<Longrightarrow> k = 1 \<or> k = 2 \<Longrightarrow>
   on_continuation tbl cp a True p w =
     call_message tbl (message_handler cp k) a (ch_fragment (pw_chans w a) @ p) (clear_fragment a w)"
  by (auto simp: on_continuation_def message_handler_def clear_fragment_def upd_chan_def Let_def)

lemma feed_cont_frames:
  assumes "fs \<noteq> []" "ch_inbuf (pw_chans w a) = cont_frames fs @ rest"
    and "frames_ok (po_max_message_bytes (cp_opts cp)) fs"
    and "ch_fragment_opcode (pw_chans w a) = k" "k = 1 \<or> k = 2"
  shows "feed_loop tbl cp a w =
    feed_loop tbl cp a (call_message tbl (message_handler cp k) a
      (ch_fragment (pw_chans w a) @ concat (map snd fs)) (clear_fragment a (set_in a rest w)))"
  using assms
proof (induction fs arbitrary: w rule: cont_frames.induct)
  case (2 key p)
  then have "ch_inbuf (pw_chans w a) = client_frame key 0 p True @ rest" by simp
  moreover have "ch_fragment_opcode (pw_chans (set_in a rest w) a) = k"
    "ch_fragment (pw_chans (set_in a rest w) a) = ch_fragment (pw_chans w a)"
    using 2 by (simp_all add: set_in_get)
  ultimately show ?case
    using 2 feed_loop_frame [of w a key 0 p True rest cp tbl]
    by (simp add: frames_ok_def handle_frame_def on_continuation_fin)
next
  case (3 key p f fs)
  let ?rest = "cont_frames (f # fs) @ rest"
  let ?v = "upd_chan a (\<lambda>c. c\<lparr>ch_fragment := ch_fragment c @ p\<rparr>) (set_in a ?rest w)"
  have "ch_inbuf (pw_chans w a) = client_frame key 0 p False @ ?rest" using 3 by simp
  then have s: "feed_loop tbl cp a w = feed_loop tbl cp a ?v"
    using 3 feed_loop_frame [of w a key 0 p False ?rest cp tbl]
    by (simp add: frames_ok_def handle_frame_def on_continuation_def)
  have frag: "ch_fragment (pw_chans ?v a) = ch_fragment (pw_chans w a) @ p"
    by (simp add: upd_chan_get set_in_get)
  have "clear_fragment a (set_in a rest ?v) = clear_fragment a (set_in a rest w)"
    by (simp add: clear_fragment_def set_in_def upd_chan_def)
  moreover have "feed_loop tbl cp a ?v =
      feed_loop tbl cp a (call_message tbl (message_handler cp k) a
        (ch_fragment (pw_chans ?v a) @ concat (map snd (f # fs))) (clear_fragment a (set_in a rest ?v)))"
    by (rule 3(1)) (use 3 in \<open>simp_all add: upd_chan_get set_in_get frames_ok_def\<close>)
  ultimately show ?case using s by (simp add: frag)
qed simp

lemma feed_loop_empty: "ch_inbuf (pw_chans w a) = [] \<Longrightarrow> feed_loop tbl cp a w = (w, True)"
  by (simp add: feed_loop.simps decode_frame_def)

lemma feed_message:
  assumes k: "k = 1 \<or> k = 2" and ok: "frames_ok (po_max_message_bytes (ch_opts (pw_chans w a))) (f # fs)"
    and w: "\<not> ch_closed (pw_chans w a)" "ch_inbuf (pw_chans w a) = []"
  shows "pulse_feed tbl a (message_frames k f fs) w =
    (call_message tbl (message_handler (capture (pw_chans w a)) k) a (snd f @ concat (map snd fs))
       (if fs = [] then w else clear_fragment a w), True)"
proof -
  let ?cp = "capture (pw_chans w a)"
  have w0: "upd_chan a (\<lambda>c. c\<lparr>ch_inbuf := ch_inbuf c @ message_frames k f fs\<rparr>) w = set_in a (message_frames k f fs) w"
    using w by (simp add: set_in_def upd_chan_def)
  have k16: "k mod 16 = k" using k by auto
  have ok': "length (fst f) = 4" "length (snd f) \<le> po_max_message_bytes (cp_opts ?cp)" "length (snd f) < 2 ^ 63"
    "frames_ok (po_max_message_bytes (cp_opts ?cp)) fs"
    using ok by (auto simp: frames_ok_def capture_def split: prod.splits)
  have step: "feed_loop tbl ?cp a (set_in a (message_frames k f fs) w) =
      feed_loop tbl ?cp a (on_data tbl ?cp a k (fs = []) (snd f) (set_in a (cont_frames fs) w))"
    using feed_loop_frame [of "set_in a (message_frames k f fs) w" a "fst f" k "snd f" "fs = []" "cont_frames fs" ?cp tbl]
      ok' k k16 by (auto simp: set_in_get message_frames_def handle_frame_def)
  show ?thesis
  proof (cases "fs = []")
    case True
    have "set_in a [] w = w" using w by (simp add: set_in_self)
    with True step w w0 k show ?thesis
      by (auto simp: pulse_feed_def on_data_def message_handler_def feed_loop_empty)
  next
    case False
    let ?v = "upd_chan a (\<lambda>c. c\<lparr>ch_fragment := snd f, ch_fragment_opcode := k\<rparr>) (set_in a (cont_frames fs) w)"
    have "c\<lparr>ch_inbuf := [], ch_fragment := [], ch_fragment_opcode := 0\<rparr> = c\<lparr>ch_fragment := [], ch_fragment_opcode := 0\<rparr>"
      if "ch_inbuf c = []" for c :: chan using that by (cases c) simp
    from this [OF w(2)] have "clear_fragment a (set_in a [] ?v) = clear_fragment a w"
      by (simp add: clear_fragment_def set_in_def upd_chan_def)
    moreover have "feed_loop tbl ?cp a ?v = feed_loop tbl ?cp a (call_message tbl (message_handler ?cp k) a
        (ch_fragment (pw_chans ?v a) @ concat (map snd fs)) (clear_fragment a (set_in a [] ?v)))"
      by (rule feed_cont_frames) (use False ok' k in \<open>simp_all add: upd_chan_get set_in_get\<close>)
    moreover have "ch_inbuf (pw_chans (clear_fragment a w) a) = []"
      using w by (simp add: clear_fragment_def upd_chan_get)
    ultimately show ?thesis
      using False step w w0 by (simp add: pulse_feed_def on_data_def upd_chan_get feed_loop_empty)
  qed
qed

section \<open>Outgoing streams\<close>

fun frag_frames :: "nat \<Rightarrow> string list \<Rightarrow> string" where
  "frag_frames opcode [] = []"
| "frag_frames opcode [c] = encode_frame opcode c True"
| "frag_frames opcode (c # d # cs) = encode_frame opcode c False @ frag_frames 0 (d # cs)"

function pieces :: "nat \<Rightarrow> string \<Rightarrow> string list" where
  "pieces n s = (if n = 0 \<or> s = [] then [] else take n s # pieces n (drop n s))"
  by pat_completeness auto
termination
  by (relation "measure (\<lambda>(n, s). length s)") auto

declare pieces.simps [simp del]

lemma cut_Nil [simp]: "pieces n [] = []"
  by (simp add: pieces.simps)

lemma concat_pieces: "0 < n \<Longrightarrow> concat (pieces n s) = s \<and> (\<forall>c \<in> set (pieces n s). c \<noteq> [] \<and> length c \<le> n)"
proof (induction n s rule: pieces.induct)
  case (1 n s)
  then show ?case by (cases "s = []") (auto simp: pieces.simps [of n s])
qed

lemma stream_loop_frames:
  assumes "0 < chunk" "off < length data" "\<not> ch_closed c" "ch_out_frag_active c"
  shows "\<exists>c'. stream_loop chunk data off c = Some (c', True) \<and>
    ch_pending c' = ch_pending c @ frag_frames (if ch_out_frag_first c then ch_out_frag_opcode c else 0) (pieces chunk (drop off data)) \<and>
    \<not> ch_out_frag_active c'"
  using assms(2-4)
proof (induction "length data - off" arbitrary: off c rule: less_induct)
  case less
  let ?n = "min chunk (length data - off)" and ?k = "if ch_out_frag_first c then ch_out_frag_opcode c else 0"
  have cut: "pieces chunk (drop off data) = take chunk (drop off data) # pieces chunk (drop (off + chunk) data)"
    using less.prems(1) assms(1) by (subst pieces.simps) (simp add: add.commute)
  have tk: "take ?n (drop off data) = take chunk (drop off data)" by (simp add: min_def)
  show ?case
  proof (cases "length data \<le> off + chunk")
    case True
    then have n: "?n = length data - off" by simp
    have e: "take (length data - off) (drop off data) = drop off data" by simp
    have "pieces chunk (drop off data) = [drop off data]" using cut True by simp
    with True n e less.prems show ?thesis
      by (subst stream_loop.simps, subst stream_loop.simps) (simp add: write_fragment_def enqueue_def Let_def)
  next
    case False
    then have n: "?n = chunk" by simp
    obtain c' where c': "write_fragment (take chunk (drop off data)) False c = (c', True)"
      "ch_pending c' = ch_pending c @ encode_frame ?k (take chunk (drop off data)) False"
      "\<not> ch_closed c'" "ch_out_frag_active c'" "\<not> ch_out_frag_first c'"
      using less.prems by (cases "ch_out_frag_first c") (simp_all add: write_fragment_def enqueue_def Let_def)
    have s: "stream_loop chunk data off c = stream_loop chunk data (off + chunk) c'"
      using False n less.prems c'(1) by (subst stream_loop.simps) (simp add: Let_def)
    have "drop (off + chunk) data \<noteq> []" using False by simp
    then obtain d ds where ds: "pieces chunk (drop (off + chunk) data) = d # ds"
      using assms(1) by (subst (asm) pieces.simps) simp
    have lt: "length data - (off + chunk) < length data - off" using False assms(1) by linarith
    obtain c'' where "stream_loop chunk data (off + chunk) c' = Some (c'', True)"
      "ch_pending c'' = ch_pending c' @ frag_frames 0 (pieces chunk (drop (off + chunk) data))" "\<not> ch_out_frag_active c''"
      using less.hyps [OF lt, of c'] False c' by auto
    with s c' cut ds show ?thesis by simp
  qed
qed

text \<open>With a fragment size of 0 the loop appends empty fragments for ever.\<close>

lemma stream_loop_zero:
  assumes "stream_loop chunk data off c = Some r"
  shows "chunk = 0 \<Longrightarrow> off < length data \<Longrightarrow> \<not> ch_closed c \<Longrightarrow> \<not> ch_out_frag_active c"
  using assms
proof (induction rule: stream_loop.raw_induct [rotated 1, consumes 1])
  case (1 f chunk data off c r)
  show ?case
  proof (rule ccontr)
    assume a: "\<not> \<not> ch_out_frag_active c"
    obtain c' where "write_fragment [] False c = (c', True)" "\<not> ch_closed c'" "ch_out_frag_active c'"
      using 1 a by (cases "ch_out_frag_first c") (simp_all add: write_fragment_def enqueue_def Let_def)
    with 1 show False by (auto simp: Let_def)
  qed
qed

section \<open>The upgrade handshake\<close>

definition upgrade_accepted :: "request \<Rightarrow> bool" where
  "upgrade_accepted rq \<longleftrightarrow>
     iequal_ascii (req_header rq ''Upgrade'') ''websocket''
     \<and> header_has_token (req_header rq ''Connection'') ''Upgrade''
     \<and> req_header rq ''Sec-WebSocket-Key'' \<noteq> []
     \<and> (req_header rq ''Sec-WebSocket-Version'' = [] \<or> req_header rq ''Sec-WebSocket-Version'' = ''13'')"

text \<open>The channel's address \<open>a\<close> and its id come from the allocator and a global counter.\<close>

definition pulse_upgrade :: "request \<Rightarrow> pulse_options \<Rightarrow> nat \<Rightarrow> nat \<Rightarrow> response \<Rightarrow> 'u pworld
    \<Rightarrow> nat option \<times> response \<times> 'u pworld" where
  "pulse_upgrade rq opts a i rs w =
     (if \<not> upgrade_accepted rq then
        (None, snd (res_send (''Pulse upgrade failed'' @ [LF]) text_plain (res_status BadRequest rs)), w)
      else
        let proto = pick_subprotocol (req_header rq ''Sec-WebSocket-Protocol'') (po_subprotocols opts);
            impl = (new_chan i)\<lparr>ch_opts := opts, ch_protocol := proto\<rparr>;
            rs = res_status SwitchingProtocols rs;
            rs = res_set_header ''Upgrade'' ''websocket'' rs;
            rs = res_set_header ''Connection'' ''Upgrade'' rs;
            rs = res_set_header ''Sec-WebSocket-Accept'' (accept_key (req_header rq ''Sec-WebSocket-Key'')) rs;
            rs = (if proto \<noteq> [] then res_set_header ''Sec-WebSocket-Protocol'' proto rs else rs)
        in (Some a, mark_pulse a rs, upd_chan a (\<lambda>_. impl) w))"

lemma pick_subprotocol_offered:
  "pick_subprotocol l wanted = [] \<or>
   pick_subprotocol l wanted \<in> set wanted \<and> header_has_token l (pick_subprotocol l wanted)"
  by (auto simp: pick_subprotocol_def header_has_token_def list_ex_iff find_Some_iff split: option.split)

section \<open>Hub\<close>

text \<open>Rooms hold channels by address. A \<open>Channel\<close> argument may be empty (\<open>None\<close>).\<close>

type_synonym hub = "(string \<times> nat list) list"

definition hub_join :: "string \<Rightarrow> nat option \<Rightarrow> hub \<Rightarrow> hub" where
  "hub_join room ch h =
     (case ch of None \<Rightarrow> h
      | Some a \<Rightarrow> kv_set (=) room ((case kv_get (=) h room of None \<Rightarrow> [] | Some v \<Rightarrow> v) @ [a]) h)"

definition hub_leave :: "string \<Rightarrow> nat option \<Rightarrow> hub \<Rightarrow> hub" where
  "hub_leave room ch h =
     (case kv_get (=) h room of None \<Rightarrow> h
      | Some v \<Rightarrow> (let v = filter (\<lambda>c. Some c \<noteq> ch) v
                  in if v = [] then kv_del (=) room h else kv_set (=) room v h))"

definition hub_leave_all :: "nat option \<Rightarrow> hub \<Rightarrow> hub" where
  "hub_leave_all ch h = filter (\<lambda>(r, v). v \<noteq> []) (map (\<lambda>(r, v). (r, filter (\<lambda>c. Some c \<noteq> ch) v)) h)"

definition hub_members :: "string \<Rightarrow> hub \<Rightarrow> nat list" where
  "hub_members room h = (case kv_get (=) h room of None \<Rightarrow> [] | Some v \<Rightarrow> v)"

definition hub_room_size :: "string \<Rightarrow> hub \<Rightarrow> nat" where
  "hub_room_size room h = (case kv_get (=) h room of None \<Rightarrow> 0 | Some v \<Rightarrow> length v)"

definition send_all :: "(chan \<Rightarrow> chan) \<Rightarrow> nat list \<Rightarrow> (nat \<Rightarrow> chan) \<Rightarrow> nat \<Rightarrow> chan" where
  "send_all f snap heap = fold (\<lambda>a hp. hp(a := f (hp a))) snap heap"

definition broadcast_frame :: "string \<Rightarrow> string \<Rightarrow> hub \<Rightarrow> (nat \<Rightarrow> chan) \<Rightarrow> nat \<Rightarrow> chan" where
  "broadcast_frame room frame h heap =
     (case kv_get (=) h room of None \<Rightarrow> heap
      | Some snap \<Rightarrow> send_all (\<lambda>c. fst (enqueue frame c)) snap heap)"

definition broadcast_text :: "string \<Rightarrow> string \<Rightarrow> hub \<Rightarrow> (nat \<Rightarrow> chan) \<Rightarrow> nat \<Rightarrow> chan" where
  "broadcast_text room data = broadcast_frame room (encode_frame 1 data True)"

definition broadcast_binary :: "string \<Rightarrow> string \<Rightarrow> hub \<Rightarrow> (nat \<Rightarrow> chan) \<Rightarrow> nat \<Rightarrow> chan" where
  "broadcast_binary room data = broadcast_frame room (encode_frame 2 data True)"

text \<open>\<open>order\<close> is the iteration order of the room table.\<close>

definition broadcast_text_all :: "(hub \<Rightarrow> hub) \<Rightarrow> string \<Rightarrow> hub \<Rightarrow> (nat \<Rightarrow> chan) \<Rightarrow> nat \<Rightarrow> chan" where
  "broadcast_text_all order data h heap =
     send_all (\<lambda>c. fst (send_text data c)) (concat (map snd (order h))) heap"

text \<open>\<open>prune\<close> reads \<open>v.size()\<close> after the room, and \<open>v\<close> with it, has been erased: its result is
  then undefined, \<open>None\<close>.\<close>

definition hub_prune :: "string \<Rightarrow> (nat \<Rightarrow> chan) \<Rightarrow> hub \<Rightarrow> hub \<times> nat option" where
  "hub_prune room heap h =
     (case kv_get (=) h room of None \<Rightarrow> (h, Some 0)
      | Some v0 \<Rightarrow> (let v = filter (\<lambda>a. chan_alive (heap a)) v0
                   in if v = [] then (kv_del (=) room h, None)
                      else (kv_set (=) room v h, Some (length v0 - length v))))"

definition hub_ok :: "hub \<Rightarrow> bool" where
  "hub_ok h \<longleftrightarrow> kv_wf (=) h \<and> list_all (\<lambda>(r, v). v \<noteq> []) h"

lemma kv_set_all: "list_all (\<lambda>(r, v). P v) h \<Longrightarrow> P v \<Longrightarrow> list_all (\<lambda>(r, v). P v) (kv_set (=) k v h)"
  by (induction h) auto

lemma kv_del_all: "list_all P h \<Longrightarrow> list_all P (kv_del (=) k h)"
  by (induction h) auto

lemma kv_get_map_filter:
  "kv_wf (=) h \<Longrightarrow>
   kv_get (=) (filter (\<lambda>(r, v). v \<noteq> []) (map (\<lambda>(r, v). (r, f v)) h)) room =
     (case kv_get (=) h room of None \<Rightarrow> None | Some v \<Rightarrow> if f v = [] then None else Some (f v))"
proof (induction h)
  case (Cons e h)
  then show ?case by (cases e) (auto split: option.splits)
qed simp

lemma kv_wf_map_filter: "kv_wf (=) h \<Longrightarrow> kv_wf (=) (filter (\<lambda>(r, v). v \<noteq> []) (map (\<lambda>(r, v). (r, f v)) h))"
proof (induction h)
  case (Cons e h)
  then show ?case by (cases e) (simp add: kv_get_map_filter)
qed simp

lemma send_all_get: "send_all f snap heap b = (f ^^ count_list snap b) (heap b)"
proof (induction snap arbitrary: heap)
  case (Cons a snap)
  have "send_all f (a # snap) heap b = send_all f snap (heap(a := f (heap a))) b" by (simp add: send_all_def)
  with Cons show ?case by (auto simp: funpow_swap1)
qed (simp add: send_all_def)

lemma enqueue_times:
  "ch_pending (((\<lambda>c. fst (enqueue s c)) ^^ n) c) =
     (if ch_closed c then ch_pending c else ch_pending c @ concat (replicate n s)) \<and>
   ch_closed (((\<lambda>c. fst (enqueue s c)) ^^ n) c) = ch_closed c"
proof (induction n)
  case (Suc n)
  have "concat (replicate n s) @ s = s @ concat (replicate n s)" by (induction n) simp_all
  with Suc show ?case by (simp add: enqueue_def)
qed simp

lemma hub_ok_Nil: "hub_ok []"
  by (simp add: hub_ok_def)

lemma hub_ok_join: "hub_ok h \<Longrightarrow> hub_ok (hub_join room ch h)"
  by (simp add: hub_ok_def hub_join_def kv_set_all pm.wf_set split: option.split)

lemma hub_ok_leave: "hub_ok h \<Longrightarrow> hub_ok (hub_leave room ch h)"
  by (simp add: hub_ok_def hub_leave_def Let_def kv_set_all kv_del_all pm.wf_set pm.wf_del split: option.split)

lemma hub_ok_leave_all: "hub_ok h \<Longrightarrow> hub_ok (hub_leave_all ch h)"
  by (auto simp: hub_ok_def hub_leave_all_def kv_wf_map_filter list_all_iff)

lemma hub_ok_prune: "hub_ok h \<Longrightarrow> hub_ok (fst (hub_prune room heap h))"
  by (simp add: hub_ok_def hub_prune_def Let_def kv_set_all kv_del_all pm.wf_set pm.wf_del split: option.split)

lemma members_leave_all:
  "hub_ok h \<Longrightarrow> hub_members room (hub_leave_all ch h) = filter (\<lambda>c. Some c \<noteq> ch) (hub_members room h)"
  by (simp add: hub_ok_def hub_members_def hub_leave_all_def kv_get_map_filter split: option.split)

lemma members_join: "hub_members room (hub_join r ch h) =
  hub_members room h @ (if room = r then (case ch of None \<Rightarrow> [] | Some a \<Rightarrow> [a]) else [])"
  by (auto simp: hub_members_def hub_join_def pm.get_set split: option.split)

lemma members_leave: "hub_ok h \<Longrightarrow> hub_members room (hub_leave r ch h) =
  (if room = r then filter (\<lambda>c. Some c \<noteq> ch) (hub_members room h) else hub_members room h)"
  by (auto simp: hub_ok_def hub_members_def hub_leave_def Let_def pm.get_set pm.get_del split: option.split)

section \<open>Properties\<close>

definition demo_world :: "nat pworld" where
  "demo_world = \<lparr>pw_chans = (\<lambda>a. (new_chan a)\<lparr>ch_on_text := Some 0\<rparr>), pw_user = 0\<rparr>"

definition demo_handlers :: "nat handlers" where
  "demo_handlers = \<lparr>hs_message = (\<lambda>i w a m. ([(a, SendText m)], pw_user w + length m)),
                    hs_close = (\<lambda>i w a code r. ([], pw_user w))\<rparr>"

text \<open>C15: How the peer's bytes are cut into reads makes no difference: as long as the first piece
  leaves the channel open (no error, no close frame) and no handler exchanges the handlers the
  loop has copied, feeding the pieces one after the other is feeding them at once. The equality
  is of the whole world: every channel, everything queued for sending, the application's state.\<close>

theorem pulse_feed_split:
  assumes "pulse_feed tbl a xs w = (w1, True)" "\<not> ch_close_fired (pw_chans w1 a)"
    and "capture (pw_chans w1 a) = capture (pw_chans w a)"
  shows "pulse_feed tbl a (xs @ ys) w = pulse_feed tbl a ys w1"
proof -
  let ?cp = "capture (pw_chans w a)" and ?w = "upd_chan a (\<lambda>c. c\<lparr>ch_inbuf := ch_inbuf c @ xs\<rparr>) w"
  have opn: "\<not> ch_closed (pw_chans w a)" and f: "feed_loop tbl ?cp a ?w = (w1, True)"
    using assms(1) by (simp_all add: pulse_feed_def split: if_splits)
  have "\<not> ch_closed (pw_chans w1 a)" using feed_loop_closed [OF f] opn by (simp add: upd_chan_get)
  moreover have "upd_chan a (\<lambda>c. c\<lparr>ch_inbuf := ch_inbuf c @ zs\<rparr>) v = set_in a (ch_inbuf (pw_chans v a) @ zs) v"
    for zs and v :: "'a pworld" by (simp add: set_in_def upd_chan_def)
  ultimately show ?thesis
    using feed_loop_more [OF f assms(2), of ys] opn assms(3)
    by (simp add: pulse_feed_def set_in_get)
qed

theorem pulse_feed_split_witness:
  "pulse_feed demo_handlers 0 ([CHR 0x81] @ drop 1 (client_frame ''abcd'' 1 ''hi'' True)) demo_world =
   pulse_feed demo_handlers 0 (drop 1 (client_frame ''abcd'' 1 ''hi'' True)) (set_in 0 [CHR 0x81] demo_world)"
proof -
  have "pulse_feed demo_handlers 0 [CHR 0x81] demo_world = (set_in 0 [CHR 0x81] demo_world, True)"
    by (simp add: pulse_feed_def demo_world_def new_chan_def upd_chan_def feed_loop.simps decode_frame_def set_in_def)
  then show ?thesis
    by (rule pulse_feed_split) (simp_all add: demo_world_def new_chan_def set_in_get capture_def)
qed

text \<open>A message of any number of fragments, each within the size limit, under any masking keys,
  is delivered to the handler of its kind exactly once, as the concatenation of the fragments;
  nothing else happens to the world.\<close>

lemma fragmented_message_delivered:
  assumes "k = 1 \<or> k = 2" "frames_ok (po_max_message_bytes (ch_opts (pw_chans w a))) (f # fs)"
    and "\<not> ch_closed (pw_chans w a)" "ch_inbuf (pw_chans w a) = []"
  shows "pulse_feed tbl a (message_frames k f fs) w =
    (call_message tbl (message_handler (capture (pw_chans w a)) k) a (snd f @ concat (map snd fs))
       (if fs = [] then w else clear_fragment a w), True)"
  using assms by (rule feed_message)

lemma fragmented_message_delivered_example:
  "pw_user (fst (pulse_feed demo_handlers 0 (message_frames 1 (''abcd'', ''he'') [(''efgh'', ''llo'')]) demo_world)) = 5"
  using fragmented_message_delivered [of 1 demo_world 0 "(''abcd'', ''he'')" "[(''efgh'', ''llo'')]" demo_handlers]
  by (simp add: frames_ok_def demo_world_def new_chan_def default_pulse_options_def capture_def
      message_handler_def call_message_def demo_handlers_def apply_effect_def clear_fragment_def)

text \<open>C16: \<open>send_text_stream\<close> and \<open>send_binary_stream\<close> on an open idle channel queue exactly one
  message: the data cut into consecutive pieces of at most \<open>fragment_size\<close> bytes, the first under
  the message's opcode, the others as continuations, the last one alone marked final.\<close>

theorem stream_is_one_message:
  assumes "0 < po_fragment_size (ch_opts c)" "po_fragment_size (ch_opts c) < length data"
    and "\<not> ch_closed c" "\<not> ch_out_frag_active c"
  shows "\<exists>c'. send_stream opcode data c = Some (c', True) \<and>
    ch_pending c' = ch_pending c @ frag_frames opcode (pieces (po_fragment_size (ch_opts c)) data) \<and>
    concat (pieces (po_fragment_size (ch_opts c)) data) = data \<and>
    (\<forall>p \<in> set (pieces (po_fragment_size (ch_opts c)) data). p \<noteq> [] \<and> length p \<le> po_fragment_size (ch_opts c)) \<and>
    \<not> ch_out_frag_active c'"
proof -
  let ?n = "po_fragment_size (ch_opts c)"
  let ?c = "c\<lparr>ch_out_frag_active := True, ch_out_frag_opcode := opcode, ch_out_frag_first := True\<rparr>"
  have "send_stream opcode data c = stream_loop ?n data 0 ?c"
    using assms by (simp add: send_stream_def begin_fragment_def)
  moreover have "0 < length data" using assms(2) by linarith
  ultimately show ?thesis
    using stream_loop_frames [of ?n 0 data ?c] concat_pieces [of ?n data] assms by auto
qed

theorem stream_is_one_message_witness:
  "\<exists>c'. send_stream 1 ''hello'' ((new_chan 1)\<lparr>ch_opts := default_pulse_options\<lparr>po_fragment_size := 2\<rparr>\<rparr>) = Some (c', True) \<and>
     ch_pending c' = frag_frames 1 (pieces 2 ''hello'')"
  using stream_is_one_message [of "(new_chan 1)\<lparr>ch_opts := default_pulse_options\<lparr>po_fragment_size := 2\<rparr>\<rparr>" "''hello''" 1]
  by (auto simp: new_chan_def)

text \<open>With a fragment size of 0 the stream functions do not return: they append empty
  fragments to the pending output for ever.\<close>

theorem stream_of_zero_fragments_diverges:
  assumes "po_fragment_size (ch_opts c) = 0" "data \<noteq> []" "\<not> ch_closed c" "\<not> ch_out_frag_active c"
  shows "send_stream opcode data c = None"
proof -
  let ?c = "c\<lparr>ch_out_frag_active := True, ch_out_frag_opcode := opcode, ch_out_frag_first := True\<rparr>"
  have "send_stream opcode data c = stream_loop 0 data 0 ?c"
    using assms by (simp add: send_stream_def begin_fragment_def)
  moreover have "stream_loop 0 data 0 ?c \<noteq> Some r" for r
    using stream_loop_zero [of 0 data 0 ?c r] assms by auto
  ultimately show ?thesis by (cases "stream_loop 0 data 0 ?c") auto
qed

theorem stream_of_zero_fragments_diverges_witness:
  "send_stream 2 ''x'' ((new_chan 1)\<lparr>ch_opts := default_pulse_options\<lparr>po_fragment_size := 0\<rparr>\<rparr>) = None"
  using stream_of_zero_fragments_diverges [of "(new_chan 1)\<lparr>ch_opts := default_pulse_options\<lparr>po_fragment_size := 0\<rparr>\<rparr>" "''x''" 2]
  by (simp add: new_chan_def)

text \<open>The handshake: an accepted request is answered 101 with the accept key of its own key and
  becomes a channel, whose subprotocol is empty or one of the server's that the client offered;
  any other request is answered 400 and no channel is made.\<close>

lemma upgrade_handshake:
  assumes "pulse_upgrade rq opts a i rs w = (ch, rs', w')" "\<not> rs_ended rs"
  shows "if upgrade_accepted rq then
      ch = Some a \<and> rs_status rs' = 101 \<and> rs_kind rs' = PulseUpgrade \<and> rs_stream rs' = Some a \<and>
      hm_get (rs_headers rs') ''Sec-WebSocket-Accept'' =
        Some (base64_encode (sha1 (req_header rq ''Sec-WebSocket-Key'' @ kGuid))) \<and>
      (let p = ch_protocol (pw_chans w' a)
       in p = [] \<or> p \<in> set (po_subprotocols opts) \<and> header_has_token (req_header rq ''Sec-WebSocket-Protocol'') p)
    else ch = None \<and> rs_status rs' = 400 \<and> rs_ended rs' \<and> w' = w"
proof -
  have names: "\<not> ci_equal ''Sec-WebSocket-Protocol'' ''Sec-WebSocket-Accept''" "ci_equal ''Sec-WebSocket-Accept'' ''Sec-WebSocket-Accept''"
    by code_simp+
  have pick: "pick_subprotocol l wanted = [] \<or> pick_subprotocol l wanted \<in> set wanted \<and> header_has_token l (pick_subprotocol l wanted)" for l wanted
    using pick_subprotocol_offered by blast
  show ?thesis
  proof (cases "upgrade_accepted rq")
    case True
    then show ?thesis
      using assms(1) names pick [of "req_header rq ''Sec-WebSocket-Protocol''" "po_subprotocols opts"]
      by (auto simp: pulse_upgrade_def Let_def mark_pulse_def res_status_def res_set_header_def hm_get_set
          upd_chan_get accept_key_def)
  next
    case False
    then show ?thesis using assms
      by (auto simp: pulse_upgrade_def res_send_def res_status_def default_status_def Let_def res_set_header_def)
  qed
qed

definition demo_upgrade :: request where
  "demo_upgrade = empty_request\<lparr>rq_headers :=
     [(''Upgrade'', ''WebSocket''), (''Connection'', ''keep-alive, Upgrade''),
      (''Sec-WebSocket-Key'', ''dGhlIHNhbXBsZSBub25jZQ==''), (''Sec-WebSocket-Version'', ''13'')]\<rparr>"

lemma upgrade_handshake_example:
  "\<exists>rs' w'. pulse_upgrade demo_upgrade default_pulse_options 7 1 new_response demo_world = (Some 7, rs', w') \<and>
     rs_status rs' = 101 \<and>
     hm_get (rs_headers rs') ''Sec-WebSocket-Accept'' =
       Some (base64_encode (sha1 (''dGhlIHNhbXBsZSBub25jZQ=='' @ kGuid)))"
proof -
  obtain ch rs' w' where r: "pulse_upgrade demo_upgrade default_pulse_options 7 1 new_response demo_world = (ch, rs', w')"
    by (cases "pulse_upgrade demo_upgrade default_pulse_options 7 1 new_response demo_world")
  have "upgrade_accepted demo_upgrade" "req_header demo_upgrade ''Sec-WebSocket-Key'' = ''dGhlIHNhbXBsZSBub25jZQ==''"
    by code_simp+
  moreover have "\<not> rs_ended new_response" by (simp add: new_response_def)
  ultimately show ?thesis using upgrade_handshake [OF r] r by simp
qed

text \<open>A broadcast reaches every open member of the room, once per membership, and no one else;
  closed members are left as they are.\<close>

lemma broadcast_reaches_members:
  "ch_pending (broadcast_frame room frame h heap a) =
     (if ch_closed (heap a) then ch_pending (heap a)
      else ch_pending (heap a) @ concat (replicate (count_list (hub_members room h) a) frame))"
  by (auto simp: broadcast_frame_def hub_members_def send_all_get enqueue_times split: option.split)

text \<open>A history of a hub.\<close>

datatype hub_op = Join string "nat option" | Leave string "nat option" | LeaveAll "nat option" | Prune string "nat \<Rightarrow> chan"

fun run_hub_op :: "hub_op \<Rightarrow> hub \<Rightarrow> hub" where
  "run_hub_op (Join r ch) h = hub_join r ch h"
| "run_hub_op (Leave r ch) h = hub_leave r ch h"
| "run_hub_op (LeaveAll ch) h = hub_leave_all ch h"
| "run_hub_op (Prune r heap) h = fst (hub_prune r heap h)"

lemma hub_ok_history: "hub_ok h \<Longrightarrow> hub_ok (fold run_hub_op ops h)"
proof (induction ops arbitrary: h)
  case (Cons op ops)
  then show ?case
    by (cases op) (simp_all add: hub_ok_join hub_ok_leave hub_ok_leave_all hub_ok_prune)
qed simp

text \<open>The hub's bookkeeping over any history: joining, leaving one room or all and pruning keep
  room names unique and never leave an empty room behind; afterwards a channel that left
  everything is in no room, and the others' memberships are untouched.\<close>

lemma hub_history_consistent:
  "hub_ok (fold run_hub_op ops []) \<and>
   hub_members room (fold run_hub_op (ops @ [LeaveAll ch]) []) =
     filter (\<lambda>c. Some c \<noteq> ch) (hub_members room (fold run_hub_op ops []))"
  using hub_ok_history [OF hub_ok_Nil, of ops] by (simp add: members_leave_all)

section \<open>Two observations\<close>

text \<open>The echo of an empty close frame puts the reserved status 1005 on the wire, which RFC 6455
  forbids to send.\<close>

lemma empty_close_echoes_1005:
  "\<not> ch_closed c \<Longrightarrow>
   ch_pending (chan_close (close_code_of []) [] c) = ch_pending c @ encode_frame 8 [CHR 0x03, CHR 0xED] True"
proof -
  have "chr (1005 div 256) = CHR 0x03" "chr 1005 = CHR 0xED" by code_simp+
  then show "\<not> ch_closed c \<Longrightarrow> ?thesis" by (simp add: chan_close_def close_code_of_def enqueue_def)
qed

text \<open>\<open>prune\<close> of a room whose members have all gone reads an erased vector.\<close>

lemma prune_all_dead:
  "kv_get (=) h room = Some v \<Longrightarrow> \<forall>a \<in> set v. \<not> chan_alive (heap a) \<Longrightarrow> snd (hub_prune room heap h) = None"
  by (simp add: hub_prune_def Let_def)

end
