(* ===== verification/PulseMedia.thy ===== *)
theory PulseMedia
  imports PulseChannel "HOL-Library.Word"
begin

text \<open>
  Media over Pulse: \<open>include/socketify/pulse_media.h\<close> and \<open>src/pulse_media.cpp\<close>. The binary frame
  format and the relay hub. The handlers the hub installs on a channel are the indices \<open>bin\<close> and
  \<open>cls\<close> of the handler table; what they do is \<open>media_receive\<close> and \<open>media_on_close\<close>. The handlers of the
  application are indices too. The time in microseconds is an argument of the sending operations.
\<close>

unbundle bit_operations_syntax

section \<open>The frame format\<close>

text \<open>\<open>write_u16\<close>, \<open>write_u32\<close>, \<open>write_u64\<close>: \<open>n\<close> bytes, the most significant first.\<close>

definition word_byte :: "nat \<Rightarrow> 'a::len word \<Rightarrow> char" where
  "word_byte i v = chr (unat (take_bit 8 (drop_bit (8 * i) v)))"

definition write_be :: "nat \<Rightarrow> 'a::len word \<Rightarrow> string" where
  "write_be n v = map (\<lambda>i. word_byte i v) (rev [0..<n])"

definition read_be :: "string \<Rightarrow> 'a::len word" where
  "read_be bs = fold (\<lambda>c v. push_bit 8 v OR word_of_nat (ord c)) bs 0"

text \<open>A kind is a byte: 1 voice, 2 video, 3 image, 4 the end of an image.\<close>

definition kind_has_mime :: "nat \<Rightarrow> bool" where
  "kind_has_mime k \<longleftrightarrow> k = 3 \<or> k = 4"

record media_frame =
  mf_kind :: nat
  mf_stream :: "16 word"
  mf_seq :: "32 word"
  mf_time :: "64 word"
  mf_flags :: nat
  mf_mime :: string
  mf_payload :: string

definition media_pack :: "nat \<Rightarrow> 16 word \<Rightarrow> 32 word \<Rightarrow> 64 word \<Rightarrow> nat \<Rightarrow> string \<Rightarrow> string \<Rightarrow> string" where
  "media_pack kind stream_id seq ts flags payload mime =
     (let has_mime = kind_has_mime kind; mime_len = (if has_mime then min (length mime) 65535 else 0)
      in ''PM'' @ [chr kind] @ write_be 2 stream_id @ write_be 4 seq @ write_be 8 ts @ [chr flags]
         @ (if has_mime then write_be 2 (word_of_nat mime_len :: 16 word) @ take mime_len mime else []) @ payload)"

definition media_unpack :: "string \<Rightarrow> media_frame option" where
  "media_unpack data =
     (if length data < 18 then None
      else if data ! 0 \<noteq> CHR ''P'' \<or> data ! 1 \<noteq> CHR ''M'' then None
      else
        (let kind = ord (data ! 2);
             f = (\<lambda>mime payload. Some \<lparr>mf_kind = kind, mf_stream = read_be (take 2 (drop 3 data)),
                    mf_seq = read_be (take 4 (drop 5 data)), mf_time = read_be (take 8 (drop 9 data)),
                    mf_flags = ord (data ! 17), mf_mime = mime, mf_payload = payload\<rparr>)
         in if kind_has_mime kind then
              (if length data < 20 then None
               else (let mime_len = unat (read_be (take 2 (drop 18 data)) :: 16 word)
                     in if length data < 20 + mime_len then None
                        else f (take mime_len (drop 20 data)) (drop (20 + mime_len) data)))
            else f [] (drop 18 data)))"

section \<open>The hub\<close>

record room_handlers =
  rh_voice :: "nat option"
  rh_video :: "nat option"
  rh_image :: "nat option"

record media_hub =
  mh_rooms :: hub
  mh_handlers :: "(string \<times> room_handlers) list"
  mh_channel_rooms :: "(nat \<times> string) list"
  mh_attached :: "(nat \<times> bool) list"
  mh_seq :: "(string \<times> 32 word) list"

definition new_media_hub :: "hub \<Rightarrow> media_hub" where
  "new_media_hub rooms = \<lparr>mh_rooms = rooms, mh_handlers = [], mh_channel_rooms = [], mh_attached = [], mh_seq = []\<rparr>"

definition next_seq :: "string \<Rightarrow> media_hub \<Rightarrow> 32 word \<times> media_hub" where
  "next_seq key h =
     (let n = (case kv_get (=) (mh_seq h) key of None \<Rightarrow> 0 | Some n \<Rightarrow> n) + 1
      in (n, h\<lparr>mh_seq := kv_set (=) key n (mh_seq h)\<rparr>))"

definition media_attach :: "nat \<Rightarrow> nat \<Rightarrow> nat option \<Rightarrow> media_hub \<times> (nat \<Rightarrow> chan) \<Rightarrow> media_hub \<times> (nat \<Rightarrow> chan)" where
  "media_attach bin cls ch s =
     (case (ch, s) of
        (None, _) \<Rightarrow> s
      | (Some a, (h, heap)) \<Rightarrow>
          if kv_get (=) (mh_attached h) a = Some True then s
          else (h\<lparr>mh_attached := kv_set (=) a True (mh_attached h)\<rparr>,
                heap(a := run_op (OnClose cls) (run_op (OnBinary (Some bin)) (heap a)))))"

definition media_join :: "nat \<Rightarrow> nat \<Rightarrow> string \<Rightarrow> nat option \<Rightarrow> media_hub \<times> (nat \<Rightarrow> chan) \<Rightarrow> media_hub \<times> (nat \<Rightarrow> chan)" where
  "media_join bin cls room ch s =
     (case ch of None \<Rightarrow> s
      | Some a \<Rightarrow>
          (case media_attach bin cls ch s of (h, heap) \<Rightarrow>
             (h\<lparr>mh_rooms := hub_join room ch (mh_rooms h), mh_channel_rooms := kv_set (=) a room (mh_channel_rooms h)\<rparr>, heap)))"

definition media_leave :: "string \<Rightarrow> nat option \<Rightarrow> media_hub \<Rightarrow> media_hub" where
  "media_leave room ch h =
     (case ch of None \<Rightarrow> h
      | Some a \<Rightarrow>
          (let h = (if kv_get (=) (mh_channel_rooms h) a = Some room
                    then h\<lparr>mh_channel_rooms := kv_del (=) a (mh_channel_rooms h)\<rparr> else h)
           in h\<lparr>mh_rooms := hub_leave room ch (mh_rooms h)\<rparr>))"

definition media_on_close :: "nat \<Rightarrow> media_hub \<Rightarrow> media_hub" where
  "media_on_close a h =
     h\<lparr>mh_channel_rooms := kv_del (=) a (mh_channel_rooms h), mh_attached := kv_del (=) a (mh_attached h),
       mh_rooms := hub_leave_all (Some a) (mh_rooms h)\<rparr>"

text \<open>The handler a frame is given to, if any.\<close>

definition media_dispatch :: "string \<Rightarrow> media_frame \<Rightarrow> media_hub \<Rightarrow> nat option" where
  "media_dispatch room f h =
     (case kv_get (=) (mh_handlers h) room of
        None \<Rightarrow> None
      | Some hs \<Rightarrow>
          if mf_kind f = 1 then rh_voice hs else if mf_kind f = 2 then rh_video hs
          else if mf_kind f = 3 \<or> mf_kind f = 4 then rh_image hs else None)"

definition media_receive :: "nat \<Rightarrow> string \<Rightarrow> media_hub \<Rightarrow> (nat \<times> media_frame) option" where
  "media_receive from data h =
     (case media_unpack data of
        None \<Rightarrow> None
      | Some f \<Rightarrow>
          (let room = (case kv_get (=) (mh_channel_rooms h) from of None \<Rightarrow> [] | Some r \<Rightarrow> r)
           in if room = [] then None else map_option (\<lambda>i. (i, f)) (media_dispatch room f h)))"

text \<open>The common body of the sending operations.\<close>

definition media_send :: "string \<Rightarrow> string \<Rightarrow> nat \<Rightarrow> 16 word \<Rightarrow> 64 word \<Rightarrow> nat \<Rightarrow> string \<Rightarrow> string \<Rightarrow>
    media_hub \<times> (nat \<Rightarrow> chan) \<Rightarrow> media_hub \<times> (nat \<Rightarrow> chan)" where
  "media_send key room kind stream_id now flags payload mime s =
     (case s of (h, heap) \<Rightarrow>
        (case next_seq key h of (seq, h) \<Rightarrow>
           (h, broadcast_binary room (media_pack kind stream_id seq now flags payload mime) (mh_rooms h) heap)))"

definition send_voice :: "string \<Rightarrow> string \<Rightarrow> 16 word \<Rightarrow> nat \<Rightarrow> 64 word \<Rightarrow> media_hub \<times> (nat \<Rightarrow> chan) \<Rightarrow> media_hub \<times> (nat \<Rightarrow> chan)" where
  "send_voice room pcm sid flags now = media_send (room @ '':v:'' @ show_nat (unat sid)) room 1 sid now flags pcm []"

definition send_video :: "string \<Rightarrow> string \<Rightarrow> bool \<Rightarrow> 16 word \<Rightarrow> 64 word \<Rightarrow> media_hub \<times> (nat \<Rightarrow> chan) \<Rightarrow> media_hub \<times> (nat \<Rightarrow> chan)" where
  "send_video room data keyframe sid now =
     media_send (room @ '':vid:'' @ show_nat (unat sid)) room 2 sid now (if keyframe then 1 else 0) data []"

definition send_image :: "string \<Rightarrow> string \<Rightarrow> string \<Rightarrow> nat \<Rightarrow> 64 word \<Rightarrow> media_hub \<times> (nat \<Rightarrow> chan) \<Rightarrow> media_hub \<times> (nat \<Rightarrow> chan)" where
  "send_image room bytes mime flags now = media_send (room @ '':img'') room 3 0 now flags bytes mime"

definition begin_image :: "string \<Rightarrow> string \<Rightarrow> 16 word \<Rightarrow> 64 word \<Rightarrow> media_hub \<times> (nat \<Rightarrow> chan) \<Rightarrow> media_hub \<times> (nat \<Rightarrow> chan)" where
  "begin_image room mime sid now = media_send (room @ '':img:'' @ show_nat (unat sid)) room 3 sid now 0 [] mime"

definition write_image :: "string \<Rightarrow> string \<Rightarrow> 16 word \<Rightarrow> 64 word \<Rightarrow> media_hub \<times> (nat \<Rightarrow> chan) \<Rightarrow> media_hub \<times> (nat \<Rightarrow> chan)" where
  "write_image room chunk sid now = media_send (room @ '':img:'' @ show_nat (unat sid)) room 3 sid now 0 chunk []"

definition end_image :: "string \<Rightarrow> 16 word \<Rightarrow> 64 word \<Rightarrow> media_hub \<times> (nat \<Rightarrow> chan) \<Rightarrow> media_hub \<times> (nat \<Rightarrow> chan)" where
  "end_image room sid now = media_send (room @ '':img:'' @ show_nat (unat sid)) room 4 sid now 2 [] ''image/jpeg''"

definition room_handlers_of :: "string \<Rightarrow> media_hub \<Rightarrow> room_handlers" where
  "room_handlers_of room h =
     (case kv_get (=) (mh_handlers h) room of None \<Rightarrow> \<lparr>rh_voice = None, rh_video = None, rh_image = None\<rparr> | Some r \<Rightarrow> r)"

definition on_voice :: "string \<Rightarrow> nat option \<Rightarrow> media_hub \<Rightarrow> media_hub" where
  "on_voice room f h = h\<lparr>mh_handlers := kv_set (=) room ((room_handlers_of room h)\<lparr>rh_voice := f\<rparr>) (mh_handlers h)\<rparr>"

definition on_video :: "string \<Rightarrow> nat option \<Rightarrow> media_hub \<Rightarrow> media_hub" where
  "on_video room f h = h\<lparr>mh_handlers := kv_set (=) room ((room_handlers_of room h)\<lparr>rh_video := f\<rparr>) (mh_handlers h)\<rparr>"

definition on_image :: "string \<Rightarrow> nat option \<Rightarrow> media_hub \<Rightarrow> media_hub" where
  "on_image room f h = h\<lparr>mh_handlers := kv_set (=) room ((room_handlers_of room h)\<lparr>rh_image := f\<rparr>) (mh_handlers h)\<rparr>"

section \<open>Bytes and words\<close>

lemma length_write_be [simp]: "length (write_be n v) = n"
  by (simp add: write_be_def)

lemma byte_back: "word_of_nat (ord (word_byte i v)) = take_bit 8 (drop_bit (8 * i) (v :: 'a::len word))"
proof -
  have "unat (take_bit 8 (drop_bit (8 * i) v)) < 256"
    using take_bit_nat_less_exp [of 8 "unat (drop_bit (8 * i) v)"] by (simp add: unsigned_take_bit_eq)
  then have "ord (word_byte i v) = unat (take_bit 8 (drop_bit (8 * i) v))" by (simp add: word_byte_def)
  then show ?thesis by simp
qed

lemma fold_write_be:
  "fold (\<lambda>c v. push_bit 8 v OR word_of_nat (ord c)) (write_be n v) a = push_bit (8 * n) a OR take_bit (8 * n) (v :: 'a::len word)"
proof (induction n arbitrary: a)
  case 0
  show ?case by (simp add: write_be_def)
next
  case (Suc n)
  have "write_be (Suc n) v = word_byte n v # write_be n v" by (simp add: write_be_def)
  then have "fold (\<lambda>c v. push_bit 8 v OR word_of_nat (ord c)) (write_be (Suc n) v) a =
      push_bit (8 * n) (push_bit 8 a OR take_bit 8 (drop_bit (8 * n) v)) OR take_bit (8 * n) v"
    by (simp add: Suc.IH byte_back)
  also have "\<dots> = push_bit (8 * Suc n) a OR take_bit (8 * Suc n) v"
    by (rule bit_word_eqI) (auto simp: bit_push_bit_iff bit_take_bit_iff bit_or_iff bit_drop_bit_eq add.commute)
  finally show ?case .
qed

lemma read_write_be: "LENGTH('a::len) \<le> 8 * n \<Longrightarrow> read_be (write_be n (v :: 'a word)) = v"
  by (simp add: read_be_def fold_write_be take_bit_word_eq_self)

section \<open>Round trip\<close>

lemma read_pieces:
  "(read_be (write_be 2 (a :: 16 word)) :: 16 word) = a" "(read_be (write_be 4 (b :: 32 word)) :: 32 word) = b"
  "(read_be (write_be 8 (c :: 64 word)) :: 64 word) = c"
  by (simp_all add: read_write_be)

lemma list_of_length:
  "length xs = 2 \<Longrightarrow> \<exists>a b. xs = [a, b]" "length xs = 4 \<Longrightarrow> \<exists>a b c d. xs = [a, b, c, d]"
  "length xs = 8 \<Longrightarrow> \<exists>a b c d e f g h. xs = [a, b, c, d, e, f, g, h]"
  by (auto simp: numeral_eq_Suc length_Suc_conv)

lemma frame_head:
  fixes sid :: "16 word" and seq :: "32 word" and ts :: "64 word"
  assumes "data = ''PM'' @ [chr kind] @ write_be 2 sid @ write_be 4 seq @ write_be 8 ts @ [chr flags] @ rest"
  shows "length data = 18 + length rest" "data ! 0 = CHR ''P''" "data ! 1 = CHR ''M''" "data ! 2 = chr kind"
    "take 2 (drop 3 data) = write_be 2 sid" "take 4 (drop 5 data) = write_be 4 seq" "take 8 (drop 9 data) = write_be 8 ts"
    "data ! 17 = chr flags" "drop 18 data = rest"
proof -
  obtain a1 a2 where a: "write_be 2 sid = [a1, a2]"
    using list_of_length(1) length_write_be [of 2 sid] by blast
  obtain b1 b2 b3 b4 where b: "write_be 4 seq = [b1, b2, b3, b4]"
    using list_of_length(2) length_write_be [of 4 seq] by blast
  obtain c1 c2 c3 c4 c5 c6 c7 c8 where c: "write_be 8 ts = [c1, c2, c3, c4, c5, c6, c7, c8]"
    using list_of_length(3) length_write_be [of 8 ts] by blast
  show "length data = 18 + length rest" "data ! 0 = CHR ''P''" "data ! 1 = CHR ''M''" "data ! 2 = chr kind"
    "take 2 (drop 3 data) = write_be 2 sid" "take 4 (drop 5 data) = write_be 4 seq" "take 8 (drop 9 data) = write_be 8 ts"
    "data ! 17 = chr flags" "drop 18 data = rest"
    unfolding assms a b c by simp_all
qed

lemma media_roundtrip:
  assumes "kind < 256" "flags < 256"
  shows "media_unpack (media_pack kind sid seq ts flags payload mime) =
    Some \<lparr>mf_kind = kind, mf_stream = sid, mf_seq = seq, mf_time = ts, mf_flags = flags,
          mf_mime = (if kind_has_mime kind then take 65535 mime else []), mf_payload = payload\<rparr>"
proof -
  have k: "ord (chr kind) = kind" "ord (chr flags) = flags" using assms by simp_all
  show ?thesis
  proof (cases "kind_has_mime kind")
    case False
    let ?d = "''PM'' @ [chr kind] @ write_be 2 sid @ write_be 4 seq @ write_be 8 ts @ [chr flags] @ payload"
    have p: "media_pack kind sid seq ts flags payload mime = ?d" using False by (simp add: media_pack_def)
    note h = frame_head [OF refl [of ?d]]
    have l: "\<not> length ?d < 18" unfolding h(1) by simp
    have m: "\<not> (?d ! 0 \<noteq> CHR ''P'' \<or> ?d ! 1 \<noteq> CHR ''M'')" unfolding h(2,3) by simp
    show ?thesis
      unfolding p media_unpack_def if_not_P [OF l] if_not_P [OF m] Let_def h(4-9) k read_pieces if_not_P [OF False] ..
  next
    case True
    define n where "n = min (length mime) 65535"
    let ?len = "word_of_nat n :: 16 word"
    have n: "unat ?len = n" by (simp add: n_def unat_of_nat)
    let ?rest = "write_be 2 ?len @ take n mime @ payload"
    let ?d = "''PM'' @ [chr kind] @ write_be 2 sid @ write_be 4 seq @ write_be 8 ts @ [chr flags] @ ?rest"
    have p: "media_pack kind sid seq ts flags payload mime = ?d" using True by (simp add: media_pack_def n_def Let_def)
    note h = frame_head [OF refl [of ?d]]
    have tn: "length (take n mime) = n" "take n mime = take 65535 mime" by (simp_all add: n_def min_def)
    have l: "\<not> length ?d < 18" "\<not> length ?d < 20" "\<not> length ?d < 20 + n" unfolding h(1) using tn(1) by simp_all
    have m: "\<not> (?d ! 0 \<noteq> CHR ''P'' \<or> ?d ! 1 \<noteq> CHR ''M'')" unfolding h(2,3) by simp
    have d20: "drop 20 ?d = take n mime @ payload"
    proof -
      have "drop 20 ?d = drop 2 (drop 18 ?d)" by (simp only: drop_drop) simp
      also have "\<dots> = take n mime @ payload" unfolding h(9) by simp
      finally show ?thesis .
    qed
    have d: "take 2 (drop 18 ?d) = write_be 2 ?len" "take n (drop 20 ?d) = take n mime" "drop (20 + n) ?d = payload"
    proof -
      show "take 2 (drop 18 ?d) = write_be 2 ?len" unfolding h(9) by simp
      show "take n (drop 20 ?d) = take n mime" unfolding d20 using tn(1) by simp
      have "drop (20 + n) ?d = drop n (drop 20 ?d)" by (simp only: drop_drop add.commute)
      then show "drop (20 + n) ?d = payload" unfolding d20 using tn(1) by simp
    qed
    have "media_unpack ?d = Some \<lparr>mf_kind = kind, mf_stream = sid, mf_seq = seq, mf_time = ts, mf_flags = flags,
          mf_mime = take n mime, mf_payload = payload\<rparr>"
      unfolding media_unpack_def if_not_P [OF l(1)] if_not_P [OF m] Let_def h(4-8) k d(1) read_pieces n
        if_P [OF True] if_not_P [OF l(2)] if_not_P [OF l(3)] d(2,3) ..
    then show ?thesis unfolding p using True tn(2) by simp
  qed
qed

section \<open>The relay\<close>

lemma next_seq_counts:
  "next_seq key h = (n, h') \<Longrightarrow>
   kv_get (=) (mh_seq h') k = (if k = key then Some n else kv_get (=) (mh_seq h) k) \<and>
   n = (case kv_get (=) (mh_seq h) key of None \<Rightarrow> 0 | Some m \<Rightarrow> m) + 1 \<and> mh_rooms h' = mh_rooms h"
  by (auto simp: next_seq_def Let_def pm_laws)

text \<open>Media reach the room and can be read there. A voice frame sent to a room is queued, once
  per membership, on every open member and on no other channel, as one binary message that unpacks to
  the samples under the stream's next sequence number, which counts up by one per frame of that stream
  in that room (modulo 2 to the 32) and is independent of all other streams.\<close>

lemma media_voice_delivered:
  assumes "send_voice room pcm sid flags now (h, heap) = (h', heap')" "flags < 256"
  shows "\<exists>data f. media_unpack data = Some f \<and> mf_kind f = 1 \<and> mf_stream f = sid \<and> mf_payload f = pcm \<and>
      mf_seq f = (case kv_get (=) (mh_seq h) (room @ '':v:'' @ show_nat (unat sid)) of None \<Rightarrow> 0 | Some m \<Rightarrow> m) + 1 \<and>
      kv_get (=) (mh_seq h') k = (if k = room @ '':v:'' @ show_nat (unat sid) then Some (mf_seq f) else kv_get (=) (mh_seq h) k) \<and>
      ch_pending (heap' a) =
        (if ch_closed (heap a) then ch_pending (heap a)
         else ch_pending (heap a) @ concat (replicate (count_list (hub_members room (mh_rooms h)) a) (encode_frame 2 data True)))"
proof -
  let ?key = "room @ '':v:'' @ show_nat (unat sid)"
  obtain n h1 where n: "next_seq ?key h = (n, h1)" by fastforce
  note c = next_seq_counts [OF n, of k]
  let ?data = "media_pack 1 sid n now flags pcm []"
  have r: "h' = h1" "heap' = broadcast_binary room ?data (mh_rooms h) heap"
    using assms(1) n c by (auto simp: send_voice_def media_send_def)
  have "ch_pending (heap' a) =
      (if ch_closed (heap a) then ch_pending (heap a)
       else ch_pending (heap a) @ concat (replicate (count_list (hub_members room (mh_rooms h)) a) (encode_frame 2 ?data True)))"
    unfolding r(2) broadcast_binary_def broadcast_frame_def hub_members_def
    by (auto simp: send_all_get enqueue_times split: option.split)
  moreover have "media_unpack ?data = Some \<lparr>mf_kind = 1, mf_stream = sid, mf_seq = n, mf_time = now, mf_flags = flags,
      mf_mime = [], mf_payload = pcm\<rparr>"
    using media_roundtrip [of 1 flags sid n now pcm "[]"] assms(2) by (simp add: kind_has_mime_def)
  ultimately show ?thesis using c r(1) by (intro exI [of _ ?data] exI conjI) auto
qed

definition demo_media :: media_hub where
  "demo_media = new_media_hub [(''r'', [7])]"

lemma media_voice_delivered_example:
  "\<exists>data. ch_pending (snd (send_voice ''r'' ''pcm'' 5 0 9 (demo_media, new_chan)) 7) = encode_frame 2 data True"
proof -
  obtain h' heap' where s: "send_voice ''r'' ''pcm'' 5 0 9 (demo_media, new_chan) = (h', heap')" by fastforce
  have "hub_members ''r'' (mh_rooms demo_media) = [7]" by (simp add: demo_media_def new_media_hub_def hub_members_def)
  moreover have "ch_pending (new_chan 7) = []" "\<not> ch_closed (new_chan 7)" by (simp_all add: new_chan_def)
  ultimately show ?thesis using media_voice_delivered [OF s, of _ 7] s by auto
qed

text \<open>A closed channel is forgotten; one that left its room receives nothing for it any more. A channel
  belongs, for what it sends, to the room it joined last.\<close>

lemma media_close_forgets:
  assumes "kv_wf (=) (mh_channel_rooms h)" "hub_ok (mh_rooms h)"
  shows "media_receive a data (media_on_close a h) = None" "a \<notin> set (hub_members room (mh_rooms (media_on_close a h)))"
  using assms
  by (auto simp: media_receive_def media_on_close_def pm_laws members_leave_all split: option.split)

lemma media_last_room:
  assumes "media_join bin cls room (Some a) (h, heap) = (h', heap')" "room \<noteq> []" "media_unpack data = Some f"
  shows "media_receive a data h' = map_option (\<lambda>i. (i, f)) (media_dispatch room f h')"
  using assms by (auto simp: media_join_def media_receive_def pm_laws split: prod.splits)

text \<open>Leaving does not detach: the channel keeps the hub's handlers, and is not attached again.\<close>

lemma leave_stays_attached: "mh_attached (media_leave room ch h) = mh_attached h"
  by (simp add: media_leave_def Let_def split: option.split)

end
