(* ===== verification/Json.thy ===== *)
theory Json
  imports CLib Complex_Main
begin

text \<open>
  The JSON library (\<open>nlohmann::json\<close>) is not code of the repository: its values are an abstract
  type \<open>'j\<close> and the operations the sources call are the fields of a record that every definition
  working on JSON takes as an argument. \<open>None\<close> is the exception (or the discarded document) of
  the call. Hypotheses about the library are written where a property needs them; \<open>json_object_laws\<close>
  collects the documented behaviour of objects: they are maps from strings to values.
\<close>

record 'j json_api =
  js_dump :: "'j \<Rightarrow> string option"
  js_parse :: "string \<Rightarrow> 'j option"
  js_null :: 'j
  js_object :: 'j
  js_of_str :: "string \<Rightarrow> 'j"
  js_of_int :: "int \<Rightarrow> 'j"
  js_is_object :: "'j \<Rightarrow> bool"
  js_is_empty :: "'j \<Rightarrow> bool"
  js_find :: "'j \<Rightarrow> string \<Rightarrow> 'j option"
  js_put :: "'j \<Rightarrow> string \<Rightarrow> 'j \<Rightarrow> 'j option"
  js_del :: "'j \<Rightarrow> string \<Rightarrow> 'j"
  js_items :: "'j \<Rightarrow> (string \<times> 'j) list"
  js_as_str :: "'j \<Rightarrow> string option"
  js_as_int :: "'j \<Rightarrow> int option"
  js_is_null :: "'j \<Rightarrow> bool"
  js_is_zero :: "'j \<Rightarrow> bool"
  js_integer :: "'j \<Rightarrow> int option"
  js_trunc :: "'j \<Rightarrow> int option"
  js_round :: "'j \<Rightarrow> int option"
  js_elems :: "'j \<Rightarrow> 'j list option"
  js_eq :: "'j \<Rightarrow> 'j \<Rightarrow> bool"
  js_lt :: "'j \<Rightarrow> 'j \<Rightarrow> bool"
  js_is_bool :: "'j \<Rightarrow> bool"
  js_size :: "'j \<Rightarrow> nat"
  js_double :: "'j \<Rightarrow> rat option"
  js_array :: "'j list \<Rightarrow> 'j"

text \<open>
  \<open>js_as_int\<close> is \<open>get<int64_t>\<close>; \<open>js_is_zero\<close> is the comparison with the number 0; \<open>js_integer\<close> is the
  value when \<open>is_number_integer\<close>, \<open>js_trunc\<close> and \<open>js_round\<close> the cast and \<open>lround\<close> of the value
  when \<open>is_number\<close>; \<open>js_elems\<close> the elements when \<open>is_array\<close>; \<open>js_eq\<close> and \<open>js_lt\<close> the library's
  comparisons; \<open>js_double\<close> is \<open>get<double>\<close> when \<open>is_number\<close> (a double is a rational number).
\<close>

text \<open>\<open>j.contains(key)\<close>: false for anything that is not an object.\<close>

definition js_contains :: "'j json_api \<Rightarrow> 'j \<Rightarrow> string \<Rightarrow> bool" where
  "js_contains J j k \<longleftrightarrow> js_find J j k \<noteq> None"

definition json_object_laws :: "'j json_api \<Rightarrow> bool" where
  "json_object_laws J \<longleftrightarrow>
     js_is_object J (js_object J) \<and> (\<forall>k. js_find J (js_object J) k = None) \<and>
     (\<forall>j k v. js_is_object J j \<longrightarrow> (\<exists>j'. js_put J j k v = Some j' \<and> js_is_object J j' \<and>
        (\<forall>k'. js_find J j' k' = (if k' = k then Some v else js_find J j k')))) \<and>
     (\<forall>s. js_as_str J (js_of_str J s) = Some s) \<and>
     (\<forall>n. - (2 ^ 63) \<le> n \<and> n < 2 ^ 63 \<longrightarrow> js_as_int J (js_of_int J n) = Some n)"

section \<open>A small concrete library\<close>

text \<open>For the applications at concrete inputs: null, texts, numbers and objects. \<open>docs\<close> are the
  documents that can be parsed back, found by their serialization.\<close>

datatype doc = DNull | DStr string | DInt int | DArr "doc list" | DObj "(string \<times> doc) list"

fun doc_text :: "doc \<Rightarrow> string" where
  "doc_text DNull = ''null''"
| "doc_text (DStr s) = [DQ] @ s @ [DQ]"
| "doc_text (DInt n) = show_int n"
| "doc_text (DArr ds) = ''['' @ join_with '','' (map doc_text ds) @ '']''"
| "doc_text (DObj ms) = ''{'' @ join_with '','' (map (\<lambda>(k, d). [DQ] @ k @ [DQ] @ '':'' @ doc_text d) ms) @ ''}''"

fun doc_members :: "doc \<Rightarrow> (string \<times> doc) list" where
  "doc_members (DObj ms) = ms"
| "doc_members _ = []"

fun doc_is_object :: "doc \<Rightarrow> bool" where
  "doc_is_object (DObj ms) = True"
| "doc_is_object _ = False"

definition doc_json :: "doc list \<Rightarrow> doc json_api" where
  "doc_json docs =
     \<lparr>js_dump = \<lambda>j. Some (doc_text j),
      js_parse = \<lambda>s. List.find (\<lambda>j. doc_text j = s) docs,
      js_null = DNull, js_object = DObj [], js_of_str = DStr, js_of_int = DInt,
      js_is_object = doc_is_object,
      js_is_empty = \<lambda>j. case j of DNull \<Rightarrow> True | DArr ds \<Rightarrow> ds = [] | DObj ms \<Rightarrow> ms = [] | _ \<Rightarrow> False,
      js_find = \<lambda>j k. kv_get (=) (doc_members j) k,
      js_put = \<lambda>j k v. if doc_is_object j \<or> j = DNull then Some (DObj (kv_set (=) k v (doc_members j))) else None,
      js_del = \<lambda>j k. DObj (kv_del (=) k (doc_members j)),
      js_items = doc_members,
      js_as_str = \<lambda>j. case j of DStr s \<Rightarrow> Some s | _ \<Rightarrow> None,
      js_as_int = \<lambda>j. case j of DInt n \<Rightarrow> Some n | _ \<Rightarrow> None,
      js_is_null = \<lambda>j. j = DNull, js_is_zero = \<lambda>j. j = DInt 0,
      js_integer = \<lambda>j. case j of DInt n \<Rightarrow> Some n | _ \<Rightarrow> None,
      js_trunc = \<lambda>j. case j of DInt n \<Rightarrow> Some n | _ \<Rightarrow> None,
      js_round = \<lambda>j. case j of DInt n \<Rightarrow> Some n | _ \<Rightarrow> None,
      js_elems = \<lambda>j. case j of DArr ds \<Rightarrow> Some ds | _ \<Rightarrow> None,
      js_eq = (=), js_lt = \<lambda>a b. case (a, b) of (DInt x, DInt y) \<Rightarrow> x < y | _ \<Rightarrow> False,
      js_is_bool = \<lambda>_. False,
      js_size = \<lambda>j. case j of DArr ds \<Rightarrow> length ds | DObj ms \<Rightarrow> length ms | DNull \<Rightarrow> 0 | _ \<Rightarrow> 1,
      js_double = \<lambda>j. case j of DInt n \<Rightarrow> Some (rat_of_int n) | _ \<Rightarrow> None,
      js_array = DArr\<rparr>"

lemma doc_json_simps [simp]:
  "js_dump (doc_json docs) = (\<lambda>j. Some (doc_text j))"
  "js_parse (doc_json docs) = (\<lambda>s. List.find (\<lambda>j. doc_text j = s) docs)"
  "js_null (doc_json docs) = (DNull)"
  "js_object (doc_json docs) = (DObj [])"
  "js_of_str (doc_json docs) = (DStr)"
  "js_of_int (doc_json docs) = (DInt)"
  "js_is_object (doc_json docs) = (doc_is_object)"
  "js_is_empty (doc_json docs) = (\<lambda>j. case j of DNull \<Rightarrow> True | DArr ds \<Rightarrow> ds = [] | DObj ms \<Rightarrow> ms = [] | _ \<Rightarrow> False)"
  "js_find (doc_json docs) = (\<lambda>j k. kv_get (=) (doc_members j) k)"
  "js_put (doc_json docs) = (\<lambda>j k v. if doc_is_object j \<or> j = DNull then Some (DObj (kv_set (=) k v (doc_members j))) else None)"
  "js_del (doc_json docs) = (\<lambda>j k. DObj (kv_del (=) k (doc_members j)))"
  "js_items (doc_json docs) = (doc_members)"
  "js_as_str (doc_json docs) = (\<lambda>j. case j of DStr s \<Rightarrow> Some s | _ \<Rightarrow> None)"
  "js_as_int (doc_json docs) = (\<lambda>j. case j of DInt n \<Rightarrow> Some n | _ \<Rightarrow> None)"
  "js_is_null (doc_json docs) = (\<lambda>j. j = DNull)"
  "js_is_zero (doc_json docs) = (\<lambda>j. j = DInt 0)"
  "js_integer (doc_json docs) = (\<lambda>j. case j of DInt n \<Rightarrow> Some n | _ \<Rightarrow> None)"
  "js_trunc (doc_json docs) = (\<lambda>j. case j of DInt n \<Rightarrow> Some n | _ \<Rightarrow> None)"
  "js_round (doc_json docs) = (\<lambda>j. case j of DInt n \<Rightarrow> Some n | _ \<Rightarrow> None)"
  "js_elems (doc_json docs) = (\<lambda>j. case j of DArr ds \<Rightarrow> Some ds | _ \<Rightarrow> None)"
  "js_eq (doc_json docs) = ((=))"
  "js_lt (doc_json docs) = (\<lambda>a b. case (a, b) of (DInt x, DInt y) \<Rightarrow> x < y | _ \<Rightarrow> False)"
  "js_is_bool (doc_json docs) = (\<lambda>_. False)"
  "js_size (doc_json docs) = (\<lambda>j. case j of DArr ds \<Rightarrow> length ds | DObj ms \<Rightarrow> length ms | DNull \<Rightarrow> 0 | _ \<Rightarrow> 1)"
  "js_double (doc_json docs) = (\<lambda>j. case j of DInt n \<Rightarrow> Some (rat_of_int n) | _ \<Rightarrow> None)"
  "js_array (doc_json docs) = (DArr)"
  by (simp_all add: doc_json_def)

lemma doc_json_laws: "json_object_laws (doc_json docs)"
  by (simp add: json_object_laws_def doc_json_def pm.get_set)

lemma find_first: "List.find (\<lambda>j. doc_text j = doc_text d) (d # ds) = Some d"
  by simp

lemma js_put_object:
  "json_object_laws J \<Longrightarrow> js_is_object J j \<Longrightarrow>
   \<exists>j'. js_put J j k v = Some j' \<and> js_is_object J j' \<and>
     (\<forall>k'. js_find J j' k' = (if k' = k then Some v else js_find J j k'))"
  unfolding json_object_laws_def by blast

end
