(* ===== verification/PulseEasy.thy ===== *)
theory PulseEasy
  imports PulseChannel Json
begin

text \<open>
  JSON events over Pulse: \<open>include/socketify/pulse_easy.h\<close> and \<open>src/pulse_easy.cpp\<close>. The states that
  connections share are cells of a heap; \<open>live_\<close> maps channel ids to them. Handlers of the application
  are indices. The two callbacks that \<open>wire_channel_\<close> installs are the indices \<open>txt\<close> and \<open>cls\<close> of the
  channel's handler table; what they do is \<open>dispatch_text\<close> and \<open>easy_closed\<close>.
\<close>

section \<open>Envelopes\<close>

text \<open>\<open>None\<close>: the JSON library throws.\<close>

definition envelope :: "'j json_api \<Rightarrow> string \<Rightarrow> 'j \<Rightarrow> 'j option" where
  "envelope J typ data =
     (case js_put J (js_object J) ''type'' (js_of_str J typ) of None \<Rightarrow> None | Some j \<Rightarrow> js_put J j ''data'' data)"

definition parse_envelope :: "'j json_api \<Rightarrow> string \<Rightarrow> (string \<times> 'j) option" where
  "parse_envelope J raw =
     (case js_parse J raw of
        None \<Rightarrow> None
      | Some doc \<Rightarrow>
          if \<not> js_is_object J doc then None
          else (case js_find J doc ''type'' of
                  None \<Rightarrow> None
                | Some t \<Rightarrow>
                    (case js_as_str J t of
                       None \<Rightarrow> None
                     | Some typ \<Rightarrow> Some (typ, case js_find J doc ''data'' of None \<Rightarrow> js_object J | Some d \<Rightarrow> d))))"

section \<open>Connections\<close>

record conn_state =
  cs_chan :: nat
  cs_room :: string
  cs_handlers :: "(string \<times> nat) list"
  cs_raw :: "nat option"
  cs_closers :: "nat list"

definition new_conn_state :: "nat \<Rightarrow> conn_state" where
  "new_conn_state a = \<lparr>cs_chan = a, cs_room = [], cs_handlers = [], cs_raw = None, cs_closers = []\<rparr>"

record easy_route =
  er_path :: string
  er_opts :: pulse_options
  er_handler :: nat

record easy_app =
  ea_hub :: hub
  ea_live :: "(nat \<times> nat) list"
  ea_states :: "nat \<Rightarrow> conn_state"
  ea_routes :: "easy_route list"

definition new_easy_app :: "hub \<Rightarrow> easy_app" where
  "new_easy_app h = \<lparr>ea_hub = h, ea_live = [], ea_states = new_conn_state, ea_routes = []\<rparr>"

definition upd_state :: "nat \<Rightarrow> (conn_state \<Rightarrow> conn_state) \<Rightarrow> easy_app \<Rightarrow> easy_app" where
  "upd_state s f app = app\<lparr>ea_states := (ea_states app)(s := f (ea_states app s))\<rparr>"

definition easy_join :: "nat \<Rightarrow> string \<Rightarrow> easy_app \<Rightarrow> easy_app" where
  "easy_join s room app =
     upd_state s (\<lambda>c. c\<lparr>cs_room := room\<rparr>)
       (app\<lparr>ea_hub := hub_join room (Some (cs_chan (ea_states app s))) (ea_hub app)\<rparr>)"

text \<open>\<open>emit\<close> and \<open>broadcast\<close> work on the heap of channels; \<open>None\<close>: the serialization throws.\<close>

definition easy_text :: "'j json_api \<Rightarrow> string \<Rightarrow> 'j \<Rightarrow> string option" where
  "easy_text J typ data = (case envelope J typ data of None \<Rightarrow> None | Some j \<Rightarrow> js_dump J j)"

definition easy_emit :: "'j json_api \<Rightarrow> nat \<Rightarrow> string \<Rightarrow> 'j \<Rightarrow> easy_app \<Rightarrow> (nat \<Rightarrow> chan) \<Rightarrow> ((nat \<Rightarrow> chan) \<times> bool) option" where
  "easy_emit J s typ data app heap =
     (case easy_text J typ data of
        None \<Rightarrow> None
      | Some t \<Rightarrow>
          (let a = cs_chan (ea_states app s) in case send_text t (heap a) of (c, ok) \<Rightarrow> Some (heap(a := c), ok)))"

definition easy_broadcast :: "'j json_api \<Rightarrow> string \<Rightarrow> string \<Rightarrow> 'j \<Rightarrow> easy_app \<Rightarrow> (nat \<Rightarrow> chan) \<Rightarrow> (nat \<Rightarrow> chan) option" where
  "easy_broadcast J room typ data app heap =
     map_option (\<lambda>t. broadcast_text room t (ea_hub app) heap) (easy_text J typ data)"

definition easy_on :: "nat \<Rightarrow> string \<Rightarrow> nat \<Rightarrow> easy_app \<Rightarrow> easy_app" where
  "easy_on s typ f = upd_state s (\<lambda>c. c\<lparr>cs_handlers := kv_set (=) typ f (cs_handlers c)\<rparr>)"

definition easy_on_raw :: "nat \<Rightarrow> nat option \<Rightarrow> easy_app \<Rightarrow> easy_app" where
  "easy_on_raw s f = upd_state s (\<lambda>c. c\<lparr>cs_raw := f\<rparr>)"

definition easy_on_close :: "nat \<Rightarrow> nat option \<Rightarrow> easy_app \<Rightarrow> easy_app" where
  "easy_on_close s f app =
     (case f of None \<Rightarrow> app | Some i \<Rightarrow> upd_state s (\<lambda>c. c\<lparr>cs_closers := cs_closers c @ [i]\<rparr>) app)"

definition set_default_room :: "nat \<Rightarrow> string \<Rightarrow> easy_app \<Rightarrow> easy_app" where
  "set_default_room s room = upd_state s (\<lambda>c. c\<lparr>cs_room := room\<rparr>)"

text \<open>What a text message leads to: a typed handler with its data, the raw handler, or nothing.\<close>

datatype 'j easy_call = Typed nat 'j | Raw nat string | NoCall

definition dispatch_text :: "'j json_api \<Rightarrow> nat \<Rightarrow> string \<Rightarrow> easy_app \<Rightarrow> 'j easy_call" where
  "dispatch_text J s raw app =
     (let c = ea_states app s; fallback = (case cs_raw c of None \<Rightarrow> NoCall | Some f \<Rightarrow> Raw f raw)
      in case parse_envelope J raw of
           None \<Rightarrow> fallback
         | Some (typ, data) \<Rightarrow> (case kv_get (=) (cs_handlers c) typ of Some f \<Rightarrow> Typed f data | None \<Rightarrow> fallback))"

section \<open>The application\<close>

definition app_on :: "string \<Rightarrow> nat \<Rightarrow> pulse_options \<Rightarrow> easy_app \<Rightarrow> easy_app" where
  "app_on path handler opts app =
     app\<lparr>ea_routes := ea_routes app @ [\<lparr>er_path = path, er_opts = opts, er_handler = handler\<rparr>]\<rparr>"

definition release_id :: "nat \<Rightarrow> easy_app \<Rightarrow> easy_app" where
  "release_id i app =
     (case kv_get (=) (ea_live app) i of
        None \<Rightarrow> app
      | Some s \<Rightarrow>
          (let app = app\<lparr>ea_live := kv_del (=) i (ea_live app)\<rparr>;
               app = app\<lparr>ea_hub := hub_leave_all (Some (cs_chan (ea_states app s))) (ea_hub app)\<rparr>
           in upd_state s (\<lambda>c. c\<lparr>cs_handlers := [], cs_raw := None, cs_closers := []\<rparr>) app))"

definition easy_release :: "(nat \<Rightarrow> chan) \<Rightarrow> nat option \<Rightarrow> easy_app \<Rightarrow> easy_app" where
  "easy_release heap ch app = (case ch of None \<Rightarrow> app | Some a \<Rightarrow> release_id (ch_id (heap a)) app)"

definition is_live :: "(nat \<Rightarrow> chan) \<Rightarrow> nat option \<Rightarrow> easy_app \<Rightarrow> bool" where
  "is_live heap ch app = (case ch of None \<Rightarrow> False | Some a \<Rightarrow> kv_get (=) (ea_live app) (ch_id (heap a)) \<noteq> None)"

text \<open>The state cell \<open>s\<close> is fresh.\<close>

definition adopt :: "nat \<Rightarrow> nat \<Rightarrow> nat \<Rightarrow> nat \<Rightarrow> easy_app \<times> (nat \<Rightarrow> chan) \<Rightarrow> easy_app \<times> (nat \<Rightarrow> chan)" where
  "adopt txt cls s a w =
     (case w of (app, heap) \<Rightarrow>
        (upd_state s (\<lambda>_. new_conn_state a) (app\<lparr>ea_live := kv_set (=) (ch_id (heap a)) s (ea_live app)\<rparr>),
         heap(a := run_op (OnClose cls) (run_op (OnText (Some txt)) (heap a)))))"

text \<open>The close callback: the application's handlers (a copy of the list, if the state is still
  referenced) run one after the other, then the connection is released. \<open>run f\<close> is what handler \<open>f\<close>
  does to the application.\<close>

definition easy_closed :: "(nat \<Rightarrow> easy_app \<Rightarrow> easy_app) \<Rightarrow> bool \<Rightarrow> nat \<Rightarrow> nat \<Rightarrow> easy_app \<Rightarrow> easy_app" where
  "easy_closed run locked s i app =
     release_id i (if locked then fold run (cs_closers (ea_states app s)) app else app)"

text \<open>What \<open>bind\<close> registers for a route: the upgrade, and the adoption of its channel. The result tells
  whether the route's handler runs.\<close>

definition bind_route :: "nat \<Rightarrow> nat \<Rightarrow> easy_route \<Rightarrow> request \<Rightarrow> nat \<Rightarrow> nat \<Rightarrow> nat \<Rightarrow> response \<Rightarrow> easy_app \<Rightarrow> 'u pworld \<Rightarrow>
    nat option \<times> response \<times> easy_app \<times> 'u pworld" where
  "bind_route txt cls r rq s a i rs app w =
     (case pulse_upgrade rq (er_opts r) a i rs w of
        (None, rs, w) \<Rightarrow> (None, rs, app, w)
      | (Some a, rs, w) \<Rightarrow>
          (case adopt txt cls s a (app, pw_chans w) of
             (app, heap) \<Rightarrow> (Some (er_handler r), rs, app, w\<lparr>pw_chans := heap\<rparr>)))"

section \<open>Envelopes are understood\<close>

lemma envelope_roundtrip:
  assumes "json_object_laws J" "\<And>j s. js_dump J j = Some s \<Longrightarrow> js_parse J s = Some j" "easy_text J typ data = Some t"
  shows "parse_envelope J t = Some (typ, data)"
proof -
  note L = assms(1) [unfolded json_object_laws_def]
  have o: "js_is_object J (js_object J)" using L by blast
  obtain j1 where j1: "js_put J (js_object J) ''type'' (js_of_str J typ) = Some j1" "js_is_object J j1"
    "js_find J j1 ''type'' = Some (js_of_str J typ)" using js_put_object [OF assms(1) o, of "''type''"] by fastforce
  obtain j2 where j2: "js_put J j1 ''data'' data = Some j2" "js_is_object J j2"
    "js_find J j2 ''data'' = Some data" "js_find J j2 ''type'' = js_find J j1 ''type''"
    using js_put_object [OF assms(1) j1(2), of "''data''" data] by fastforce
  have "js_dump J j2 = Some t" using assms(3) j1(1) j2(1) by (simp add: easy_text_def envelope_def)
  then have "js_parse J t = Some j2" by (rule assms(2))
  moreover have "js_as_str J (js_of_str J typ) = Some typ" using L by blast
  ultimately show ?thesis using j1(3) j2(2-4) by (simp add: parse_envelope_def)
qed

text \<open>An emitted event reaches the handler registered for its type, on the other side.\<close>

lemma event_dispatched:
  assumes "json_object_laws J" "\<And>j s. js_dump J j = Some s \<Longrightarrow> js_parse J s = Some j" "easy_text J typ data = Some t"
    "kv_get (=) (cs_handlers (ea_states app s)) typ = Some f"
  shows "dispatch_text J s t app = Typed f data"
  using envelope_roundtrip [OF assms(1-3)] assms(4) by (simp add: dispatch_text_def)

section \<open>Nothing is kept of a released connection\<close>

definition easy_ok :: "easy_app \<Rightarrow> bool" where
  "easy_ok app \<longleftrightarrow> kv_wf (=) (ea_live app) \<and> hub_ok (ea_hub app)"

lemma easy_ok_upd [simp]: "easy_ok (upd_state s f app) = easy_ok app"
  by (simp add: easy_ok_def upd_state_def)

lemma easy_ok_join: "easy_ok app \<Longrightarrow> easy_ok (easy_join s room app)"
  by (simp add: easy_join_def) (simp add: easy_ok_def hub_ok_join)

lemma easy_ok_release: "easy_ok app \<Longrightarrow> easy_ok (release_id i app)"
  by (auto simp: release_id_def Let_def split: option.split) (simp add: easy_ok_def hub_ok_leave_all pm_laws)

lemma easy_ok_adopt: "easy_ok app \<Longrightarrow> easy_ok (fst (adopt txt cls s a (app, heap)))"
  by (simp add: adopt_def) (simp add: easy_ok_def pm_laws)

lemma release_forgets:
  assumes "easy_ok app" "kv_get (=) (ea_live app) i = Some s"
  shows "kv_get (=) (ea_live (release_id i app)) j = (if i = j then None else kv_get (=) (ea_live app) j)"
    "hub_members room (ea_hub (release_id i app)) = filter (\<lambda>c. c \<noteq> cs_chan (ea_states app s)) (hub_members room (ea_hub app))"
    "cs_handlers (ea_states (release_id i app) s) = []" "cs_closers (ea_states (release_id i app) s) = []"
  using assms by (simp_all add: release_id_def Let_def upd_state_def easy_ok_def pm_laws members_leave_all)

lemma release_idempotent:
  "easy_ok app \<Longrightarrow> release_id i (release_id i app) = release_id i app"
proof (cases "kv_get (=) (ea_live app) i")
  case None
  then show ?thesis by (simp add: release_id_def)
next
  case (Some s)
  assume "easy_ok app"
  from release_forgets(1) [OF this Some, of i] have "kv_get (=) (ea_live (release_id i app)) i = None" by simp
  then show ?thesis by (simp add: release_id_def [of i "release_id i app"])
qed

end
