(* ===== verification/Sse.thy ===== *)
theory Sse
  imports Messages
begin

text \<open>
  Server-sent events: \<open>src/sse.cpp\<close> and the session state of \<open>detail/sse_impl.h\<close>. The
  receiving side is an event-stream reader written from the HTML standard (line feeds only);
  the lemmas show that it recovers exactly the messages that were sent.
\<close>

section \<open>Sessions\<close>

text \<open>\<open>ss_notify\<close>: a notifier is installed; \<open>ss_wakeups\<close> counts its calls.\<close>

record sse_session =
  ss_pending :: string
  ss_closed :: bool
  ss_close_requested :: bool
  ss_notify :: bool
  ss_wakeups :: nat

definition new_sse :: sse_session where
  "new_sse = \<lparr>ss_pending = [], ss_closed = False, ss_close_requested = False, ss_notify = False, ss_wakeups = 0\<rparr>"

definition sse_enqueue :: "string \<Rightarrow> sse_session \<Rightarrow> sse_session \<times> bool" where
  "sse_enqueue bytes s =
     (if ss_closed s then (s, False)
      else (s\<lparr>ss_pending := ss_pending s @ bytes,
              ss_wakeups := ss_wakeups s + (if ss_notify s then 1 else 0)\<rparr>, True))"

text \<open>The loop cuts at every line feed.\<close>

definition data_lines :: "string \<Rightarrow> string" where
  "data_lines data = concat (map (\<lambda>l. ''data: '' @ l @ [LF]) (Utils.fields LF data))"

definition sse_send :: "string \<Rightarrow> sse_session \<Rightarrow> sse_session \<times> bool" where
  "sse_send data = sse_enqueue (data_lines data @ [LF])"

definition event_bytes :: "string \<Rightarrow> string \<Rightarrow> string \<Rightarrow> string" where
  "event_bytes event data ident =
     (if ident \<noteq> [] then ''id: '' @ ident @ [LF] else [])
     @ (if event \<noteq> [] then ''event: '' @ event @ [LF] else [])
     @ data_lines data @ [LF]"

definition sse_send_event :: "string \<Rightarrow> string \<Rightarrow> string \<Rightarrow> sse_session \<Rightarrow> sse_session \<times> bool" where
  "sse_send_event event data ident = sse_enqueue (event_bytes event data ident)"

definition sse_comment :: "string \<Rightarrow> sse_session \<Rightarrow> sse_session \<times> bool" where
  "sse_comment txt = sse_enqueue ('': '' @ txt @ [LF, LF])"

definition sse_close :: "sse_session \<Rightarrow> sse_session" where
  "sse_close s =
     (if ss_closed s then s
      else s\<lparr>ss_close_requested := True, ss_wakeups := ss_wakeups s + (if ss_notify s then 1 else 0)\<rparr>)"

definition sse_alive :: "sse_session \<Rightarrow> bool" where
  "sse_alive s \<longleftrightarrow> \<not> ss_closed s"

text \<open>The new session's address \<open>a\<close> is the allocator's.\<close>

definition sse_upgrade :: "nat \<Rightarrow> response \<Rightarrow> (nat \<Rightarrow> sse_session) \<Rightarrow> response \<times> (nat \<Rightarrow> sse_session)" where
  "sse_upgrade a rs heap =
     (let rs = res_status OK rs;
          rs = res_set_header H_ContentType ''text/event-stream'' rs;
          rs = res_set_header ''Cache-Control'' ''no-cache'' rs;
          rs = res_set_header ''X-Accel-Buffering'' ''no'' rs
      in (mark_stream a rs, heap(a := new_sse)))"

section \<open>A reader of event streams\<close>

text \<open>The state of the standard's algorithm: data buffer, event type, last event id; an event is
  (type, data, last id).\<close>

type_synonym reader = "string \<times> string \<times> string"

definition field_value :: "string \<Rightarrow> string" where
  "field_value v = (if v \<noteq> [] \<and> hd v = SP then drop 1 v else v)"

definition read_line :: "string \<Rightarrow> reader \<times> (string \<times> string \<times> string) list \<Rightarrow> reader \<times> (string \<times> string \<times> string) list" where
  "read_line l st =
     (case st of ((buf, ty, ident), evs) \<Rightarrow>
        if l = [] then
          (([], [], ident), if buf = [] then evs else evs @ [(ty, butlast buf, ident)])
        else (case find_char CHR '':'' l of
                None \<Rightarrow>
                  (if l = ''data'' then ((buf @ [LF], ty, ident), evs)
                   else if l = ''event'' then ((buf, [], ident), evs)
                   else if l = ''id'' then ((buf, ty, []), evs) else st)
              | Some 0 \<Rightarrow> st
              | Some n \<Rightarrow>
                  (let name = take n l; v = field_value (drop (Suc n) l)
                   in if name = ''data'' then ((buf @ v @ [LF], ty, ident), evs)
                      else if name = ''event'' then ((buf, v, ident), evs)
                      else if name = ''id'' then ((buf, ty, v), evs) else st)))"

text \<open>Complete lines only: what follows the last line feed is still incomplete.\<close>

definition read_stream :: "string \<Rightarrow> reader \<times> (string \<times> string \<times> string) list \<Rightarrow> reader \<times> (string \<times> string \<times> string) list" where
  "read_stream s st = fold read_line (butlast (Utils.fields LF s)) st"

lemma read_stream_line:
  "LF \<notin> set l \<Longrightarrow> read_stream (l @ LF # s) st = read_stream s (read_line l st)"
  by (simp add: read_stream_def fields_append_sep)

lemma read_stream_Nil [simp]: "read_stream [] st = st"
  by (simp add: read_stream_def)

lemma line_colon: "n = length name \<Longrightarrow> CHR '':'' \<notin> set name \<Longrightarrow> find_char CHR '':'' (name @ CHR '':'' # v) = Some n"
  by (simp add: find_char_append_hit)

lemma read_line_fields:
  "read_line (''data: '' @ v) ((buf, ty, ident), evs) = ((buf @ v @ [LF], ty, ident), evs)"
  "read_line (''event: '' @ v) ((buf, ty, ident), evs) = ((buf, v, ident), evs)"
  "read_line (''id: '' @ v) ((buf, ty, ident), evs) = ((buf, ty, v), evs)"
  "read_line ('': '' @ v) st = st"
  "read_line [] ((buf, ty, ident), evs) = (([], [], ident), if buf = [] then evs else evs @ [(ty, butlast buf, ident)])"
  by (simp_all add: read_line_def field_value_def split: prod.split)

lemma read_prefixed:
  "LF \<notin> set v \<Longrightarrow> read_stream (''data: '' @ v @ LF # s) ((buf, ty, ident), evs) = read_stream s ((buf @ v @ [LF], ty, ident), evs)"
  "LF \<notin> set v \<Longrightarrow> read_stream (''event: '' @ v @ LF # s) ((buf, ty, ident), evs) = read_stream s ((buf, v, ident), evs)"
  "LF \<notin> set v \<Longrightarrow> read_stream (''id: '' @ v @ LF # s) ((buf, ty, ident), evs) = read_stream s ((buf, ty, v), evs)"
  "LF \<notin> set v \<Longrightarrow> read_stream ('': '' @ v @ LF # s) st = read_stream s st"
  "read_stream (LF # s) ((buf, ty, ident), evs) =
     read_stream s (([], [], ident), if buf = [] then evs else evs @ [(ty, butlast buf, ident)])"
proof -
  have r: "LF \<notin> set (p @ v) \<Longrightarrow> read_stream (p @ v @ LF # s) st = read_stream s (read_line (p @ v) st)"
    for p v st using read_stream_line [of "p @ v" s st] by simp
  assume v: "LF \<notin> set v"
  show "read_stream (''data: '' @ v @ LF # s) ((buf, ty, ident), evs) = read_stream s ((buf @ v @ [LF], ty, ident), evs)"
    by (subst r) (use v in simp, simp only: read_line_fields)
  show "read_stream (''event: '' @ v @ LF # s) ((buf, ty, ident), evs) = read_stream s ((buf, v, ident), evs)"
    by (subst r) (use v in simp, simp only: read_line_fields)
  show "read_stream (''id: '' @ v @ LF # s) ((buf, ty, ident), evs) = read_stream s ((buf, ty, v), evs)"
    by (subst r) (use v in simp, simp only: read_line_fields)
  show "read_stream ('': '' @ v @ LF # s) st = read_stream s st"
    by (subst r) (use v in simp, simp only: read_line_fields)
next
  show "read_stream (LF # s) ((buf, ty, ident), evs) =
      read_stream s (([], [], ident), if buf = [] then evs else evs @ [(ty, butlast buf, ident)])"
    using read_stream_line [of "[]" s "((buf, ty, ident), evs)"] by (simp only: read_line_fields) simp
qed

lemmas read_prefixed_simps = read_prefixed [simplified]

lemma read_data_lines:
  "\<forall>l \<in> set ls. LF \<notin> set l \<Longrightarrow>
   read_stream (concat (map (\<lambda>l. ''data: '' @ l @ [LF]) ls) @ s) ((buf, ty, ident), evs) =
   read_stream s ((buf @ concat (map (\<lambda>l. l @ [LF]) ls), ty, ident), evs)"
  by (induction ls arbitrary: buf) (simp_all add: read_prefixed_simps)

lemma lines_of_fields: "concat (map (\<lambda>l. l @ [c]) (Utils.fields c s)) = s @ [c]"
proof (induction s)
  case (Cons x s)
  then show ?case by (cases "Utils.fields c s") auto
qed simp

lemma read_data:
  "read_stream (data_lines data @ LF # s) (([], ty, ident), evs) =
   read_stream s (([], [], ident), evs @ [(ty, data, ident)])"
  unfolding data_lines_def
  by (subst read_data_lines) (auto simp: lines_of_fields read_prefixed_simps dest: fields_pieces)

lemma read_event:
  "LF \<notin> set event \<Longrightarrow> LF \<notin> set i \<Longrightarrow>
   read_stream (event_bytes event data i @ s) (([], [], lid), evs) =
   read_stream s (([], [], if i = [] then lid else i), evs @ [(event, data, if i = [] then lid else i)])"
  by (simp add: event_bytes_def read_prefixed_simps read_data)

section \<open>What arrives\<close>

datatype sse_op = SseSend string | SseEvent string string string | SseComment string

fun run_sse :: "sse_op \<Rightarrow> sse_session \<Rightarrow> sse_session" where
  "run_sse (SseSend d) s = fst (sse_send d s)"
| "run_sse (SseEvent e d i) s = fst (sse_send_event e d i s)"
| "run_sse (SseComment t) s = fst (sse_comment t s)"

text \<open>The events a reader must see, given the last id seen.\<close>

fun expected_events :: "string \<Rightarrow> sse_op list \<Rightarrow> (string \<times> string \<times> string) list" where
  "expected_events lid [] = []"
| "expected_events lid (SseSend d # ops) = ([], d, lid) # expected_events lid ops"
| "expected_events lid (SseEvent e d i # ops) =
     (e, d, if i = [] then lid else i) # expected_events (if i = [] then lid else i) ops"
| "expected_events lid (SseComment t # ops) = expected_events lid ops"

fun sse_op_ok :: "sse_op \<Rightarrow> bool" where
  "sse_op_ok (SseSend d) = True"
| "sse_op_ok (SseEvent e d i) = (LF \<notin> set e \<and> LF \<notin> set i)"
| "sse_op_ok (SseComment t) = (LF \<notin> set t)"

fun sse_bytes :: "sse_op \<Rightarrow> string" where
  "sse_bytes (SseSend d) = data_lines d @ [LF]"
| "sse_bytes (SseEvent e d i) = event_bytes e d i"
| "sse_bytes (SseComment t) = '': '' @ t @ [LF, LF]"

lemma run_sse_pending:
  "\<not> ss_closed s \<Longrightarrow>
   ss_pending (fold run_sse ops s) = ss_pending s @ concat (map sse_bytes ops) \<and> \<not> ss_closed (fold run_sse ops s)"
proof (induction ops arbitrary: s)
  case (Cons op ops)
  then show ?case
    by (cases op) (simp_all add: sse_send_def sse_send_event_def sse_comment_def sse_enqueue_def)
qed simp

lemma read_ops:
  "list_all sse_op_ok ops \<Longrightarrow>
   snd (read_stream (concat (map sse_bytes ops)) (([], [], lid), evs)) = evs @ expected_events lid ops"
proof (induction lid ops arbitrary: evs rule: expected_events.induct)
  case (2 lid d ops)
  then show ?case by (simp add: read_data)
next
  case (3 lid e d i ops)
  then show ?case by (simp add: read_event)
next
  case (4 lid t ops)
  then have "read_stream (sse_bytes (SseComment t) @ s) (([], [], lid), evs) = read_stream s (([], [], lid), evs)" for s
    by (simp add: read_prefixed_simps)
  with 4 show ?case by simp
qed simp

section \<open>Properties\<close>



text \<open>Names and ids are not sanitized: a line feed in an event's name smuggles in an event.\<close>

lemma event_name_injection:
  "snd (read_stream (event_bytes (''x'' @ [LF] @ ''data: forged'' @ [LF]) ''real'' []) (([], [], []), [])) =
     [(''x'', ''forged'', []), ([], ''real'', [])]"
  by code_simp

end
