(* ===== verification/Server.thy ===== *)
theory Server
  imports Respond RouterLaws PulseChannel Sse
begin

text \<open>
  A connection of \<open>src/server.cpp\<close>: reading, parsing, dispatching, writing, the adoption of
  event streams and Pulse channels, deadlines and closing. The state of a connection is the
  record \<open>conn\<close>; the objects it shares with the application (sessions, channels, the
  application's own state) are the record \<open>world\<close>. The kernel is seen through scripts: the
  outcomes of the write calls to come (\<open>cn_script\<close>, would-block when exhausted) and of the
  reads of an event. \<open>cn_wire\<close> records the bytes the kernel has taken. The application (the
  router), clock, zlib, file system and handler table are the record \<open>cfg\<close>.
\<close>

section \<open>State\<close>

datatype io = IoOk nat | IoWant | IoFail
datatype rd = RdOk string | RdWant | RdEnd
datatype phase = Handshake | HttpPhase | SsePhase | PulsePhase
datatype thrown = NoThrow | StdExn string | OtherExn

record conn =
  cn_in :: buffer
  cn_out :: string
  cn_out_off :: nat
  cn_parser :: parser
  cn_close_after :: bool
  cn_sent_100 :: bool
  cn_head_request :: bool
  cn_in_request :: bool
  cn_file :: "string option"
  cn_file_off :: nat
  cn_file_end :: nat
  cn_sse :: "nat option"
  cn_pulse :: "nat option"
  cn_token :: bool
  cn_registered_write :: bool
  cn_deadline :: "nat option"
  cn_phase :: phase
  cn_remote_ip :: string
  cn_alive :: bool
  cn_script :: "io list"
  cn_wire :: string

text \<open>A deadline of \<open>None\<close> is \<open>time_point::max()\<close>; \<open>cn_alive\<close> is membership in \<open>conns_\<close>; \<open>cn_file\<close>
  is the content of the open file.\<close>

record 'u world =
  wd_sse :: "nat \<Rightarrow> sse_session"
  wd_pulse :: "'u pworld"

record 'u st =
  st_world :: "'u world"
  st_conn :: conn

record 'u cfg =
  cf_app :: "request \<Rightarrow> 'u world \<Rightarrow> request \<times> response \<times> 'u world \<times> bool \<times> thrown"
  cf_handlers :: "'u handlers"
  cf_zlib :: zlib_api
  cf_date :: string
  cf_order :: "header_map \<Rightarrow> header_map"
  cf_compression :: comp_options
  cf_open :: "string \<Rightarrow> string option"
  cf_now :: nat
  cf_header_timeout :: nat
  cf_body_timeout :: nat
  cf_idle_timeout :: nat

text \<open>The application that the server runs: a router on a fresh response. A thrown
  \<open>std::exception\<close> is the only exception the router's model knows.\<close>

definition router_app :: "'u world router \<Rightarrow> request \<Rightarrow> 'u world \<Rightarrow> request \<times> response \<times> 'u world \<times> bool \<times> thrown" where
  "router_app ro rq w =
     (case dispatch ro \<lparr>cx_req = rq, cx_res = new_response, cx_ext = w\<rparr> of
        (handled, x, e) \<Rightarrow>
          (cx_req x, cx_res x, cx_ext x, handled, (case e of None \<Rightarrow> NoThrow | Some m \<Rightarrow> StdExn m)))"

definition upd_conn :: "(conn \<Rightarrow> conn) \<Rightarrow> 'u st \<Rightarrow> 'u st" where
  "upd_conn f s = s\<lparr>st_conn := f (st_conn s)\<rparr>"

definition new_conn :: "nat \<Rightarrow> nat \<Rightarrow> string \<Rightarrow> nat \<Rightarrow> conn" where
  "new_conn max_header max_body ip deadline =
     \<lparr>cn_in = new_buffer, cn_out = [], cn_out_off = 0,
      cn_parser = set_limits max_header max_body new_parser,
      cn_close_after = False, cn_sent_100 = False, cn_head_request = False, cn_in_request = False,
      cn_file = None, cn_file_off = 0, cn_file_end = 0, cn_sse = None, cn_pulse = None,
      cn_token = False, cn_registered_write = False, cn_deadline = Some deadline,
      cn_phase = HttpPhase, cn_remote_ip = ip, cn_alive = True, cn_script = [], cn_wire = []\<rparr>"

text \<open>\<open>accept_new_\<close> for one accepted socket; a TLS connection starts with its handshake.\<close>

definition accept_conn :: "nat \<Rightarrow> nat \<Rightarrow> string \<Rightarrow> bool \<Rightarrow> 'u cfg \<Rightarrow> conn" where
  "accept_conn max_header max_body ip tls cfg =
     (let c = new_conn max_header max_body ip (cf_now cfg + cf_idle_timeout cfg)
      in if tls then c\<lparr>cn_phase := Handshake\<rparr> else c)"

definition has_pending_output :: "conn \<Rightarrow> bool" where
  "has_pending_output c \<longleftrightarrow>
     cn_out_off c < length (cn_out c) \<or> (cn_file c \<noteq> None \<and> cn_file_off c < cn_file_end c)"

definition unsent :: "conn \<Rightarrow> string" where
  "unsent c = drop (cn_out_off c) (cn_out c)"

definition update_interest :: "conn \<Rightarrow> conn" where
  "update_interest c =
     (if has_pending_output c \<noteq> cn_registered_write c
      then c\<lparr>cn_registered_write := has_pending_output c\<rparr> else c)"

section \<open>Closing\<close>

definition release_sse :: "'u st \<Rightarrow> 'u st" where
  "release_sse s =
     (case cn_sse (st_conn s) of None \<Rightarrow> s
      | Some a \<Rightarrow> (let w = st_world s; h = wd_sse w
                  in s\<lparr>st_world := w\<lparr>wd_sse := h(a := (h a)\<lparr>ss_closed := True, ss_notify := False, ss_pending := []\<rparr>)\<rparr>\<rparr>))"

definition upd_pulse :: "('u pworld \<Rightarrow> 'u pworld) \<Rightarrow> 'u st \<Rightarrow> 'u st" where
  "upd_pulse f s = s\<lparr>st_world := (st_world s)\<lparr>wd_pulse := f (wd_pulse (st_world s))\<rparr>\<rparr>"

definition release_pulse :: "'u cfg \<Rightarrow> 'u st \<Rightarrow> 'u st" where
  "release_pulse cfg s =
     (case cn_pulse (st_conn s) of None \<Rightarrow> s
      | Some a \<Rightarrow>
          upd_pulse (\<lambda>w. fire_close (cf_handlers cfg) a Abnormal []
             (upd_chan a (\<lambda>c. c\<lparr>ch_closed := True, ch_notify := False, ch_pending := []\<rparr>) w)) s)"

definition close_conn :: "'u cfg \<Rightarrow> 'u st \<Rightarrow> 'u st" where
  "close_conn cfg s =
     upd_conn (\<lambda>c. c\<lparr>cn_token := False, cn_alive := False\<rparr>) (release_pulse cfg (release_sse s))"

section \<open>Writing\<close>

datatype io_end = Done | Blocked | Failed | Eof

text \<open>The loops over \<open>Socket::write\<close>: bytes accepted until the data are gone or a call does not
  succeed.\<close>

fun write_loop :: "io list \<Rightarrow> string \<Rightarrow> io list \<times> nat \<times> io_end" where
  "write_loop script data =
     (if data = [] then (script, 0, Done)
      else case script of
             [] \<Rightarrow> ([], 0, Blocked)
           | IoWant # s \<Rightarrow> (s, 0, Blocked)
           | IoFail # s \<Rightarrow> (s, 0, Failed)
           | IoOk n # s \<Rightarrow>
               (let m = min n (length data)
                in case write_loop s (drop m data) of (s', k, e) \<Rightarrow> (s', m + k, e)))"

declare write_loop.simps [simp del]

definition drain :: "conn \<Rightarrow> conn \<times> io_end" where
  "drain c =
     (case write_loop (cn_script c) (unsent c) of
        (s, k, e) \<Rightarrow> (c\<lparr>cn_script := s, cn_wire := cn_wire c @ take k (unsent c), cn_out_off := cn_out_off c + k\<rparr>, e))"

text \<open>The loop over \<open>Socket::send_file\<close>: \<open>need\<close> bytes are due, \<open>data\<close> are left in the file.\<close>

fun file_loop :: "io list \<Rightarrow> nat \<Rightarrow> string \<Rightarrow> io list \<times> nat \<times> io_end" where
  "file_loop script need data =
     (if need = 0 then (script, 0, Done)
      else case script of
             [] \<Rightarrow> ([], 0, Blocked)
           | IoWant # s \<Rightarrow> (s, 0, Blocked)
           | IoFail # s \<Rightarrow> (s, 0, Failed)
           | IoOk n # s \<Rightarrow>
               (let m = min n (min need (length data))
                in if m = 0 then (s, 0, Eof)
                   else case file_loop s (need - m) (drop m data) of (s', k, e) \<Rightarrow> (s', m + k, e)))"

declare file_loop.simps [simp del]

definition send_file_step :: "conn \<Rightarrow> conn \<times> io_end" where
  "send_file_step c =
     (case cn_file c of None \<Rightarrow> (c, Done)
      | Some content \<Rightarrow>
          (case file_loop (cn_script c) (cn_file_end c - cn_file_off c) (drop (cn_file_off c) content) of
             (s, k, e) \<Rightarrow> (c\<lparr>cn_script := s, cn_wire := cn_wire c @ take k (drop (cn_file_off c) content),
                            cn_file_off := cn_file_off c + k\<rparr>, e)))"

text \<open>What \<open>flush_sse_\<close> and \<open>flush_pulse_\<close> do with the pending bytes.\<close>

definition take_pending :: "string \<Rightarrow> conn \<Rightarrow> conn" where
  "take_pending pending c =
     (if pending = [] then c
      else if cn_out_off c = length (cn_out c) then c\<lparr>cn_out := pending, cn_out_off := 0\<rparr>
      else c\<lparr>cn_out := cn_out c @ pending\<rparr>)"

text \<open>Their common second half: drain, then close on request.\<close>

definition finish_flush :: "'u cfg \<Rightarrow> bool \<Rightarrow> 'u st \<Rightarrow> 'u st" where
  "finish_flush cfg close_requested s =
     (case drain (st_conn s) of
        (c, e) \<Rightarrow>
          if e = Blocked then s\<lparr>st_conn := update_interest c\<rparr>
          else if e \<noteq> Done then close_conn cfg (s\<lparr>st_conn := c\<rparr>)
          else let s = s\<lparr>st_conn := c\<lparr>cn_out := [], cn_out_off := 0\<rparr>\<rparr>
               in if close_requested then close_conn cfg s else upd_conn update_interest s)"

definition flush_sse :: "'u cfg \<Rightarrow> 'u st \<Rightarrow> 'u st" where
  "flush_sse cfg s =
     (case cn_sse (st_conn s) of None \<Rightarrow> s
      | Some a \<Rightarrow>
          (let w = st_world s; x = wd_sse w a;
               s = s\<lparr>st_world := w\<lparr>wd_sse := (wd_sse w)(a := x\<lparr>ss_pending := []\<rparr>)\<rparr>,
                     st_conn := take_pending (ss_pending x) (st_conn s)\<rparr>
           in finish_flush cfg (ss_close_requested x) s))"

definition flush_pulse :: "'u cfg \<Rightarrow> 'u st \<Rightarrow> 'u st" where
  "flush_pulse cfg s =
     (case cn_pulse (st_conn s) of None \<Rightarrow> s
      | Some a \<Rightarrow>
          (let x = pw_chans (wd_pulse (st_world s)) a;
               s = upd_pulse (upd_chan a (\<lambda>c. c\<lparr>ch_pending := []\<rparr>)) s;
               s = upd_conn (take_pending (ch_pending x)) s
           in finish_flush cfg (ch_close_requested x) s))"

section \<open>Adoption\<close>

definition adopt_sse :: "'u cfg \<Rightarrow> nat \<Rightarrow> 'u st \<Rightarrow> 'u st" where
  "adopt_sse cfg a s =
     (let w = st_world s; h = wd_sse w
      in flush_sse cfg
           (upd_conn (\<lambda>c. c\<lparr>cn_phase := SsePhase, cn_sse := Some a, cn_close_after := True,
                            cn_token := True, cn_deadline := None\<rparr>)
             (s\<lparr>st_world := w\<lparr>wd_sse := h(a := (h a)\<lparr>ss_notify := True\<rparr>)\<rparr>\<rparr>)))"

definition adopt_pulse :: "'u cfg \<Rightarrow> nat \<Rightarrow> 'u st \<Rightarrow> 'u st" where
  "adopt_pulse cfg a s =
     (let s = upd_conn (\<lambda>c. c\<lparr>cn_phase := PulsePhase, cn_pulse := Some a, cn_close_after := True,
                               cn_token := True, cn_deadline := None\<rparr>) s;
          s = upd_pulse (upd_chan a (\<lambda>c. c\<lparr>ch_notify := True\<rparr>)) s
      in if buf_empty (cn_in (st_conn s)) then s
         else let chunk = buf_view (cn_in (st_conn s));
                  s = upd_conn (\<lambda>c. c\<lparr>cn_in := buf_clear (cn_in c)\<rparr>) s;
                  (w, ok) = pulse_feed (cf_handlers cfg) a chunk (wd_pulse (st_world s));
                  s = upd_pulse (\<lambda>_. w) s
              in if ok then s else upd_pulse (upd_chan a (\<lambda>c. c\<lparr>ch_close_requested := True\<rparr>)) s)"

section \<open>Requests\<close>

definition emit :: "'u cfg \<Rightarrow> request \<Rightarrow> response \<Rightarrow> bool \<Rightarrow> bool \<Rightarrow> conn \<Rightarrow> conn" where
  "emit cfg rq rs head_request close_connection c =
     c\<lparr>cn_out := cn_out c @ fst (serialize_response (cf_zlib cfg) (cf_date cfg) (cf_order cfg)
                                 (cf_compression cfg) rq rs head_request close_connection)\<rparr>"

definition error_response :: "status \<Rightarrow> string \<Rightarrow> response" where
  "error_response stat msg =
     snd (res_send (reason stat @ (if msg \<noteq> [] then '': '' @ msg else []) @ [LF]) text_plain
            (res_status stat new_response))"

definition queue_error_response :: "'u cfg \<Rightarrow> status \<Rightarrow> string \<Rightarrow> conn \<Rightarrow> conn" where
  "queue_error_response cfg stat msg c =
     emit cfg empty_request (error_response stat msg) False True (c\<lparr>cn_close_after := True\<rparr>)"

text \<open>The request object built from a complete message; \<open>None\<close> when the path does not decode.\<close>

definition build_request :: "string \<Rightarrow> parser \<Rightarrow> request option" where
  "build_request ip p =
     (case url_decode False (p_path p) of
        None \<Rightarrow> None
      | Some path \<Rightarrow>
          if NUL \<in> set path then None
          else let cookie = find_header (p_headers p) ''Cookie''
               in Some \<lparr>rq_method = p_method p, rq_path = path, rq_target = p_target p,
                    rq_version = p_version p, rq_remote_ip = ip, rq_headers = p_headers p,
                    rq_query = parse_query_string (p_query p) [], rq_params = [],
                    rq_cookies = (if cookie \<noteq> [] then parse_cookie_header cookie [] else []),
                    rq_body = p_body_storage p, rq_locals = []\<rparr>)"

text \<open>The \<open>try\<close> block and what follows: the response the application is taken to have made.\<close>

definition settle_response :: "response \<Rightarrow> bool \<Rightarrow> thrown \<Rightarrow> response" where
  "settle_response rs handled thr =
     (case thr of
        StdExn m \<Rightarrow> snd (res_send (''Internal Server Error: '' @ m @ [LF]) text_plain
                           (res_status InternalServerError new_response))
      | OtherExn \<Rightarrow> snd (res_send (''Internal Server Error'' @ [LF]) text_plain
                           (res_status InternalServerError new_response))
      | NoThrow \<Rightarrow>
          if \<not> handled then snd (res_send (''Not Found'' @ [LF]) text_plain (res_status NotFound rs))
          else if \<not> rs_ended rs then
            res_end (if rs_status rs = 0 then res_status OK rs else rs)
          else rs)"

definition open_file :: "'u cfg \<Rightarrow> response \<Rightarrow> conn \<Rightarrow> conn" where
  "open_file cfg rs c =
     (if rs_kind rs = File \<and> \<not> cn_head_request c \<and> rs_file_length rs > 0 then
        (case cf_open cfg (rs_file_path rs) of
           Some content \<Rightarrow> c\<lparr>cn_file := Some content, cn_file_off := rs_file_offset rs,
                            cn_file_end := u64_add (rs_file_offset rs) (rs_file_length rs)\<rparr>
         | None \<Rightarrow> c\<lparr>cn_close_after := True\<rparr>)
      else c)"

definition handle_request :: "'u cfg \<Rightarrow> 'u st \<Rightarrow> 'u st" where
  "handle_request cfg s =
     (let c = st_conn s
      in case build_request (cn_remote_ip c) (cn_parser c) of
           None \<Rightarrow> upd_conn (queue_error_response cfg BadRequest ''Malformed percent-encoding in path'') s
         | Some rq0 \<Rightarrow>
             (let c = c\<lparr>cn_parser := snd (take_body (cn_parser c)), cn_head_request := (rq_method rq0 = HEAD)\<rparr>;
                  (rq, rs, w, handled, thr) = cf_app cfg rq0 (st_world s);
                  rs = settle_response rs handled thr;
                  s = s\<lparr>st_world := w, st_conn := c\<rparr>
              in if rs_kind rs = Stream then
                   (case rs_stream rs of None \<Rightarrow> s
                    | Some a \<Rightarrow> adopt_sse cfg a (upd_conn (emit cfg rq rs (cn_head_request c) True) s))
                 else if rs_kind rs = PulseUpgrade then
                   (case rs_stream rs of None \<Rightarrow> s
                    | Some a \<Rightarrow> adopt_pulse cfg a (upd_conn (emit cfg rq rs (cn_head_request c) True) s))
                 else
                   (let close_it = wants_close rq rs;
                        s = upd_conn (\<lambda>c. if close_it then c\<lparr>cn_close_after := True\<rparr> else c) s;
                        s = upd_conn (emit cfg rq rs (cn_head_request c) close_it) s
                    in upd_conn (open_file cfg rs) s)))"

section \<open>Input\<close>

definition set_deadline :: "'u cfg \<Rightarrow> conn \<Rightarrow> conn" where
  "set_deadline cfg c =
     (if cn_phase c = SsePhase \<or> cn_phase c = PulsePhase then c\<lparr>cn_deadline := None\<rparr>
      else if \<not> cn_in_request c then c\<lparr>cn_deadline := Some (cf_now cfg + cf_idle_timeout cfg)\<rparr>
      else if p_state (cn_parser c) \<in> {Body, ChunkSize, ChunkData, ChunkDataEnd, ChunkTrailer}
           then c\<lparr>cn_deadline := Some (cf_now cfg + cf_body_timeout cfg)\<rparr>
      else c\<lparr>cn_deadline := Some (cf_now cfg + cf_header_timeout cfg)\<rparr>)"

definition consume_input :: "conn \<Rightarrow> conn" where
  "consume_input c =
     (if buf_empty (cn_in c) then c
      else case consume_request (cn_parser c) (buf_view (cn_in c)) of
             (used, p) \<Rightarrow> c\<lparr>cn_parser := p, cn_in := buf_consume used (cn_in c),
                            cn_in_request := (cn_in_request c \<or> used > 0)\<rparr>)"

definition continue_100 :: "conn \<Rightarrow> conn" where
  "continue_100 c =
     (if \<not> cn_sent_100 c \<and> p_state (cn_parser c) \<in> {Body, ChunkSize} then
        (let c = (if iequal_ascii (find_header (p_headers (cn_parser c)) ''Expect'') ''100-continue''
                  then c\<lparr>cn_out := cn_out c @ ''HTTP/1.1 100 Continue'' @ CRLF @ CRLF\<rparr> else c)
         in c\<lparr>cn_sent_100 := True\<rparr>)
      else c)"

definition end_request :: "conn \<Rightarrow> conn" where
  "end_request c = c\<lparr>cn_parser := parser_reset (cn_parser c), cn_sent_100 := False, cn_in_request := False\<rparr>"

text \<open>The loop of \<open>process_input_\<close>. Every round but the last takes a request out of the input
  buffer, so its length bounds the number of rounds.\<close>

fun input_loop :: "nat \<Rightarrow> 'u cfg \<Rightarrow> 'u st \<Rightarrow> 'u st" where
  "input_loop fuel cfg s =
     (let s = upd_conn consume_input s; p = cn_parser (st_conn s)
      in if p_state p = Error then
           upd_conn (queue_error_response cfg (p_err_status p) (p_err_msg p)) s
         else let s = upd_conn continue_100 s
              in if p_state p \<noteq> Complete then s
                 else let s = handle_request cfg s
                      in if \<not> cn_alive (st_conn s) then s
                         else let s = upd_conn end_request s; c = st_conn s
                              in if cn_close_after c \<or> cn_phase c = SsePhase \<or> cn_phase c = PulsePhase then s
                                 else if cn_file c \<noteq> None \<and> cn_file_off c < cn_file_end c then s
                                 else if buf_empty (cn_in c) then s
                                 else (case fuel of 0 \<Rightarrow> s | Suc f \<Rightarrow> input_loop f cfg s))"

declare input_loop.simps [simp del]

text \<open>\<open>flush_output_\<close> up to the point where it may go back to the input; the flag says that it
  does.\<close>

definition flush_step :: "'u cfg \<Rightarrow> 'u st \<Rightarrow> 'u st \<times> bool" where
  "flush_step cfg s =
     (case drain (st_conn s) of
        (c, e) \<Rightarrow>
          if e = Blocked then (s\<lparr>st_conn := update_interest c\<rparr>, False)
          else if e \<noteq> Done then (close_conn cfg (s\<lparr>st_conn := c\<rparr>), False)
          else
            (let c = (if cn_out_off c > 0 then c\<lparr>cn_out := [], cn_out_off := 0\<rparr> else c)
             in case send_file_step c of
                  (c, e) \<Rightarrow>
                    if e = Blocked then (s\<lparr>st_conn := update_interest c\<rparr>, False)
                    else if e = Failed then (close_conn cfg (s\<lparr>st_conn := c\<rparr>), False)
                    else
                      (let c = (if cn_file c \<noteq> None \<and> cn_file_off c \<ge> cn_file_end c
                                then c\<lparr>cn_file := None, cn_file_off := 0, cn_file_end := 0\<rparr> else c);
                           s = s\<lparr>st_conn := c\<rparr>
                       in if cn_phase c = SsePhase then (flush_sse cfg s, False)
                          else if cn_phase c = PulsePhase then (flush_pulse cfg s, False)
                          else if cn_close_after c then (close_conn cfg s, False)
                          else (upd_conn (\<lambda>c. update_interest (set_deadline cfg c)) s,
                                \<not> buf_empty (cn_in c)))))"

text \<open>The mutual recursion of \<open>process_input_\<close> and \<open>flush_output_\<close>, entered at either.\<close>

definition process_http :: "'u cfg \<Rightarrow> 'u st \<Rightarrow> 'u st" where
  "process_http cfg s =
     (let s = input_loop (buf_size (cn_in (st_conn s))) cfg s
      in if cn_alive (st_conn s) then upd_conn (set_deadline cfg) s else s)"

definition process_stream_input :: "'u cfg \<Rightarrow> 'u st \<Rightarrow> 'u st" where
  "process_stream_input cfg s =
     (if cn_phase (st_conn s) = SsePhase then upd_conn (\<lambda>c. c\<lparr>cn_in := buf_clear (cn_in c)\<rparr>) s
      else case cn_pulse (st_conn s) of
             None \<Rightarrow> s
           | Some a \<Rightarrow>
               (if buf_empty (cn_in (st_conn s)) then s
                else let chunk = buf_view (cn_in (st_conn s));
                         s = upd_conn (\<lambda>c. c\<lparr>cn_in := buf_clear (cn_in c)\<rparr>) s;
                         (w, ok) = pulse_feed (cf_handlers cfg) a chunk (wd_pulse (st_world s));
                         s = upd_pulse (\<lambda>_. w) s
                     in if ok then flush_pulse cfg s else close_conn cfg s))"

fun flush_output :: "nat \<Rightarrow> 'u cfg \<Rightarrow> 'u st \<Rightarrow> 'u st" where
  "flush_output fuel cfg s =
     (case flush_step cfg s of
        (s, again) \<Rightarrow>
          if \<not> again then s
          else (case fuel of 0 \<Rightarrow> s
                | Suc f \<Rightarrow> (let s = process_http cfg s
                           in if cn_alive (st_conn s) then flush_output f cfg s else s)))"

declare flush_output.simps [simp del]

definition process_input :: "nat \<Rightarrow> 'u cfg \<Rightarrow> 'u st \<Rightarrow> 'u st" where
  "process_input fuel cfg s =
     (if cn_phase (st_conn s) = SsePhase \<or> cn_phase (st_conn s) = PulsePhase
      then process_stream_input cfg s
      else let s = process_http cfg s
           in if cn_alive (st_conn s) then flush_output fuel cfg s else s)"

fun read_loop :: "rd list \<Rightarrow> buffer \<Rightarrow> buffer \<times> bool \<times> bool" where
  "read_loop [] b = (b, False, False)"
| "read_loop (RdOk s # rs) b = (case read_loop rs (buf_append s b) of (b', got, ended) \<Rightarrow> (b', True, ended))"
| "read_loop (RdWant # rs) b = (b, False, False)"
| "read_loop (RdEnd # rs) b = (b, False, True)"

definition on_readable :: "nat \<Rightarrow> 'u cfg \<Rightarrow> rd list \<Rightarrow> 'u st \<Rightarrow> 'u st" where
  "on_readable fuel cfg reads s =
     (case read_loop reads (cn_in (st_conn s)) of
        (b, got, ended) \<Rightarrow>
          (let s = upd_conn (\<lambda>c. c\<lparr>cn_in := b\<rparr>) s; c = st_conn s
           in if ended \<and> (cn_phase c = SsePhase \<or> cn_phase c = PulsePhase \<or> \<not> has_pending_output c)
              then close_conn cfg s
              else let s = (if ended then upd_conn (\<lambda>c. c\<lparr>cn_close_after := True\<rparr>) s else s)
                   in if got then process_input fuel cfg s else s))"

section \<open>The event loop, for one connection\<close>

text \<open>\<open>EventLoop::wait\<close> turns epoll's bits into a \<open>LoopEvent\<close>; \<open>EPOLLRDHUP\<close> (the peer has shut
  down its writing side) counts as an error.\<close>

record epoll_bits =
  ep_in :: bool
  ep_out :: bool
  ep_err :: bool
  ep_hup :: bool
  ep_rdhup :: bool

record loop_event =
  le_readable :: bool
  le_writable :: bool
  le_error :: bool

definition loop_event_of :: "epoll_bits \<Rightarrow> loop_event" where
  "loop_event_of e = \<lparr>le_readable = ep_in e, le_writable = ep_out e,
                     le_error = (ep_err e \<or> ep_hup e \<or> ep_rdhup e)\<rparr>"

datatype hs_result = HsOk | HsWantRead | HsWantWrite | HsFail

text \<open>The body of the loop over the events in \<open>Worker::run\<close>; \<open>hs\<close> is what the TLS handshake
  would answer, \<open>reads\<close> what the reads would.\<close>

definition worker_event :: "nat \<Rightarrow> 'u cfg \<Rightarrow> loop_event \<Rightarrow> hs_result \<Rightarrow> rd list \<Rightarrow> 'u st \<Rightarrow> 'u st" where
  "worker_event fuel cfg ev hs reads s =
     (if \<not> cn_alive (st_conn s) then s
      else if le_error ev then close_conn cfg s
      else if cn_phase (st_conn s) = Handshake then
        (case hs of
           HsOk \<Rightarrow> upd_conn (\<lambda>c. update_interest (set_deadline cfg (c\<lparr>cn_phase := HttpPhase\<rparr>))) s
         | HsWantRead \<Rightarrow> s
         | HsWantWrite \<Rightarrow> s
         | HsFail \<Rightarrow> close_conn cfg s)
      else let s = (if le_writable ev \<and> has_pending_output (st_conn s) then flush_output fuel cfg s else s)
           in if \<not> cn_alive (st_conn s) then s
              else if le_readable ev then on_readable fuel cfg reads s else s)"

text \<open>The closures that the notifiers post: they run only while the connection's token lives.\<close>

definition posted_sse :: "'u cfg \<Rightarrow> 'u st \<Rightarrow> 'u st" where
  "posted_sse cfg s = (if cn_token (st_conn s) \<and> cn_alive (st_conn s) then flush_sse cfg s else s)"

definition posted_pulse :: "'u cfg \<Rightarrow> 'u st \<Rightarrow> 'u st" where
  "posted_pulse cfg s = (if cn_token (st_conn s) \<and> cn_alive (st_conn s) then flush_pulse cfg s else s)"

text \<open>\<open>sweep_deadlines_\<close> for one connection.\<close>

definition sweep :: "nat \<Rightarrow> 'u cfg \<Rightarrow> 'u st \<Rightarrow> 'u st" where
  "sweep fuel cfg s =
     (let c = st_conn s
      in if \<not> cn_alive c then s
         else case cn_deadline c of
           None \<Rightarrow> s
         | Some d \<Rightarrow>
             if d > cf_now cfg then s
             else if cn_in_request c \<and> cn_phase c = HttpPhase \<and> \<not> has_pending_output c then
               (let s = upd_conn (queue_error_response cfg RequestTimeout []) s;
                    s = flush_output fuel cfg s
                in if cn_alive (st_conn s)
                   then upd_conn (\<lambda>c. c\<lparr>cn_deadline := Some (cf_now cfg + cf_header_timeout cfg)\<rparr>) s
                   else s)
             else close_conn cfg s)"

end
