(* ===== verification/ServerLaws.thy ===== *)
theory ServerLaws
  imports Server
begin

text \<open>
  Laws of the connection: nothing written is lost or reordered, pipelined requests are answered
  in order, a broken request is answered once and closes, the invariant of the connection holds
  in every reachable state, closing releases what the connection shares with the application.
\<close>

section \<open>Writing\<close>

lemma write_loop_bound: "write_loop script data = (s, k, e) \<Longrightarrow> k \<le> length data \<and> (e = Done \<longleftrightarrow> k = length data \<and> e = Done)"
proof (induction script arbitrary: data s k e)
  case Nil
  then show ?case by (auto simp: write_loop.simps split: if_splits)
next
  case (Cons i script)
  show ?case
  proof (cases "data = []")
    case False
    show ?thesis
    proof (cases i)
      case (IoOk n)
      let ?m = "min n (length data)"
      obtain s' k' e' where r: "write_loop script (drop ?m data) = (s', k', e')" by (cases "write_loop script (drop ?m data)")
      with Cons.prems False IoOk have "k = ?m + k'" "e = e'" by (simp_all add: write_loop.simps)
      with Cons.IH [OF r] show ?thesis by auto
    qed (use Cons.prems False in \<open>auto simp: write_loop.simps\<close>)
  qed (use Cons.prems in \<open>auto simp: write_loop.simps\<close>)
qed

lemma write_loop_ok: "length data \<le> n \<Longrightarrow>
  write_loop (IoOk n # s) data = (if data = [] then IoOk n # s else s, length data, Done)"
  by (simp add: write_loop.simps [of "IoOk n # s"] write_loop.simps [of s])

definition out_ok :: "conn \<Rightarrow> bool" where
  "out_ok c \<longleftrightarrow> cn_out_off c \<le> length (cn_out c)"

text \<open>What the connection has written or will write.\<close>

definition stream :: "conn \<Rightarrow> string" where
  "stream c = cn_wire c @ unsent c"

lemma drain_stream:
  assumes "drain c = (c', e)"
  shows "stream c' = stream c" "out_ok c \<Longrightarrow> out_ok c'" "e = Done \<Longrightarrow> unsent c' = [] \<or> unsent c = []"
proof -
  obtain s k where r: "write_loop (cn_script c) (unsent c) = (s, k, e)"
    using assms by (auto simp: drain_def split: prod.splits)
  with assms have c': "c' = c\<lparr>cn_script := s, cn_wire := cn_wire c @ take k (unsent c), cn_out_off := cn_out_off c + k\<rparr>"
    by (simp add: drain_def)
  have k: "k \<le> length (unsent c)" using write_loop_bound [OF r] by simp
  have "unsent c' = drop k (unsent c)" by (simp add: c' unsent_def add.commute)
  then show "stream c' = stream c" by (simp add: stream_def c')
  show "out_ok c \<Longrightarrow> out_ok c'" using k by (simp add: out_ok_def c' unsent_def)
  show "unsent c' = [] \<or> unsent c = []" if "e = Done"
    using write_loop_bound [OF r] that \<open>unsent c' = drop k (unsent c)\<close>
    by (cases "unsent c = []") auto
qed

section \<open>One request\<close>

text \<open>\<open>m\<close> is a complete message for a parser with the limits of \<open>p\<close>, parsed into \<open>q\<close>.\<close>

definition parses :: "parser \<Rightarrow> string \<Rightarrow> parser \<Rightarrow> bool" where
  "parses p m q \<longleftrightarrow> consume_request (parser_reset p) m = (length m, q) \<and> p_state q = Complete"

lemma parses_append: "parses p m q \<Longrightarrow> consume_request (parser_reset p) (m @ rest) = (length m, q)"
proof -
  assume "parses p m q"
  then have r: "run_bytes (parser_reset p) m = (length m, q)" "parser_done q"
    by (simp_all add: parses_def consume_run_bytes new_parser_ok parser_done_def)
  then show ?thesis
    by (simp add: consume_run_bytes new_parser_ok run_bytes_append run_bytes_done apfst_def map_prod_def)
qed

lemma parses_nonempty: "parses p m q \<Longrightarrow> m \<noteq> []"
  by (rule notI) (simp add: parses_def consume_run_bytes new_parser_ok, auto simp: parser_reset_def)

lemma parses_same_limits: "parses p m q \<Longrightarrow> parser_reset (snd (take_body q)) = parser_reset p"
proof -
  assume "parses p m q"
  then have "q = snd (run_bytes (parser_reset p) m)"
    by (simp add: parses_def consume_run_bytes new_parser_ok)
  then have "p_max_body_bytes q = p_max_body_bytes p" "p_max_header_bytes q = p_max_header_bytes p"
    using run_bytes_max [of "parser_reset p" m] by (simp_all add: parser_reset_def)
  then show ?thesis by (cases p; cases q) (simp add: take_body_def parser_reset_def)
qed

text \<open>What the server must answer to a parsed request that keeps the connection: the bytes and the
  application's new world. \<open>None\<close> when the path is malformed, the response is not buffered or
  closes the connection.\<close>

definition serve_one :: "'u cfg \<Rightarrow> string \<Rightarrow> parser \<Rightarrow> 'u world \<Rightarrow> (string \<times> 'u world) option" where
  "serve_one cfg ip q w =
     (case build_request ip q of
        None \<Rightarrow> None
      | Some rq0 \<Rightarrow>
          (case cf_app cfg rq0 w of
             (rq, rs0, w', handled, thr) \<Rightarrow>
               (let rs = settle_response rs0 handled thr
                in if rs_kind rs = Buffered \<and> \<not> wants_close rq rs
                   then Some (fst (serialize_response (cf_zlib cfg) (cf_date cfg) (cf_order cfg)
                                     (cf_compression cfg) rq rs (rq_method rq0 = HEAD) False), w')
                   else None)))"

fun serve_all :: "'u cfg \<Rightarrow> string \<Rightarrow> parser list \<Rightarrow> 'u world \<Rightarrow> (string \<times> 'u world) option" where
  "serve_all cfg ip [] w = Some ([], w)"
| "serve_all cfg ip (q # qs) w =
     (case serve_one cfg ip q w of
        None \<Rightarrow> None
      | Some (out, w') \<Rightarrow> map_option (\<lambda>(outs, w''). (out @ outs, w'')) (serve_all cfg ip qs w'))"

text \<open>A connection between two requests.\<close>

definition between :: "conn \<Rightarrow> bool" where
  "between c \<longleftrightarrow> parser_reset (cn_parser c) = cn_parser c \<and> cn_phase c = HttpPhase \<and> \<not> cn_close_after c
     \<and> cn_alive c \<and> cn_file c = None \<and> buf_ok (cn_in c)"

lemma handle_request_serves:
  assumes "serve_one cfg (cn_remote_ip (st_conn s)) (cn_parser (st_conn s)) (st_world s) = Some (out, w')"
  shows "\<exists>h. handle_request cfg s = s\<lparr>st_world := w', st_conn := (st_conn s)\<lparr>
      cn_parser := snd (take_body (cn_parser (st_conn s))), cn_head_request := h, cn_out := cn_out (st_conn s) @ out\<rparr>\<rparr>"
proof -
  obtain rq0 where b: "build_request (cn_remote_ip (st_conn s)) (cn_parser (st_conn s)) = Some rq0"
    using assms by (auto simp: serve_one_def split: option.splits)
  obtain rq rs0 w1 handled thr where a: "cf_app cfg rq0 (st_world s) = (rq, rs0, w1, handled, thr)"
    by (cases "cf_app cfg rq0 (st_world s)")
  let ?rs = "settle_response rs0 handled thr"
  have k: "rs_kind ?rs = Buffered" "\<not> wants_close rq ?rs" "w1 = w'"
    "out = fst (serialize_response (cf_zlib cfg) (cf_date cfg) (cf_order cfg) (cf_compression cfg)
              rq ?rs (rq_method rq0 = HEAD) False)"
    using assms b a by (auto simp: serve_one_def Let_def split: if_splits)
  show ?thesis
    by (rule exI [of _ "rq_method rq0 = HEAD"])
      (simp add: handle_request_def b a k Let_def upd_conn_def emit_def open_file_def)
qed

text \<open>What the loop over the requests leaves alone.\<close>

definition kept :: "conn \<Rightarrow> conn \<Rightarrow> bool" where
  "kept c c' \<longleftrightarrow> cn_out_off c' = cn_out_off c \<and> cn_wire c' = cn_wire c \<and> cn_script c' = cn_script c
     \<and> cn_parser c' = cn_parser c \<and> cn_remote_ip c' = cn_remote_ip c \<and> cn_sse c' = cn_sse c
     \<and> cn_pulse c' = cn_pulse c"

lemma input_loop_round:
  assumes b: "between (st_conn s)" and v: "buf_view (cn_in (st_conn s)) = m @ rest"
    and p: "parses (cn_parser (st_conn s)) m q"
    and o: "serve_one cfg (cn_remote_ip (st_conn s)) q (st_world s) = Some (out, w')"
  shows "\<exists>s1. between (st_conn s1) \<and> st_world s1 = w' \<and> cn_out (st_conn s1) = cn_out (st_conn s) @ out \<and>
    buf_view (cn_in (st_conn s1)) = rest \<and> kept (st_conn s) (st_conn s1) \<and> \<not> cn_in_request (st_conn s1) \<and>
    input_loop fuel cfg s = (if rest = [] then s1 else case fuel of 0 \<Rightarrow> s1 | Suc f \<Rightarrow> input_loop f cfg s1)"
proof -
  let ?c = "st_conn s"
  have ne: "\<not> buf_empty (cn_in ?c)"
    using v parses_nonempty [OF p] by (cases "buf_size (cn_in ?c)") (auto simp: buf_empty_def buf_view_def)
  have used: "consume_request (cn_parser ?c) (m @ rest) = (length m, q)"
    using parses_append [OF p, of rest] b by (simp add: between_def)
  let ?c1 = "?c\<lparr>cn_parser := q, cn_in := buf_consume (length m) (cn_in ?c), cn_in_request := True\<rparr>"
  have c1: "consume_input ?c = ?c1" using ne v used parses_nonempty [OF p] by (simp add: consume_input_def)
  have st: "p_state q = Complete" using p by (simp add: parses_def)
  have c2: "continue_100 ?c1 = ?c1" using st by (simp add: continue_100_def)
  obtain h where h: "handle_request cfg (s\<lparr>st_conn := ?c1\<rparr>) = s\<lparr>st_world := w', st_conn := ?c1\<lparr>
      cn_parser := snd (take_body q), cn_head_request := h, cn_out := cn_out ?c @ out\<rparr>\<rparr>"
    using handle_request_serves [of cfg "s\<lparr>st_conn := ?c1\<rparr>" out w'] o by auto
  define s1 where "s1 = s\<lparr>st_world := w', st_conn := end_request (?c1\<lparr>
      cn_parser := snd (take_body q), cn_head_request := h, cn_out := cn_out ?c @ out\<rparr>)\<rparr>"
  have pr: "parser_reset (snd (take_body q)) = cn_parser ?c"
    using parses_same_limits [OF p] b by (simp add: between_def)
  have ok: "buf_ok (cn_in ?c)" using b by (simp add: between_def)
  have view: "buf_view (cn_in (st_conn s1)) = rest" "buf_ok (cn_in (st_conn s1))"
    using bufq.consume_view [OF ok, of "length m"] bufq.consume_ok [OF ok] v by (simp_all add: s1_def end_request_def)
  have "buf_empty (cn_in (st_conn s1)) \<longleftrightarrow> rest = []"
    using view by (auto simp: buf_empty_def buf_view_eq buf_size_def buf_ok_def)
  moreover have "upd_conn end_request (handle_request cfg (s\<lparr>st_conn := ?c1\<rparr>)) = s1"
    by (simp add: h s1_def upd_conn_def)
  moreover have "upd_conn continue_100 (upd_conn consume_input s) = s\<lparr>st_conn := ?c1\<rparr>"
    "upd_conn consume_input s = s\<lparr>st_conn := ?c1\<rparr>"
    by (simp_all add: upd_conn_def c1 c2)
  moreover have s1: "cn_alive (st_conn s1)" "\<not> cn_close_after (st_conn s1)" "cn_phase (st_conn s1) = HttpPhase"
    "cn_file (st_conn s1) = None"
    using b by (simp_all add: s1_def end_request_def between_def)
  moreover have "cn_alive (st_conn (handle_request cfg (s\<lparr>st_conn := ?c1\<rparr>)))"
    using b by (simp add: h between_def)
  ultimately have "input_loop fuel cfg s = (if rest = [] then s1 else case fuel of 0 \<Rightarrow> s1 | Suc f \<Rightarrow> input_loop f cfg s1)"
    using st by (subst input_loop.simps) (simp add: Let_def)
  moreover have "between (st_conn s1)" using s1 view b pr by (simp add: between_def s1_def end_request_def)
  moreover have "kept ?c (st_conn s1)" using pr by (simp add: kept_def s1_def end_request_def)
  moreover have "st_world s1 = w'" "cn_out (st_conn s1) = cn_out ?c @ out" "\<not> cn_in_request (st_conn s1)"
    by (simp_all add: s1_def end_request_def)
  ultimately show ?thesis using view(1) by blast
qed

lemma input_loop_serves:
  assumes "ms \<noteq> []" "length ms \<le> Suc fuel" "between (st_conn s)"
    "list_all2 (parses (cn_parser (st_conn s))) ms qs" "buf_view (cn_in (st_conn s)) = concat ms"
    "serve_all cfg (cn_remote_ip (st_conn s)) qs (st_world s) = Some (out, w')"
  shows "between (st_conn (input_loop fuel cfg s)) \<and> st_world (input_loop fuel cfg s) = w' \<and>
    cn_out (st_conn (input_loop fuel cfg s)) = cn_out (st_conn s) @ out \<and>
    buf_view (cn_in (st_conn (input_loop fuel cfg s))) = [] \<and>
    kept (st_conn s) (st_conn (input_loop fuel cfg s)) \<and> \<not> cn_in_request (st_conn (input_loop fuel cfg s))"
  using assms
proof (induction ms arbitrary: fuel s qs out)
  case (Cons m ms)
  obtain q qs' where qs: "qs = q # qs'" "parses (cn_parser (st_conn s)) m q"
    "list_all2 (parses (cn_parser (st_conn s))) ms qs'"
    using Cons.prems(4) by (auto simp: list_all2_Cons1)
  obtain o1 w1 o2 where o: "serve_one cfg (cn_remote_ip (st_conn s)) q (st_world s) = Some (o1, w1)"
    "serve_all cfg (cn_remote_ip (st_conn s)) qs' w1 = Some (o2, w')" "out = o1 @ o2"
    using Cons.prems(6) qs(1) by (auto split: option.splits prod.splits)
  obtain s1 where s1: "between (st_conn s1)" "st_world s1 = w1" "cn_out (st_conn s1) = cn_out (st_conn s) @ o1"
    "buf_view (cn_in (st_conn s1)) = concat ms" "kept (st_conn s) (st_conn s1)" "\<not> cn_in_request (st_conn s1)"
    "input_loop fuel cfg s = (if concat ms = [] then s1 else case fuel of 0 \<Rightarrow> s1 | Suc f \<Rightarrow> input_loop f cfg s1)"
    using input_loop_round [OF Cons.prems(3) _ qs(2) o(1), of "concat ms" fuel] Cons.prems(5) by auto
  show ?case
  proof (cases ms)
    case Nil
    with qs(3) o(2) have "o2 = []" "w1 = w'" by simp_all
    with s1 o(3) Nil show ?thesis by simp
  next
    case (Cons m' ms')
    have "concat ms \<noteq> []"
      using qs(3) parses_nonempty Cons by (auto simp: list_all2_Cons1)
    moreover obtain f where f: "fuel = Suc f" using Cons.prems(2) Cons by (cases fuel) auto
    ultimately have r: "input_loop fuel cfg s = input_loop f cfg s1"
      using s1(7) by (simp only: if_False nat.case)
    have k: "cn_parser (st_conn s1) = cn_parser (st_conn s)" "cn_remote_ip (st_conn s1) = cn_remote_ip (st_conn s)"
      using s1(5) by (simp_all add: kept_def)
    have "between (st_conn (input_loop f cfg s1)) \<and> st_world (input_loop f cfg s1) = w' \<and>
        cn_out (st_conn (input_loop f cfg s1)) = cn_out (st_conn s1) @ o2 \<and>
        buf_view (cn_in (st_conn (input_loop f cfg s1))) = [] \<and>
        kept (st_conn s1) (st_conn (input_loop f cfg s1)) \<and> \<not> cn_in_request (st_conn (input_loop f cfg s1))"
      by (rule Cons.IH) (use Cons Cons.prems f k s1 qs o in simp_all)
    with r s1 o(3) show ?thesis by (simp add: kept_def)
  qed
qed simp

section \<open>Flushing and reading\<close>

lemma set_deadline_fields [simp]:
  "cn_in (set_deadline cfg c) = cn_in c" "cn_out (set_deadline cfg c) = cn_out c"
  "cn_out_off (set_deadline cfg c) = cn_out_off c" "cn_parser (set_deadline cfg c) = cn_parser c"
  "cn_close_after (set_deadline cfg c) = cn_close_after c" "cn_file (set_deadline cfg c) = cn_file c"
  "cn_file_off (set_deadline cfg c) = cn_file_off c" "cn_file_end (set_deadline cfg c) = cn_file_end c"
  "cn_phase (set_deadline cfg c) = cn_phase c" "cn_alive (set_deadline cfg c) = cn_alive c"
  "cn_script (set_deadline cfg c) = cn_script c" "cn_wire (set_deadline cfg c) = cn_wire c"
  "cn_sse (set_deadline cfg c) = cn_sse c" "cn_pulse (set_deadline cfg c) = cn_pulse c"
  "cn_token (set_deadline cfg c) = cn_token c" "cn_in_request (set_deadline cfg c) = cn_in_request c"
  "cn_remote_ip (set_deadline cfg c) = cn_remote_ip c"
  by (simp_all add: set_deadline_def)

lemma update_interest_fields [simp]:
  "cn_in (update_interest c) = cn_in c" "cn_out (update_interest c) = cn_out c"
  "cn_out_off (update_interest c) = cn_out_off c" "cn_parser (update_interest c) = cn_parser c"
  "cn_close_after (update_interest c) = cn_close_after c" "cn_file (update_interest c) = cn_file c"
  "cn_file_off (update_interest c) = cn_file_off c" "cn_file_end (update_interest c) = cn_file_end c"
  "cn_phase (update_interest c) = cn_phase c" "cn_alive (update_interest c) = cn_alive c"
  "cn_script (update_interest c) = cn_script c" "cn_wire (update_interest c) = cn_wire c"
  "cn_sse (update_interest c) = cn_sse c" "cn_pulse (update_interest c) = cn_pulse c"
  "cn_token (update_interest c) = cn_token c" "cn_in_request (update_interest c) = cn_in_request c"
  "cn_deadline (update_interest c) = cn_deadline c" "cn_remote_ip (update_interest c) = cn_remote_ip c"
  by (simp_all add: update_interest_def)

lemma upd_conn_simps [simp]:
  "st_conn (upd_conn f s) = f (st_conn s)" "st_world (upd_conn f s) = st_world s"
  by (simp_all add: upd_conn_def)

lemma drain_ok:
  assumes "cn_script c = IoOk n # sc" "length (unsent c) \<le> n"
  shows "snd (drain c) = Done" "cn_wire (fst (drain c)) = cn_wire c @ unsent c"
    "fst (drain c) = c\<lparr>cn_script := (if unsent c = [] then IoOk n # sc else sc),
       cn_wire := cn_wire c @ unsent c, cn_out_off := cn_out_off c + length (unsent c)\<rparr>"
  using assms by (simp_all add: drain_def write_loop_ok)

text \<open>When the kernel takes everything, flushing a quiet connection writes what is queued.\<close>

lemma flush_output_quiet:
  assumes b: "between (st_conn s)" "out_ok (st_conn s)" "buf_view (cn_in (st_conn s)) = []"
    and k: "cn_script (st_conn s) = IoOk n # sc" "length (unsent (st_conn s)) \<le> n"
  shows "between (st_conn (flush_output fuel cfg s)) \<and> st_world (flush_output fuel cfg s) = st_world s \<and>
    cn_wire (st_conn (flush_output fuel cfg s)) = cn_wire (st_conn s) @ unsent (st_conn s) \<and>
    cn_out (st_conn (flush_output fuel cfg s)) = [] \<and> cn_out_off (st_conn (flush_output fuel cfg s)) = 0 \<and>
    buf_view (cn_in (st_conn (flush_output fuel cfg s))) = []"
proof -
  let ?c = "st_conn s"
  obtain c1 where d: "drain ?c = (c1, Done)" "c1 = ?c\<lparr>cn_script := (if unsent ?c = [] then IoOk n # sc else sc),
       cn_wire := cn_wire ?c @ unsent ?c, cn_out_off := cn_out_off ?c + length (unsent ?c)\<rparr>"
    using drain_ok [OF k] by (metis prod.collapse)
  define c2 where "c2 = (if cn_out_off c1 > 0 then c1\<lparr>cn_out := [], cn_out_off := 0\<rparr> else c1)"
  have c2: "cn_out c2 = []" "cn_out_off c2 = 0" "cn_wire c2 = cn_wire ?c @ unsent ?c" "between c2"
    "buf_view (cn_in c2) = []"
    using b d(2) by (auto simp: c2_def unsent_def out_ok_def between_def)
  have e: "buf_empty (cn_in c2)"
    using c2(4,5) by (auto simp: buf_empty_def buf_view_eq buf_size_def between_def buf_ok_def)
  have fs: "flush_step cfg s = (upd_conn (\<lambda>c. update_interest (set_deadline cfg c)) (s\<lparr>st_conn := c2\<rparr>), False)"
    using c2(4) e by (simp add: flush_step_def d(1) flip: c2_def) (simp add: send_file_step_def between_def Let_def)
  have "between (update_interest (set_deadline cfg c2))" using c2(4) by (simp add: between_def)
  moreover have "flush_output fuel cfg s = upd_conn (\<lambda>c. update_interest (set_deadline cfg c)) (s\<lparr>st_conn := c2\<rparr>)"
    using fs by (simp add: flush_output.simps [of fuel cfg s])
  ultimately show ?thesis using c2 by simp
qed

lemma read_loop_all: "read_loop (map RdOk ps) b = (fold buf_append ps b, ps \<noteq> [], False)"
  by (induction ps arbitrary: b) (simp_all split: prod.splits)

lemma length_messages: "list_all2 (parses p) ms qs \<Longrightarrow> length ms \<le> length (concat ms)"
proof (induction ms arbitrary: qs)
  case (Cons m ms)
  then obtain q qs' where "parses p m q" "list_all2 (parses p) ms qs'" by (auto simp: list_all2_Cons1)
  with Cons.IH parses_nonempty show ?case by (cases m) fastforce+
qed simp

lemma pipelined:
  assumes b: "between (st_conn s)" "cn_out (st_conn s) = []" "cn_out_off (st_conn s) = 0" "buf_view (cn_in (st_conn s)) = []"
    and m: "list_all2 (parses (cn_parser (st_conn s))) ms qs" "concat segs = concat ms" "ms \<noteq> []"
    and w: "serve_all cfg (cn_remote_ip (st_conn s)) qs (st_world s) = Some (out, w')"
    and k: "cn_script (st_conn s) = IoOk n # sc" "length out \<le> n"
  shows "between (st_conn (on_readable fuel cfg (map RdOk segs) s)) \<and>
    st_world (on_readable fuel cfg (map RdOk segs) s) = w' \<and>
    cn_wire (st_conn (on_readable fuel cfg (map RdOk segs) s)) = cn_wire (st_conn s) @ out \<and>
    cn_out (st_conn (on_readable fuel cfg (map RdOk segs) s)) = [] \<and>
    cn_out_off (st_conn (on_readable fuel cfg (map RdOk segs) s)) = 0 \<and>
    buf_view (cn_in (st_conn (on_readable fuel cfg (map RdOk segs) s))) = []"
proof -
  let ?b = "fold buf_append segs (cn_in (st_conn s))"
  define s0 where "s0 = upd_conn (\<lambda>c. c\<lparr>cn_in := ?b\<rparr>) s"
  have ok: "buf_ok (cn_in (st_conn s))" using b by (simp add: between_def)
  have view: "buf_ok ?b" "buf_view ?b = concat ms" using bufq.append_all [OF ok, of segs] b m by simp_all
  have "concat ms \<noteq> []" using m parses_nonempty by (cases ms) (auto simp: list_all2_Cons1)
  then have ne: "segs \<noteq> []" using m(2) by auto
  have s0: "between (st_conn s0)" "buf_view (cn_in (st_conn s0)) = concat ms" using b view by (simp_all add: s0_def between_def)
  have size: "buf_size (cn_in (st_conn s0)) = length (concat ms)"
    using view by (simp add: s0_def buf_size_def buf_view_eq flip: view(2))
  define s1 where "s1 = input_loop (buf_size (cn_in (st_conn s0))) cfg s0"
  have s1: "between (st_conn s1) \<and> st_world s1 = w' \<and> cn_out (st_conn s1) = cn_out (st_conn s0) @ out \<and>
    buf_view (cn_in (st_conn s1)) = [] \<and> kept (st_conn s0) (st_conn s1) \<and> \<not> cn_in_request (st_conn s1)"
    unfolding s1_def
    by (rule input_loop_serves [OF m(3) _ s0(1) _ s0(2)])
      (use m w length_messages [OF m(1)] size in \<open>simp_all add: s0_def\<close>)
  define s2 where "s2 = upd_conn (set_deadline cfg) s1"
  have "on_readable fuel cfg (map RdOk segs) s = flush_output fuel cfg s2"
    using s0(1) s1 ne by (simp add: on_readable_def read_loop_all process_input_def process_http_def s2_def
        between_def Let_def flip: s0_def s1_def)
  moreover have "between (st_conn s2)" "out_ok (st_conn s2)" "buf_view (cn_in (st_conn s2)) = []"
    "cn_script (st_conn s2) = IoOk n # sc" "unsent (st_conn s2) = out" "cn_wire (st_conn s2) = cn_wire (st_conn s)"
    "st_world s2 = w'"
    using s1 b k by (simp_all add: s2_def between_def out_ok_def kept_def s0_def unsent_def)
  ultimately show ?thesis using flush_output_quiet [of s2 n sc fuel cfg] k by simp
qed

section \<open>The invariant of a connection\<close>

definition link_ok :: "conn \<Rightarrow> bool" where
  "link_ok c \<longleftrightarrow> out_ok c \<and> buf_ok (cn_in c)
     \<and> (cn_sse c \<noteq> None \<longleftrightarrow> cn_phase c = SsePhase) \<and> (cn_pulse c \<noteq> None \<longleftrightarrow> cn_phase c = PulsePhase)
     \<and> (cn_phase c = SsePhase \<or> cn_phase c = PulsePhase \<longrightarrow> cn_close_after c \<and> cn_token c \<and> cn_deadline c = None)"

definition conn_ok :: "conn \<Rightarrow> bool" where
  "conn_ok c \<longleftrightarrow> link_ok c \<and> parser_ok (cn_parser c) \<and> p_state (cn_parser c) \<noteq> Complete
     \<and> (p_state (cn_parser c) = Error \<longrightarrow> cn_close_after c)"

text \<open>What writing leaves alone; the output buffer stays well formed.\<close>

definition same_core :: "conn \<Rightarrow> conn \<Rightarrow> bool" where
  "same_core c c' \<longleftrightarrow> cn_in c' = cn_in c \<and> cn_parser c' = cn_parser c \<and> cn_close_after c' = cn_close_after c
     \<and> cn_sse c' = cn_sse c \<and> cn_pulse c' = cn_pulse c \<and> cn_token c' = cn_token c
     \<and> cn_deadline c' = cn_deadline c \<and> cn_phase c' = cn_phase c \<and> cn_in_request c' = cn_in_request c
     \<and> (out_ok c \<longrightarrow> out_ok c')"

lemma same_core_ok: "same_core c c' \<Longrightarrow> conn_ok c \<Longrightarrow> conn_ok c'"
  by (simp add: same_core_def conn_ok_def link_ok_def)

lemma same_core_refl [simp]: "same_core c c"
  by (simp add: same_core_def)

lemma same_core_trans: "same_core a b \<Longrightarrow> same_core b c \<Longrightarrow> same_core a c"
  by (simp add: same_core_def)

lemma drain_core: "same_core c (fst (drain c))"
proof -
  obtain c' e where d: "drain c = (c', e)" by (cases "drain c")
  then show ?thesis using drain_stream(2) [OF d] by (auto simp: same_core_def drain_def split: prod.splits)
qed

lemma drain_alive: "cn_alive (fst (drain c)) = cn_alive c"
  by (simp add: drain_def split: prod.split)

lemma update_interest_core: "same_core c (update_interest c)"
  by (simp add: same_core_def out_ok_def)

lemma take_pending_core: "same_core c (take_pending p c)"
  by (simp add: same_core_def take_pending_def out_ok_def)

lemma send_file_core: "same_core c (fst (send_file_step c))" "cn_alive (fst (send_file_step c)) = cn_alive c"
  by (simp_all add: same_core_def send_file_step_def out_ok_def split: option.split prod.split)

lemma release_conn [simp]: "st_conn (release_sse s) = st_conn s" "st_conn (release_pulse cfg s) = st_conn s"
  by (simp_all add: release_sse_def release_pulse_def upd_pulse_def Let_def split: option.split)

lemma close_conn_dead [simp]: "\<not> cn_alive (st_conn (close_conn cfg s))"
  by (simp add: close_conn_def)

lemma upd_pulse_conn [simp]: "st_conn (upd_pulse f s) = st_conn s"
  by (simp add: upd_pulse_def)

lemma finish_flush_core: "cn_alive (st_conn (finish_flush cfg b s)) \<Longrightarrow> same_core (st_conn s) (st_conn (finish_flush cfg b s))"
  using drain_core [of "st_conn s"]
  by (auto simp: finish_flush_def Let_def update_interest_core same_core_def out_ok_def split: prod.splits if_splits)

lemma flush_sse_core: "cn_alive (st_conn (flush_sse cfg s)) \<Longrightarrow> same_core (st_conn s) (st_conn (flush_sse cfg s))"
  by (auto simp: flush_sse_def Let_def split: option.splits dest!: finish_flush_core
      intro: same_core_trans [OF take_pending_core])

lemma flush_pulse_core: "cn_alive (st_conn (flush_pulse cfg s)) \<Longrightarrow> same_core (st_conn s) (st_conn (flush_pulse cfg s))"
  by (auto simp: flush_pulse_def Let_def split: option.splits dest!: finish_flush_core
      intro: same_core_trans [OF take_pending_core])

lemma set_deadline_ok: "conn_ok c \<Longrightarrow> conn_ok (set_deadline cfg c)"
  by (auto simp: conn_ok_def link_ok_def out_ok_def set_deadline_def)

lemma clear_in_ok: "conn_ok c \<Longrightarrow> conn_ok (c\<lparr>cn_in := buf_clear (cn_in c)\<rparr>)"
  by (simp add: conn_ok_def link_ok_def out_ok_def buf_clear_def buf_ok_def)

subsection \<open>Handling a request\<close>

definition plain :: "conn \<Rightarrow> bool" where
  "plain c \<longleftrightarrow> cn_phase c \<noteq> SsePhase \<and> cn_phase c \<noteq> PulsePhase"

lemma plain_simps [simp]:
  "plain (emit cfg rq rs h cl c) = plain c" "plain (c\<lparr>cn_close_after := b\<rparr>) = plain c"
  "plain (c\<lparr>cn_parser := q\<rparr>) = plain c" "plain (c\<lparr>cn_head_request := b\<rparr>) = plain c"
  by (simp_all add: plain_def emit_def)

lemma link_ok_update: "link_ok c \<Longrightarrow> plain c \<Longrightarrow>
  link_ok (c\<lparr>cn_close_after := b\<rparr>)" "link_ok c \<Longrightarrow> link_ok (c\<lparr>cn_parser := p\<rparr>)"
  "link_ok c \<Longrightarrow> link_ok (c\<lparr>cn_head_request := h\<rparr>)"
  by (simp_all add: link_ok_def out_ok_def plain_def)

lemma link_ok_emit: "link_ok c \<Longrightarrow> link_ok (emit cfg rq rs h cl c)"
  by (simp add: link_ok_def out_ok_def plain_def emit_def)

lemma emit_fields [simp]:
  "cn_phase (emit cfg rq rs h cl c) = cn_phase c" "cn_sse (emit cfg rq rs h cl c) = cn_sse c"
  "cn_pulse (emit cfg rq rs h cl c) = cn_pulse c" "cn_in (emit cfg rq rs h cl c) = cn_in c"
  "cn_alive (emit cfg rq rs h cl c) = cn_alive c" "cn_parser (emit cfg rq rs h cl c) = cn_parser c"
  "cn_close_after (emit cfg rq rs h cl c) = cn_close_after c"
  by (simp_all add: emit_def)

lemma link_ok_open_file: "link_ok c \<Longrightarrow> plain c \<Longrightarrow> link_ok (open_file cfg rs c)"
  by (simp add: open_file_def link_ok_def out_ok_def plain_def split: option.split)

lemma adopt_sse_ok:
  assumes "link_ok (st_conn s)" "plain (st_conn s)" "cn_alive (st_conn (adopt_sse cfg a s))"
  shows "link_ok (st_conn (adopt_sse cfg a s))"
proof -
  let ?s = "upd_conn (\<lambda>c. c\<lparr>cn_phase := SsePhase, cn_sse := Some a, cn_close_after := True, cn_token := True, cn_deadline := None\<rparr>)
    (s\<lparr>st_world := (st_world s)\<lparr>wd_sse := (wd_sse (st_world s))(a := (wd_sse (st_world s) a)\<lparr>ss_notify := True\<rparr>)\<rparr>\<rparr>)"
  have e: "adopt_sse cfg a s = flush_sse cfg ?s" by (simp add: adopt_sse_def Let_def)
  have "link_ok (st_conn ?s)" using assms(1,2) by (simp add: link_ok_def out_ok_def plain_def)
  with flush_sse_core [of cfg ?s] assms(3) show ?thesis by (simp add: e same_core_def link_ok_def)
qed

lemma adopt_pulse_ok:
  "link_ok (st_conn s) \<Longrightarrow> plain (st_conn s) \<Longrightarrow> link_ok (st_conn (adopt_pulse cfg a s))"
  by (simp add: adopt_pulse_def Let_def link_ok_def out_ok_def plain_def buf_ok_def buf_clear_def split: prod.split)

lemma handle_request_ok:
  assumes "link_ok (st_conn s)" "plain (st_conn s)" "cn_alive (st_conn (handle_request cfg s))"
  shows "link_ok (st_conn (handle_request cfg s))"
proof (cases "build_request (cn_remote_ip (st_conn s)) (cn_parser (st_conn s))")
  case None
  with assms(1,2) show ?thesis
    by (simp add: handle_request_def queue_error_response_def link_ok_emit link_ok_update)
next
  case (Some rq0)
  obtain rq rs0 w handled thr where a: "cf_app cfg rq0 (st_world s) = (rq, rs0, w, handled, thr)"
    by (cases "cf_app cfg rq0 (st_world s)")
  let ?c = "(st_conn s)\<lparr>cn_parser := snd (take_body (cn_parser (st_conn s))), cn_head_request := (rq_method rq0 = HEAD)\<rparr>"
  have c: "link_ok ?c" "plain ?c" using assms(1,2) by (simp_all add: link_ok_update plain_def)
  show ?thesis
    using assms(3) c
    by (auto simp: handle_request_def Some a Let_def link_ok_emit link_ok_update intro!: adopt_sse_ok
        adopt_pulse_ok link_ok_open_file split: option.splits if_splits)
qed

subsection \<open>The input loop\<close>

definition ready :: "conn \<Rightarrow> bool" where
  "ready c \<longleftrightarrow> link_ok c \<and> plain c \<and> parser_ok (cn_parser c) \<and> (p_state (cn_parser c) = Error \<longrightarrow> cn_close_after c)"

lemma conn_ok_ready: "conn_ok c \<Longrightarrow> plain c \<Longrightarrow> ready c"
  by (simp add: conn_ok_def ready_def)

lemma consume_input_ok:
  "ready c \<Longrightarrow> link_ok (consume_input c) \<and> plain (consume_input c) \<and> parser_ok (cn_parser (consume_input c))"
proof -
  assume r: "ready c"
  obtain n q where u: "consume_request (cn_parser c) (buf_view (cn_in c)) = (n, q)"
    by (cases "consume_request (cn_parser c) (buf_view (cn_in c))")
  have "parser_ok q"
    using r u run_bytes_ok [of "cn_parser c" "buf_view (cn_in c)"] by (simp add: ready_def consume_run_bytes)
  then show ?thesis
    using r u bufq.consume_ok [of "cn_in c" n]
    by (simp add: consume_input_def ready_def link_ok_def out_ok_def plain_def)
qed

lemma continue_100_ok [simp]:
  "plain (continue_100 c) = plain c"
  "cn_parser (continue_100 c) = cn_parser c" "link_ok c \<Longrightarrow> link_ok (continue_100 c)"
  by (auto simp: continue_100_def link_ok_def out_ok_def plain_def Let_def)

lemma end_request_ready:
  "link_ok c \<Longrightarrow> conn_ok (end_request c)"
  using new_parser_ok(3) [of "cn_parser c"]
  by (simp add: conn_ok_def end_request_def link_ok_def out_ok_def)

lemma input_loop_ok:
  "ready (st_conn s) \<Longrightarrow> cn_alive (st_conn (input_loop fuel cfg s)) \<Longrightarrow> conn_ok (st_conn (input_loop fuel cfg s))"
proof (induction fuel arbitrary: s)
  case (0 s)
  let ?s1 = "upd_conn consume_input s" and ?s2 = "upd_conn continue_100 (upd_conn consume_input s)"
  have c: "link_ok (st_conn ?s1)" "plain (st_conn ?s1)" "parser_ok (cn_parser (st_conn ?s1))"
    using consume_input_ok [OF 0(1)] by simp_all
  then have c2: "link_ok (st_conn ?s2)" "plain (st_conn ?s2)" by simp_all
  have h: "cn_alive (st_conn (handle_request cfg ?s2)) \<Longrightarrow> link_ok (st_conn (handle_request cfg ?s2))"
    by (rule handle_request_ok [OF c2])
  show ?case
    using 0(2) c c2 h
    by (subst input_loop.simps, subst (asm) input_loop.simps)
      (auto simp: Let_def conn_ok_def queue_error_response_def link_ok_emit link_ok_update
        end_request_ready [unfolded conn_ok_def] split: if_splits)
next
  case (Suc fuel s)
  let ?s1 = "upd_conn consume_input s" and ?s2 = "upd_conn continue_100 (upd_conn consume_input s)"
  let ?s3 = "upd_conn end_request (handle_request cfg ?s2)"
  have c: "link_ok (st_conn ?s1)" "plain (st_conn ?s1)" "parser_ok (cn_parser (st_conn ?s1))"
    using consume_input_ok [OF Suc.prems(1)] by simp_all
  then have c2: "link_ok (st_conn ?s2)" "plain (st_conn ?s2)" by simp_all
  have h: "cn_alive (st_conn (handle_request cfg ?s2)) \<Longrightarrow> link_ok (st_conn (handle_request cfg ?s2))"
    by (rule handle_request_ok [OF c2])
  have s3: "cn_alive (st_conn (handle_request cfg ?s2)) \<Longrightarrow> conn_ok (st_conn ?s3)"
    using h by (simp add: end_request_ready)
  have rec: "cn_alive (st_conn (handle_request cfg ?s2)) \<Longrightarrow> plain (st_conn ?s3) \<Longrightarrow>
      cn_alive (st_conn (input_loop fuel cfg ?s3)) \<Longrightarrow> conn_ok (st_conn (input_loop fuel cfg ?s3))"
    using Suc.IH [of ?s3] s3 conn_ok_ready by blast
  show ?case
    using Suc.prems(2) c c2 s3 rec
    by (subst input_loop.simps, subst (asm) input_loop.simps)
      (auto simp: Let_def conn_ok_def queue_error_response_def link_ok_emit link_ok_update plain_def
        split: if_splits)
qed

subsection \<open>Every handler keeps the invariant\<close>

lemma same_core_conn:
  "same_core c (c\<lparr>cn_file := f, cn_file_off := i, cn_file_end := j\<rparr>)" "same_core c (c\<lparr>cn_out := [], cn_out_off := 0\<rparr>)"
  by (simp_all add: same_core_def out_ok_def)

lemma conn_ok_update:
  "conn_ok c \<Longrightarrow> conn_ok (c\<lparr>cn_file := f, cn_file_off := i, cn_file_end := j\<rparr>)"
  "conn_ok c \<Longrightarrow> conn_ok (c\<lparr>cn_out := [], cn_out_off := 0\<rparr>)"
  by (rule same_core_ok [OF same_core_conn(1)], assumption, rule same_core_ok [OF same_core_conn(2)], assumption)

lemma aliveD:
  "drain c = (c', e) \<Longrightarrow> cn_alive c' = cn_alive c" "send_file_step c = (c', e) \<Longrightarrow> cn_alive c' = cn_alive c"
  using drain_alive [of c] send_file_core(2) [of c] by simp_all

lemma flush_step_alive: "flush_step cfg s = (s', True) \<Longrightarrow> cn_alive (st_conn s') = cn_alive (st_conn s)"
  by (auto simp: flush_step_def Let_def split: prod.splits if_splits dest!: aliveD)

lemma flush_step_ok:
  assumes "conn_ok (st_conn s)" "flush_step cfg s = (s', again)" "cn_alive (st_conn s')"
  shows "conn_ok (st_conn s') \<and> (again \<longrightarrow> plain (st_conn s') \<and> \<not> cn_close_after (st_conn s'))"
proof -
  obtain c1 e1 where d: "drain (st_conn s) = (c1, e1)" by (cases "drain (st_conn s)")
  have ok1: "conn_ok c1" using same_core_ok [OF drain_core assms(1)] d by simp
  define c2 where "c2 = (if cn_out_off c1 > 0 then c1\<lparr>cn_out := [], cn_out_off := 0\<rparr> else c1)"
  have ok2: "conn_ok c2" using ok1 by (simp add: c2_def conn_ok_update)
  obtain c3 e3 where f: "send_file_step c2 = (c3, e3)" by (cases "send_file_step c2")
  have ok3: "conn_ok c3" using same_core_ok [OF send_file_core(1) ok2] f by simp
  define c4 where "c4 = (if cn_file c3 \<noteq> None \<and> cn_file_off c3 \<ge> cn_file_end c3
                   then c3\<lparr>cn_file := None, cn_file_off := 0, cn_file_end := 0\<rparr> else c3)"
  have ok4: "conn_ok c4" using ok3 by (simp add: c4_def conn_ok_update)
  have u: "conn_ok c \<Longrightarrow> conn_ok (update_interest c)" for c by (rule same_core_ok [OF update_interest_core])
  have "conn_ok (st_conn (flush_sse cfg (s\<lparr>st_conn := c4\<rparr>)))" if "cn_alive (st_conn (flush_sse cfg (s\<lparr>st_conn := c4\<rparr>)))"
    using same_core_ok [OF flush_sse_core [OF that]] ok4 by simp
  moreover have "conn_ok (st_conn (flush_pulse cfg (s\<lparr>st_conn := c4\<rparr>)))" if "cn_alive (st_conn (flush_pulse cfg (s\<lparr>st_conn := c4\<rparr>)))"
    using same_core_ok [OF flush_pulse_core [OF that]] ok4 by simp
  moreover have "flush_step cfg s =
     (if e1 = Blocked then (s\<lparr>st_conn := update_interest c1\<rparr>, False)
      else if e1 \<noteq> Done then (close_conn cfg (s\<lparr>st_conn := c1\<rparr>), False)
      else if e3 = Blocked then (s\<lparr>st_conn := update_interest c3\<rparr>, False)
      else if e3 = Failed then (close_conn cfg (s\<lparr>st_conn := c3\<rparr>), False)
      else if cn_phase c4 = SsePhase then (flush_sse cfg (s\<lparr>st_conn := c4\<rparr>), False)
      else if cn_phase c4 = PulsePhase then (flush_pulse cfg (s\<lparr>st_conn := c4\<rparr>), False)
      else if cn_close_after c4 then (close_conn cfg (s\<lparr>st_conn := c4\<rparr>), False)
      else (upd_conn (\<lambda>c. update_interest (set_deadline cfg c)) (s\<lparr>st_conn := c4\<rparr>), \<not> buf_empty (cn_in c4)))"
    unfolding flush_step_def d prod.case Let_def c2_def [symmetric] f prod.case c4_def [symmetric] by (rule refl)
  ultimately show ?thesis
    using assms(2,3) ok1 ok3 ok4 by (auto simp: u set_deadline_ok plain_def split: if_splits)
qed

lemma process_http_ok:
  "ready (st_conn s) \<Longrightarrow> cn_alive (st_conn (process_http cfg s)) \<Longrightarrow> conn_ok (st_conn (process_http cfg s))"
  using input_loop_ok [of s "buf_size (cn_in (st_conn s))" cfg]
  by (auto simp: process_http_def Let_def set_deadline_ok split: if_splits)

lemma flush_output_ok:
  "conn_ok (st_conn s) \<Longrightarrow> cn_alive (st_conn s) \<Longrightarrow> cn_alive (st_conn (flush_output fuel cfg s)) \<Longrightarrow>
   conn_ok (st_conn (flush_output fuel cfg s))"
proof (induction fuel arbitrary: s)
  case (0 s)
  obtain s' again where f: "flush_step cfg s = (s', again)" by (cases "flush_step cfg s")
  with 0 flush_step_ok [OF 0(1) f] show ?case by (simp add: flush_output.simps split: if_splits)
next
  case (Suc fuel s)
  obtain s' again where f: "flush_step cfg s = (s', again)" by (cases "flush_step cfg s")
  let ?p = "process_http cfg s'"
  have u: "flush_output (Suc fuel) cfg s = (if \<not> again then s' else if cn_alive (st_conn ?p) then flush_output fuel cfg ?p else ?p)"
    using f by (simp add: flush_output.simps [of "Suc fuel"] Let_def)
  show ?case
  proof (cases again)
    case True
    then have "cn_alive (st_conn s')" using f flush_step_alive [of cfg s s'] Suc.prems(2) by simp
    then have "ready (st_conn s')" using flush_step_ok [OF Suc.prems(1) f] conn_ok_ready True by blast
    then show ?thesis using u True Suc.prems(3) Suc.IH [of ?p] process_http_ok [of s' cfg] by (simp split: if_splits)
  next
    case False
    then show ?thesis using u Suc.prems flush_step_ok [OF Suc.prems(1) f] by simp
  qed
qed

text \<open>A connection that is to be closed is closed by a flush, unless the kernel blocks.\<close>

lemma write_loop_blocked: "write_loop script data = (s, k, Blocked) \<Longrightarrow> k < length data"
proof (induction script arbitrary: data s k)
  case Nil
  then show ?case by (simp add: write_loop.simps split: if_splits)
next
  case (Cons i script)
  show ?case
  proof (cases i)
    case (IoOk n)
    let ?m = "min n (length data)"
    have ne: "data \<noteq> []" using Cons.prems by (auto simp: write_loop.simps)
    obtain s' k' e' where r: "write_loop script (drop ?m data) = (s', k', e')" by (cases "write_loop script (drop ?m data)")
    with Cons.prems ne IoOk have "k = ?m + k'" "e' = Blocked" by (simp_all add: write_loop.simps)
    with Cons.IH r show ?thesis by fastforce
  qed (use Cons.prems in \<open>auto simp: write_loop.simps split: if_splits\<close>)
qed

lemma file_loop_blocked: "file_loop script need data = (s, k, Blocked) \<Longrightarrow> k < need"
proof (induction script arbitrary: need data s k)
  case Nil
  then show ?case by (simp add: file_loop.simps split: if_splits)
next
  case (Cons i script)
  show ?case
  proof (cases i)
    case (IoOk n)
    let ?m = "min n (min need (length data))"
    have ne: "need \<noteq> 0" "?m \<noteq> 0" using Cons.prems IoOk by (auto simp: file_loop.simps Let_def split: if_splits)
    obtain s' k' e' where r: "file_loop script (need - ?m) (drop ?m data) = (s', k', e')"
      by (cases "file_loop script (need - ?m) (drop ?m data)")
    have "k = ?m + k' \<and> e' = Blocked" using Cons.prems ne IoOk r by (simp add: file_loop.simps [of _ need] Let_def)
    with Cons.IH r show ?thesis by fastforce
  qed (use Cons.prems in \<open>auto simp: file_loop.simps split: if_splits\<close>)
qed

lemma drain_blocked: "drain c = (c', Blocked) \<Longrightarrow> has_pending_output c'"
proof -
  assume d: "drain c = (c', Blocked)"
  obtain s k where r: "write_loop (cn_script c) (unsent c) = (s, k, Blocked)"
    using d by (auto simp: drain_def split: prod.splits)
  have "k < length (unsent c)" by (rule write_loop_blocked [OF r])
  then show ?thesis using d r by (auto simp: drain_def has_pending_output_def unsent_def)
qed

lemma send_file_blocked: "send_file_step c = (c', Blocked) \<Longrightarrow> has_pending_output c'"
proof -
  assume d: "send_file_step c = (c', Blocked)"
  then obtain f where f: "cn_file c = Some f" by (cases "cn_file c") (auto simp: send_file_step_def)
  obtain s k where r: "file_loop (cn_script c) (cn_file_end c - cn_file_off c) (drop (cn_file_off c) f) = (s, k, Blocked)"
    using d f by (auto simp: send_file_step_def split: prod.splits)
  have "k < cn_file_end c - cn_file_off c" by (rule file_loop_blocked [OF r])
  then show ?thesis using d f r by (auto simp: send_file_step_def has_pending_output_def)
qed

lemma coreD:
  "drain c = (c', e) \<Longrightarrow> cn_close_after c' = cn_close_after c \<and> cn_phase c' = cn_phase c \<and> (e = Blocked \<longrightarrow> has_pending_output c')"
  "send_file_step c = (c', e) \<Longrightarrow> cn_close_after c' = cn_close_after c \<and> cn_phase c' = cn_phase c \<and> (e = Blocked \<longrightarrow> has_pending_output c')"
  using drain_core [of c] send_file_core(1) [of c] drain_blocked send_file_blocked by (auto simp: same_core_def)

lemma update_interest_pending [simp]: "has_pending_output (update_interest c) = has_pending_output c"
  by (simp add: has_pending_output_def)

lemma flush_step_closing:
  assumes "flush_step cfg s = (s', again)" "cn_close_after (st_conn s)" "plain (st_conn s)"
  shows "\<not> again \<and> (cn_alive (st_conn s') \<longrightarrow> has_pending_output (st_conn s') \<and> plain (st_conn s'))"
  using assms
  by (auto simp: flush_step_def Let_def plain_def split: prod.splits if_splits dest!: coreD)

lemma flush_output_closing:
  assumes "cn_close_after (st_conn s)" "plain (st_conn s)" "cn_alive (st_conn (flush_output fuel cfg s))"
  shows "has_pending_output (st_conn (flush_output fuel cfg s)) \<and> plain (st_conn (flush_output fuel cfg s))"
proof -
  obtain s' again where f: "flush_step cfg s = (s', again)" by (cases "flush_step cfg s")
  have "flush_output fuel cfg s = s'"
    using flush_step_closing [OF f assms(1,2)] f by (simp add: flush_output.simps [of fuel])
  then show ?thesis using flush_step_closing [OF f assms(1,2)] assms(3) by simp
qed

lemma process_stream_ok:
  assumes "conn_ok (st_conn s)" "cn_alive (st_conn (process_stream_input cfg s))"
  shows "conn_ok (st_conn (process_stream_input cfg s))"
proof (cases "cn_phase (st_conn s) = SsePhase \<or> cn_pulse (st_conn s) = None \<or> buf_empty (cn_in (st_conn s))")
  case True
  then show ?thesis using assms(1) by (auto simp: process_stream_input_def clear_in_ok split: option.split)
next
  case False
  then obtain a where a: "cn_phase (st_conn s) \<noteq> SsePhase" "cn_pulse (st_conn s) = Some a" "\<not> buf_empty (cn_in (st_conn s))"
    by auto
  let ?s1 = "upd_conn (\<lambda>c. c\<lparr>cn_in := buf_clear (cn_in c)\<rparr>) s"
  obtain w ok where f: "pulse_feed (cf_handlers cfg) a (buf_view (cn_in (st_conn s))) (wd_pulse (st_world ?s1)) = (w, ok)"
    by (cases "pulse_feed (cf_handlers cfg) a (buf_view (cn_in (st_conn s))) (wd_pulse (st_world ?s1))")
  have e: "process_stream_input cfg s = (if ok then flush_pulse cfg (upd_pulse (\<lambda>_. w) ?s1) else close_conn cfg (upd_pulse (\<lambda>_. w) ?s1))"
    using a f by (simp add: process_stream_input_def Let_def)
  have "ok" using e assms(2) by (cases ok) simp_all
  then show ?thesis
    using e assms flush_pulse_core [of cfg "upd_pulse (\<lambda>_. w) ?s1"] clear_in_ok [OF assms(1)] by (auto intro: same_core_ok)
qed

lemma input_loop_alive_keep: "\<not> cn_alive (st_conn s) \<Longrightarrow> \<not> cn_alive (st_conn (upd_conn (set_deadline cfg) s))"
  by simp

lemma process_input_ok:
  assumes "conn_ok (st_conn s)" "cn_alive (st_conn (process_input fuel cfg s))"
  shows "conn_ok (st_conn (process_input fuel cfg s))"
proof (cases "plain (st_conn s)")
  case True
  then have "ready (st_conn s)" using assms(1) conn_ok_ready by blast
  with True assms(2) show ?thesis
    using process_http_ok [of s cfg] flush_output_ok [of "process_http cfg s" fuel cfg]
    by (auto simp: process_input_def plain_def Let_def split: if_splits)
next
  case False
  then show ?thesis using assms process_stream_ok [of s cfg] by (auto simp: process_input_def plain_def)
qed

lemma read_loop_ok: "buf_ok b \<Longrightarrow> buf_ok (fst (read_loop rs b))"
  by (induction rs b rule: read_loop.induct) (auto simp: bufq.append_ok split: prod.splits)

lemma on_readable_ok:
  assumes "conn_ok (st_conn s)" "cn_alive (st_conn (on_readable fuel cfg reads s))"
  shows "conn_ok (st_conn (on_readable fuel cfg reads s))"
proof -
  obtain b got ended where r: "read_loop reads (cn_in (st_conn s)) = (b, got, ended)"
    by (cases "read_loop reads (cn_in (st_conn s))")
  let ?s1 = "upd_conn (\<lambda>c. c\<lparr>cn_in := b\<rparr>) s"
  let ?s2 = "upd_conn (\<lambda>c. c\<lparr>cn_close_after := True\<rparr>) ?s1"
  have "buf_ok b" using assms(1) read_loop_ok [of "cn_in (st_conn s)" reads] r by (simp add: conn_ok_def link_ok_def)
  then have "conn_ok (st_conn ?s1)" "conn_ok (st_conn ?s2)"
    using assms(1) by (simp_all add: conn_ok_def link_ok_def out_ok_def)
  then show ?thesis
    using assms(2) r process_input_ok [of ?s1 fuel cfg] process_input_ok [of ?s2 fuel cfg]
    by (auto simp: on_readable_def Let_def split: if_splits)
qed

lemma worker_event_ok:
  assumes "cn_alive (st_conn s) \<Longrightarrow> conn_ok (st_conn s)" "cn_alive (st_conn (worker_event fuel cfg ev hs reads s))"
  shows "conn_ok (st_conn (worker_event fuel cfg ev hs reads s))"
proof (cases "cn_alive (st_conn s) \<and> \<not> le_error ev")
  case True
  then have ok: "conn_ok (st_conn s)" using assms(1) by simp
  show ?thesis
  proof (cases "cn_phase (st_conn s) = Handshake")
    case hs: True
    have "conn_ok ((st_conn s)\<lparr>cn_phase := HttpPhase\<rparr>)"
      using ok hs by (simp add: conn_ok_def link_ok_def out_ok_def)
    then have "conn_ok (update_interest (set_deadline cfg ((st_conn s)\<lparr>cn_phase := HttpPhase\<rparr>)))"
      by (intro same_core_ok [OF update_interest_core] set_deadline_ok)
    with True hs ok assms(2) show ?thesis by (cases hs) (simp_all add: worker_event_def)
  next
    case False
    let ?s1 = "if le_writable ev \<and> has_pending_output (st_conn s) then flush_output fuel cfg s else s"
    have "conn_ok (st_conn ?s1)" if "cn_alive (st_conn ?s1)" using ok True that flush_output_ok by auto
    then show ?thesis
      using True False assms(2) on_readable_ok [of ?s1 fuel cfg reads]
      by (auto simp: worker_event_def Let_def split: if_splits)
  qed
qed (use assms in \<open>auto simp: worker_event_def split: if_splits\<close>)

lemma queue_error_ok: "conn_ok c \<Longrightarrow> conn_ok (queue_error_response cfg st msg c)"
  by (auto simp: conn_ok_def queue_error_response_def link_ok_def emit_def out_ok_def)

lemma sweep_ok:
  assumes "cn_alive (st_conn s) \<Longrightarrow> conn_ok (st_conn s)" "cn_alive (st_conn (sweep fuel cfg s))"
  shows "conn_ok (st_conn (sweep fuel cfg s))"
proof (cases "cn_alive (st_conn s)")
  case True
  then have ok: "conn_ok (st_conn s)" using assms(1) by simp
  let ?q = "upd_conn (queue_error_response cfg RequestTimeout []) s"
  let ?s1 = "flush_output fuel cfg ?q"
  have a: "cn_alive (st_conn ?q)" using True by (simp add: queue_error_response_def emit_def)
  have "conn_ok (st_conn ?q)" using ok by (simp add: queue_error_ok)
  then have ok1: "cn_alive (st_conn ?s1) \<Longrightarrow> conn_ok (st_conn ?s1)" using flush_output_ok a by blast
  show ?thesis
  proof (cases "cn_deadline (st_conn s)")
    case (Some d)
    have "plain (st_conn s)" using ok Some by (auto simp: conn_ok_def link_ok_def plain_def)
    show ?thesis
    proof (cases "d \<le> cf_now cfg \<and> cn_in_request (st_conn s) \<and> cn_phase (st_conn s) = HttpPhase \<and> \<not> has_pending_output (st_conn s)")
      case t: True
      have e: "sweep fuel cfg s = (if cn_alive (st_conn ?s1)
          then upd_conn (\<lambda>c. c\<lparr>cn_deadline := Some (cf_now cfg + cf_header_timeout cfg)\<rparr>) ?s1 else ?s1)"
        using True Some t by (simp add: sweep_def Let_def)
      have "cn_alive (st_conn ?s1)" using assms(2) e by (simp split: if_splits)
      moreover have "plain (st_conn ?s1)"
        using flush_output_closing [of ?q fuel cfg] \<open>plain (st_conn s)\<close> calculation
        by (simp add: queue_error_response_def)
      ultimately show ?thesis using ok1 e by (simp add: conn_ok_def link_ok_def out_ok_def plain_def)
    qed (use True Some ok assms(2) in \<open>auto simp: sweep_def Let_def split: if_splits\<close>)
  qed (use True ok in \<open>simp add: sweep_def Let_def\<close>)
qed (use assms in \<open>auto simp: sweep_def\<close>)

section \<open>The recursion ends\<close>

text \<open>Every round takes at least one byte out of the input buffer.\<close>

lemma consume_some: "parser_ok p \<Longrightarrow> \<not> parser_done p \<Longrightarrow> data \<noteq> [] \<Longrightarrow> 0 < fst (consume_request p data)"
  by (cases data) (simp_all add: consume_run_bytes)

lemma buf_size_view: "buf_ok b \<Longrightarrow> buf_size b = length (buf_view b)"
  by (simp add: buf_size_def buf_view_eq)

lemma buf_size_consume: "buf_ok b \<Longrightarrow> buf_size (buf_consume n b) = buf_size b - n"
  by (simp add: buf_size_view bufq.consume_ok bufq.consume_view)

lemma consume_input_shrinks:
  assumes "parser_ok (cn_parser c)" "\<not> parser_done (cn_parser c)" "buf_ok (cn_in c)" "\<not> buf_empty (cn_in c)"
  shows "buf_size (cn_in (consume_input c)) < buf_size (cn_in c)"
proof -
  have "buf_view (cn_in c) \<noteq> []" using assms(3,4) by (auto simp: buf_empty_def buf_size_view)
  then have "0 < fst (consume_request (cn_parser c) (buf_view (cn_in c)))" using assms consume_some by blast
  moreover have "0 < buf_size (cn_in c)" using assms(4) by (simp add: buf_empty_def)
  ultimately show ?thesis
    using assms(3,4) by (auto simp: consume_input_def buf_size_consume split: prod.split)
qed

lemma handle_request_in:
  "cn_alive (st_conn (handle_request cfg s)) \<Longrightarrow>
   cn_in (st_conn (handle_request cfg s)) = cn_in (st_conn s) \<or> buf_size (cn_in (st_conn (handle_request cfg s))) = 0"
proof -
  have sse: "cn_alive (st_conn (adopt_sse cfg a t)) \<Longrightarrow> cn_in (st_conn (adopt_sse cfg a t)) = cn_in (st_conn t)" for a t
    by (auto simp: adopt_sse_def Let_def same_core_def dest!: flush_sse_core)
  have pulse: "0 < buf_size (cn_in (st_conn (adopt_pulse cfg a t))) \<Longrightarrow> cn_in (st_conn (adopt_pulse cfg a t)) = cn_in (st_conn t)" for a t
    by (cases "buf_empty (cn_in (st_conn t))")
      (auto simp: adopt_pulse_def Let_def buf_size_def buf_clear_def split: prod.splits if_splits)
  have opened: "cn_in (open_file cfg rs c) = cn_in c" for rs c by (simp add: open_file_def split: option.split)
  assume "cn_alive (st_conn (handle_request cfg s))"
  then show ?thesis
    by (auto simp: pulse handle_request_def Let_def queue_error_response_def opened split: option.splits prod.splits if_splits dest!: sse)
qed

lemma continue_100_in [simp]: "cn_in (continue_100 c) = cn_in c"
  by (simp add: continue_100_def Let_def)

lemma end_request_in [simp]: "cn_in (end_request c) = cn_in c" "cn_alive (end_request c) = cn_alive c"
  by (simp_all add: end_request_def)

text \<open>The state after one handled request, and when the loop goes on from it.\<close>

definition after_request :: "'u cfg \<Rightarrow> 'u st \<Rightarrow> 'u st" where
  "after_request cfg s = upd_conn end_request (handle_request cfg (upd_conn continue_100 (upd_conn consume_input s)))"

definition goes_on :: "'u cfg \<Rightarrow> 'u st \<Rightarrow> bool" where
  "goes_on cfg s \<longleftrightarrow> p_state (cn_parser (consume_input (st_conn s))) = Complete \<and> cn_alive (st_conn (after_request cfg s))
     \<and> \<not> cn_close_after (st_conn (after_request cfg s)) \<and> plain (st_conn (after_request cfg s))
     \<and> \<not> (cn_file (st_conn (after_request cfg s)) \<noteq> None \<and> cn_file_off (st_conn (after_request cfg s)) < cn_file_end (st_conn (after_request cfg s)))
     \<and> \<not> buf_empty (cn_in (st_conn (after_request cfg s)))"

lemma input_loop_eq:
  "input_loop f cfg s =
     (let s1 = upd_conn consume_input s; s2 = upd_conn continue_100 s1
      in if p_state (cn_parser (st_conn s1)) = Error then
           upd_conn (queue_error_response cfg (p_err_status (cn_parser (st_conn s1))) (p_err_msg (cn_parser (st_conn s1)))) s1
         else if p_state (cn_parser (st_conn s1)) \<noteq> Complete then s2
         else if \<not> cn_alive (st_conn (handle_request cfg s2)) then handle_request cfg s2
         else if goes_on cfg s then (case f of 0 \<Rightarrow> after_request cfg s | Suc g \<Rightarrow> input_loop g cfg (after_request cfg s))
         else after_request cfg s)"
proof -
  let ?s1 = "upd_conn consume_input s"
  consider "p_state (cn_parser (st_conn ?s1)) = Error" | "p_state (cn_parser (st_conn ?s1)) \<noteq> Error" "p_state (cn_parser (st_conn ?s1)) \<noteq> Complete"
    | "p_state (cn_parser (st_conn ?s1)) = Complete" "\<not> cn_alive (st_conn (handle_request cfg (upd_conn continue_100 ?s1)))"
    | "p_state (cn_parser (st_conn ?s1)) = Complete" "cn_alive (st_conn (handle_request cfg (upd_conn continue_100 ?s1)))"
    by blast
  then show ?thesis
  proof cases
    case 4
    then show ?thesis
      by (subst input_loop.simps) (auto simp: Let_def goes_on_def after_request_def plain_def split: nat.split)
  qed (subst input_loop.simps, simp add: Let_def)+
qed

lemma input_loop_goes_on: "goes_on cfg s \<Longrightarrow> input_loop (Suc f) cfg s = input_loop f cfg (after_request cfg s)"
  by (subst input_loop_eq) (simp add: Let_def, simp add: goes_on_def after_request_def)

lemma input_loop_stops: "\<not> goes_on cfg s \<Longrightarrow> input_loop f cfg s = input_loop 0 cfg s"
  by (simp add: input_loop_eq [of f] input_loop_eq [of 0])

lemma after_request_size:
  "cn_alive (st_conn (after_request cfg s)) \<Longrightarrow>
   buf_size (cn_in (st_conn (after_request cfg s))) \<le> buf_size (cn_in (consume_input (st_conn s)))"
  using handle_request_in [of cfg "upd_conn continue_100 (upd_conn consume_input s)"] by (auto simp: after_request_def)

lemma goes_on_ready:
  assumes "ready (st_conn s)" "goes_on cfg s"
  shows "ready (st_conn (after_request cfg s))" "\<not> parser_done (cn_parser (st_conn (after_request cfg s)))"
proof -
  let ?u = "upd_conn continue_100 (upd_conn consume_input s)"
  have u: "link_ok (st_conn ?u)" "plain (st_conn ?u)" using consume_input_ok [OF assms(1)] by simp_all
  have "cn_alive (st_conn (handle_request cfg ?u))" using assms(2) by (simp add: goes_on_def after_request_def)
  from end_request_ready [OF handle_request_ok [OF u this]]
  have "conn_ok (st_conn (after_request cfg s))" by (simp add: after_request_def)
  then show "ready (st_conn (after_request cfg s))" using assms(2) conn_ok_ready by (simp add: goes_on_def)
  show "\<not> parser_done (cn_parser (st_conn (after_request cfg s)))"
    by (simp add: after_request_def end_request_def) (simp add: parser_done_def parser_reset_def)
qed

lemma goes_on_shrinks:
  assumes "ready (st_conn s)" "\<not> parser_done (cn_parser (st_conn s))" "goes_on cfg s"
  shows "buf_size (cn_in (st_conn (after_request cfg s))) < buf_size (cn_in (st_conn s))"
proof (cases "buf_empty (cn_in (st_conn s))")
  case True
  then have "consume_input (st_conn s) = st_conn s" by (simp add: consume_input_def)
  with assms(2,3) show ?thesis by (simp add: goes_on_def parser_done_def)
next
  case False
  have "buf_size (cn_in (consume_input (st_conn s))) < buf_size (cn_in (st_conn s))"
    by (rule consume_input_shrinks) (use assms False in \<open>simp_all add: ready_def link_ok_def\<close>)
  then show ?thesis using after_request_size [of cfg s] assms(3) by (simp add: goes_on_def)
qed

lemma input_loop_fuel:
  "ready (st_conn s) \<Longrightarrow> \<not> parser_done (cn_parser (st_conn s)) \<Longrightarrow>
   buf_size (cn_in (st_conn s)) \<le> f \<Longrightarrow> input_loop f cfg s = input_loop (buf_size (cn_in (st_conn s))) cfg s"
proof (induction "buf_size (cn_in (st_conn s))" arbitrary: s f rule: less_induct)
  case less
  show ?case
  proof (cases "goes_on cfg s")
    case True
    let ?t = "after_request cfg s" and ?n = "buf_size (cn_in (st_conn s))"
    have lt: "buf_size (cn_in (st_conn ?t)) < ?n" using goes_on_shrinks less.prems True by blast
    then obtain g h where gh: "f = Suc g" "?n = Suc h" using less.prems(3) by (cases f; cases ?n) auto
    have le: "buf_size (cn_in (st_conn ?t)) \<le> h" "buf_size (cn_in (st_conn ?t)) \<le> g"
      using lt gh less.prems(3) by linarith+
    note eq = less.hyps [OF lt goes_on_ready [OF less.prems(1) True]]
    have "input_loop g cfg ?t = input_loop h cfg ?t" by (rule trans [OF eq [OF le(2)] eq [OF le(1), symmetric]])
    then show ?thesis using gh by (simp only: input_loop_goes_on [OF True])
  next
    case False
    show ?thesis by (rule trans [OF input_loop_stops [OF False] input_loop_stops [OF False, symmetric]])
  qed
qed

lemma input_loop_shrinks:
  "ready (st_conn s) \<Longrightarrow> \<not> parser_done (cn_parser (st_conn s)) \<Longrightarrow> \<not> buf_empty (cn_in (st_conn s)) \<Longrightarrow>
   cn_alive (st_conn (input_loop f cfg s)) \<Longrightarrow> buf_size (cn_in (st_conn (input_loop f cfg s))) < buf_size (cn_in (st_conn s))"
proof (induction f arbitrary: s)
  case (0 s)
  have "buf_size (cn_in (consume_input (st_conn s))) < buf_size (cn_in (st_conn s))"
    by (rule consume_input_shrinks) (use 0 in \<open>simp_all add: ready_def link_ok_def\<close>)
  moreover have "cn_in (st_conn (input_loop 0 cfg s)) = cn_in (consume_input (st_conn s)) \<or>
      buf_size (cn_in (st_conn (input_loop 0 cfg s))) = 0"
    using 0(4) handle_request_in [of cfg "upd_conn continue_100 (upd_conn consume_input s)"]
    unfolding input_loop_eq [of 0]
    by (auto simp: Let_def queue_error_response_def after_request_def split: if_splits)
  moreover have "0 < buf_size (cn_in (st_conn s))" using 0(3) by (simp add: buf_empty_def)
  ultimately show ?case by auto
next
  case (Suc f s)
  show ?case
  proof (cases "goes_on cfg s")
    case True
    let ?t = "after_request cfg s"
    have "buf_size (cn_in (st_conn (input_loop f cfg ?t))) < buf_size (cn_in (st_conn ?t))"
      using Suc.IH [of ?t] goes_on_ready [OF Suc.prems(1) True] Suc.prems(4) True
      by (simp add: input_loop_goes_on) (simp add: goes_on_def)
    then show ?thesis using goes_on_shrinks [OF Suc.prems(1,2) True] True by (simp add: input_loop_goes_on)
  next
    case False
    have e: "input_loop (Suc f) cfg s = input_loop f cfg s"
      by (rule trans [OF input_loop_stops [OF False] input_loop_stops [OF False, symmetric]])
    show ?thesis using Suc.IH [OF Suc.prems(1-3)] Suc.prems(4) by (simp add: e)
  qed
qed

lemma flush_step_in:
  assumes "flush_step cfg s = (s', True)"
  shows "cn_in (st_conn s') = cn_in (st_conn s)" "\<not> buf_empty (cn_in (st_conn s))" "cn_parser (st_conn s') = cn_parser (st_conn s)"
proof -
  have d: "drain c = (c', e) \<Longrightarrow> cn_in c' = cn_in c \<and> cn_parser c' = cn_parser c"
    "send_file_step c = (c', e) \<Longrightarrow> cn_in c' = cn_in c \<and> cn_parser c' = cn_parser c" for c c' e
    using drain_core [of c] send_file_core(1) [of c] by (auto simp: same_core_def)
  have "cn_in (st_conn s') = cn_in (st_conn s) \<and> \<not> buf_empty (cn_in (st_conn s)) \<and> cn_parser (st_conn s') = cn_parser (st_conn s)"
    using assms by (auto simp: flush_step_def Let_def split: prod.splits if_splits dest!: d)
  then show "cn_in (st_conn s') = cn_in (st_conn s)" "\<not> buf_empty (cn_in (st_conn s))" "cn_parser (st_conn s') = cn_parser (st_conn s)"
    by simp_all
qed

lemma flush_output_Suc:
  "flush_step cfg s = (s', again) \<Longrightarrow>
   flush_output (Suc f) cfg s =
     (if \<not> again then s' else if cn_alive (st_conn (process_http cfg s')) then flush_output f cfg (process_http cfg s')
      else process_http cfg s')"
  by (simp add: flush_output.simps [of "Suc f"] Let_def)

lemma flush_output_fuel:
  "conn_ok (st_conn s) \<Longrightarrow> cn_alive (st_conn s) \<Longrightarrow> buf_size (cn_in (st_conn s)) \<le> f \<Longrightarrow>
   flush_output f cfg s = flush_output (buf_size (cn_in (st_conn s))) cfg s"
proof (induction "buf_size (cn_in (st_conn s))" arbitrary: s f rule: less_induct)
  case less
  obtain s' again where fs: "flush_step cfg s = (s', again)" by (cases "flush_step cfg s")
  let ?n = "buf_size (cn_in (st_conn s))" and ?p = "process_http cfg s'"
  show ?case
  proof (cases again)
    case False
    then show ?thesis using fs by (simp add: flush_output.simps [of f] flush_output.simps [of ?n])
  next
    case True
    have i: "cn_in (st_conn s') = cn_in (st_conn s)" "\<not> buf_empty (cn_in (st_conn s))" "cn_parser (st_conn s') = cn_parser (st_conn s)"
      using flush_step_in [of cfg s s'] fs True by simp_all
    have a: "cn_alive (st_conn s')" using flush_step_alive [of cfg s s'] fs True less.prems(2) by simp
    have ok: "conn_ok (st_conn s')" "plain (st_conn s')" "\<not> cn_close_after (st_conn s')"
      using flush_step_ok [OF less.prems(1) fs a] True by simp_all
    then have r: "ready (st_conn s')" "\<not> parser_done (cn_parser (st_conn s'))"
      using conn_ok_ready by (auto simp: conn_ok_def parser_done_def)
    have "0 < ?n" using i(2) by (simp add: buf_empty_def)
    then obtain g h where gh: "f = Suc g" "?n = Suc h" using less.prems(3) by (cases f; cases ?n) auto
    show ?thesis
    proof (cases "cn_alive (st_conn ?p)")
      case False
      then show ?thesis using True fs gh by (simp only: flush_output_Suc [OF fs] if_False if_True not_True_eq_False)
    next
      case alive: True
      have "cn_in (st_conn ?p) = cn_in (st_conn (input_loop (buf_size (cn_in (st_conn s'))) cfg s'))"
        "cn_alive (st_conn (input_loop (buf_size (cn_in (st_conn s'))) cfg s'))"
        using alive by (auto simp: process_http_def Let_def split: if_splits)
      then have lt: "buf_size (cn_in (st_conn ?p)) < ?n"
        using input_loop_shrinks [OF r] i by (metis (no_types, lifting))
      have le: "buf_size (cn_in (st_conn ?p)) \<le> h" "buf_size (cn_in (st_conn ?p)) \<le> g"
        using lt gh less.prems(3) by linarith+
      note eq = less.hyps [OF lt process_http_ok [OF r(1) alive] alive]
      have "flush_output g cfg ?p = flush_output h cfg ?p" by (rule trans [OF eq [OF le(2)] eq [OF le(1), symmetric]])
      then show ?thesis using True fs gh alive by (simp only: flush_output_Suc [OF fs] if_False if_True not_True_eq_False)
    qed
  qed
qed

section \<open>Histories of a connection\<close>

text \<open>One step of a connection's life: an event of the loop, a closure posted by a session or a
  channel, the sweep; the kernel gets ready for more output; application threads change what
  they share with the connection.\<close>

inductive conn_step :: "'u st \<Rightarrow> 'u st \<Rightarrow> bool" where
  event: "conn_step s (worker_event fuel cfg (loop_event_of bits) hs reads s)"
| posted_sse: "conn_step s (posted_sse cfg s)"
| posted_pulse: "conn_step s (posted_pulse cfg s)"
| sweep: "conn_step s (sweep fuel cfg s)"
| kernel: "conn_step s (upd_conn (\<lambda>c. c\<lparr>cn_script := io\<rparr>) s)"
| app: "conn_step s (s\<lparr>st_world := w\<rparr>)"

inductive conn_reachable :: "'u st \<Rightarrow> bool" where
  accepted: "conn_reachable \<lparr>st_world = w, st_conn = accept_conn max_header max_body ip tls (cfg :: 'u cfg)\<rparr>"
| step: "conn_reachable s \<Longrightarrow> conn_step s t \<Longrightarrow> conn_reachable t"

lemma accept_conn_ok: "conn_ok (accept_conn max_header max_body ip tls cfg)"
  using new_parser_ok(2) [of max_header max_body]
  by (simp add: accept_conn_def new_conn_def conn_ok_def link_ok_def out_ok_def Let_def)
    (simp add: new_parser_def set_limits_def buf_ok_def new_buffer_def)

lemma conn_step_ok:
  "conn_step s t \<Longrightarrow> (cn_alive (st_conn s) \<Longrightarrow> conn_ok (st_conn s)) \<Longrightarrow> cn_alive (st_conn t) \<Longrightarrow> conn_ok (st_conn t)"
proof (induction rule: conn_step.induct)
  case (event s fuel cfg bits hs reads)
  then show ?case using worker_event_ok by blast
next
  case (posted_sse s cfg)
  then show ?case using flush_sse_core [of cfg s] same_core_ok by (auto simp: posted_sse_def split: if_splits)
next
  case (posted_pulse s cfg)
  then show ?case using flush_pulse_core [of cfg s] same_core_ok by (auto simp: posted_pulse_def split: if_splits)
next
  case (sweep s fuel cfg)
  then show ?case using sweep_ok by blast
next
  case (kernel s io)
  then show ?case by (simp add: conn_ok_def link_ok_def out_ok_def)
qed simp

lemma reachable_ok: "conn_reachable s \<Longrightarrow> cn_alive (st_conn s) \<Longrightarrow> conn_ok (st_conn s)"
proof (induction rule: conn_reachable.induct)
  case (accepted w max_header max_body ip tls cfg)
  show ?case by (simp add: accept_conn_ok)
next
  case (step s t)
  then show ?case using conn_step_ok by blast
qed

lemma sweep_dead: "\<not> cn_alive (st_conn s) \<Longrightarrow> sweep fuel cfg s = s"
  by (simp add: sweep_def Let_def)

section \<open>Closing\<close>

lemma closed_pending:
  "(if ch_closed (run_op op c) then ch_pending (run_op op c) else []) = (if ch_closed c then ch_pending c else [])"
  by (cases op) (simp_all add: chan_simps)

lemma fire_close_keeps:
  "(\<And>op c. g (run_op op c) = g c) \<Longrightarrow> (\<And>c b. g (c\<lparr>ch_close_fired := b\<rparr>) = g c) \<Longrightarrow>
   g (pw_chans (fire_close tbl a code r w) b) = g (pw_chans w b)"
  by (simp add: fire_close_def fold_close_keeps upd_chan_get)

lemma release_pulse_state:
  assumes "cn_pulse (st_conn s) = Some a"
  shows "let x = pw_chans (wd_pulse (st_world (release_pulse cfg s))) a
         in ch_closed x \<and> ch_close_fired x \<and> \<not> ch_notify x \<and> ch_pending x = []"
proof -
  let ?w = "upd_chan a (\<lambda>c. c\<lparr>ch_closed := True, ch_notify := False, ch_pending := []\<rparr>) (wd_pulse (st_world s))"
  let ?x = "pw_chans (fire_close (cf_handlers cfg) a Abnormal [] ?w) a"
  have x: "pw_chans (wd_pulse (st_world (release_pulse cfg s))) a = ?x"
    using assms by (simp add: release_pulse_def upd_pulse_def)
  have "ch_closed ?x" "ch_close_fired ?x" by (simp_all add: upd_chan_get)
  moreover have "\<not> ch_notify ?x" by (subst fire_close_keeps [of ch_notify]) (simp_all add: upd_chan_get)
  moreover have "(if ch_closed ?x then ch_pending ?x else []) = []"
    by (subst fire_close_keeps [of "\<lambda>c. if ch_closed c then ch_pending c else []", OF closed_pending])
      (simp_all add: upd_chan_get)
  ultimately show ?thesis by (simp add: x Let_def)
qed

lemma release_pulse_again:
  assumes "cn_pulse (st_conn s) = Some a" "let x = pw_chans (wd_pulse (st_world s)) a
         in ch_closed x \<and> ch_close_fired x \<and> \<not> ch_notify x \<and> ch_pending x = []"
  shows "release_pulse cfg s = s"
proof -
  let ?x = "pw_chans (wd_pulse (st_world s)) a"
  have "?x\<lparr>ch_closed := True, ch_notify := False, ch_pending := []\<rparr> = ?x"
    using assms(2) by (cases ?x) (simp add: Let_def)
  then have "upd_chan a (\<lambda>c. c\<lparr>ch_closed := True, ch_notify := False, ch_pending := []\<rparr>) (wd_pulse (st_world s)) = wd_pulse (st_world s)"
    by (simp add: upd_chan_def)
  then show ?thesis using assms by (simp add: release_pulse_def upd_pulse_def fire_close_def Let_def)
qed

lemma close_conn_world: "st_world (close_conn cfg s) = st_world (release_pulse cfg (release_sse s))"
  by (simp add: close_conn_def)

lemma release_pulse_sse: "wd_sse (st_world (release_pulse cfg s)) = wd_sse (st_world s)"
  by (simp add: release_pulse_def upd_pulse_def split: option.split)

lemma release_sse_again:
  assumes "case cn_sse (st_conn s) of None \<Rightarrow> True
    | Some a \<Rightarrow> (let x = wd_sse (st_world s) a in ss_closed x \<and> \<not> ss_notify x \<and> ss_pending x = [])"
  shows "release_sse s = s"
proof (cases "cn_sse (st_conn s)")
  case (Some a)
  let ?x = "wd_sse (st_world s) a"
  have "?x\<lparr>ss_closed := True, ss_notify := False, ss_pending := []\<rparr> = ?x"
    using assms Some by (cases ?x) (simp add: Let_def)
  then show ?thesis using Some by (simp add: release_sse_def Let_def)
qed (simp add: release_sse_def)

lemma close_conn_sse:
  "case cn_sse (st_conn s) of None \<Rightarrow> True
    | Some a \<Rightarrow> (let x = wd_sse (st_world (close_conn cfg s)) a in ss_closed x \<and> \<not> ss_notify x \<and> ss_pending x = [])"
  by (simp add: close_conn_world release_pulse_sse release_sse_def Let_def split: option.split)

lemma close_conn_pulse:
  "case cn_pulse (st_conn s) of None \<Rightarrow> True
    | Some a \<Rightarrow> (let x = pw_chans (wd_pulse (st_world (close_conn cfg s))) a
                in ch_closed x \<and> ch_close_fired x \<and> \<not> ch_notify x \<and> ch_pending x = [])"
  using release_pulse_state [of "release_sse s" _ cfg] by (auto simp: close_conn_world split: option.split)

lemma close_twice: "st_world (close_conn cfg (close_conn cfg s)) = st_world (close_conn cfg s)"
proof -
  let ?t = "close_conn cfg s"
  have f: "cn_sse (st_conn ?t) = cn_sse (st_conn s)" "cn_pulse (st_conn ?t) = cn_pulse (st_conn s)"
    by (simp_all add: close_conn_def)
  have "release_sse ?t = ?t" by (rule release_sse_again) (use close_conn_sse [where s = s and cfg = cfg] f in simp)
  moreover have "release_pulse cfg ?t = ?t"
    using close_conn_pulse [where s = s and cfg = cfg] release_pulse_again [of ?t _ cfg] f
    by (cases "cn_pulse (st_conn s)") (simp_all add: release_pulse_def)
  ultimately show ?thesis by (simp add: close_conn_world [of cfg ?t])
qed

section \<open>A small server\<close>

definition demo_response :: response where
  "demo_response = snd (res_send ''hi'' text_plain new_response)"

definition demo_cfg :: "nat cfg" where
  "demo_cfg = \<lparr>cf_app = (\<lambda>rq w. (rq, demo_response, w, True, NoThrow)), cf_handlers = demo_handlers,
     cf_zlib = \<lparr>z_gzip = (\<lambda>_. None), z_deflate = (\<lambda>_. None)\<rparr>, cf_date = ''today'', cf_order = (\<lambda>h. h),
     cf_compression = default_comp_options, cf_open = (\<lambda>_. None), cf_now = 0,
     cf_header_timeout = 15000, cf_body_timeout = 30000, cf_idle_timeout = 60000\<rparr>"

definition demo_get :: string where
  "demo_get = render_head GET ''/'' ''HTTP/1.1'' []"

definition demo_parsed :: parser where
  "demo_parsed = snd (consume_request (parser_reset new_parser) demo_get)"

definition demo_reply :: string where
  "demo_reply = fst (serialize_response (cf_zlib demo_cfg) (cf_date demo_cfg) (cf_order demo_cfg)
     (cf_compression demo_cfg) (the (build_request ''::1'' demo_parsed)) demo_response False False)"

definition demo_st :: "io list \<Rightarrow> nat st" where
  "demo_st io = \<lparr>st_world = \<lparr>wd_sse = (\<lambda>_. new_sse), wd_pulse = demo_world\<rparr>,
     st_conn = (new_conn 16384 16777216 ''::1'' 60000)\<lparr>cn_script := io\<rparr>\<rparr>"

lemma demo_parser: "parser_reset new_parser = new_parser" "set_limits 16384 16777216 new_parser = new_parser"
  by (simp_all add: parser_reset_def new_parser_def set_limits_def)

lemma demo_run:
  "consume_request (parser_reset new_parser) demo_get = (length demo_get, demo_parsed) \<and>
   p_state demo_parsed = Complete \<and> p_method demo_parsed = GET \<and> p_path demo_parsed = ''/'' \<and>
   p_version demo_parsed = ''HTTP/1.1'' \<and> p_headers demo_parsed = []"
proof -
  have "case consume_request (parser_reset new_parser) (render_head GET ''/'' ''HTTP/1.1'' [] @ [] @ []) of (n, q) \<Rightarrow>
     n = length (render_head GET ''/'' ''HTTP/1.1'' [] @ []) \<and>
     p_state q = Complete \<and> p_method q = GET \<and> p_target q = ''/'' \<and>
     p_path q = path_of ''/'' \<and> p_query q = query_of ''/'' \<and> p_version q = ''HTTP/1.1'' \<and>
     p_headers q = [] \<and> p_body q = []"
  proof (rule request_length_run)
    show "request_ok GET ''/'' ''HTTP/1.1'' []" by (simp add: request_ok_def target_ok_def)
    show "head_fits new_parser (length (render_head GET ''/'' ''HTTP/1.1'' []))"
      by (simp add: head_fits_def new_parser_def render_head_def)
    show "length_framed [] []" by (simp add: length_framed_def)
  qed (simp_all add: new_parser_def)
  then show ?thesis by (auto simp: demo_get_def demo_parsed_def path_of_def split: prod.splits)
qed

lemma demo_parses: "parses new_parser demo_get demo_parsed"
  using demo_run by (simp add: parses_def)

lemma demo_serves: "serve_one demo_cfg ''::1'' demo_parsed w = Some (demo_reply, w)"
proof -
  obtain rq where rq: "build_request ''::1'' demo_parsed = Some rq" "rq_method rq = GET" "rq_headers rq = []"
    "rq_version rq = ''HTTP/1.1''"
    using demo_run by (simp add: build_request_def Let_def)
  have r: "settle_response demo_response True NoThrow = demo_response" "rs_kind demo_response = Buffered"
    "rs_headers demo_response = [(H_ContentType, text_plain)]"
    by (simp_all add: settle_response_def demo_response_def res_send_def new_response_def res_set_header_def
        default_status_def Let_def hm_set_def)
  have "find_header [(H_ContentType, text_plain)] H_Connection = []" by code_simp
  with rq r have "\<not> wants_close rq demo_response" by (simp add: wants_close_def)
  with rq r show ?thesis
    by (simp add: serve_one_def demo_reply_def Let_def) (simp add: demo_cfg_def)
qed

lemma demo_between: "between (st_conn (demo_st io))"
  by (simp add: demo_st_def new_conn_def between_def demo_parser new_buffer_def buf_ok_def)

lemma demo_fields [simp]:
  "cn_parser (st_conn (demo_st io)) = new_parser" "cn_remote_ip (st_conn (demo_st io)) = ''::1''"
  "cn_wire (st_conn (demo_st io)) = []" "cn_out (st_conn (demo_st io)) = []" "cn_out_off (st_conn (demo_st io)) = 0"
  "buf_view (cn_in (st_conn (demo_st io))) = []" "cn_script (st_conn (demo_st io)) = io"
  by (simp_all add: demo_st_def new_conn_def demo_parser new_buffer_def buf_view_def)

section \<open>Properties\<close>

text \<open>C18: Pipelined requests are answered in order: whatever complete requests arrive in one
  readiness event, cut into reads in any way, each is handed to the application exactly once, in
  order, each in the world its predecessor left, and what goes out on the wire is exactly the
  concatenation of their responses; the connection is then again between two requests.\<close>

theorem pipelined_in_order:
  assumes "between (st_conn s)" "cn_out (st_conn s) = []" "cn_out_off (st_conn s) = 0" "buf_view (cn_in (st_conn s)) = []"
    and "list_all2 (parses (cn_parser (st_conn s))) ms qs" "concat segs = concat ms" "ms \<noteq> []"
    and "serve_all cfg (cn_remote_ip (st_conn s)) qs (st_world s) = Some (out, w')"
    and "cn_script (st_conn s) = IoOk n # sc" "length out \<le> n"
  shows "between (st_conn (on_readable fuel cfg (map RdOk segs) s)) \<and>
    st_world (on_readable fuel cfg (map RdOk segs) s) = w' \<and>
    cn_wire (st_conn (on_readable fuel cfg (map RdOk segs) s)) = cn_wire (st_conn s) @ out"
  using pipelined [OF assms] by simp

theorem pipelined_in_order_witness:
  "cn_wire (st_conn (on_readable 5 demo_cfg (map RdOk [demo_get @ ''G'', drop 1 demo_get])
     (demo_st [IoOk (length (demo_reply @ demo_reply))]))) = demo_reply @ demo_reply"
proof -
  let ?s = "demo_st [IoOk (length (demo_reply @ demo_reply))]"
  have g: "concat [demo_get @ ''G'', drop 1 demo_get] = concat [demo_get, demo_get]" by (simp add: demo_get_def render_head_def)
  have w: "serve_all demo_cfg (cn_remote_ip (st_conn ?s)) [demo_parsed, demo_parsed] (st_world ?s) =
      Some (demo_reply @ demo_reply, st_world ?s)" by (simp add: demo_serves)
  have p: "list_all2 (parses (cn_parser (st_conn ?s))) [demo_get, demo_get] [demo_parsed, demo_parsed]"
    by (simp add: demo_parses)
  show ?thesis
    using pipelined_in_order [OF demo_between _ _ _ p g _ w, of "length (demo_reply @ demo_reply)" "[]" 5] by simp
qed

text \<open>C19: The connection's invariant holds after every history: in every state a connection can reach
  through events, posted flushes, sweeps and the application's doings, as long as it is open, its
  buffers are well formed, its parser satisfies its own invariant and is not left in a finished
  state, an adopted session or channel goes with its phase, and such a connection has no deadline
  and closes when its stream ends.\<close>

theorem connection_invariant:
  "conn_reachable s \<Longrightarrow> cn_alive (st_conn s) \<Longrightarrow> conn_ok (st_conn s)"
  by (rule reachable_ok)

theorem connection_invariant_witness:
  "conn_ok (st_conn (upd_conn (\<lambda>c. c\<lparr>cn_script := []\<rparr>)
     \<lparr>st_world = st_world (demo_st []), st_conn = accept_conn 10 10 ''::1'' True demo_cfg\<rparr>))"
  by (rule connection_invariant [OF conn_reachable.step [OF conn_reachable.accepted conn_step.kernel]])
    (simp add: accept_conn_def new_conn_def Let_def)

text \<open>The mutual recursion of reading and flushing ends: on a reachable connection the number of
  buffered input bytes is enough fuel, and more changes nothing.\<close>

lemma flush_terminates:
  "conn_ok (st_conn s) \<Longrightarrow> cn_alive (st_conn s) \<Longrightarrow> buf_size (cn_in (st_conn s)) \<le> fuel \<Longrightarrow>
   flush_output fuel cfg s = flush_output (buf_size (cn_in (st_conn s))) cfg s"
  by (rule flush_output_fuel)

lemma flush_terminates_example:
  "flush_output 7 demo_cfg \<lparr>st_world = st_world (demo_st []), st_conn = accept_conn 10 10 ''::1'' False demo_cfg\<rparr> =
   flush_output 0 demo_cfg \<lparr>st_world = st_world (demo_st []), st_conn = accept_conn 10 10 ''::1'' False demo_cfg\<rparr>"
  using flush_terminates [of "\<lparr>st_world = st_world (demo_st []), st_conn = accept_conn 10 10 ''::1'' False demo_cfg\<rparr>" 7 demo_cfg]
    accept_conn_ok [of 10 10 "''::1''" False demo_cfg]
  by (simp add: accept_conn_def new_conn_def Let_def buf_size_def new_buffer_def)



text \<open>An idle or stalled connection does not live for ever: once its deadline has passed, it is gone
  after at most two sweeps the header timeout apart, whether or not the kernel takes the 408
  answer.\<close>

lemma expired_connection_closed:
  assumes "conn_ok (st_conn s)" "cn_alive (st_conn s)" "cn_deadline (st_conn s) = Some d" "d \<le> cf_now cfg"
    and "cf_now cfg + cf_header_timeout cfg \<le> cf_now cfg'"
  shows "\<not> cn_alive (st_conn (sweep fuel' cfg' (sweep fuel cfg s)))"
proof (cases "cn_in_request (st_conn s) \<and> cn_phase (st_conn s) = HttpPhase \<and> \<not> has_pending_output (st_conn s)")
  case True
  let ?s1 = "flush_output fuel cfg (upd_conn (queue_error_response cfg RequestTimeout []) s)"
  have e: "sweep fuel cfg s = (if cn_alive (st_conn ?s1)
      then upd_conn (\<lambda>c. c\<lparr>cn_deadline := Some (cf_now cfg + cf_header_timeout cfg)\<rparr>) ?s1 else ?s1)"
    using assms(2-4) True by (simp add: sweep_def Let_def)
  show ?thesis
  proof (cases "cn_alive (st_conn ?s1)")
    case alive: True
    have "has_pending_output (st_conn ?s1)"
      using flush_output_closing [OF _ _ alive] True by (simp add: queue_error_response_def plain_def)
    then have "has_pending_output ((st_conn ?s1)\<lparr>cn_deadline := Some (cf_now cfg + cf_header_timeout cfg)\<rparr>)"
      by (simp add: has_pending_output_def)
    then show ?thesis using e alive assms(5) by (simp add: sweep_def Let_def)
  next
    case False
    then have "\<not> cn_alive (st_conn (sweep fuel cfg s))" using e by simp
    then show ?thesis by (simp add: sweep_dead)
  qed
next
  case False
  then have "sweep fuel cfg s = close_conn cfg s" using assms(2-4) by (auto simp: sweep_def Let_def)
  then show ?thesis by (simp add: sweep_dead)
qed

lemma expired_connection_closed_example:
  "\<not> cn_alive (st_conn (sweep 0 (demo_cfg\<lparr>cf_now := 75000\<rparr>) (sweep 0 (demo_cfg\<lparr>cf_now := 60000\<rparr>)
     \<lparr>st_world = st_world (demo_st []), st_conn = accept_conn 10 10 ''::1'' False demo_cfg\<rparr>)))"
  by (rule expired_connection_closed [where d = 60000])
    (use accept_conn_ok [of 10 10 "''::1''" False demo_cfg] in
      \<open>simp_all add: demo_cfg_def accept_conn_def new_conn_def Let_def\<close>)

text \<open>Closing is final and happens once: a closed connection has released its session and its
  channel (both closed, silenced, nothing pending, close handlers notified), and closing it
  again changes nothing that the application can see: no handler is called twice.\<close>

lemma close_is_final:
  "st_world (close_conn cfg (close_conn cfg s)) = st_world (close_conn cfg s) \<and>
   \<not> cn_alive (st_conn (close_conn cfg s)) \<and> \<not> cn_token (st_conn (close_conn cfg s)) \<and>
   (case cn_sse (st_conn s) of None \<Rightarrow> True
    | Some a \<Rightarrow> (let x = wd_sse (st_world (close_conn cfg s)) a in ss_closed x \<and> \<not> ss_notify x \<and> ss_pending x = [])) \<and>
   (case cn_pulse (st_conn s) of None \<Rightarrow> True
    | Some a \<Rightarrow> (let x = pw_chans (wd_pulse (st_world (close_conn cfg s))) a
                in ch_closed x \<and> ch_close_fired x \<and> \<not> ch_notify x \<and> ch_pending x = []))"
  by (intro conjI close_twice close_conn_sse close_conn_pulse) (simp_all add: close_conn_def)

section \<open>Observations\<close>

text \<open>A client that shuts down its writing side after its request (\<open>EPOLLIN | EPOLLRDHUP\<close>) is
  dropped unread and unanswered, even with output pending, though \<open>on_readable_\<close> is written to
  keep flushing to such a peer.\<close>

lemma half_closed_client_dropped:
  "cn_alive (st_conn s) \<Longrightarrow> ep_rdhup bits \<Longrightarrow>
   \<not> cn_alive (st_conn (worker_event fuel cfg (loop_event_of bits) hs reads s)) \<and>
   cn_wire (st_conn (worker_event fuel cfg (loop_event_of bits) hs reads s)) = cn_wire (st_conn s)"
  by (simp add: worker_event_def loop_event_of_def close_conn_def)

text \<open>A parser that has failed stays failed: every later read on a connection whose error answer
  has not drained queues the answer again.\<close>

lemma error_answer_repeated:
  "p_state (cn_parser (st_conn s)) = Error \<Longrightarrow> parser_ok (cn_parser (st_conn s)) \<Longrightarrow>
   cn_out (st_conn (input_loop fuel cfg s)) = cn_out (st_conn s) @
     fst (serialize_response (cf_zlib cfg) (cf_date cfg) (cf_order cfg) (cf_compression cfg) empty_request
       (error_response (p_err_status (cn_parser (st_conn s))) (p_err_msg (cn_parser (st_conn s)))) False True)"
  by (simp add: input_loop_eq consume_input_def consume_run_bytes run_bytes_done parser_done_def
      queue_error_response_def emit_def Let_def split: prod.split)

end
