(* ===== verification/Cache.thy ===== *)
theory Cache
  imports Prelude
begin

text \<open>
  The TTL cache of \<open>include/socketify/cache.h\<close> and \<open>src/cache.cpp\<close>. The injectable clock is an
  argument \<open>now\<close> of every operation that reads it; a time point and a duration are \<open>int\<close>s in the
  clock's unit. Each method holds the mutex for its whole body, so it is one atomic step
  (\<open>size\<close> takes it twice and is modelled without an interleaved step).
\<close>

section \<open>Definitions\<close>

record cache_entry =
  ce_value :: string
  ce_has_expiry :: bool
  ce_expires_at :: int

definition entry_expired :: "cache_entry \<Rightarrow> int \<Rightarrow> bool" where
  "entry_expired e now \<longleftrightarrow> ce_has_expiry e \<and> now \<ge> ce_expires_at e"

record ttl_cache =
  ca_default_ttl :: int
  ca_map :: "(string \<times> cache_entry) list"

definition new_cache :: "int \<Rightarrow> ttl_cache" where
  "new_cache default_ttl = \<lparr>ca_default_ttl = default_ttl, ca_map = []\<rparr>"

definition cache_set :: "int \<Rightarrow> string \<Rightarrow> string \<Rightarrow> int \<Rightarrow> ttl_cache \<Rightarrow> ttl_cache" where
  "cache_set now key val ttl c =
     (let e = \<lparr>ce_value = val, ce_has_expiry = False, ce_expires_at = 0\<rparr>;
          effective = (if ttl > 0 then ttl else ca_default_ttl c);
          e = (if effective > 0 then e\<lparr>ce_has_expiry := True, ce_expires_at := now + effective\<rparr> else e)
      in c\<lparr>ca_map := kv_set (=) key e (ca_map c)\<rparr>)"

definition cache_get :: "int \<Rightarrow> string \<Rightarrow> ttl_cache \<Rightarrow> string option \<times> ttl_cache" where
  "cache_get now key c =
     (case kv_get (=) (ca_map c) key of
        None \<Rightarrow> (None, c)
      | Some e \<Rightarrow>
          if entry_expired e now then (None, c\<lparr>ca_map := kv_del (=) key (ca_map c)\<rparr>)
          else (Some (ce_value e), c))"

definition cache_contains :: "int \<Rightarrow> string \<Rightarrow> ttl_cache \<Rightarrow> bool \<times> ttl_cache" where
  "cache_contains now key c =
     (case kv_get (=) (ca_map c) key of
        None \<Rightarrow> (False, c)
      | Some e \<Rightarrow>
          if entry_expired e now then (False, c\<lparr>ca_map := kv_del (=) key (ca_map c)\<rparr>)
          else (True, c))"

definition cache_erase :: "string \<Rightarrow> ttl_cache \<Rightarrow> bool \<times> ttl_cache" where
  "cache_erase key c =
     (kv_get (=) (ca_map c) key \<noteq> None, c\<lparr>ca_map := kv_del (=) key (ca_map c)\<rparr>)"

definition cache_clear :: "ttl_cache \<Rightarrow> ttl_cache" where
  "cache_clear c = c\<lparr>ca_map := []\<rparr>"

text \<open>The loop of \<open>purge_expired\<close>: the entries that stay, and the number removed.\<close>

fun purge_entries :: "int \<Rightarrow> (string \<times> cache_entry) list \<Rightarrow> nat \<times> (string \<times> cache_entry) list" where
  "purge_entries now [] = (0, [])"
| "purge_entries now ((k, e) # m) =
     (case purge_entries now m of (removed, m') \<Rightarrow>
        if entry_expired e now then (Suc removed, m') else (removed, (k, e) # m'))"

definition cache_purge :: "int \<Rightarrow> ttl_cache \<Rightarrow> nat \<times> ttl_cache" where
  "cache_purge now c =
     (case purge_entries now (ca_map c) of (removed, m) \<Rightarrow> (removed, c\<lparr>ca_map := m\<rparr>))"

definition cache_size :: "int \<Rightarrow> ttl_cache \<Rightarrow> nat \<times> ttl_cache" where
  "cache_size now c = (let c = snd (cache_purge now c) in (length (ca_map c), c))"

text \<open>\<open>dump\<close> and \<open>parse\<close> are the JSON library's serializer and its parser without exceptions
  (\<open>None\<close> for a discarded document).\<close>

definition cache_set_json :: "('j \<Rightarrow> string) \<Rightarrow> int \<Rightarrow> string \<Rightarrow> 'j \<Rightarrow> int \<Rightarrow> ttl_cache \<Rightarrow> ttl_cache" where
  "cache_set_json dump now key j ttl c = cache_set now key (dump j) ttl c"

definition cache_get_json :: "(string \<Rightarrow> 'j option) \<Rightarrow> int \<Rightarrow> string \<Rightarrow> ttl_cache \<Rightarrow> 'j option \<times> ttl_cache" where
  "cache_get_json parse now key c =
     (case cache_get now key c of
        (None, c) \<Rightarrow> (None, c)
      | (Some s, c) \<Rightarrow> (parse s, c))"

section \<open>Histories\<close>

datatype cache_op =
    CSet string string int | CGet string | CContains string | CErase string | CClear | CSize | CPurge

datatype cache_answer = ANone | AValue "string option" | ABool bool | ACount nat

text \<open>One call at the clock's reading \<open>now\<close>; the results of \<open>erase\<close> and \<open>purge_expired\<close> depend on
  which expired entries happen to be reclaimed already, and are not part of the contract.\<close>

fun cache_step :: "int \<Rightarrow> cache_op \<Rightarrow> ttl_cache \<Rightarrow> cache_answer \<times> ttl_cache" where
  "cache_step now (CSet k v ttl) c = (ANone, cache_set now k v ttl c)"
| "cache_step now (CGet k) c = (case cache_get now k c of (r, c') \<Rightarrow> (AValue r, c'))"
| "cache_step now (CContains k) c = (case cache_contains now k c of (r, c') \<Rightarrow> (ABool r, c'))"
| "cache_step now (CErase k) c = (ANone, snd (cache_erase k c))"
| "cache_step now CClear c = (ANone, cache_clear c)"
| "cache_step now CSize c = (case cache_size now c of (r, c') \<Rightarrow> (ACount r, c'))"
| "cache_step now CPurge c = (ANone, snd (cache_purge now c))"

fun cache_run :: "(int \<times> cache_op) list \<Rightarrow> ttl_cache \<Rightarrow> cache_answer list" where
  "cache_run [] c = []"
| "cache_run ((now, x) # xs) c = (case cache_step now x c of (a, c') \<Rightarrow> a # cache_run xs c')"

text \<open>The specification: a map from keys to values with their time of death; nothing is ever
  reclaimed, an entry is simply not seen any more from its time of death on.\<close>

type_synonym cache_spec = "string \<rightharpoonup> string \<times> int option"

definition seen_at :: "int \<Rightarrow> cache_spec \<Rightarrow> string \<Rightarrow> string option" where
  "seen_at now m k =
     (case m k of
        None \<Rightarrow> None
      | Some (v, None) \<Rightarrow> Some v
      | Some (v, Some t) \<Rightarrow> if now < t then Some v else None)"

fun spec_step :: "int \<Rightarrow> int \<Rightarrow> cache_op \<Rightarrow> cache_spec \<Rightarrow> cache_answer \<times> cache_spec" where
  "spec_step dflt now (CSet k v ttl) m =
     (ANone, m(k \<mapsto> (v, if ttl > 0 then Some (now + ttl) else if dflt > 0 then Some (now + dflt) else None)))"
| "spec_step dflt now (CGet k) m = (AValue (seen_at now m k), m)"
| "spec_step dflt now (CContains k) m = (ABool (seen_at now m k \<noteq> None), m)"
| "spec_step dflt now (CErase k) m = (ANone, m(k := None))"
| "spec_step dflt now CClear m = (ANone, Map.empty)"
| "spec_step dflt now CSize m = (ACount (card {k. seen_at now m k \<noteq> None}), m)"
| "spec_step dflt now CPurge m = (ANone, m)"

fun spec_run :: "int \<Rightarrow> (int \<times> cache_op) list \<Rightarrow> cache_spec \<Rightarrow> cache_answer list" where
  "spec_run dflt [] m = []"
| "spec_run dflt ((now, x) # xs) m = (case spec_step dflt now x m of (a, m') \<Rightarrow> a # spec_run dflt xs m')"

section \<open>Refinement\<close>

definition entry_view :: "cache_entry \<Rightarrow> string \<times> int option" where
  "entry_view e = (ce_value e, if ce_has_expiry e then Some (ce_expires_at e) else None)"

text \<open>The concrete map agrees with the specification up to entries that are dead at \<open>now\<close>.\<close>

definition cache_rel :: "int \<Rightarrow> ttl_cache \<Rightarrow> cache_spec \<Rightarrow> bool" where
  "cache_rel now c m \<longleftrightarrow> kv_wf (=) (ca_map c) \<and>
     (\<forall>k. case kv_get (=) (ca_map c) k of
            Some e \<Rightarrow> m k = Some (entry_view e)
          | None \<Rightarrow> \<forall>t \<ge> now. seen_at t m k = None)"

lemma seen_at_entry: "m k = Some (entry_view e) \<Longrightarrow>
  seen_at t m k = (if entry_expired e t then None else Some (ce_value e))"
  by (simp add: seen_at_def entry_view_def entry_expired_def)

lemma seen_at_mono: "seen_at now m k = None \<Longrightarrow> now \<le> t \<Longrightarrow> seen_at t m k = None"
  by (auto simp: seen_at_def split: option.splits if_splits)

lemma cache_relI:
  assumes "kv_wf (=) (ca_map c)" "\<And>k e. kv_get (=) (ca_map c) k = Some e \<Longrightarrow> m k = Some (entry_view e)"
    and "\<And>k t. kv_get (=) (ca_map c) k = None \<Longrightarrow> now \<le> t \<Longrightarrow> seen_at t m k = None"
  shows "cache_rel now c m"
  using assms by (simp add: cache_rel_def split: option.splits)

lemma cache_relD:
  assumes "cache_rel now c m"
  shows "kv_wf (=) (ca_map c)" "\<And>k e. kv_get (=) (ca_map c) k = Some e \<Longrightarrow> m k = Some (entry_view e)"
    "\<And>k t. kv_get (=) (ca_map c) k = None \<Longrightarrow> now \<le> t \<Longrightarrow> seen_at t m k = None"
proof -
  have *: "case kv_get (=) (ca_map c) k of Some e \<Rightarrow> m k = Some (entry_view e) | None \<Rightarrow> \<forall>t \<ge> now. seen_at t m k = None" for k
    using assms by (simp add: cache_rel_def)
  show "m k = Some (entry_view e)" if "kv_get (=) (ca_map c) k = Some e" for k e using * [of k] that by simp
  show "seen_at t m k = None" if "kv_get (=) (ca_map c) k = None" "now \<le> t" for k t using * [of k] that by simp
  show "kv_wf (=) (ca_map c)" using assms by (simp add: cache_rel_def)
qed

lemma cache_rel_later: "cache_rel now c m \<Longrightarrow> now \<le> now' \<Longrightarrow> cache_rel now' c m"
  by (intro cache_relI) (auto intro: cache_relD(1,2) cache_relD(3) [of now])

lemma cache_rel_seen:
  assumes "cache_rel now c m"
  shows "seen_at now m k = (case kv_get (=) (ca_map c) k of None \<Rightarrow> None
    | Some e \<Rightarrow> if entry_expired e now then None else Some (ce_value e))"
  using cache_relD(2,3) [OF assms] by (auto simp: seen_at_entry split: option.split)

text \<open>Forgetting a dead entry keeps the relation.\<close>

lemma cache_rel_forget:
  assumes "cache_rel now c m" "kv_get (=) (ca_map c) k = Some e" "entry_expired e now"
  shows "cache_rel now (c\<lparr>ca_map := kv_del (=) k (ca_map c)\<rparr>) m"
proof -
  have "m k = Some (entry_view e)" using cache_relD(2) [OF assms(1,2)] .
  then have "seen_at now m k = None" using assms(3) by (simp add: seen_at_entry)
  then have "now \<le> t \<Longrightarrow> seen_at t m k = None" for t using seen_at_mono by blast
  then show ?thesis
    using cache_relD [OF assms(1)] by (intro cache_relI) (auto simp: pm.get_del pm.wf_del split: if_splits)
qed

lemma purge_entries_filter:
  "purge_entries now m = (length (filter (\<lambda>(k, e). entry_expired e now) m), filter (\<lambda>(k, e). \<not> entry_expired e now) m)"
  by (induction now m rule: purge_entries.induct) auto

lemma purge_size:
  assumes "cache_rel now c m"
  shows "length (ca_map (snd (cache_purge now c))) = card {k. seen_at now m k \<noteq> None}"
proof -
  have wf: "kv_wf (=) (ca_map c)" using assms by (simp add: cache_rel_def)
  let ?m = "ca_map (snd (cache_purge now c))"
  have p: "?m = filter (\<lambda>(k, e). \<not> entry_expired e now) (ca_map c)"
    by (simp add: cache_purge_def purge_entries_filter)
  then have "{k. kv_get (=) ?m k \<noteq> None} = {k. seen_at now m k \<noteq> None}"
    by (auto simp: cache_rel_seen [OF assms] get_filtered [OF wf] split: option.splits if_splits)
  with card_keys [OF wf_filtered [OF wf]] p show ?thesis by metis
qed

lemma purge_rel:
  assumes "cache_rel now c m"
  shows "cache_rel now (snd (cache_purge now c)) m"
proof -
  have wf: "kv_wf (=) (ca_map c)" using assms by (simp add: cache_rel_def)
  have "seen_at t m k = None" if "kv_get (=) (ca_map c) k = Some e" "entry_expired e now" "now \<le> t" for k e t
    using that by (intro seen_at_mono [of now m k t]) (simp_all add: cache_rel_seen [OF assms])
  then show ?thesis
    using cache_relD [OF assms] by (intro cache_relI)
      (auto simp: cache_purge_def purge_entries_filter get_filtered [OF wf] wf_filtered split: option.splits if_splits)
qed

lemma get_rel:
  assumes "cache_rel now c m"
  shows "fst (cache_get now k c) = seen_at now m k \<and> cache_rel now (snd (cache_get now k c)) m"
  using assms cache_rel_forget [OF assms]
  by (auto simp: cache_get_def cache_rel_seen [OF assms] split: option.splits)

lemma contains_get: "cache_contains now k c = map_prod (\<lambda>r. r \<noteq> None) id (cache_get now k c)"
  by (simp add: cache_contains_def cache_get_def split: option.splits)

lemma set_rel:
  assumes "cache_rel now c m"
  shows "cache_rel now (cache_set now k v ttl c) (snd (spec_step (ca_default_ttl c) now (CSet k v ttl) m))"
  using cache_relD [OF assms]
  by (intro cache_relI) (auto simp: cache_set_def Let_def pm.get_set pm.wf_set entry_view_def seen_at_def split: if_splits)

lemma erase_rel:
  assumes "cache_rel now c m"
  shows "cache_rel now (snd (cache_erase k c)) (m(k := None))"
proof -
  note d = cache_relD [OF assms]
  show ?thesis
  proof (rule cache_relI)
    show "seen_at t (m(k := None)) k' = None"
      if "kv_get (=) (ca_map (snd (cache_erase k c))) k' = None" "now \<le> t" for k' t
      using that d(3) [of k' t] by (auto simp: cache_erase_def pm.get_del [OF d(1)] seen_at_def split: if_splits)
  qed (use d in \<open>auto simp: cache_erase_def pm.get_del pm.wf_del split: if_splits\<close>)
qed

lemma cache_default_kept: "ca_default_ttl (snd (cache_step now x c)) = ca_default_ttl c"
  by (cases x) (simp_all add: cache_set_def cache_get_def cache_contains_def cache_erase_def cache_clear_def
      cache_size_def cache_purge_def Let_def split: option.splits prod.splits)

lemma cache_step_refines:
  assumes "cache_rel now c m"
  shows "fst (cache_step now x c) = fst (spec_step (ca_default_ttl c) now x m) \<and>
    cache_rel now (snd (cache_step now x c)) (snd (spec_step (ca_default_ttl c) now x m))"
proof (cases x)
  case (CSet k v ttl)
  then show ?thesis using set_rel [OF assms] by simp
next
  case (CGet k)
  then show ?thesis using get_rel [OF assms, of k] by (cases "cache_get now k c") simp
next
  case (CContains k)
  then show ?thesis using get_rel [OF assms, of k] by (cases "cache_get now k c") (simp add: contains_get)
next
  case (CErase k)
  then show ?thesis using erase_rel [OF assms] by simp
next
  case CClear
  then show ?thesis by (simp add: cache_clear_def cache_rel_def seen_at_def)
next
  case CSize
  then show ?thesis using purge_size [OF assms] purge_rel [OF assms] by (simp add: cache_size_def Let_def)
next
  case CPurge
  then show ?thesis using purge_rel [OF assms] by simp
qed

section \<open>Properties\<close>

text \<open>C26: The cache refines a map with times of death: over any history of calls with a clock that does
  not run backwards, the lazy reclaiming of expired entries (on access, by \<open>purge_expired\<close>, by
  \<open>size\<close>) is invisible; every lookup and every size is that of a map which never reclaims
  anything and merely hides what has died.\<close>

theorem cache_refines_mortal_map:
  assumes "sorted (map fst h)"
  shows "cache_run h (new_cache dflt) = spec_run dflt h Map.empty"
proof -
  have "cache_run h c = spec_run (ca_default_ttl c) h m"
    if "sorted (map fst h)" "\<forall>now \<in> set (map fst h). t \<le> now" "cache_rel t c m" for c m t
    using that
  proof (induction h arbitrary: c m t)
    case Nil
    then show ?case by simp
  next
    case (Cons e h)
    obtain now x where e: "e = (now, x)" by (cases e)
    have r: "cache_rel now c m" using Cons.prems e by (auto intro: cache_rel_later)
    note s = cache_step_refines [OF r, of x]
    have "cache_run h (snd (cache_step now x c)) =
        spec_run (ca_default_ttl (snd (cache_step now x c))) h (snd (spec_step (ca_default_ttl c) now x m))"
      using Cons.prems e s by (intro Cons.IH [of now]) auto
    then show ?case using s e
      by (cases "cache_step now x c"; cases "spec_step (ca_default_ttl c) now x m")
        (use cache_default_kept [of now x c] in simp)
  qed
  moreover have "\<exists>t. \<forall>now \<in> set (map fst h). t \<le> now"
    using assms by (cases h) auto
  moreover have "cache_rel t (new_cache dflt) Map.empty" for t
    by (simp add: cache_rel_def new_cache_def seen_at_def)
  moreover have "ca_default_ttl (new_cache dflt) = dflt" by (simp add: new_cache_def)
  ultimately show ?thesis using assms by metis
qed

theorem cache_refines_mortal_map_witness:
  "cache_run [(0, CSet ''k'' ''v'' 0), (5, CGet ''k''), (9, CSize), (10, CGet ''k''), (10, CSize)] (new_cache 10) =
   spec_run 10 [(0, CSet ''k'' ''v'' 0), (5, CGet ''k''), (9, CSize), (10, CGet ''k''), (10, CSize)] Map.empty"
  by (rule cache_refines_mortal_map) simp

section \<open>Observations\<close>

text \<open>What was stored as JSON comes back, as long as the library parses what it serializes.\<close>

lemma json_cached: "parse (dump j) = Some j \<Longrightarrow> 0 < ttl \<Longrightarrow> t < now + ttl \<Longrightarrow>
  fst (cache_get_json parse t k (cache_set_json dump now k j ttl c)) = Some j"
  by (simp add: cache_get_json_def cache_set_json_def cache_get_def cache_set_def Let_def pm.get_set entry_expired_def)

text \<open>\<open>erase\<close> reports an entry that has already died as existing, unless a lookup reclaimed it
  first.\<close>

lemma erase_sees_dead_entries:
  "fst (cache_erase ''k'' (cache_set 0 ''k'' ''v'' 10 (new_cache 0)))"
  "\<not> fst (cache_erase ''k'' (snd (cache_get 20 ''k'' (cache_set 0 ''k'' ''v'' 10 (new_cache 0)))))"
  by (simp_all add: cache_erase_def cache_get_def cache_set_def new_cache_def entry_expired_def)

end
