(* ===== verification/Sessions.thy ===== *)
theory Sessions
  imports Json Digest Base64 Router
begin

text \<open>
  Sessions: \<open>include/socketify/sessions.h\<close> and \<open>src/sessions.cpp\<close>. The session object is shared
  between the middleware and the handlers through an address kept in the request's locals; the
  heap of these objects, the session store, the clocks and the random ids are the middleware's
  part of the world. A custom \<open>Store\<close> is a record of operations with the contract of the locale
  \<open>session_store\<close>; \<open>MemoryStore\<close> is the one the repository provides. The JSON library is the
  argument \<open>J\<close>. Durations are seconds, the steady clock counts nanoseconds.
\<close>

section \<open>Session objects\<close>

record 'j session =
  sn_id :: string
  sn_data :: 'j
  sn_new :: bool
  sn_dirty :: bool
  sn_touched :: bool
  sn_destroyed :: bool
  sn_regenerated :: bool

definition make_session :: "'j json_api \<Rightarrow> string \<Rightarrow> 'j \<Rightarrow> bool \<Rightarrow> 'j session" where
  "make_session J sid data is_new =
     \<lparr>sn_id = sid, sn_data = (if js_is_object J data then data else js_object J), sn_new = is_new,
      sn_dirty = False, sn_touched = False, sn_destroyed = False, sn_regenerated = False\<rparr>"

definition session_has :: "'j json_api \<Rightarrow> string \<Rightarrow> 'j session \<Rightarrow> bool" where
  "session_has J key s = js_contains J (sn_data s) key"

definition session_get :: "'j json_api \<Rightarrow> string \<Rightarrow> 'j session \<Rightarrow> 'j" where
  "session_get J key s = (case js_find J (sn_data s) key of None \<Rightarrow> js_null J | Some v \<Rightarrow> v)"

text \<open>The data is always an object (the constructor sees to it), so \<open>operator[]\<close> does not throw.\<close>

definition session_set :: "'j json_api \<Rightarrow> string \<Rightarrow> 'j \<Rightarrow> 'j session \<Rightarrow> 'j session option" where
  "session_set J key v s =
     map_option (\<lambda>d. s\<lparr>sn_data := d, sn_dirty := True\<rparr>) (js_put J (sn_data s) key v)"

definition session_erase :: "'j json_api \<Rightarrow> string \<Rightarrow> 'j session \<Rightarrow> 'j session" where
  "session_erase J key s =
     (if js_contains J (sn_data s) key
      then s\<lparr>sn_data := js_del J (sn_data s) key, sn_dirty := True\<rparr> else s)"

definition session_clear :: "'j json_api \<Rightarrow> 'j session \<Rightarrow> 'j session" where
  "session_clear J s =
     (if \<not> js_is_empty J (sn_data s) then s\<lparr>sn_dirty := True\<rparr> else s)\<lparr>sn_data := js_object J\<rparr>"

definition session_destroy :: "'j session \<Rightarrow> 'j session" where
  "session_destroy s = s\<lparr>sn_destroyed := True\<rparr>"

definition session_touch :: "'j session \<Rightarrow> 'j session" where
  "session_touch s = s\<lparr>sn_touched := True\<rparr>"

definition session_regenerate :: "'j session \<Rightarrow> 'j session" where
  "session_regenerate s = s\<lparr>sn_regenerated := True, sn_dirty := True, sn_touched := True, sn_new := True\<rparr>"

section \<open>Stores\<close>

record ('s, 'j) store_ops =
  st_load :: "int \<Rightarrow> string \<Rightarrow> 's \<Rightarrow> 'j option \<times> 's"
  st_save :: "int \<Rightarrow> string \<Rightarrow> 'j \<Rightarrow> int \<Rightarrow> 's \<Rightarrow> 's"
  st_drop :: "string \<Rightarrow> 's \<Rightarrow> 's"

abbreviation nanos :: "int \<Rightarrow> int" where
  "nanos secs \<equiv> secs * 1000000000"

text \<open>\<open>MemoryStore\<close>: an entry is the data with its expiry.\<close>

type_synonym 'j mem_store = "(string \<times> 'j \<times> int) list"

definition mem_load :: "int \<Rightarrow> string \<Rightarrow> 'j mem_store \<Rightarrow> 'j option \<times> 'j mem_store" where
  "mem_load now sid m =
     (case kv_get (=) m sid of
        None \<Rightarrow> (None, m)
      | Some (data, expires) \<Rightarrow>
          if expires \<le> now then (None, kv_del (=) sid m) else (Some data, m))"

definition mem_prune :: "int \<Rightarrow> 'j mem_store \<Rightarrow> 'j mem_store" where
  "mem_prune now m =
     (if length m < 256 then m else filter (\<lambda>(k, data, expires). \<not> expires \<le> now) m)"

definition mem_save :: "int \<Rightarrow> string \<Rightarrow> 'j \<Rightarrow> int \<Rightarrow> 'j mem_store \<Rightarrow> 'j mem_store" where
  "mem_save now sid data ttl m = kv_set (=) sid (data, now + nanos ttl) (mem_prune now m)"

definition mem_destroy :: "string \<Rightarrow> 'j mem_store \<Rightarrow> 'j mem_store" where
  "mem_destroy sid m = kv_del (=) sid m"

definition mem_size :: "int \<Rightarrow> 'j mem_store \<Rightarrow> nat \<times> 'j mem_store" where
  "mem_size now m =
     (let m = mem_prune now m in (length (filter (\<lambda>(k, data, expires). expires > now) m), m))"

definition memory_store :: "('j mem_store, 'j) store_ops" where
  "memory_store = \<lparr>st_load = mem_load, st_save = mem_save, st_drop = mem_destroy\<rparr>"

section \<open>Signing and sealing\<close>

definition hmac_b64 :: "string \<Rightarrow> string \<Rightarrow> string" where
  "hmac_b64 secret msg = base64url_encode (hmac_sha256 secret msg)"

definition sign_id :: "string \<Rightarrow> string \<Rightarrow> string" where
  "sign_id secret sid = hmac_b64 secret sid"

text \<open>The empty string is the answer for a cookie that does not verify.\<close>

definition verify_id_cookie :: "string \<Rightarrow> string \<Rightarrow> string" where
  "verify_id_cookie secret cookie =
     (case rfind_char CHR ''.'' cookie of
        None \<Rightarrow> []
      | Some dot \<Rightarrow>
          if dot = 0 then []
          else (let sid = take dot cookie; sig = drop (Suc dot) cookie
                in if \<not> constant_time_equal sig (sign_id secret sid) then [] else sid))"

definition seal_payload :: "'j json_api \<Rightarrow> string \<Rightarrow> 'j \<Rightarrow> string option" where
  "seal_payload J secret data =
     (case js_dump J data of
        None \<Rightarrow> None
      | Some payload \<Rightarrow>
          (let body = base64url_encode payload in Some (body @ ''.'' @ hmac_b64 secret body)))"

definition unseal_payload :: "'j json_api \<Rightarrow> string \<Rightarrow> string \<Rightarrow> 'j option" where
  "unseal_payload J secret sealed =
     (case rfind_char CHR ''.'' sealed of
        None \<Rightarrow> None
      | Some dot \<Rightarrow>
          if dot = 0 then None
          else (let body = take dot sealed; sig = drop (Suc dot) sealed
                in if \<not> constant_time_equal sig (hmac_b64 secret body) then None
                   else (case base64url_decode body of
                           None \<Rightarrow> None
                         | Some raw \<Rightarrow>
                             (case js_parse J raw of
                                None \<Rightarrow> None
                              | Some j \<Rightarrow> if \<not> js_is_object J j then None else Some j))))"

definition bearer_token :: "request \<Rightarrow> string" where
  "bearer_token rq =
     (let auth = req_header rq ''Authorization''
      in if length auth > 7 \<and> iequal_ascii (take 7 auth) ''Bearer '' then trim_view (drop 7 auth)
         else if length auth > 7 \<and> istarts_with auth ''bearer '' then trim_view (drop 7 auth)
         else [])"

section \<open>JSON web tokens\<close>

definition b64_json :: "'j json_api \<Rightarrow> 'j \<Rightarrow> string option" where
  "b64_json J j = map_option base64url_encode (js_dump J j)"

text \<open>The claims with \<open>iat\<close> and \<open>exp\<close> added when missing; \<open>now\<close> is the system clock in seconds.\<close>

definition jwt_stamp :: "'j json_api \<Rightarrow> int \<Rightarrow> int \<Rightarrow> 'j \<Rightarrow> 'j option" where
  "jwt_stamp J now ttl claims =
     Option.bind (if js_contains J claims ''iat'' then Some claims else js_put J claims ''iat'' (js_of_int J now))
       (\<lambda>c. if js_contains J c ''exp'' then Some c else js_put J c ''exp'' (js_of_int J (now + ttl)))"

definition jwt_encode :: "'j json_api \<Rightarrow> string \<Rightarrow> int \<Rightarrow> int \<Rightarrow> 'j \<Rightarrow> string option" where
  "jwt_encode J secret now ttl claims =
     Option.bind (jwt_stamp J now ttl claims) (\<lambda>claims.
     Option.bind (Option.bind (js_put J (js_object J) ''alg'' (js_of_str J ''HS256''))
                    (\<lambda>h. js_put J h ''typ'' (js_of_str J ''JWT''))) (\<lambda>header.
     Option.bind (b64_json J header) (\<lambda>h.
     Option.bind (b64_json J claims) (\<lambda>p.
       (let signing_input = h @ ''.'' @ p
        in Some (signing_input @ ''.'' @ hmac_b64 secret signing_input))))))"

definition jwt_decode :: "'j json_api \<Rightarrow> string \<Rightarrow> int \<Rightarrow> string \<Rightarrow> 'j option" where
  "jwt_decode J secret now token =
     (case find_char CHR ''.'' token of
        None \<Rightarrow> None
      | Some d1 \<Rightarrow>
          (case find_char CHR ''.'' (drop (Suc d1) token) of
             None \<Rightarrow> None
           | Some n \<Rightarrow>
               (let h = take d1 token; p = take n (drop (Suc d1) token);
                    s = drop (Suc n) (drop (Suc d1) token)
                in if h = [] \<or> p = [] \<or> s = [] then None
                   else if \<not> constant_time_equal s (hmac_b64 secret (h @ ''.'' @ p)) then None
                   else (case base64url_decode p of
                           None \<Rightarrow> None
                         | Some raw \<Rightarrow>
                             (case js_parse J raw of
                                None \<Rightarrow> None
                              | Some claims \<Rightarrow>
                                  if \<not> js_is_object J claims then None
                                  else (case js_find J claims ''exp'' of
                                          None \<Rightarrow> Some claims
                                        | Some e \<Rightarrow>
                                            (case js_as_int J e of
                                               None \<Rightarrow> None
                                             | Some x \<Rightarrow> if now \<ge> x then None else Some claims)))))))"

section \<open>The middleware\<close>

datatype strategy = ServerStore | SignedCookie | JWT

datatype jwt_transport = TrCookie | TrBearer | TrBoth

record session_options =
  so_secret :: string
  so_strategy :: strategy
  so_cookie_name :: string
  so_ttl :: int
  so_rolling :: bool
  so_save_uninitialized :: bool
  so_secure :: bool
  so_http_only :: bool
  so_same_site :: same_site
  so_cookie_path :: string
  so_transport :: jwt_transport
  so_issuer :: string
  so_data_claim :: string

definition default_session_options :: "string \<Rightarrow> session_options" where
  "default_session_options secret =
     \<lparr>so_secret = secret, so_strategy = ServerStore, so_cookie_name = ''sid'', so_ttl = 86400,
      so_rolling = True, so_save_uninitialized = False, so_secure = False, so_http_only = True,
      so_same_site = Lax, so_cookie_path = ''/'', so_transport = TrBoth, so_issuer = [],
      so_data_claim = ''data''\<rparr>"

text \<open>The middleware's part of the world. \<open>sw_random n\<close> is the \<open>n\<close>-th token drawn from the system's
  random source (\<open>random_token(16)\<close>).\<close>

record ('s, 'j) session_world =
  sw_heap :: "nat \<Rightarrow> 'j session"
  sw_next :: nat
  sw_store :: 's
  sw_random :: "nat \<Rightarrow> string"
  sw_draws :: nat
  sw_steady :: int
  sw_system :: int

abbreviation kLocalKey :: string where
  "kLocalKey \<equiv> ''socketify.session''"

definition session_cookie :: "session_options \<Rightarrow> string \<Rightarrow> cookie" where
  "session_cookie opts v =
     (new_cookie (so_cookie_name opts) v)\<lparr>ck_path := so_cookie_path opts, ck_max_age := Some (so_ttl opts),
        ck_http_only := so_http_only opts, ck_secure := so_secure opts,
        ck_same_site := Some (so_same_site opts)\<rparr>"

definition set_session_cookie :: "session_options \<Rightarrow> string \<Rightarrow> response \<Rightarrow> response" where
  "set_session_cookie opts v r = res_set_cookie (cookie_to_string (session_cookie opts v)) r"

definition clear_session_cookie :: "session_options \<Rightarrow> response \<Rightarrow> response" where
  "clear_session_cookie opts r = res_clear_cookie (so_cookie_name opts) (so_cookie_path opts) r"

definition upd_ext :: "('e \<Rightarrow> 'e) \<Rightarrow> 'e ctx \<Rightarrow> 'e ctx" where
  "upd_ext f w = w\<lparr>cx_ext := f (cx_ext w)\<rparr>"

definition new_id :: "('s, 'j, 'x) session_world_scheme ctx \<Rightarrow> string \<times> ('s, 'j, 'x) session_world_scheme ctx" where
  "new_id w = (sw_random (cx_ext w) (sw_draws (cx_ext w)), upd_ext (\<lambda>e. e\<lparr>sw_draws := Suc (sw_draws e)\<rparr>) w)"

text \<open>The session data of a token's claims: the data claim when it is an object, else the
  non-standard claims.\<close>

definition claims_data :: "'j json_api \<Rightarrow> session_options \<Rightarrow> 'j \<Rightarrow> 'j" where
  "claims_data J opts claims =
     (let flat = fold (\<lambda>(k, v) d. case js_put J d k v of None \<Rightarrow> d | Some d' \<Rightarrow> d')
                   (filter (\<lambda>(k, v). k \<notin> {''iat'', ''exp'', ''iss'', ''nbf'', ''jti''}) (js_items J claims)) (js_object J)
      in case js_find J claims (so_data_claim opts) of
           Some d \<Rightarrow> if js_is_object J d then d else flat
         | None \<Rightarrow> flat)"

definition claims_id :: "'j json_api \<Rightarrow> 'j \<Rightarrow> string option" where
  "claims_id J claims = Option.bind (js_find J claims ''jti'') (js_as_str J)"

definition session_token :: "session_options \<Rightarrow> request \<Rightarrow> string" where
  "session_token opts rq =
     (let tok = (if so_transport opts = TrBearer \<or> so_transport opts = TrBoth then bearer_token rq else [])
      in if tok = [] \<and> (so_transport opts = TrCookie \<or> so_transport opts = TrBoth)
         then req_cookie rq (so_cookie_name opts) else tok)"

text \<open>The part before \<open>next()\<close>: the session that the request's cookie or token names, if any.\<close>

definition session_load :: "'j json_api \<Rightarrow> ('s, 'j) store_ops \<Rightarrow> session_options \<Rightarrow>
    ('s, 'j, 'x) session_world_scheme ctx \<Rightarrow> 'j session option \<times> ('s, 'j, 'x) session_world_scheme ctx" where
  "session_load J st opts w =
     (case so_strategy opts of
        ServerStore \<Rightarrow>
          (let raw = req_cookie (cx_req w) (so_cookie_name opts);
               sid = verify_id_cookie (so_secret opts) raw
           in if raw = [] \<or> sid = [] then (None, w)
              else (case st_load st (sw_steady (cx_ext w)) sid (sw_store (cx_ext w)) of
                      (d, store) \<Rightarrow>
                        (map_option (\<lambda>data. make_session J sid data False) d,
                         upd_ext (\<lambda>e. e\<lparr>sw_store := store\<rparr>) w)))
      | SignedCookie \<Rightarrow>
          (let raw = req_cookie (cx_req w) (so_cookie_name opts)
           in if raw = [] then (None, w)
              else (case unseal_payload J (so_secret opts) raw of
                      None \<Rightarrow> (None, w)
                    | Some data \<Rightarrow> (case new_id w of (sid, w') \<Rightarrow> (Some (make_session J sid data False), w'))))
      | JWT \<Rightarrow>
          (let token = session_token opts (cx_req w)
           in if token = [] then (None, w)
              else (case jwt_decode J (so_secret opts) (sw_system (cx_ext w)) token of
                      None \<Rightarrow> (None, w)
                    | Some claims \<Rightarrow>
                        (let data = claims_data J opts claims
                         in case claims_id J claims of
                              Some sid \<Rightarrow> (Some (make_session J sid data False), w)
                            | None \<Rightarrow> (case new_id w of (sid, w') \<Rightarrow> (Some (make_session J sid data False), w'))))))"

text \<open>A fresh session when there is none; the object is allocated and its address attached.\<close>

definition session_attach :: "'j json_api \<Rightarrow> ('s, 'j) store_ops \<Rightarrow> session_options \<Rightarrow>
    ('s, 'j, 'x) session_world_scheme ctx \<Rightarrow> nat \<times> ('s, 'j, 'x) session_world_scheme ctx" where
  "session_attach J st opts w =
     (let (found, w) = session_load J st opts w;
          (sess, w) = (case found of
                         Some s \<Rightarrow> (s, w)
                       | None \<Rightarrow> (case new_id w of (sid, w') \<Rightarrow> (make_session J sid (js_object J) True, w')));
          a = sw_next (cx_ext w);
          w = upd_ext (\<lambda>e. e\<lparr>sw_heap := (sw_heap e)(a := sess), sw_next := Suc a\<rparr>) w
      in (a, w\<lparr>cx_req := req_set_local kLocalKey a (cx_req w)\<rparr>))"

definition should_persist :: "'j json_api \<Rightarrow> session_options \<Rightarrow> 'j session \<Rightarrow> bool" where
  "should_persist J opts s =
     (let has_data = \<not> js_is_empty J (sn_data s)
      in (sn_dirty s \<or> sn_regenerated s \<or> (so_rolling opts \<and> \<not> sn_new s) \<or>
          (so_save_uninitialized opts \<and> sn_new s) \<or> (sn_new s \<and> has_data) \<or> sn_touched s)
         \<and> \<not> (sn_new s \<and> \<not> has_data \<and> \<not> so_save_uninitialized opts \<and> \<not> sn_regenerated s))"

text \<open>The claims of a session's token; \<open>None\<close> when the library throws.\<close>

definition session_claims :: "'j json_api \<Rightarrow> session_options \<Rightarrow> 'j session \<Rightarrow> 'j option" where
  "session_claims J opts s =
     Option.bind (js_put J (js_object J) ''jti'' (js_of_str J (sn_id s))) (\<lambda>c.
     Option.bind (js_put J c (so_data_claim opts) (sn_data s)) (\<lambda>c.
     if so_issuer opts \<noteq> [] then js_put J c ''iss'' (js_of_str J (so_issuer opts)) else Some c))"

definition expose_token :: "session_options \<Rightarrow> string \<Rightarrow> response \<Rightarrow> response" where
  "expose_token opts token r =
     (let r = (if so_transport opts = TrCookie \<or> so_transport opts = TrBoth then set_session_cookie opts token r else r)
      in if so_transport opts = TrBearer \<or> so_transport opts = TrBoth then res_set_header ''X-Access-Token'' token r else r)"

definition session_save :: "'j json_api \<Rightarrow> ('s, 'j) store_ops \<Rightarrow> session_options \<Rightarrow> 'j session \<Rightarrow>
    ('s, 'j, 'x) session_world_scheme ctx \<Rightarrow> ('s, 'j, 'x) session_world_scheme ctx prog" where
  "session_save J st opts s w =
     (case so_strategy opts of
        ServerStore \<Rightarrow>
          (let w = upd_ext (\<lambda>e. e\<lparr>sw_store := st_save st (sw_steady e) (sn_id s) (sn_data s) (so_ttl opts) (sw_store e)\<rparr>) w
           in Ret (upd_res (set_session_cookie opts (sn_id s @ ''.'' @ sign_id (so_secret opts) (sn_id s))) w))
      | SignedCookie \<Rightarrow>
          (case seal_payload J (so_secret opts) (sn_data s) of
             None \<Rightarrow> Throw ''json'' w
           | Some v \<Rightarrow> Ret (upd_res (set_session_cookie opts v) w))
      | JWT \<Rightarrow>
          (case Option.bind (session_claims J opts s)
                  (jwt_encode J (so_secret opts) (sw_system (cx_ext w)) (so_ttl opts)) of
             None \<Rightarrow> Throw ''json'' w
           | Some token \<Rightarrow> Ret (upd_res (expose_token opts token) w)))"

text \<open>The part after \<open>next()\<close>, for the session object at address \<open>a\<close>.\<close>

definition session_persist :: "'j json_api \<Rightarrow> ('s, 'j) store_ops \<Rightarrow> session_options \<Rightarrow> nat \<Rightarrow>
    ('s, 'j, 'x) session_world_scheme ctx \<Rightarrow> ('s, 'j, 'x) session_world_scheme ctx prog" where
  "session_persist J st opts a w =
     (let s = sw_heap (cx_ext w) a
      in if sn_destroyed s then
           (let w = (if so_strategy opts = ServerStore
                     then upd_ext (\<lambda>e. e\<lparr>sw_store := st_drop st (sn_id s) (sw_store e)\<rparr>) w else w);
                w = (if so_strategy opts \<noteq> JWT \<or> so_transport opts \<noteq> TrBearer
                     then upd_res (clear_session_cookie opts) w else w);
                w = (if so_strategy opts = JWT \<and> so_transport opts = TrBoth
                     then upd_res (clear_session_cookie opts) w else w)
            in Ret w)
         else
           (let (s, w) =
                  (if sn_regenerated s \<and> so_strategy opts = ServerStore then
                     (case new_id w of (sid, w) \<Rightarrow>
                        (let s' = s\<lparr>sn_id := sid\<rparr>
                         in (s', upd_ext (\<lambda>e. e\<lparr>sw_heap := (sw_heap e)(a := s'),
                                 sw_store := (if sn_id s \<noteq> [] then st_drop st (sn_id s) (sw_store e) else sw_store e)\<rparr>) w)))
                   else (s, w))
            in if should_persist J opts s then session_save J st opts s w else Ret w))"

definition session_mware :: "'j json_api \<Rightarrow> ('s, 'j) store_ops \<Rightarrow> session_options \<Rightarrow>
    ('s, 'j, 'x) session_world_scheme ctx mware" where
  "session_mware J st opts w =
     (case session_attach J st opts w of (a, w) \<Rightarrow>
        Next w (\<lambda>w e. case e of Some x \<Rightarrow> Throw x w | None \<Rightarrow> session_persist J st opts a w))"

text \<open>\<open>sessions::middleware\<close>: an empty secret is refused when the middleware is made.\<close>

definition session_middleware :: "'j json_api \<Rightarrow> ('s, 'j) store_ops \<Rightarrow> session_options \<Rightarrow>
    string + (('s, 'j, 'x) session_world_scheme ctx mware)" where
  "session_middleware J st opts =
     (if so_secret opts = [] then Inl ''sessions::Options::secret must not be empty''
      else Inr (session_mware J st opts))"

text \<open>\<open>sessions::get\<close>: the address of the request's session object.\<close>

definition session_of :: "request \<Rightarrow> nat option" where
  "session_of rq = req_local rq kLocalKey"

section \<open>The contract of a store\<close>

datatype 'j store_call = SLoad int string | SSave int string 'j int | SDrop string

fun run_call :: "('s, 'j) store_ops \<Rightarrow> 'j store_call \<Rightarrow> 's \<Rightarrow> 's" where
  "run_call st (SLoad t k) s = snd (st_load st t k s)"
| "run_call st (SSave t k d ttl) s = st_save st t k d ttl s"
| "run_call st (SDrop k) s = st_drop st k s"

text \<open>Calls up to the time \<open>t'\<close> that neither save nor drop the id \<open>k\<close>.\<close>

fun leaves_alone :: "int \<Rightarrow> string \<Rightarrow> 'j store_call \<Rightarrow> bool" where
  "leaves_alone t' k (SLoad t _) = (t \<le> t')"
| "leaves_alone t' k (SSave t k' d ttl) = (t \<le> t' \<and> k' \<noteq> k)"
| "leaves_alone t' k (SDrop k') = (k' \<noteq> k)"

locale session_store =
  fixes st :: "('s, 'j) store_ops" and ok :: "'s \<Rightarrow> bool"
  assumes ok_load: "ok s \<Longrightarrow> ok (snd (st_load st t k s))"
    and ok_save: "ok s \<Longrightarrow> ok (st_save st t k d ttl s)"
    and ok_drop: "ok s \<Longrightarrow> ok (st_drop st k s)"
    and load_save: "ok s \<Longrightarrow> t' < t + nanos ttl \<Longrightarrow> fst (st_load st t' k (st_save st t k d ttl s)) = Some d"
    and load_save_other: "ok s \<Longrightarrow> k \<noteq> k' \<Longrightarrow> t \<le> t' \<Longrightarrow>
      fst (st_load st t' k' (st_save st t k d ttl s)) = fst (st_load st t' k' s)"
    and load_drop: "ok s \<Longrightarrow> fst (st_load st t k (st_drop st k s)) = None"
    and load_drop_other: "ok s \<Longrightarrow> k \<noteq> k' \<Longrightarrow> fst (st_load st t k' (st_drop st k s)) = fst (st_load st t k' s)"
    and load_load: "ok s \<Longrightarrow> t \<le> t' \<Longrightarrow> fst (st_load st t' k' (snd (st_load st t k s))) = fst (st_load st t' k' s)"
begin

lemma ok_call: "ok s \<Longrightarrow> ok (run_call st c s)"
  by (cases c) (simp_all add: ok_load ok_save ok_drop)

lemma call_other: "ok s \<Longrightarrow> leaves_alone t' k c \<Longrightarrow> fst (st_load st t' k (run_call st c s)) = fst (st_load st t' k s)"
  by (cases c) (simp_all add: load_load load_save_other load_drop_other)

lemma calls_other:
  "ok s \<Longrightarrow> list_all (leaves_alone t' k) cs \<Longrightarrow> fst (st_load st t' k (fold (run_call st) cs s)) = fst (st_load st t' k s)"
  by (induction cs arbitrary: s) (simp_all add: ok_call call_other)

lemma survives:
  "ok s \<Longrightarrow> list_all (leaves_alone t' k) cs \<Longrightarrow> t' < t + nanos ttl \<Longrightarrow>
   fst (st_load st t' k (fold (run_call st) cs (st_save st t k d ttl s))) = Some d"
  by (simp add: calls_other ok_save load_save)

lemma stays_dropped:
  "ok s \<Longrightarrow> list_all (leaves_alone t' k) cs \<Longrightarrow> k \<noteq> k' \<Longrightarrow> t \<le> t' \<Longrightarrow>
   fst (st_load st t' k (fold (run_call st) cs (st_save st t k' d ttl (st_drop st k s)))) = None"
  by (simp add: calls_other ok_save ok_drop load_save_other load_drop)

end

lemma mem_prune_ok: "kv_wf (=) m \<Longrightarrow> kv_wf (=) (mem_prune now m)"
  unfolding mem_prune_def by (simp add: wf_filtered)

lemma mem_prune_get: "kv_wf (=) m \<Longrightarrow> kv_get (=) (mem_prune now m) k =
  (if length m < 256 then kv_get (=) m k
   else case kv_get (=) m k of None \<Rightarrow> None | Some (d, e) \<Rightarrow> if e \<le> now then None else Some (d, e))"
  by (auto simp: mem_prune_def get_filtered split: option.splits)

lemma mem_load_fst: "fst (mem_load now k m) =
  (case kv_get (=) m k of None \<Rightarrow> None | Some (d, e) \<Rightarrow> if e \<le> now then None else Some d)"
  by (simp add: mem_load_def split: option.split prod.split)

interpretation mem: session_store memory_store "kv_wf (=)"
proof
  fix s :: "'a mem_store" and t t' k k' d ttl
  assume wf: "kv_wf (=) s"
  show "kv_wf (=) (snd (st_load memory_store t k s))"
    using wf by (simp add: memory_store_def mem_load_def pm.wf_del split: option.split prod.split)
  show "kv_wf (=) (st_save memory_store t k d ttl s)"
    using wf by (simp add: memory_store_def mem_save_def pm.wf_set mem_prune_ok)
  show "kv_wf (=) (st_drop memory_store k s)"
    using wf by (simp add: memory_store_def mem_destroy_def pm.wf_del)
  show "fst (st_load memory_store t k (st_drop memory_store k s)) = None"
    using wf by (simp add: memory_store_def mem_destroy_def mem_load_fst pm.get_del)
  show "fst (st_load memory_store t' k (st_save memory_store t k d ttl s)) = Some d" if "t' < t + nanos ttl"
    using that by (simp add: memory_store_def mem_save_def mem_load_fst pm.get_set)
  show "fst (st_load memory_store t' k' (st_save memory_store t k d ttl s)) = fst (st_load memory_store t' k' s)"
    if "k \<noteq> k'" "t \<le> t'"
    using that
    by (cases "kv_get (=) s k'") (auto simp: memory_store_def mem_save_def mem_load_fst pm.get_set mem_prune_get [OF wf])
  show "fst (st_load memory_store t k' (st_drop memory_store k s)) = fst (st_load memory_store t k' s)" if "k \<noteq> k'"
    using wf that by (simp add: memory_store_def mem_destroy_def mem_load_fst pm.get_del)
  show "fst (st_load memory_store t' k' (snd (st_load memory_store t k s))) = fst (st_load memory_store t' k' s)" if "t \<le> t'"
    using wf that by (auto simp: memory_store_def mem_load_fst mem_load_def pm.get_del split: option.splits prod.splits)
qed

section \<open>Lemmas\<close>

lemma hmac_b64_no_dot: "CHR ''.'' \<notin> set (hmac_b64 secret msg)"
  by (simp add: hmac_b64_def base64url_no_dot)

lemma verify_id_cookie_sound:
  assumes "verify_id_cookie secret v = k" "k \<noteq> []"
  shows "v = k @ ''.'' @ hmac_b64 secret k"
  using assms rfind_char_split [of "CHR ''.''" v]
  by (auto simp: verify_id_cookie_def sign_id_def constant_time_equal_iff Let_def split: option.splits if_splits)

lemma verify_id_cookie_signed: "k \<noteq> [] \<Longrightarrow> verify_id_cookie secret (k @ ''.'' @ sign_id secret k) = k"
  by (simp add: verify_id_cookie_def sign_id_def rfind_char_append_hit hmac_b64_no_dot constant_time_equal_iff)

lemma unseal_sound:
  assumes "unseal_payload J secret v = Some j"
  shows "\<exists>body. v = body @ ''.'' @ hmac_b64 secret body \<and> Option.bind (base64url_decode body) (js_parse J) = Some j"
  using assms rfind_char_split [of "CHR ''.''" v]
  by (auto simp: unseal_payload_def constant_time_equal_iff Let_def split: option.splits if_splits)

lemma base64url_nonempty: "s \<noteq> [] \<Longrightarrow> base64url_encode s \<noteq> []"
proof
  assume "s \<noteq> []" "base64url_encode s = []"
  then have "Some s = base64url_decode []" using base64url_decode_encode [of s] by simp
  then show False using \<open>s \<noteq> []\<close> by (simp add: base64url_decode_def)
qed

lemma unseal_seal:
  assumes "js_dump J d = Some p" "p \<noteq> []" "js_parse J p = Some d'" "js_is_object J d'"
  shows "\<exists>v. seal_payload J secret d = Some v \<and> unseal_payload J secret v = Some d'"
  using assms
  by (simp add: seal_payload_def unseal_payload_def Let_def rfind_char_append_hit hmac_b64_no_dot base64url_nonempty
      constant_time_equal_iff base64url_decode_encode)

lemma hmac_b64_nonempty: "hmac_b64 secret msg \<noteq> []"
proof -
  have "hmac_sha256 secret msg \<noteq> []" using length_hmac [of secret msg] by fastforce
  then show ?thesis by (simp add: hmac_b64_def base64url_nonempty)
qed

lemma jwt_decode_parts:
  assumes "CHR ''.'' \<notin> set h" "CHR ''.'' \<notin> set p" "h \<noteq> []" "p \<noteq> []"
  shows "jwt_decode J secret now (h @ ''.'' @ p @ ''.'' @ s) =
    (if s = hmac_b64 secret (h @ ''.'' @ p) then
       Option.bind (Option.bind (base64url_decode p) (js_parse J)) (\<lambda>c.
         if js_is_object J c \<and> (\<forall>e. js_find J c ''exp'' = Some e \<longrightarrow> (\<exists>x. js_as_int J e = Some x \<and> now < x))
         then Some c else None) else None)"
proof -
  have f: "find_char CHR ''.'' (h @ ''.'' @ p @ ''.'' @ s) = Some (length h)" "find_char CHR ''.'' (p @ ''.'' @ s) = Some (length p)"
    using find_char_append_hit [of "CHR ''.''" h "p @ ''.'' @ s"] find_char_append_hit [of "CHR ''.''" p s] assms by simp_all
  have d: "drop (Suc (length h)) (h @ ''.'' @ p @ ''.'' @ s) = p @ ''.'' @ s"
    "take (length h) (h @ ''.'' @ p @ ''.'' @ s) = h" "take (length p) (p @ ''.'' @ s) = p"
    "drop (Suc (length p)) (p @ ''.'' @ s) = s" by simp_all
  show ?thesis
    unfolding jwt_decode_def f d option.case Let_def constant_time_equal_iff
    using hmac_b64_nonempty [of secret "h @ ''.'' @ p"] assms(3,4)
    by (simp split: option.split)
qed

lemma jwt_decode_sound:
  assumes "jwt_decode J secret now v = Some c"
  shows "\<exists>h p. v = h @ ''.'' @ p @ ''.'' @ hmac_b64 secret (h @ ''.'' @ p) \<and>
    Option.bind (base64url_decode p) (js_parse J) = Some c \<and> js_is_object J c \<and>
    (\<forall>e. js_find J c ''exp'' = Some e \<longrightarrow> (\<exists>x. js_as_int J e = Some x \<and> now < x))"
proof -
  obtain d1 where d1: "find_char CHR ''.'' v = Some d1" using assms by (auto simp: jwt_decode_def split: option.splits)
  obtain n where n: "find_char CHR ''.'' (drop (Suc d1) v) = Some n"
    using assms d1 by (auto simp: jwt_decode_def split: option.splits)
  let ?h = "take d1 v" and ?p = "take n (drop (Suc d1) v)" and ?s = "drop (Suc n) (drop (Suc d1) v)"
  have v: "v = ?h @ ''.'' @ ?p @ ''.'' @ ?s"
    using find_char_split [OF d1] find_char_split [OF n] by (metis append_Cons append_Nil)
  have hp: "CHR ''.'' \<notin> set ?h" "CHR ''.'' \<notin> set ?p" using d1 n by (simp_all add: find_char_Some_iff)
  have ne: "?h \<noteq> []" "?p \<noteq> []" using assms d1 n by (auto simp: jwt_decode_def Let_def split: if_splits)
  have "jwt_decode J secret now (?h @ ''.'' @ ?p @ ''.'' @ ?s) = Some c" using assms v by simp
  then show ?thesis unfolding jwt_decode_parts [OF hp ne]
    using v by (auto split: if_splits simp: bind_eq_Some_conv)
qed

text \<open>What the part after \<open>next()\<close> does with a session that is kept in the store.\<close>

lemma persist_server_store:
  fixes w :: "('s, 'j, 'x) session_world_scheme ctx"
  assumes "so_strategy opts = ServerStore" "s = sw_heap (cx_ext w) a" "\<not> sn_destroyed s" "should_persist J opts s"
    and "sid = (if sn_regenerated s then sw_random (cx_ext w) (sw_draws (cx_ext w)) else sn_id s)"
    and "old = (if sn_regenerated s \<and> sn_id s \<noteq> [] then st_drop st (sn_id s) (sw_store (cx_ext w)) else sw_store (cx_ext w))"
  shows "\<exists>w'. session_persist J st opts a w = Ret w' \<and>
    rs_set_cookies (cx_res w') = rs_set_cookies (cx_res w) @
      [cookie_to_string (session_cookie opts (sid @ ''.'' @ sign_id (so_secret opts) sid))] \<and>
    sw_store (cx_ext w') = st_save st (sw_steady (cx_ext w)) sid (sn_data s) (so_ttl opts) old"
proof -
  have "should_persist J opts (s\<lparr>sn_id := x\<rparr>) = should_persist J opts s" for x by (simp add: should_persist_def)
  then show ?thesis using assms
    by (cases "sn_regenerated s")
      (simp_all add: session_persist_def session_save_def new_id_def upd_ext_def upd_res_def set_session_cookie_def
        res_set_cookie_def Let_def)
qed

lemma load_server_store:
  assumes "so_strategy opts = ServerStore" "sid \<noteq> []"
    and "req_cookie (cx_req w) (so_cookie_name opts) = sid @ ''.'' @ sign_id (so_secret opts) sid"
  shows "fst (session_load J st opts w) =
    map_option (\<lambda>d. make_session J sid d False) (fst (st_load st (sw_steady (cx_ext w)) sid (sw_store (cx_ext w))))"
  using assms verify_id_cookie_signed [OF assms(2), of "so_secret opts"]
  by (simp add: session_load_def Let_def split: prod.split)

lemma should_persist_claims:
  assumes "json_object_laws J" "so_data_claim opts \<notin> {''jti'', ''iat'', ''exp'', ''iss''}"
  shows "\<exists>c. session_claims J opts s = Some c \<and> js_is_object J c \<and> js_find J c ''jti'' = Some (js_of_str J (sn_id s)) \<and>
    js_find J c (so_data_claim opts) = Some (sn_data s) \<and> js_find J c ''exp'' = None \<and> js_find J c ''iat'' = None"
proof -
  have e: "js_is_object J (js_object J)" "\<And>k. js_find J (js_object J) k = None" using assms(1) by (auto simp: json_object_laws_def)
  obtain c1 where c1: "js_put J (js_object J) ''jti'' (js_of_str J (sn_id s)) = Some c1" "js_is_object J c1"
    "\<And>k. js_find J c1 k = (if k = ''jti'' then Some (js_of_str J (sn_id s)) else None)"
    using js_put_object [OF assms(1) e(1)] e(2) by metis
  obtain c2 where c2: "js_put J c1 (so_data_claim opts) (sn_data s) = Some c2" "js_is_object J c2"
    "\<And>k. js_find J c2 k = (if k = so_data_claim opts then Some (sn_data s) else js_find J c1 k)"
    using js_put_object [OF assms(1) c1(2)] by metis
  obtain c3 where c3: "js_put J c2 ''iss'' (js_of_str J (so_issuer opts)) = Some c3" "js_is_object J c3"
    "\<And>k. js_find J c3 k = (if k = ''iss'' then Some (js_of_str J (so_issuer opts)) else js_find J c2 k)"
    using js_put_object [OF assms(1) c2(2)] by metis
  show ?thesis using c1 c2 c3 assms(2) by (auto simp: session_claims_def)
qed

text \<open>A stamped token is accepted until it expires, with the claims that were encoded.\<close>

lemma jwt_stamp_fresh:
  assumes J: "json_object_laws J" and c: "js_is_object J c" "js_find J c ''iat'' = None" "js_find J c ''exp'' = None"
  shows "\<exists>c2. jwt_stamp J now ttl c = Some c2 \<and> js_is_object J c2 \<and>
    js_find J c2 ''exp'' = Some (js_of_int J (now + ttl)) \<and> (\<forall>k. k \<notin> {''iat'', ''exp''} \<longrightarrow> js_find J c2 k = js_find J c k)"
proof -
  obtain c1 where c1: "js_put J c ''iat'' (js_of_int J now) = Some c1" "js_is_object J c1"
    "\<And>k. js_find J c1 k = (if k = ''iat'' then Some (js_of_int J now) else js_find J c k)"
    using js_put_object [OF J c(1)] by metis
  obtain c2 where c2: "js_put J c1 ''exp'' (js_of_int J (now + ttl)) = Some c2" "js_is_object J c2"
    "\<And>k. js_find J c2 k = (if k = ''exp'' then Some (js_of_int J (now + ttl)) else js_find J c1 k)"
    using js_put_object [OF J c1(2)] by metis
  show ?thesis using c c1 c2 by (simp add: jwt_stamp_def js_contains_def)
qed

lemma jwt_decode_encode:
  assumes tok: "jwt_encode J secret now ttl c = Some tok" "jwt_stamp J now ttl c = Some c2"
    and lib: "\<And>j p. js_dump J j = Some p \<Longrightarrow> p \<noteq> []" "\<And>p. js_dump J c2 = Some p \<Longrightarrow> js_parse J p = Some c2"
    and c2: "js_is_object J c2" "js_find J c2 ''exp'' = Some e" "js_as_int J e = Some x" "now' < x"
  shows "jwt_decode J secret now' tok = Some c2"
proof -
  obtain h hp cp where h: "js_dump J h = Some hp" and cp: "js_dump J c2 = Some cp"
    and t: "tok = base64url_encode hp @ ''.'' @ base64url_encode cp @ ''.'' @
      hmac_b64 secret (base64url_encode hp @ ''.'' @ base64url_encode cp)"
    using tok by (auto simp: jwt_encode_def b64_json_def Let_def bind_eq_Some_conv)
  have n: "hp \<noteq> []" "cp \<noteq> []" using lib(1) h cp by auto
  show ?thesis unfolding t
    using jwt_decode_parts [of "base64url_encode hp" "base64url_encode cp" J secret now'
        "hmac_b64 secret (base64url_encode hp @ ''.'' @ base64url_encode cp)"]
      n lib(2) [OF cp] c2 by (simp add: base64url_no_dot base64url_nonempty base64url_decode_encode)
qed

lemma session_claims_load:
  assumes "json_object_laws J" "so_strategy opts = JWT" "session_token opts (cx_req w) = tok" "tok \<noteq> []"
    and "jwt_decode J (so_secret opts) (sw_system (cx_ext w)) tok = Some c"
    and "js_find J c ''jti'' = Some (js_of_str J sid)" "js_find J c (so_data_claim opts) = Some d" "js_is_object J d"
  shows "fst (session_load J st opts w) = Some (make_session J sid d False)"
proof -
  have "js_as_str J (js_of_str J sid) = Some sid" using assms(1) by (simp add: json_object_laws_def)
  then have "claims_id J c = Some sid" "claims_data J opts c = d"
    using assms(6-8) by (simp_all add: claims_id_def claims_data_def)
  with assms show ?thesis by (simp add: session_load_def Let_def)
qed

section \<open>Properties\<close>

text \<open>C27: No session without the secret: when a request is given an existing session, under any of the
  three strategies, its cookie or token ends in the HMAC, under the configured secret, of
  everything before the last dot, the session's id or data is what that signed part says, and a
  token's expiry has not passed. An empty secret is refused when the middleware is made.\<close>

theorem session_integrity:
  "session_middleware J st opts = Inr mw \<Longrightarrow> fst (session_load J st opts w) = Some s \<Longrightarrow>
   so_secret opts \<noteq> [] \<and> mw = session_mware J st opts \<and>
   (case so_strategy opts of
      ServerStore \<Rightarrow>
        req_cookie (cx_req w) (so_cookie_name opts) = sn_id s @ ''.'' @ hmac_b64 (so_secret opts) (sn_id s) \<and>
        (\<exists>d. fst (st_load st (sw_steady (cx_ext w)) (sn_id s) (sw_store (cx_ext w))) = Some d)
    | SignedCookie \<Rightarrow>
        (\<exists>body. req_cookie (cx_req w) (so_cookie_name opts) = body @ ''.'' @ hmac_b64 (so_secret opts) body \<and>
           Option.bind (base64url_decode body) (js_parse J) = Some (sn_data s))
    | JWT \<Rightarrow>
        (\<exists>h p c. session_token opts (cx_req w) = h @ ''.'' @ p @ ''.'' @ hmac_b64 (so_secret opts) (h @ ''.'' @ p) \<and>
           Option.bind (base64url_decode p) (js_parse J) = Some c \<and>
           (js_is_object J (claims_data J opts c) \<longrightarrow> sn_data s = claims_data J opts c) \<and>
           (\<forall>e. js_find J c ''exp'' = Some e \<longrightarrow> (\<exists>x. js_as_int J e = Some x \<and> sw_system (cx_ext w) < x))))"
proof -
  assume mw: "session_middleware J st opts = Inr mw" and s: "fst (session_load J st opts w) = Some s"
  have "so_secret opts \<noteq> [] \<and> mw = session_mware J st opts" using mw by (auto simp: session_middleware_def split: if_splits)
  moreover have "so_strategy opts = ServerStore \<Longrightarrow> ?thesis"
    using calculation s verify_id_cookie_sound [of "so_secret opts" "req_cookie (cx_req w) (so_cookie_name opts)"]
    by (auto simp: session_load_def Let_def make_session_def split: if_splits prod.splits)
  moreover have "so_strategy opts = SignedCookie \<Longrightarrow> ?thesis"
  proof -
    assume c: "so_strategy opts = SignedCookie"
    then obtain d where d: "unseal_payload J (so_secret opts) (req_cookie (cx_req w) (so_cookie_name opts)) = Some d"
      "s = make_session J (fst (new_id w)) d False"
      using s by (auto simp: session_load_def Let_def split: if_splits option.splits prod.splits)
    moreover have "js_is_object J d" using d(1) by (auto simp: unseal_payload_def Let_def split: option.splits if_splits)
    ultimately show ?thesis
      using unseal_sound [OF d(1)] c \<open>so_secret opts \<noteq> [] \<and> mw = session_mware J st opts\<close>
      by (simp add: make_session_def)
  qed
  moreover have "so_strategy opts = JWT \<Longrightarrow> ?thesis"
  proof -
    assume c: "so_strategy opts = JWT"
    then obtain k sid where k: "jwt_decode J (so_secret opts) (sw_system (cx_ext w)) (session_token opts (cx_req w)) = Some k"
      "s = make_session J sid (claims_data J opts k) False"
      using s by (auto simp: session_load_def Let_def split: if_splits option.splits prod.splits)
    obtain h p where h: "session_token opts (cx_req w) = h @ ''.'' @ p @ ''.'' @ hmac_b64 (so_secret opts) (h @ ''.'' @ p)"
      "Option.bind (base64url_decode p) (js_parse J) = Some k"
      "\<forall>e. js_find J k ''exp'' = Some e \<longrightarrow> (\<exists>x. js_as_int J e = Some x \<and> sw_system (cx_ext w) < x)"
      using jwt_decode_sound [OF k(1)] by blast
    have "js_is_object J (claims_data J opts k) \<longrightarrow> sn_data s = claims_data J opts k" using k(2) by (simp add: make_session_def)
    then show ?thesis using h c \<open>so_secret opts \<noteq> [] \<and> mw = session_mware J st opts\<close> by (simp (no_asm_simp)) blast
  qed
  ultimately show ?thesis by (cases "so_strategy opts") blast+
qed

theorem session_integrity_witness:
  "let opts = default_session_options ''secret'';
       w = \<lparr>cx_req = empty_request\<lparr>rq_cookies := [(''sid'', ''k.'' @ sign_id ''secret'' ''k'')]\<rparr>, cx_res = new_response,
            cx_ext = \<lparr>sw_heap = \<lambda>_. make_session (doc_json []) [] DNull True, sw_next = 0, sw_store = [(''k'', DNull, 5 :: int)],
              sw_random = \<lambda>_. [], sw_draws = 0, sw_steady = 0, sw_system = 0\<rparr>\<rparr>
   in (\<exists>s. fst (session_load (doc_json []) memory_store opts w) = Some s \<and>
        req_cookie (cx_req w) ''sid'' = sn_id s @ ''.'' @ hmac_b64 ''secret'' (sn_id s))"
proof -
  define opts where "opts = default_session_options ''secret''"
  define w where "w = \<lparr>cx_req = empty_request\<lparr>rq_cookies := [(''sid'', ''k.'' @ sign_id ''secret'' ''k'')]\<rparr>, cx_res = new_response,
            cx_ext = \<lparr>sw_heap = \<lambda>_ :: nat. make_session (doc_json []) [] DNull True, sw_next = 0, sw_store = [(''k'', DNull, 5 :: int)],
              sw_random = \<lambda>_. [], sw_draws = 0, sw_steady = 0, sw_system = 0\<rparr>\<rparr>"
  have o: "so_strategy opts = ServerStore" "so_secret opts = ''secret''" "so_cookie_name opts = ''sid''"
    by (simp_all add: opts_def default_session_options_def)
  have l: "fst (session_load (doc_json []) memory_store opts w) = Some (make_session (doc_json []) ''k'' DNull False)"
    using load_server_store [where w = w and st = memory_store and sid = "''k''", OF o(1)] o
    by (simp add: w_def req_cookie_def memory_store_def mem_load_fst)
  have m: "session_middleware (doc_json []) memory_store opts = Inr (session_mware (doc_json []) memory_store opts)"
    using o by (simp add: session_middleware_def)
  have "\<exists>s. fst (session_load (doc_json []) memory_store opts w) = Some s \<and>
        req_cookie (cx_req w) ''sid'' = sn_id s @ ''.'' @ hmac_b64 ''secret'' (sn_id s)"
    using session_integrity [OF m l] l o by simp
  then show ?thesis unfolding w_def opts_def Let_def .
qed

text \<open>C28: A session kept in the memory store survives: what the middleware persists at the end of a
  request is what the next request finds, as long as the time to live has not passed, whatever
  other sessions were loaded, saved or dropped in between. The response sets a cookie naming the
  session's id, a fresh one when the session was regenerated; the cookie with the old id then
  no longer opens anything.\<close>

theorem session_survives:
  fixes w :: "('j mem_store, 'j, 'x) session_world_scheme ctx" and w2 :: "('j mem_store, 'j, 'y) session_world_scheme ctx"
  assumes "so_strategy opts = ServerStore" "kv_wf (=) (sw_store (cx_ext w))" "s = sw_heap (cx_ext w) a"
    and "\<not> sn_destroyed s" "should_persist J opts s" "sid \<noteq> []" "sn_id s \<noteq> []"
    and "sid = (if sn_regenerated s then sw_random (cx_ext w) (sw_draws (cx_ext w)) else sn_id s)"
  shows "\<exists>w'. session_persist J memory_store opts a w = Ret w' \<and>
    rs_set_cookies (cx_res w') = rs_set_cookies (cx_res w) @
      [cookie_to_string (session_cookie opts (sid @ ''.'' @ sign_id (so_secret opts) sid))] \<and>
    (sw_store (cx_ext w2) = fold (run_call memory_store) calls (sw_store (cx_ext w')) \<longrightarrow>
     (list_all (leaves_alone (sw_steady (cx_ext w2)) sid) calls \<longrightarrow>
      sw_steady (cx_ext w2) < sw_steady (cx_ext w) + nanos (so_ttl opts) \<longrightarrow>
      req_cookie (cx_req w2) (so_cookie_name opts) = sid @ ''.'' @ sign_id (so_secret opts) sid \<longrightarrow>
      fst (session_load J memory_store opts w2) = Some (make_session J sid (sn_data s) False)) \<and>
     (sid \<noteq> sn_id s \<longrightarrow> sw_steady (cx_ext w) \<le> sw_steady (cx_ext w2) \<longrightarrow>
      list_all (leaves_alone (sw_steady (cx_ext w2)) (sn_id s)) calls \<longrightarrow>
      req_cookie (cx_req w2) (so_cookie_name opts) = sn_id s @ ''.'' @ sign_id (so_secret opts) (sn_id s) \<longrightarrow>
      fst (session_load J memory_store opts w2) = None))"
proof -
  let ?old = "if sn_regenerated s \<and> sn_id s \<noteq> [] then st_drop memory_store (sn_id s) (sw_store (cx_ext w)) else sw_store (cx_ext w)"
  obtain w' where w': "session_persist J memory_store opts a w = Ret w'"
    "rs_set_cookies (cx_res w') = rs_set_cookies (cx_res w) @
      [cookie_to_string (session_cookie opts (sid @ ''.'' @ sign_id (so_secret opts) sid))]"
    "sw_store (cx_ext w') = st_save memory_store (sw_steady (cx_ext w)) sid (sn_data s) (so_ttl opts) ?old"
    using persist_server_store [OF assms(1,3-5,8) refl] by blast
  have ok: "kv_wf (=) ?old" using assms(2) mem.ok_drop by auto
  note ld = load_server_store [where w = w2 and st = memory_store and J = J, OF assms(1)]
  show ?thesis
  proof (intro exI [of _ w'] conjI impI, fact w'(1), fact w'(2))
    assume h: "sw_store (cx_ext w2) = fold (run_call memory_store) calls (sw_store (cx_ext w'))"
      "list_all (leaves_alone (sw_steady (cx_ext w2)) sid) calls"
      "sw_steady (cx_ext w2) < sw_steady (cx_ext w) + nanos (so_ttl opts)"
      "req_cookie (cx_req w2) (so_cookie_name opts) = sid @ ''.'' @ sign_id (so_secret opts) sid"
    show "fst (session_load J memory_store opts w2) = Some (make_session J sid (sn_data s) False)"
      unfolding ld [OF assms(6) h(4)] h(1) w'(3) mem.survives [OF ok h(2,3)] by simp
  next
    assume h: "sw_store (cx_ext w2) = fold (run_call memory_store) calls (sw_store (cx_ext w'))"
      "sid \<noteq> sn_id s" "sw_steady (cx_ext w) \<le> sw_steady (cx_ext w2)"
      "list_all (leaves_alone (sw_steady (cx_ext w2)) (sn_id s)) calls"
      "req_cookie (cx_req w2) (so_cookie_name opts) = sn_id s @ ''.'' @ sign_id (so_secret opts) (sn_id s)"
    have "?old = st_drop memory_store (sn_id s) (sw_store (cx_ext w))" using h(2) assms(7,8) by (auto split: if_splits)
    then show "fst (session_load J memory_store opts w2) = None"
      unfolding ld [OF assms(7) h(5)] h(1) w'(3) using mem.stays_dropped [OF assms(2) h(4) h(2) [symmetric] h(3)] by simp
  qed
qed

theorem session_survives_witness:
  "let opts = default_session_options ''secret''; J = doc_json []; d = DObj [(''user'', DInt 7)];
       s = session_regenerate (make_session J ''old'' d False); st = [(''old'', d, 5)];
       e = \<lparr>sw_heap = \<lambda>_. s, sw_next = 1, sw_store = st, sw_random = \<lambda>_. ''new'', sw_draws = 0, sw_steady = 0, sw_system = 0\<rparr>;
       w = \<lparr>cx_req = empty_request, cx_res = new_response, cx_ext = e\<rparr>;
       w2 = \<lambda>v. \<lparr>cx_req = empty_request\<lparr>rq_cookies := [(''sid'', v)]\<rparr>, cx_res = new_response,
         cx_ext = e\<lparr>sw_store := mem_save 0 ''new'' d 86400 (mem_destroy ''old'' st), sw_steady := 9\<rparr>\<rparr>
   in fst (session_load J memory_store opts (w2 (''old.'' @ sign_id ''secret'' ''old''))) = None"
proof -
  define opts where "opts = default_session_options ''secret''"
  define d where "d = DObj [(''user'', DInt 7)]"
  define s where "s = session_regenerate (make_session (doc_json []) ''old'' d False)"
  define st where "st = [(''old'', d, 5 :: int)]"
  define e where "e = \<lparr>sw_heap = \<lambda>_ :: nat. s, sw_next = 1, sw_store = st, sw_random = \<lambda>_. ''new'', sw_draws = 0, sw_steady = 0, sw_system = 0\<rparr>"
  define w where "w = \<lparr>cx_req = empty_request, cx_res = new_response, cx_ext = e\<rparr>"
  define w2 where "w2 = \<lparr>cx_req = empty_request\<lparr>rq_cookies := [(''sid'', ''old.'' @ sign_id ''secret'' ''old'')]\<rparr>, cx_res = new_response,
         cx_ext = e\<lparr>sw_store := mem_save 0 ''new'' d 86400 (mem_destroy ''old'' st), sw_steady := 9\<rparr>\<rparr>"
  have s: "sn_regenerated s" "\<not> sn_destroyed s" "sn_id s = ''old''" "sn_data s = d" "sn_new s"
    by (simp_all add: s_def session_regenerate_def make_session_def doc_json_def d_def)
  have o: "so_strategy opts = ServerStore" "so_secret opts = ''secret''" "so_cookie_name opts = ''sid''" "so_ttl opts = 86400"
    by (simp_all add: opts_def default_session_options_def)
  have e: "sw_store e = st" "sw_steady e = 0" "sw_random e = (\<lambda>_. ''new'')" "sw_heap e = (\<lambda>_. s)" by (simp_all add: e_def)
  have p: "should_persist (doc_json []) opts s" using s by (simp add: should_persist_def)
  have h: "kv_wf (=) (sw_store (cx_ext w))" "s = sw_heap (cx_ext w) 0" "''new'' \<noteq> []" "sn_id s \<noteq> []"
    "''new'' = (if sn_regenerated s then sw_random (cx_ext w) (sw_draws (cx_ext w)) else sn_id s)"
    "''new'' \<noteq> sn_id s" "sw_steady (cx_ext w) \<le> sw_steady (cx_ext w2)"
    "req_cookie (cx_req w2) (so_cookie_name opts) = sn_id s @ ''.'' @ sign_id (so_secret opts) (sn_id s)"
    by (simp_all add: s o e w_def st_def) (simp_all add: w2_def o e req_cookie_def)
  have "fst (session_load (doc_json []) memory_store opts w2) = None"
    apply (rule exE [OF session_survives [where ?w2.0 = w2 and calls = "[]", OF o(1) h(1,2) s(2) p h(3-5)]])
    apply (elim conjE)
    subgoal premises r for w'
    proof -
      have "sw_store (cx_ext w') = mem_save 0 ''new'' d 86400 (mem_destroy ''old'' st)"
        using r(1) s o e p by (auto simp: session_persist_def session_save_def w_def new_id_def upd_ext_def upd_res_def
            should_persist_def Let_def memory_store_def dest!: sym [of _ w'])
      then have "sw_store (cx_ext w2) = fold (run_call memory_store) [] (sw_store (cx_ext w'))" by (simp add: w2_def)
      from r(3) [THEN mp, OF this] show ?thesis using h(6-8) by simp
    qed
    done
  then show ?thesis unfolding w2_def e_def st_def s_def d_def opts_def Let_def .
qed

text \<open>A session carried by a token survives: under the JWT strategy the token that the middleware
  hands out at the end of a request (as a cookie, as \<open>X-Access-Token\<close>, or both) opens, until it
  expires, a session with the same id and the same data.\<close>

lemma token_session_roundtrip:
  fixes w :: "('s, 'j, 'x) session_world_scheme ctx" and w2 :: "('t, 'j, 'y) session_world_scheme ctx"
  assumes J: "json_object_laws J" "\<And>j p. js_dump J j = Some p \<Longrightarrow> p \<noteq> []"
    and o: "so_strategy opts = JWT" "so_data_claim opts \<notin> {''jti'', ''iat'', ''exp'', ''iss''}"
    and s: "s = sw_heap (cx_ext w) a" "\<not> sn_destroyed s" "should_persist J opts s" "js_is_object J (sn_data s)"
    and run: "session_persist J st opts a w = Ret w'"
    and faithful: "\<And>c p. Option.bind (session_claims J opts s) (jwt_stamp J (sw_system (cx_ext w)) (so_ttl opts)) = Some c \<Longrightarrow>
      js_dump J c = Some p \<Longrightarrow> js_parse J p = Some c"
    and time: "- (2 ^ 63) \<le> sw_system (cx_ext w) + so_ttl opts" "sw_system (cx_ext w) + so_ttl opts < 2 ^ 63"
      "sw_system (cx_ext w2) < sw_system (cx_ext w) + so_ttl opts"
  shows "\<exists>tok. cx_res w' = expose_token opts tok (cx_res w) \<and>
    (session_token opts (cx_req w2) = tok \<longrightarrow>
     fst (session_load J st2 opts w2) = Some (make_session J (sn_id s) (sn_data s) False))"
proof -
  obtain c where c: "session_claims J opts s = Some c" "js_is_object J c" "js_find J c ''jti'' = Some (js_of_str J (sn_id s))"
    "js_find J c (so_data_claim opts) = Some (sn_data s)" "js_find J c ''exp'' = None" "js_find J c ''iat'' = None"
    using should_persist_claims [OF J(1) o(2)] by blast
  obtain tok where tok: "jwt_encode J (so_secret opts) (sw_system (cx_ext w)) (so_ttl opts) c = Some tok"
    "w' = upd_res (expose_token opts tok) w"
    using run s o(1) c(1) by (auto simp: session_persist_def session_save_def Let_def split: option.splits)
  obtain c2 where c2: "jwt_stamp J (sw_system (cx_ext w)) (so_ttl opts) c = Some c2" "js_is_object J c2"
    "js_find J c2 ''exp'' = Some (js_of_int J (sw_system (cx_ext w) + so_ttl opts))"
    "\<forall>k. k \<notin> {''iat'', ''exp''} \<longrightarrow> js_find J c2 k = js_find J c k"
    using jwt_stamp_fresh [OF J(1) c(2,6,5)] by blast
  have x: "js_as_int J (js_of_int J (sw_system (cx_ext w) + so_ttl opts)) = Some (sw_system (cx_ext w) + so_ttl opts)"
    using J(1) time by (simp add: json_object_laws_def)
  have dec: "jwt_decode J (so_secret opts) (sw_system (cx_ext w2)) tok = Some c2"
    using jwt_decode_encode [OF tok(1) c2(1) J(2) _ c2(2,3) x time(3)] faithful c(1) c2(1) by auto
  have "tok \<noteq> []" using dec by (auto simp: jwt_decode_def)
  have "js_find J c2 ''jti'' = Some (js_of_str J (sn_id s))" "js_find J c2 (so_data_claim opts) = Some (sn_data s)"
    using c2(4) c(3,4) o(2) by auto
  with \<open>tok \<noteq> []\<close> dec have "session_token opts (cx_req w2) = tok \<longrightarrow>
     fst (session_load J st2 opts w2) = Some (make_session J (sn_id s) (sn_data s) False)"
    using session_claims_load [OF J(1) o(1)] s(4) by blast
  then show ?thesis using tok(2) by (intro exI [of _ tok]) (simp add: upd_res_def)
qed

lemma token_session_roundtrip_example:
  "let opts = (default_session_options ''secret'')\<lparr>so_strategy := JWT, so_transport := TrCookie\<rparr>; d = DObj [(''user'', DInt 7)];
       claims = DObj [(''jti'', DStr ''a''), (''data'', d), (''iat'', DInt 10), (''exp'', DInt 86410)];
       J = doc_json [claims]; s = session_touch (make_session J ''a'' d False);
       e = \<lambda>now. \<lparr>sw_heap = \<lambda>_. s, sw_next = 1, sw_store = (), sw_random = \<lambda>_. [], sw_draws = 0, sw_steady = 0, sw_system = now\<rparr>;
       w = \<lparr>cx_req = empty_request, cx_res = new_response, cx_ext = e 10\<rparr>;
       w2 = \<lambda>tok. \<lparr>cx_req = empty_request\<lparr>rq_cookies := [(''sid'', tok)]\<rparr>, cx_res = new_response, cx_ext = e 99\<rparr>
   in \<forall>st. \<exists>tok. fst (session_load J st opts (w2 tok)) = Some (make_session J ''a'' d False)"
proof -
  define opts where "opts = (default_session_options ''secret'')\<lparr>so_strategy := JWT, so_transport := TrCookie\<rparr>"
  define d where "d = DObj [(''user'', DInt 7)]"
  define claims where "claims = DObj [(''jti'', DStr ''a''), (''data'', d), (''iat'', DInt 10), (''exp'', DInt 86410)]"
  define J where "J = doc_json [claims]"
  define s where "s = session_touch (make_session J ''a'' d False)"
  define e where "e = (\<lambda>now. \<lparr>sw_heap = \<lambda>_ :: nat. s, sw_next = 1, sw_store = (), sw_random = \<lambda>_. [], sw_draws = 0, sw_steady = 0, sw_system = now\<rparr>)"
  define w where "w = \<lparr>cx_req = empty_request, cx_res = new_response, cx_ext = e 10\<rparr>"
  define w2 where "w2 = (\<lambda>tok. \<lparr>cx_req = empty_request\<lparr>rq_cookies := [(''sid'', tok)]\<rparr>, cx_res = new_response, cx_ext = e 99\<rparr>)"
  have ne: "p \<noteq> []" if "js_dump J j = Some p" for j p
  proof -
    have "p = doc_text j" using that by (simp add: J_def doc_json_def)
    then show ?thesis by (cases j) (auto simp: show_int_def)
  qed
  have J: "json_object_laws J" "js_is_object J d" using doc_json_laws [of "[claims]"] by (simp_all add: J_def) (simp add: doc_json_def d_def)
  have o: "so_strategy opts = JWT" "so_data_claim opts = ''data''" "so_transport opts = TrCookie" "so_cookie_name opts = ''sid''"
    "so_ttl opts = 86400" "so_issuer opts = []"
    by (simp_all add: opts_def default_session_options_def)
  have s: "sn_touched s" "\<not> sn_destroyed s" "sn_id s = ''a''" "sn_data s = d" "\<not> sn_new s" "s = sw_heap (cx_ext w) 0"
    using J by (simp_all add: s_def session_touch_def make_session_def w_def e_def)
  have p: "should_persist J opts s" using s(1-5) by (simp add: should_persist_def)
  have st: "Option.bind (session_claims J opts s) (jwt_stamp J (sw_system (cx_ext w)) (so_ttl opts)) = Some claims"
    using s(3,4) o by (simp add: session_claims_def jwt_stamp_def J_def doc_json_def js_contains_def w_def e_def claims_def)
  then obtain cl where cl: "session_claims J opts s = Some cl" "jwt_stamp J 10 86400 cl = Some claims"
    using o by (auto simp: bind_eq_Some_conv w_def e_def)
  obtain tok where tok: "jwt_encode J (so_secret opts) 10 86400 cl = Some tok"
    using cl by (simp add: jwt_encode_def b64_json_def J_def Let_def)
  define w' where "w' = upd_res (expose_token opts tok) w"
  have hs: "sw_heap (cx_ext w) 0 = s" "sw_system (cx_ext w) = 10" by (simp_all add: w_def e_def)
  have run: "session_persist J st opts 0 w = Ret w'" for st :: "(unit, doc) store_ops"
    using s(1-5) o p cl tok hs by (simp add: session_persist_def session_save_def w'_def Let_def)
  have f: "js_parse J q = Some c" if "Some claims = Some c" "js_dump J c = Some q" for c q
    using that by (auto simp: J_def doc_json_def)
  have "\<exists>tok. fst (session_load J st opts (w2 tok)) = Some (make_session J ''a'' d False)" for st :: "(unit, doc) store_ops"
  proof -
    have "\<exists>tok2. cx_res w' = expose_token opts tok2 (cx_res w) \<and> (session_token opts (cx_req (w2 tok)) = tok2 \<longrightarrow>
       fst (session_load J st opts (w2 tok)) = Some (make_session J (sn_id s) (sn_data s) False))"
    proof (rule token_session_roundtrip [where w = w and a = 0, OF J(1) ne o(1) _ s(6,2) p _ run])
      show "js_parse J q = Some c" if "Option.bind (session_claims J opts s) (jwt_stamp J (sw_system (cx_ext w)) (so_ttl opts)) = Some c"
        "js_dump J c = Some q" for c q using f that st by simp
    qed (simp_all add: o s(1-5) J w2_def w_def e_def)
    then obtain tok2 where t2: "expose_token opts tok new_response = expose_token opts tok2 new_response"
      "session_token opts (cx_req (w2 tok)) = tok2 \<longrightarrow> fst (session_load J st opts (w2 tok)) = Some (make_session J ''a'' d False)"
      using s(3,4) by (auto simp: w'_def w_def upd_res_def)
    have "tok = tok2" using t2(1) o
      by (simp add: expose_token_def set_session_cookie_def res_set_cookie_def session_cookie_def cookie_to_string_def
          new_cookie_def new_response_def)
    moreover have "session_token opts (cx_req (w2 tok)) = tok" using o by (simp add: session_token_def w2_def req_cookie_def)
    ultimately show ?thesis using t2(2) by blast
  qed
  then show ?thesis unfolding w2_def e_def w_def s_def J_def claims_def d_def opts_def Let_def by blast
qed

end
