(* ===== verification/DbSchema.thy ===== *)
theory DbSchema
  imports CLib
begin

text \<open>
  The schema language of the database layer: \<open>include/socketify/db/schema.h\<close> and
  \<open>src/db/schema.cpp\<close>. Tables, columns, foreign keys and indexes, the quoting of identifiers
  and the rendering of a schema to SQL for the three dialects.
\<close>

section \<open>Definitions\<close>

datatype column_type = ColInteger | ColBigInt | ColReal | ColText | ColBlob | ColBoolean | ColTimestamp

datatype dialect = Sqlite | Postgres | Mysql

record foreign_key =
  fk_column :: string
  fk_ref_table :: string
  fk_ref_column :: string
  fk_cascade :: bool

record index_def =
  ix_name :: string
  ix_columns :: "string list"
  ix_unique :: bool

record db_column =
  col_name :: string
  col_type :: column_type
  col_primary :: bool
  col_autoincrement :: bool
  col_not_null :: bool
  col_unique :: bool
  col_default :: string

record schema =
  sc_table :: string
  sc_columns :: "db_column list"
  sc_fks :: "foreign_key list"
  sc_indexes :: "index_def list"

definition schema_create :: "string \<Rightarrow> schema" where
  "schema_create name = \<lparr>sc_table = name, sc_columns = [], sc_fks = [], sc_indexes = []\<rparr>"

definition add_column :: "string \<Rightarrow> column_type \<Rightarrow> schema \<Rightarrow> schema" where
  "add_column name t s =
     s\<lparr>sc_columns := sc_columns s @
       [\<lparr>col_name = name, col_type = t, col_primary = False, col_autoincrement = False,
         col_not_null = False, col_unique = False, col_default = []\<rparr>]\<rparr>"

definition sc_integer :: "string \<Rightarrow> schema \<Rightarrow> schema" where "sc_integer n = add_column n ColInteger"

definition sc_bigint :: "string \<Rightarrow> schema \<Rightarrow> schema" where "sc_bigint n = add_column n ColBigInt"

definition sc_real :: "string \<Rightarrow> schema \<Rightarrow> schema" where "sc_real n = add_column n ColReal"

definition sc_text :: "string \<Rightarrow> schema \<Rightarrow> schema" where "sc_text n = add_column n ColText"

definition sc_blob :: "string \<Rightarrow> schema \<Rightarrow> schema" where "sc_blob n = add_column n ColBlob"

definition sc_boolean :: "string \<Rightarrow> schema \<Rightarrow> schema" where "sc_boolean n = add_column n ColBoolean"

definition sc_timestamp :: "string \<Rightarrow> schema \<Rightarrow> schema" where "sc_timestamp n = add_column n ColTimestamp"

text \<open>The modifiers act on the column added last, if there is one.\<close>

definition upd_last :: "(db_column \<Rightarrow> db_column) \<Rightarrow> schema \<Rightarrow> schema" where
  "upd_last f s =
     (if sc_columns s \<noteq> [] then s\<lparr>sc_columns := butlast (sc_columns s) @ [f (last (sc_columns s))]\<rparr> else s)"

definition sc_primary :: "schema \<Rightarrow> schema" where "sc_primary = upd_last (\<lambda>c. c\<lparr>col_primary := True\<rparr>)"

definition sc_autoincrement :: "schema \<Rightarrow> schema" where "sc_autoincrement = upd_last (\<lambda>c. c\<lparr>col_autoincrement := True\<rparr>)"

definition sc_not_null :: "schema \<Rightarrow> schema" where "sc_not_null = upd_last (\<lambda>c. c\<lparr>col_not_null := True\<rparr>)"

definition sc_unique :: "schema \<Rightarrow> schema" where "sc_unique = upd_last (\<lambda>c. c\<lparr>col_unique := True\<rparr>)"

definition sc_default :: "string \<Rightarrow> schema \<Rightarrow> schema" where "sc_default sql = upd_last (\<lambda>c. c\<lparr>col_default := sql\<rparr>)"

definition sc_timestamps :: "schema \<Rightarrow> schema" where
  "sc_timestamps s =
     (let s = sc_default ''CURRENT_TIMESTAMP'' (sc_not_null (sc_timestamp ''created_at'' s))
      in sc_default ''CURRENT_TIMESTAMP'' (sc_not_null (sc_timestamp ''updated_at'' s)))"

definition sc_foreign_key :: "string \<Rightarrow> string \<Rightarrow> string \<Rightarrow> bool \<Rightarrow> schema \<Rightarrow> schema" where
  "sc_foreign_key col ref_table ref_col cascade s =
     s\<lparr>sc_fks := sc_fks s @ [\<lparr>fk_column = col, fk_ref_table = ref_table, fk_ref_column = ref_col, fk_cascade = cascade\<rparr>]\<rparr>"

definition sc_index :: "string \<Rightarrow> string list \<Rightarrow> bool \<Rightarrow> schema \<Rightarrow> schema" where
  "sc_index name cols unique s =
     s\<lparr>sc_indexes := sc_indexes s @ [\<lparr>ix_name = name, ix_columns = cols, ix_unique = unique\<rparr>]\<rparr>"

fun escape_quote :: "char \<Rightarrow> string \<Rightarrow> string" where
  "escape_quote q [] = []"
| "escape_quote q (c # cs) = (if c = q then [q, q] else [c]) @ escape_quote q cs"

definition ident_quote :: "dialect \<Rightarrow> char" where
  "ident_quote d = (if d = Mysql then CHR 0x60 else DQ)"

definition quote_ident :: "dialect \<Rightarrow> string \<Rightarrow> string" where
  "quote_ident d name = [ident_quote d] @ escape_quote (ident_quote d) name @ [ident_quote d]"

fun column_type_sql :: "dialect \<Rightarrow> db_column \<Rightarrow> string" where
  "column_type_sql Sqlite c =
     (case col_type c of
        ColInteger \<Rightarrow> ''INTEGER'' | ColBigInt \<Rightarrow> ''INTEGER'' | ColBoolean \<Rightarrow> ''INTEGER''
      | ColReal \<Rightarrow> ''REAL'' | ColBlob \<Rightarrow> ''BLOB'' | ColTimestamp \<Rightarrow> ''TEXT'' | ColText \<Rightarrow> ''TEXT'')"
| "column_type_sql Postgres c =
     (if col_autoincrement c \<and> (col_type c = ColInteger \<or> col_type c = ColBigInt)
      then (if col_type c = ColBigInt then ''BIGSERIAL'' else ''SERIAL'')
      else (case col_type c of
              ColInteger \<Rightarrow> ''INTEGER'' | ColBigInt \<Rightarrow> ''BIGINT'' | ColReal \<Rightarrow> ''DOUBLE PRECISION''
            | ColBoolean \<Rightarrow> ''BOOLEAN'' | ColBlob \<Rightarrow> ''BYTEA'' | ColTimestamp \<Rightarrow> ''TIMESTAMP'' | ColText \<Rightarrow> ''TEXT''))"
| "column_type_sql Mysql c =
     (case col_type c of
        ColInteger \<Rightarrow> ''INT'' | ColBigInt \<Rightarrow> ''BIGINT'' | ColReal \<Rightarrow> ''DOUBLE''
      | ColBoolean \<Rightarrow> ''TINYINT(1)'' | ColBlob \<Rightarrow> ''BLOB'' | ColTimestamp \<Rightarrow> ''DATETIME'' | ColText \<Rightarrow> ''TEXT'')"

definition ident_list :: "dialect \<Rightarrow> string list \<Rightarrow> string" where
  "ident_list d names = join_with '', '' (map (quote_ident d) names)"

definition column_sql :: "dialect \<Rightarrow> db_column \<Rightarrow> string" where
  "column_sql d c =
     ''  '' @ quote_ident d (col_name c) @ '' '' @ column_type_sql d c
     @ (if col_primary c then
          '' PRIMARY KEY''
          @ (if col_autoincrement c then
               (if d = Sqlite then '' AUTOINCREMENT'' else if d = Mysql then '' AUTO_INCREMENT'' else [])
             else [])
        else (if col_not_null c then '' NOT NULL'' else []) @ (if col_unique c then '' UNIQUE'' else []))
     @ (if col_default c \<noteq> [] \<and> \<not> (col_autoincrement c \<and> d = Postgres)
        then '' DEFAULT '' @ col_default c else [])"

definition fk_sql :: "dialect \<Rightarrow> foreign_key \<Rightarrow> string" where
  "fk_sql d fk =
     '','' @ [LF] @ ''  FOREIGN KEY ('' @ quote_ident d (fk_column fk) @ '') REFERENCES ''
     @ quote_ident d (fk_ref_table fk) @ ''('' @ quote_ident d (fk_ref_column fk) @ '')''
     @ (if fk_cascade fk then '' ON DELETE CASCADE'' else [])"

definition index_sql :: "dialect \<Rightarrow> string \<Rightarrow> index_def \<Rightarrow> string" where
  "index_sql d table ix =
     ''CREATE '' @ (if ix_unique ix then ''UNIQUE '' else []) @ ''INDEX ''
     @ (if d \<noteq> Mysql then ''IF NOT EXISTS '' else [])
     @ quote_ident d (ix_name ix) @ '' ON '' @ quote_ident d table @ '' ('' @ ident_list d (ix_columns ix)
     @ '');'' @ [LF]"

definition schema_to_sql :: "dialect \<Rightarrow> schema \<Rightarrow> string" where
  "schema_to_sql d s =
     ''CREATE TABLE IF NOT EXISTS '' @ quote_ident d (sc_table s) @ '' ('' @ [LF]
     @ join_with ('','' @ [LF]) (map (column_sql d) (sc_columns s))
     @ concat (map (fk_sql d) (sc_fks s)) @ [LF] @ '');'' @ [LF]
     @ concat (map (index_sql d (sc_table s)) (sc_indexes s))"

section \<open>Reading SQL back\<close>

text \<open>The reader of the databases: the rest of a quoted identifier up to its closing quote.\<close>

fun read_quoted :: "char \<Rightarrow> string \<Rightarrow> (string \<times> string) option" where
  "read_quoted q [] = None"
| "read_quoted q (c # cs) =
     (if c = q then
        (case cs of
           c' # cs' \<Rightarrow> if c' = q then map_option (apfst ((#) q)) (read_quoted q cs') else Some ([], cs)
         | [] \<Rightarrow> Some ([], []))
      else map_option (apfst ((#) c)) (read_quoted q cs))"

definition read_ident :: "dialect \<Rightarrow> string \<Rightarrow> (string \<times> string) option" where
  "read_ident d s =
     (case s of [] \<Rightarrow> None | c # cs \<Rightarrow> if c = ident_quote d then read_quoted (ident_quote d) cs else None)"

text \<open>The number of parameter markers of a statement: the question marks that are not inside a
  quoted identifier or a string literal.\<close>

fun markers_in :: "char option \<Rightarrow> string \<Rightarrow> nat" where
  "markers_in q [] = 0"
| "markers_in None (c # cs) =
     (if c = DQ \<or> c = SQ \<or> c = CHR 0x60 then markers_in (Some c) cs
      else if c = CHR ''?'' then Suc (markers_in None cs) else markers_in None cs)"
| "markers_in (Some q) (c # cs) = (if c = q then markers_in None cs else markers_in (Some q) cs)"

abbreviation markers :: "string \<Rightarrow> nat" where
  "markers \<equiv> markers_in None"

text \<open>A fragment that leaves the reader outside quotes.\<close>

fun quote_state :: "char option \<Rightarrow> string \<Rightarrow> char option" where
  "quote_state q [] = q"
| "quote_state None (c # cs) = quote_state (if c = DQ \<or> c = SQ \<or> c = CHR 0x60 then Some c else None) cs"
| "quote_state (Some q) (c # cs) = quote_state (if c = q then None else Some q) cs"

definition balanced :: "string \<Rightarrow> bool" where
  "balanced s \<longleftrightarrow> quote_state None s = None"

section \<open>Lemmas\<close>

named_theorems sql_text \<open>balance and markers of rendered SQL\<close>

lemma quote_state_append: "quote_state q (s @ t) = quote_state (quote_state q s) t"
  by (induction q s rule: quote_state.induct) simp_all

lemma markers_append: "markers_in q (s @ t) = markers_in q s + markers_in (quote_state q s) t"
  by (induction q s rule: quote_state.induct) (auto split: if_splits)

lemma balanced_append [sql_text]: "balanced s \<Longrightarrow> balanced (s @ t) = balanced t"
  by (simp add: balanced_def quote_state_append)

lemma balanced_markers [sql_text]: "balanced s \<Longrightarrow> markers (s @ t) = markers s + markers t"
  by (simp add: balanced_def markers_append)

lemma ident_quote_cases: "ident_quote d = DQ \<or> ident_quote d = CHR 0x60"
  by (simp add: ident_quote_def)

lemma quote_state_escape: "quote_state (Some q) (escape_quote q s) = Some q \<and> markers_in (Some q) (escape_quote q s) = 0"
  if "q = DQ \<or> q = CHR 0x60"
  using that by (induction s) auto

lemma quoted_balanced [sql_text]: "balanced (quote_ident d s)" and quoted_markers [sql_text]: "markers (quote_ident d s) = 0"
  using quote_state_escape [OF ident_quote_cases, of d s] ident_quote_cases [of d]
  by (auto simp: balanced_def quote_ident_def quote_state_append markers_append)

lemma read_escaped: "t = [] \<or> hd t \<noteq> q \<Longrightarrow> read_quoted q (escape_quote q s @ q # t) = Some (s, t)"
  by (induction s) (auto split: list.split)

text \<open>What is read back from a quoted identifier is the identifier, whatever it contains.\<close>

lemma read_quote_ident: "t = [] \<or> hd t \<noteq> ident_quote d \<Longrightarrow> read_ident d (quote_ident d s @ t) = Some (s, t)"
  by (simp add: read_ident_def quote_ident_def read_escaped)

lemma quote_ident_inject: "quote_ident d s = quote_ident d t \<Longrightarrow> s = t"
proof -
  assume e: "quote_ident d s = quote_ident d t"
  have "read_ident d (quote_ident d x) = Some (x, [])" for x using read_quote_ident [of "[]" d x] by simp
  then show ?thesis by (metis e option.inject prod.inject)
qed

lemma join_balanced: "balanced sep \<Longrightarrow> \<forall>x \<in> set xs. balanced x \<Longrightarrow> balanced (join_with sep xs)"
  by (induction sep xs rule: join_with.induct) (simp_all add: sql_text, simp add: balanced_def)

lemma join_markers: "balanced sep \<Longrightarrow> markers sep = 0 \<Longrightarrow> \<forall>x \<in> set xs. balanced x \<Longrightarrow>
  markers (join_with sep xs) = sum_list (map markers xs)"
  by (induction sep xs rule: join_with.induct) (simp_all add: sql_text)

lemma concat_balanced: "\<forall>x \<in> set xs. balanced x \<Longrightarrow> balanced (concat xs)"
  by (induction xs) (simp_all add: sql_text, simp add: balanced_def)

lemma concat_markers: "\<forall>x \<in> set xs. balanced x \<Longrightarrow> markers (concat xs) = sum_list (map markers xs)"
  by (induction xs) (simp_all add: sql_text)

lemma sep_balanced [sql_text]: "balanced '', ''" "markers '', '' = 0"
  by (simp_all add: balanced_def)

lemma ident_list_text [sql_text]: "balanced (ident_list d xs)" "markers (ident_list d xs) = 0"
  by (simp_all add: ident_list_def join_balanced join_markers sql_text comp_def)

end
