(* ===== verification/DbQuery.thy ===== *)
theory DbQuery
  imports DbSchema Json
begin

text \<open>
  The fluent query builder: \<open>include/socketify/db/query.h\<close> and \<open>src/db/query.cpp\<close>. A builder
  method is a function on the record \<open>query\<close>; the methods that reach the database run in the
  state-and-error monad \<open>dbm\<close> over the operations of a database handle (\<open>db_handle\<close>: dialect,
  \<open>exec\<close>, \<open>query\<close>, \<open>insert\<close>), which \<open>Database\<close> provides. JSON values are abstract (\<open>J\<close>).
  \<open>int\<close> members are 32 bits wide; where the code computes with them the wrap is written out.
\<close>

section \<open>Effects\<close>

type_synonym ('s, 'a) dbm = "'s \<Rightarrow> (string + 'a) \<times> 's"

definition db_ret :: "'a \<Rightarrow> ('s, 'a) dbm" where
  "db_ret x s = (Inr x, s)"

definition db_throw :: "string \<Rightarrow> ('s, 'a) dbm" where
  "db_throw e s = (Inl e, s)"

definition db_bind :: "('s, 'a) dbm \<Rightarrow> ('a \<Rightarrow> ('s, 'b) dbm) \<Rightarrow> ('s, 'b) dbm" where
  "db_bind m f s = (case m s of (Inl e, s') \<Rightarrow> (Inl e, s') | (Inr x, s') \<Rightarrow> f x s')"

record ('s, 'j) db_handle =
  dh_dialect :: dialect
  dh_exec :: "string \<Rightarrow> 'j list \<Rightarrow> ('s, int) dbm"
  dh_query :: "string \<Rightarrow> 'j list \<Rightarrow> ('s, 'j list) dbm"
  dh_insert :: "string \<Rightarrow> 'j list \<Rightarrow> ('s, int) dbm"

section \<open>The builder\<close>

datatype where_op = OpEq | OpNe | OpLt | OpLte | OpGt | OpGte | OpLike | OpIn | OpNotIn | OpIsNull | OpIsNotNull

record 'j where_clause =
  wc_or :: bool
  wc_column :: string
  wc_op :: where_op
  wc_value :: 'j

record join_clause =
  jc_type :: string
  jc_table :: string
  jc_on :: string

record order_clause =
  oc_column :: string
  oc_asc :: bool

record 'j query =
  qu_table :: string
  qu_distinct :: bool
  qu_select :: "string list"
  qu_wheres :: "'j where_clause list"
  qu_joins :: "join_clause list"
  qu_orders :: "order_clause list"
  qu_groups :: "string list"
  qu_having :: string
  qu_having_params :: "'j list"
  qu_limit :: int
  qu_offset :: int

definition new_query :: "string \<Rightarrow> 'j query" where
  "new_query table =
     \<lparr>qu_table = table, qu_distinct = False, qu_select = [], qu_wheres = [], qu_joins = [], qu_orders = [],
      qu_groups = [], qu_having = [], qu_having_params = [], qu_limit = -1, qu_offset = -1\<rparr>"

definition q_select :: "string list \<Rightarrow> 'j query \<Rightarrow> 'j query" where
  "q_select cols q = q\<lparr>qu_select := cols\<rparr>"

definition q_distinct :: "'j query \<Rightarrow> 'j query" where
  "q_distinct q = q\<lparr>qu_distinct := True\<rparr>"

definition q_where :: "string \<Rightarrow> where_op \<Rightarrow> 'j \<Rightarrow> 'j query \<Rightarrow> 'j query" where
  "q_where col opr v q =
     q\<lparr>qu_wheres := qu_wheres q @ [\<lparr>wc_or = False, wc_column = col, wc_op = opr, wc_value = v\<rparr>]\<rparr>"

definition q_or_where :: "string \<Rightarrow> where_op \<Rightarrow> 'j \<Rightarrow> 'j query \<Rightarrow> 'j query" where
  "q_or_where col opr v q =
     q\<lparr>qu_wheres := qu_wheres q @ [\<lparr>wc_or = True, wc_column = col, wc_op = opr, wc_value = v\<rparr>]\<rparr>"

definition q_where_eq :: "string \<Rightarrow> 'j \<Rightarrow> 'j query \<Rightarrow> 'j query" where
  "q_where_eq col v = q_where col OpEq v"

definition q_or_where_eq :: "string \<Rightarrow> 'j \<Rightarrow> 'j query \<Rightarrow> 'j query" where
  "q_or_where_eq col v = q_or_where col OpEq v"

definition q_where_in :: "string \<Rightarrow> 'j \<Rightarrow> 'j query \<Rightarrow> 'j query" where
  "q_where_in col vs = q_where col OpIn vs"

definition q_where_not_in :: "string \<Rightarrow> 'j \<Rightarrow> 'j query \<Rightarrow> 'j query" where
  "q_where_not_in col vs = q_where col OpNotIn vs"

definition q_where_null :: "'j json_api \<Rightarrow> string \<Rightarrow> 'j query \<Rightarrow> 'j query" where
  "q_where_null J col = q_where col OpIsNull (js_null J)"

definition q_where_not_null :: "'j json_api \<Rightarrow> string \<Rightarrow> 'j query \<Rightarrow> 'j query" where
  "q_where_not_null J col = q_where col OpIsNotNull (js_null J)"

definition q_or_where_in :: "string \<Rightarrow> 'j \<Rightarrow> 'j query \<Rightarrow> 'j query" where
  "q_or_where_in col vs = q_or_where col OpIn vs"

definition q_or_where_null :: "'j json_api \<Rightarrow> string \<Rightarrow> 'j query \<Rightarrow> 'j query" where
  "q_or_where_null J col = q_or_where col OpIsNull (js_null J)"

definition q_or_where_not_null :: "'j json_api \<Rightarrow> string \<Rightarrow> 'j query \<Rightarrow> 'j query" where
  "q_or_where_not_null J col = q_or_where col OpIsNotNull (js_null J)"

definition q_order_by :: "string \<Rightarrow> bool \<Rightarrow> 'j query \<Rightarrow> 'j query" where
  "q_order_by col asc q = q\<lparr>qu_orders := qu_orders q @ [\<lparr>oc_column = col, oc_asc = asc\<rparr>]\<rparr>"

definition q_limit :: "int \<Rightarrow> 'j query \<Rightarrow> 'j query" where
  "q_limit n q = q\<lparr>qu_limit := n\<rparr>"

definition q_offset :: "int \<Rightarrow> 'j query \<Rightarrow> 'j query" where
  "q_offset n q = q\<lparr>qu_offset := n\<rparr>"

definition q_join :: "string \<Rightarrow> string \<Rightarrow> string \<Rightarrow> 'j query \<Rightarrow> 'j query" where
  "q_join table on_sql type q = q\<lparr>qu_joins := qu_joins q @ [\<lparr>jc_type = type, jc_table = table, jc_on = on_sql\<rparr>]\<rparr>"

definition q_group_by :: "string list \<Rightarrow> 'j query \<Rightarrow> 'j query" where
  "q_group_by cols q = q\<lparr>qu_groups := cols\<rparr>"

definition q_having :: "string \<Rightarrow> 'j list \<Rightarrow> 'j query \<Rightarrow> 'j query" where
  "q_having expr params q = q\<lparr>qu_having := expr, qu_having_params := params\<rparr>"

section \<open>Compilation\<close>

fun op_sql :: "where_op \<Rightarrow> string" where
  "op_sql OpEq = ''=''"
| "op_sql OpNe = ''!=''"
| "op_sql OpLt = ''<''"
| "op_sql OpLte = ''<=''"
| "op_sql OpGt = ''>''"
| "op_sql OpGte = ''>=''"
| "op_sql OpLike = ''LIKE''"
| "op_sql OpIn = ''IN''"
| "op_sql OpNotIn = ''NOT IN''"
| "op_sql OpIsNull = []"
| "op_sql OpIsNotNull = []"

text \<open>The text of one condition after its column, and the values it binds.\<close>

definition where_cond :: "'j json_api \<Rightarrow> 'j where_clause \<Rightarrow> string \<times> 'j list" where
  "where_cond J w =
     (if wc_op w = OpIsNull then ('' IS NULL'', [])
      else if wc_op w = OpIsNotNull then ('' IS NOT NULL'', [])
      else if wc_op w = OpIn \<or> wc_op w = OpNotIn then
        (let vs = (case js_elems J (wc_value w) of None \<Rightarrow> [] | Some vs \<Rightarrow> vs)
         in ('' '' @ op_sql (wc_op w)
               @ (if vs = [] then (if wc_op w = OpIn then '' (1=0)'' else '' (1=1)'')
                  else '' ('' @ join_with '', '' (map (\<lambda>_. ''?'') vs) @ '')''), vs))
      else if js_is_null J (wc_value w) then
        (if wc_op w = OpNe then '' IS NOT NULL'' else '' IS NULL'', [])
      else ('' '' @ op_sql (wc_op w) @ '' ?'', [wc_value w]))"

fun where_loop :: "'j json_api \<Rightarrow> dialect \<Rightarrow> bool \<Rightarrow> 'j where_clause list \<Rightarrow> string \<times> 'j list" where
  "where_loop J d first [] = ([], [])"
| "where_loop J d first (w # ws) =
     (let (t, ps) = where_cond J w; (sql, params) = where_loop J d False ws
      in ((if first then [] else if wc_or w then '' OR '' else '' AND '') @ quote_ident d (wc_column w) @ t @ sql,
          ps @ params))"

definition append_where :: "'j json_api \<Rightarrow> dialect \<Rightarrow> 'j query \<Rightarrow> string \<times> 'j list" where
  "append_where J d q =
     (if qu_wheres q = [] then ([], [])
      else apfst (\<lambda>t. '' WHERE '' @ t) (where_loop J d True (qu_wheres q)))"

definition joins_sql :: "dialect \<Rightarrow> 'j query \<Rightarrow> string" where
  "joins_sql d q =
     concat (map (\<lambda>j. '' '' @ jc_type j @ '' JOIN '' @ quote_ident d (jc_table j) @ '' ON '' @ jc_on j) (qu_joins q))"

definition compile_select :: "'j json_api \<Rightarrow> dialect \<Rightarrow> 'j query \<Rightarrow> string \<times> 'j list" where
  "compile_select J d q =
     (let (wsql, wparams) = append_where J d q
      in (''SELECT '' @ (if qu_distinct q then ''DISTINCT '' else [])
          @ (if qu_select q = [] then ''*'' else ident_list d (qu_select q))
          @ '' FROM '' @ quote_ident d (qu_table q) @ joins_sql d q @ wsql
          @ (if qu_groups q \<noteq> [] then '' GROUP BY '' @ ident_list d (qu_groups q) else [])
          @ (if qu_having q \<noteq> [] then '' HAVING '' @ qu_having q else [])
          @ (if qu_orders q \<noteq> [] then
               '' ORDER BY '' @ join_with '', '' (map (\<lambda>oc. quote_ident d (oc_column oc)
                                 @ (if oc_asc oc then '' ASC'' else '' DESC'')) (qu_orders q))
             else [])
          @ (if qu_limit q \<ge> 0 then '' LIMIT '' @ show_int (qu_limit q) else [])
          @ (if qu_offset q \<ge> 0 then '' OFFSET '' @ show_int (qu_offset q) else []),
          wparams @ (if qu_having q \<noteq> [] then qu_having_params q else [])))"

definition count_sql :: "'j json_api \<Rightarrow> dialect \<Rightarrow> 'j query \<Rightarrow> string \<times> 'j list" where
  "count_sql J d q =
     apfst (\<lambda>w. ''SELECT COUNT(*) AS '' @ quote_ident d ''c'' @ '' FROM '' @ quote_ident d (qu_table q) @ joins_sql d q @ w)
       (append_where J d q)"

definition aggregate_sql :: "'j json_api \<Rightarrow> dialect \<Rightarrow> string \<Rightarrow> string \<Rightarrow> 'j query \<Rightarrow> string \<times> 'j list" where
  "aggregate_sql J d fn col q =
     apfst (\<lambda>w. ''SELECT '' @ fn @ ''('' @ quote_ident d col @ '') AS '' @ quote_ident d ''agg''
                 @ '' FROM '' @ quote_ident d (qu_table q) @ joins_sql d q @ w)
       (append_where J d q)"

text \<open>The assignments of \<open>update\<close>: every member but \<open>id\<close>.\<close>

definition set_items :: "'j json_api \<Rightarrow> 'j \<Rightarrow> (string \<times> 'j) list" where
  "set_items J values = filter (\<lambda>(k, v). k \<noteq> ''id'') (js_items J values)"

definition update_sql :: "'j json_api \<Rightarrow> dialect \<Rightarrow> 'j \<Rightarrow> 'j query \<Rightarrow> string \<times> 'j list" where
  "update_sql J d values q =
     (let items = set_items J values; (wsql, wparams) = append_where J d q
      in (''UPDATE '' @ quote_ident d (qu_table q) @ '' SET ''
          @ join_with '', '' (map (\<lambda>(k, v). quote_ident d k @ '' = ?'') items) @ wsql,
          map snd items @ wparams))"

definition delete_sql :: "'j json_api \<Rightarrow> dialect \<Rightarrow> 'j query \<Rightarrow> string \<times> 'j list" where
  "delete_sql J d q =
     apfst (\<lambda>w. ''DELETE FROM '' @ quote_ident d (qu_table q) @ w) (append_where J d q)"

text \<open>The members that are inserted: all but an \<open>id\<close> that is null or zero.\<close>

definition insert_items :: "'j json_api \<Rightarrow> 'j \<Rightarrow> (string \<times> 'j) list" where
  "insert_items J values =
     filter (\<lambda>(k, v). \<not> (k = ''id'' \<and> (js_is_null J v \<or> js_is_zero J v))) (js_items J values)"

definition insert_sql :: "'j json_api \<Rightarrow> dialect \<Rightarrow> string \<Rightarrow> 'j \<Rightarrow> string \<times> 'j list" where
  "insert_sql J d table values =
     (let items = insert_items J values
      in (''INSERT INTO '' @ quote_ident d table @ '' ('' @ ident_list d (map fst items) @ '') VALUES (''
          @ join_with '', '' (map (\<lambda>_. ''?'') items) @ '')'', map snd items))"

definition upsert_sql :: "'j json_api \<Rightarrow> dialect \<Rightarrow> string \<Rightarrow> 'j \<Rightarrow> string list \<Rightarrow> string \<times> 'j list" where
  "upsert_sql J d table values conflict_cols =
     apfst (\<lambda>t. t @ '' ON CONFLICT ('' @ ident_list d conflict_cols @ '') DO UPDATE SET ''
               @ join_with '', '' (map (\<lambda>(k, v). quote_ident d k @ '' = excluded.'' @ quote_ident d k)
                   (filter (\<lambda>(k, v). k \<noteq> ''id'' \<and> k \<notin> set conflict_cols) (js_items J values))))
       (insert_sql J d table values)"

section \<open>Running queries\<close>

definition wrap32 :: "int \<Rightarrow> int" where
  "wrap32 i = (i + 2 ^ 31) mod 2 ^ 32 - 2 ^ 31"

definition q_get :: "'j json_api \<Rightarrow> ('s, 'j) db_handle \<Rightarrow> 'j query \<Rightarrow> ('s, 'j list) dbm" where
  "q_get J h q = (case compile_select J (dh_dialect h) q of (sql, params) \<Rightarrow> dh_query h sql params)"

text \<open>\<open>first\<close> leaves the limit of 1 in the builder.\<close>

definition q_first :: "'j json_api \<Rightarrow> ('s, 'j) db_handle \<Rightarrow> 'j query \<Rightarrow> ('s, 'j option \<times> 'j query) dbm" where
  "q_first J h q =
     (let q = q_limit 1 q
      in db_bind (q_get J h q) (\<lambda>rows. db_ret (if rows = [] then None else Some (hd rows), q)))"

text \<open>A number column of the answer: an integer, else a number (converted by \<open>conv\<close>), else a text
  scanned by \<open>std::stoll\<close>, which may throw, else 0.\<close>

definition number_of :: "'j json_api \<Rightarrow> ('j \<Rightarrow> int option) \<Rightarrow> 'j \<Rightarrow> ('s, int) dbm" where
  "number_of J conv v =
     (case js_integer J v of
        Some n \<Rightarrow> db_ret n
      | None \<Rightarrow>
          (case conv v of
             Some n \<Rightarrow> db_ret n
           | None \<Rightarrow>
               (case js_as_str J v of
                  Some t \<Rightarrow> (case stoll 10 t of Some (n, _) \<Rightarrow> db_ret n | None \<Rightarrow> db_throw ''stoll'')
                | None \<Rightarrow> db_ret 0)))"

definition q_count :: "'j json_api \<Rightarrow> ('s, 'j) db_handle \<Rightarrow> 'j query \<Rightarrow> ('s, int) dbm" where
  "q_count J h q =
     (case count_sql J (dh_dialect h) q of (sql, params) \<Rightarrow>
        db_bind (dh_query h sql params) (\<lambda>rows.
          if rows = [] then db_ret 0
          else number_of J (js_trunc J) (case js_find J (hd rows) ''c'' of None \<Rightarrow> js_null J | Some v \<Rightarrow> v)))"

definition q_exists :: "'j json_api \<Rightarrow> ('s, 'j) db_handle \<Rightarrow> 'j query \<Rightarrow> ('s, bool) dbm" where
  "q_exists J h q = db_bind (q_count J h q) (\<lambda>n. db_ret (n > 0))"

definition q_pluck :: "'j json_api \<Rightarrow> ('s, 'j) db_handle \<Rightarrow> string \<Rightarrow> 'j query \<Rightarrow> ('s, 'j list) dbm" where
  "q_pluck J h col q =
     db_bind (q_get J h (q_select [col] q)) (\<lambda>rows.
       db_ret (map (\<lambda>r. case js_find J r col of None \<Rightarrow> js_null J | Some v \<Rightarrow> v) rows))"

definition q_aggregate :: "'j json_api \<Rightarrow> ('s, 'j) db_handle \<Rightarrow> string \<Rightarrow> string \<Rightarrow> 'j query \<Rightarrow> ('s, int) dbm" where
  "q_aggregate J h fn col q =
     (case aggregate_sql J (dh_dialect h) fn col q of (sql, params) \<Rightarrow>
        db_bind (dh_query h sql params) (\<lambda>rows.
          if rows = [] then db_ret 0
          else (case js_find J (hd rows) ''agg'' of
                  None \<Rightarrow> db_ret 0
                | Some v \<Rightarrow> if js_is_null J v then db_ret 0 else number_of J (js_round J) v)))"

definition q_sum :: "'j json_api \<Rightarrow> ('s, 'j) db_handle \<Rightarrow> string \<Rightarrow> 'j query \<Rightarrow> ('s, int) dbm" where
  "q_sum J h = q_aggregate J h ''SUM''"

definition q_avg :: "'j json_api \<Rightarrow> ('s, 'j) db_handle \<Rightarrow> string \<Rightarrow> 'j query \<Rightarrow> ('s, int) dbm" where
  "q_avg J h = q_aggregate J h ''AVG''"

definition q_min :: "'j json_api \<Rightarrow> ('s, 'j) db_handle \<Rightarrow> string \<Rightarrow> 'j query \<Rightarrow> ('s, int) dbm" where
  "q_min J h = q_aggregate J h ''MIN''"

definition q_max :: "'j json_api \<Rightarrow> ('s, 'j) db_handle \<Rightarrow> string \<Rightarrow> 'j query \<Rightarrow> ('s, int) dbm" where
  "q_max J h = q_aggregate J h ''MAX''"

record 'j page =
  pg_rows :: "'j list"
  pg_total :: int
  pg_page :: int
  pg_per_page :: int
  pg_total_pages :: int

text \<open>The offset is computed in \<open>int\<close>; the number of pages is cast to \<open>int\<close>.\<close>

definition page_offset :: "int \<Rightarrow> int \<Rightarrow> int" where
  "page_offset page per_page = wrap32 ((page - 1) * per_page)"

definition page_count :: "int \<Rightarrow> int \<Rightarrow> int" where
  "page_count n per_page = (if n > 0 then wrap32 ((n + per_page - 1) div per_page) else 0)"

definition q_paginate :: "'j json_api \<Rightarrow> ('s, 'j) db_handle \<Rightarrow> int \<Rightarrow> int \<Rightarrow> 'j query \<Rightarrow> ('s, 'j page) dbm" where
  "q_paginate J h page0 per_page0 q =
     (let page = (if page0 < 1 then 1 else page0); per_page = (if per_page0 < 1 then 15 else per_page0)
      in db_bind (q_count J h q) (\<lambda>total.
         db_bind (q_get J h (q_limit per_page (q_offset (page_offset page per_page) q))) (\<lambda>rows.
           db_ret \<lparr>pg_rows = rows, pg_total = total, pg_page = page, pg_per_page = per_page,
                   pg_total_pages = page_count total per_page\<rparr>)))"

definition q_update :: "'j json_api \<Rightarrow> ('s, 'j) db_handle \<Rightarrow> 'j \<Rightarrow> 'j query \<Rightarrow> ('s, int) dbm" where
  "q_update J h values q =
     (if set_items J values = [] then db_ret 0
      else (case update_sql J (dh_dialect h) values q of (sql, params) \<Rightarrow> dh_exec h sql params))"

definition q_destroy :: "'j json_api \<Rightarrow> ('s, 'j) db_handle \<Rightarrow> 'j query \<Rightarrow> ('s, int) dbm" where
  "q_destroy J h q = (case delete_sql J (dh_dialect h) q of (sql, params) \<Rightarrow> dh_exec h sql params)"

definition q_upsert :: "'j json_api \<Rightarrow> ('s, 'j) db_handle \<Rightarrow> 'j \<Rightarrow> string list \<Rightarrow> 'j query \<Rightarrow> ('s, int) dbm" where
  "q_upsert J h values conflict_cols q =
     (if conflict_cols = [] then db_throw ''upsert requires at least one conflict column''
      else if insert_items J values = [] then db_ret 0
      else (case upsert_sql J (dh_dialect h) (qu_table q) values conflict_cols of
              (sql, params) \<Rightarrow> dh_insert h sql params))"

text \<open>The query that matches the members of \<open>attrs\<close>, \<open>id\<close> excepted.\<close>

definition match_query :: "'j json_api \<Rightarrow> string \<Rightarrow> 'j \<Rightarrow> 'j query" where
  "match_query J table attrs = fold (\<lambda>(k, v) q. q_where_eq k v q) (set_items J attrs) (new_query table)"

definition q_first_or_create :: "'j json_api \<Rightarrow> ('s, 'j) db_handle \<Rightarrow> 'j \<Rightarrow> 'j query \<Rightarrow> ('s, 'j option) dbm" where
  "q_first_or_create J h attrs q =
     db_bind (q_first J h (match_query J (qu_table q) attrs)) (\<lambda>(found, m).
       case found of
         Some r \<Rightarrow> db_ret (Some r)
       | None \<Rightarrow>
           (case insert_sql J (dh_dialect h) (qu_table q) attrs of (sql, params) \<Rightarrow>
              db_bind (dh_insert h sql params) (\<lambda>_. db_bind (q_first J h m) (\<lambda>(r, _). db_ret r))))"

text \<open>\<open>merged[it.key()] = it.value()\<close> throws when \<open>match\<close> is not an object.\<close>

fun merge_items :: "'j json_api \<Rightarrow> (string \<times> 'j) list \<Rightarrow> 'j \<Rightarrow> 'j option" where
  "merge_items J [] m = Some m"
| "merge_items J ((k, v) # xs) m = Option.bind (js_put J m k v) (merge_items J xs)"

definition q_update_or_create :: "'j json_api \<Rightarrow> ('s, 'j) db_handle \<Rightarrow> 'j \<Rightarrow> 'j \<Rightarrow> 'j query \<Rightarrow> ('s, 'j option) dbm" where
  "q_update_or_create J h matching values q =
     db_bind (q_first J h (match_query J (qu_table q) matching)) (\<lambda>(found, m).
       case found of
         Some _ \<Rightarrow> db_bind (q_update J h values m) (\<lambda>_. db_bind (q_first J h m) (\<lambda>(r, _). db_ret r))
       | None \<Rightarrow>
           (case merge_items J (js_items J values) matching of
              None \<Rightarrow> db_throw ''json''
            | Some merged \<Rightarrow> q_first_or_create J h merged q))"

section \<open>Lemmas\<close>

text \<open>The shape of a condition: everything but the values it binds.\<close>

definition cond_shape :: "'j json_api \<Rightarrow> 'j where_clause \<Rightarrow> bool \<times> string \<times> where_op \<times> bool \<times> nat" where
  "cond_shape J w =
     (wc_or w, wc_column w, wc_op w, js_is_null J (wc_value w),
      case js_elems J (wc_value w) of None \<Rightarrow> 0 | Some vs \<Rightarrow> length vs)"

definition same_shape :: "'j json_api \<Rightarrow> 'j query \<Rightarrow> 'j query \<Rightarrow> bool" where
  "same_shape J q q' \<longleftrightarrow>
     map (cond_shape J) (qu_wheres q) = map (cond_shape J) (qu_wheres q') \<and>
     q\<lparr>qu_wheres := [], qu_having_params := []\<rparr> = q'\<lparr>qu_wheres := [], qu_having_params := []\<rparr>"

text \<open>The values a condition binds, in order.\<close>

definition bound_values :: "'j json_api \<Rightarrow> 'j where_clause \<Rightarrow> 'j list" where
  "bound_values J w = snd (where_cond J w)"

lemma bound_values_eq: "bound_values J w =
  (if wc_op w \<in> {OpIsNull, OpIsNotNull} then []
   else if wc_op w \<in> {OpIn, OpNotIn} then (case js_elems J (wc_value w) of None \<Rightarrow> [] | Some vs \<Rightarrow> vs)
   else if js_is_null J (wc_value w) then [] else [wc_value w])"
  by (simp add: bound_values_def where_cond_def Let_def)

lemma map_const_length: "length vs = length vs' \<Longrightarrow> map (\<lambda>_. x) vs = map (\<lambda>_. x) vs'"
  by (simp add: map_replicate_const)

lemma cond_text_shape:
  assumes "cond_shape J w = cond_shape J w'"
  shows "fst (where_cond J w) = fst (where_cond J w')"
proof -
  define vs where "vs w = (case js_elems J (wc_value w) of None \<Rightarrow> [] | Some vs \<Rightarrow> vs)" for w :: "_ where_clause"
  have l: "length (vs w) = length (vs w')" using assms by (simp add: cond_shape_def vs_def split: option.splits)
  have "map (\<lambda>_. ''?'') (vs w) = map (\<lambda>_. ''?'') (vs w')" by (rule map_const_length [OF l])
  moreover have "vs w = [] \<longleftrightarrow> vs w' = []" using l by (metis length_0_conv)
  ultimately show ?thesis using assms
    unfolding where_cond_def Let_def by (simp flip: vs_def add: cond_shape_def)
qed

lemma where_loop_shape:
  "map (cond_shape J) ws = map (cond_shape J) ws' \<Longrightarrow> fst (where_loop J d first ws) = fst (where_loop J d first ws')"
proof (induction ws arbitrary: ws' first)
  case Nil
  then show ?case by simp
next
  case (Cons w ws)
  then obtain w' ws'' where e: "ws' = w' # ws''" "cond_shape J w = cond_shape J w'" "map (cond_shape J) ws = map (cond_shape J) ws''"
    by (cases ws') auto
  have "wc_or w = wc_or w'" "wc_column w = wc_column w'" using e(2) by (simp_all add: cond_shape_def)
  then show ?case using Cons.IH [OF e(3)] cond_text_shape [OF e(2)] e(1) by (simp add: split_def Let_def)
qed

lemma where_loop_values: "snd (where_loop J d first ws) = concat (map (bound_values J) ws)"
  by (induction ws arbitrary: first) (simp_all add: bound_values_def split_def Let_def)

lemma append_where_values: "snd (append_where J d q) = concat (map (bound_values J) (qu_wheres q))"
  by (simp add: append_where_def where_loop_values)

lemma append_where_shape: "same_shape J q q' \<Longrightarrow> fst (append_where J d q) = fst (append_where J d q')"
  using where_loop_shape [of J "qu_wheres q" "qu_wheres q'"]
  by (auto simp: append_where_def same_shape_def)

lemma op_sql_plain [sql_text]: "balanced (op_sql x)" "markers (op_sql x) = 0"
  by (cases x; simp add: balanced_def)+

lemma marks_text: "balanced (join_with '', '' (map (\<lambda>_. ''?'') vs))" "markers (join_with '', '' (map (\<lambda>_. ''?'') vs)) = length vs"
proof -
  have m: "balanced ''?''" "markers ''?'' = 1" by (simp_all add: balanced_def)
  show "balanced (join_with '', '' (map (\<lambda>_. ''?'') vs))" by (rule join_balanced) (auto simp: sql_text m)
  show "markers (join_with '', '' (map (\<lambda>_. ''?'') vs)) = length vs"
    by (subst join_markers) (auto simp: sql_text m comp_def sum_list_triv)
qed

lemma balanced_Nil [sql_text]: "balanced []"
  by (simp add: balanced_def)

lemma balanced_Cons: "c \<notin> {DQ, SQ, CHR 0x60} \<Longrightarrow> balanced (c # s) = balanced s"
  by (simp add: balanced_def)

lemma markers_Cons: "c \<notin> {DQ, SQ, CHR 0x60} \<Longrightarrow> markers (c # s) = (if c = CHR ''?'' then 1 else 0) + markers s"
  by simp

lemma where_cond_text: "balanced (fst (where_cond J w))" "markers (fst (where_cond J w)) = length (bound_values J w)"
proof -
  note t = balanced_Cons markers_Cons sql_text marks_text
  show "balanced (fst (where_cond J w))"
    by (simp add: where_cond_def Let_def t)
  show "markers (fst (where_cond J w)) = length (bound_values J w)"
    by (simp add: where_cond_def bound_values_def Let_def t)
qed

lemma plain_text: "\<forall>c \<in> set s. c \<notin> {DQ, SQ, CHR 0x60, CHR ''?''} \<Longrightarrow> balanced s \<and> markers s = 0"
  by (induction s) (auto simp: balanced_def)

lemma show_int_text [sql_text]: "balanced (show_int n)" "markers (show_int n) = 0"
proof -
  have "c \<notin> {DQ, SQ, CHR 0x60, CHR ''?''}" if "c \<in> set (show_int n)" for c
    using that show_nat_dec [of "nat \<bar>n\<bar>"] by (auto simp: show_int_def is_dec_def split: if_splits)
  then show "balanced (show_int n)" "markers (show_int n) = 0" using plain_text by blast+
qed

lemma where_loop_text:
  "balanced (fst (where_loop J d first ws)) \<and> markers (fst (where_loop J d first ws)) = length (snd (where_loop J d first ws))"
proof (induction ws arbitrary: first)
  case Nil
  then show ?case by (simp add: sql_text)
next
  case (Cons w ws)
  then show ?case
    by (simp add: split_def Let_def balanced_Cons markers_Cons sql_text where_cond_text bound_values_def)
qed

lemma append_where_text:
  "balanced (fst (append_where J d q))" "markers (fst (append_where J d q)) = length (snd (append_where J d q))"
  using where_loop_text [of J d True "qu_wheres q"]
  by (simp_all add: append_where_def balanced_Cons markers_Cons sql_text)

text \<open>The raw fragments a caller supplies: joins and \<open>HAVING\<close> leave no quote open, joins bind no
  values and \<open>HAVING\<close> has one marker for each of its parameters.\<close>

definition raw_ok :: "'j query \<Rightarrow> bool" where
  "raw_ok q \<longleftrightarrow>
     (\<forall>j \<in> set (qu_joins q). balanced (jc_type j) \<and> markers (jc_type j) = 0 \<and> balanced (jc_on j) \<and> markers (jc_on j) = 0) \<and>
     balanced (qu_having q) \<and> markers (qu_having q) = (if qu_having q = [] then 0 else length (qu_having_params q))"

lemma joins_text: "raw_ok q \<Longrightarrow> balanced (joins_sql d q) \<and> markers (joins_sql d q) = 0"
proof -
  assume r: "raw_ok q"
  let ?f = "\<lambda>j. '' '' @ jc_type j @ '' JOIN '' @ quote_ident d (jc_table j) @ '' ON '' @ jc_on j"
  have f: "balanced (?f j) \<and> markers (?f j) = 0" if "j \<in> set (qu_joins q)" for j
    using that r by (auto simp: raw_ok_def balanced_Cons markers_Cons sql_text)
  have "balanced (concat (map ?f (qu_joins q)))" by (rule concat_balanced) (use f in auto)
  moreover have "markers (concat (map ?f (qu_joins q))) = sum_list (map markers (map ?f (qu_joins q)))"
    by (rule concat_markers) (use f in auto)
  moreover have "map markers (map ?f (qu_joins q)) = map (\<lambda>_. 0) (qu_joins q)" using f by simp
  ultimately show ?thesis by (simp add: joins_sql_def)
qed

lemma join_text:
  assumes "\<And>x. x \<in> set xs \<Longrightarrow> balanced (f x) \<and> markers (f x) = n"
  shows "balanced (join_with '', '' (map f xs))" "markers (join_with '', '' (map f xs)) = n * length xs"
proof -
  show "balanced (join_with '', '' (map f xs))" by (rule join_balanced) (use assms in \<open>auto simp: sql_text\<close>)
  have "markers (join_with '', '' (map f xs)) = sum_list (map markers (map f xs))"
    by (rule join_markers) (use assms in \<open>auto simp: sql_text\<close>)
  also have "map markers (map f xs) = map (\<lambda>_. n) xs" using assms by simp
  finally show "markers (join_with '', '' (map f xs)) = n * length xs" by (simp add: sum_list_triv mult.commute)
qed

lemma orders_text:
  "balanced (join_with '', '' (map (\<lambda>oc. quote_ident d (oc_column oc) @ (if oc_asc oc then '' ASC'' else '' DESC'')) os))"
  "markers (join_with '', '' (map (\<lambda>oc. quote_ident d (oc_column oc) @ (if oc_asc oc then '' ASC'' else '' DESC'')) os)) = 0"
  by (rule join_text(1) [where n = 0], auto simp: balanced_Cons markers_Cons sql_text)
    (subst join_text(2) [where n = 0], auto simp: balanced_Cons markers_Cons sql_text)

lemma sets_text:
  "balanced (join_with '', '' (map (\<lambda>(k, v). quote_ident d k @ '' = ?'') xs))"
  "markers (join_with '', '' (map (\<lambda>(k, v). quote_ident d k @ '' = ?'') xs)) = length xs"
  by (rule join_text(1) [where n = 1], auto simp: balanced_Cons markers_Cons sql_text)
    (subst join_text(2) [where n = 1], auto simp: balanced_Cons markers_Cons sql_text)

lemma excluded_text:
  "balanced (join_with '', '' (map (\<lambda>(k, v). quote_ident d k @ '' = excluded.'' @ quote_ident d k) xs))"
  "markers (join_with '', '' (map (\<lambda>(k, v). quote_ident d k @ '' = excluded.'' @ quote_ident d k) xs)) = 0"
  by (rule join_text(1) [where n = 0], auto simp: balanced_Cons markers_Cons sql_text)
    (subst join_text(2) [where n = 0], auto simp: balanced_Cons markers_Cons sql_text)

named_theorems stmt_text \<open>a statement leaves no quote open and has one marker for each bound value\<close>

abbreviation binds_all :: "string \<times> 'j list \<Rightarrow> bool" where
  "binds_all st \<equiv> balanced (fst st) \<and> markers (fst st) = length (snd st)"

lemma compile_select_text [stmt_text]: "raw_ok q \<Longrightarrow> binds_all (compile_select J d q)"
  using joins_text [of q d] append_where_text [of J d q]
  by (simp add: compile_select_def split_def Let_def balanced_Cons markers_Cons sql_text orders_text raw_ok_def)

lemma count_text [stmt_text]: "raw_ok q \<Longrightarrow> binds_all (count_sql J d q)"
  using joins_text [of q d] append_where_text [of J d q]
  by (simp add: count_sql_def balanced_Cons markers_Cons sql_text)

lemma aggregate_text [stmt_text]: "raw_ok q \<Longrightarrow> balanced fn \<Longrightarrow> markers fn = 0 \<Longrightarrow> binds_all (aggregate_sql J d fn col q)"
  using joins_text [of q d] append_where_text [of J d q]
  by (simp add: aggregate_sql_def balanced_Cons markers_Cons sql_text)

lemma update_text [stmt_text]: "binds_all (update_sql J d vs q)"
  using append_where_text [of J d q]
  by (cases "append_where J d q") (simp add: update_sql_def Let_def balanced_Cons markers_Cons sql_text sets_text)

lemma delete_text [stmt_text]: "binds_all (delete_sql J d q)"
  using append_where_text [of J d q] by (simp add: delete_sql_def balanced_Cons markers_Cons sql_text)

lemma insert_text [stmt_text]: "binds_all (insert_sql J d table vs)"
  by (simp add: insert_sql_def Let_def balanced_Cons markers_Cons sql_text marks_text)

lemma upsert_text [stmt_text]: "binds_all (upsert_sql J d table vs cols)"
  using insert_text [of J d table vs]
  by (simp add: upsert_sql_def balanced_Cons markers_Cons sql_text excluded_text [simplified])

lemma same_shape_parts:
  assumes "same_shape J q q'"
  shows "qu_table q = qu_table q'" "qu_distinct q = qu_distinct q'" "qu_select q = qu_select q'" "qu_joins q = qu_joins q'"
    "qu_orders q = qu_orders q'" "qu_groups q = qu_groups q'" "qu_having q = qu_having q'" "qu_limit q = qu_limit q'"
    "qu_offset q = qu_offset q'"
  using assms by (cases q; cases q'; simp add: same_shape_def)+

text \<open>The statements that the methods of a builder send, with the values they bind.\<close>

definition statements :: "'j json_api \<Rightarrow> dialect \<Rightarrow> 'j \<Rightarrow> string list \<Rightarrow> string \<Rightarrow> 'j query \<Rightarrow> (string \<times> 'j list) list" where
  "statements J d vs cols col q =
     [compile_select J d q, count_sql J d q, aggregate_sql J d ''SUM'' col q, aggregate_sql J d ''AVG'' col q,
      aggregate_sql J d ''MIN'' col q, aggregate_sql J d ''MAX'' col q, update_sql J d vs q, delete_sql J d q,
      insert_sql J d (qu_table q) vs, upsert_sql J d (qu_table q) vs cols]"

lemma statements_shape:
  assumes "same_shape J q q'"
  shows "map fst (statements J d vs cols col q) = map fst (statements J d vs cols col q')"
  using append_where_shape [OF assms, of d] same_shape_parts [OF assms]
  by (simp add: statements_def compile_select_def count_sql_def aggregate_sql_def update_sql_def delete_sql_def
      insert_sql_def upsert_sql_def joins_sql_def split_def Let_def)

section \<open>Paging\<close>

lemma wrap32_id: "- (2 ^ 31) \<le> i \<Longrightarrow> i < 2 ^ 31 \<Longrightarrow> wrap32 i = i"
  by (simp add: wrap32_def)

text \<open>Consecutive windows of a list, joined.\<close>

lemma windows_join: "concat (map (\<lambda>i. take n (drop (i * n) xs)) [0..<k]) = take (k * n) xs"
proof (induction k)
  case 0
  show ?case by simp
next
  case (Suc k)
  have "take (Suc k * n) xs = take (k * n) xs @ take n (drop (k * n) xs)" using take_add [of "k * n" n xs] by (simp add: add.commute)
  with Suc show ?case by simp
qed

lemma windows_cover: "0 < n \<Longrightarrow> concat (map (\<lambda>i. take n (drop (i * n) xs)) [0..<(length xs + n - 1) div n]) = xs"
proof -
  assume n: "0 < n"
  have "length xs \<le> (length xs + n - 1) div n * n"
  proof -
    have "length xs + n - 1 < ((length xs + n - 1) div n + 1) * n"
      using n by (metis add.commute dividend_less_times_div mult.commute mult_Suc_right plus_1_eq_Suc)
    then show ?thesis by simp
  qed
  then show ?thesis by (simp add: windows_join)
qed

lemma map_from_one: "map f [1..<k + 1] = map (\<lambda>i. f (Suc i)) [0..<k]"
proof -
  have "[1..<k + 1] = map Suc [0..<k]" by (simp add: map_Suc_upt)
  then show ?thesis by simp
qed

text \<open>A database whose answer to the builder's statements is that of one fixed list of rows: all of
  them counted, a window of them selected.\<close>

definition answers :: "'j json_api \<Rightarrow> ('s, 'j) db_handle \<Rightarrow> 'j query \<Rightarrow> 'j list \<Rightarrow> bool" where
  "answers J h q rows \<longleftrightarrow>
     (\<forall>s. q_count J h q s = (Inr (int (length rows)), s)) \<and>
     (\<forall>s l n. 0 \<le> l \<longrightarrow> 0 \<le> n \<longrightarrow> q_get J h (q_limit l (q_offset n q)) s = (Inr (take (nat l) (drop (nat n) rows)), s))"

lemma paginate_page:
  assumes a: "answers J h q rows" and b: "1 \<le> per" "int i * per < 2 ^ 31"
    "int (length rows) + per \<le> 2 ^ 31"
  shows "\<exists>pg. q_paginate J h (int i + 1) per q s = (Inr pg, s) \<and>
    pg_rows pg = take (nat per) (drop (i * nat per) rows) \<and> pg_total pg = int (length rows) \<and>
    pg_total_pages pg = int ((length rows + nat per - 1) div nat per)"
proof -
  have "0 \<le> int i * per" using b(1) by simp
  then have off: "page_offset (int i + 1) per = int i * per" using b(2) by (simp add: page_offset_def wrap32_id)
  have pages: "page_count (int (length rows)) per = int ((length rows + nat per - 1) div nat per)"
  proof (cases "rows = []")
    case True
    then show ?thesis using b(1) by (simp add: page_count_def)
  next
    case False
    have "(int (length rows) + per - 1) div per = int ((length rows + nat per - 1) div nat per)"
      using b(1) False by (simp add: zdiv_int of_nat_diff Suc_le_eq)
    moreover have "int ((length rows + nat per - 1) div nat per) \<le> int (length rows + nat per - 1)"
      using div_le_dividend zle_int by blast
    then have "int ((length rows + nat per - 1) div nat per) < 2 ^ 31" using b(1,3) by simp
    ultimately show ?thesis using False b(1) by (simp add: page_count_def wrap32_id)
  qed
  have n: "nat (int i * per) = i * nat per" using b(1) by (simp add: nat_mult_distrib)
  show ?thesis using a b(1) by (simp add: q_paginate_def db_bind_def db_ret_def answers_def off pages n Let_def)
qed

definition page_rows :: "'j json_api \<Rightarrow> ('s, 'j) db_handle \<Rightarrow> int \<Rightarrow> 'j query \<Rightarrow> 's \<Rightarrow> nat \<Rightarrow> 'j list" where
  "page_rows J h per q s i = (case fst (q_paginate J h (int i) per q s) of Inl _ \<Rightarrow> [] | Inr pg \<Rightarrow> pg_rows pg)"

section \<open>Properties\<close>




text \<open>A database with one table \<open>t\<close>, which reads the window off the end of the statement.\<close>

definition demo_db :: "doc list \<Rightarrow> (unit, doc) db_handle" where
  "demo_db rows =
     \<lparr>dh_dialect = Sqlite, dh_exec = \<lambda>_ _. db_ret 0,
      dh_query = \<lambda>sql _. db_ret
        (if take 8 sql = ''SELECT C'' then [DObj [(''c'', DInt (int (length rows)))]]
         else let t = drop 24 sql
              in take (digits_value 10 0 (takeWhile is_dec t))
                   (drop (digits_value 10 0 (drop 8 (dropWhile is_dec t))) rows)),
      dh_insert = \<lambda>_ _. db_ret 0\<rparr>"

lemma demo_db_answers: "answers (doc_json []) (demo_db rows) (new_query ''t'') rows"
proof -
  have d: "\<not> is_dec SP" by (simp add: is_dec_def)
  have tw: "takeWhile is_dec (show_nat l @ SP # s) = show_nat l" "dropWhile is_dec (show_nat l @ SP # s) = SP # s" for l s
    using show_nat_dec [of l] d by (simp_all add: takeWhile_append2 dropWhile_append2)
  have "q_count (doc_json []) (demo_db rows) (new_query ''t'') s = (Inr (int (length rows)), s)" for s
    by (simp add: q_count_def count_sql_def append_where_def joins_sql_def new_query_def demo_db_def quote_ident_def ident_quote_def
        db_bind_def db_ret_def number_of_def doc_json_def)
  moreover have "q_get (doc_json []) (demo_db rows) (q_limit l (q_offset n (new_query ''t''))) s =
      (Inr (take (nat l) (drop (nat n) rows)), s)" if "0 \<le> l" "0 \<le> n" for s l n
    using that
    by (simp add: q_get_def compile_select_def append_where_def joins_sql_def new_query_def q_limit_def q_offset_def demo_db_def
        quote_ident_def ident_quote_def db_ret_def show_int_def tw digits_value_show_nat)
  ultimately show ?thesis by (simp add: answers_def)
qed


section \<open>Observations\<close>

text \<open>An \<open>upsert\<close> whose members are all conflict columns compiles to an empty \<open>SET\<close> list.\<close>

lemma upsert_empty_set:
  "fst (upsert_sql (doc_json []) Sqlite ''t'' (DObj [(''k'', DInt 1)]) [''k'']) =
   ''INSERT INTO '' @ [DQ] @ ''t'' @ [DQ] @ '' ('' @ [DQ] @ ''k'' @ [DQ] @ '') VALUES (?) ON CONFLICT ('' @ [DQ] @ ''k'' @ [DQ] @
   '') DO UPDATE SET ''"
  by (simp add: upsert_sql_def insert_sql_def insert_items_def doc_json_def ident_list_def quote_ident_def ident_quote_def Let_def)

text \<open>An offset without a limit is sent as it is (SQLite and MySQL accept \<open>OFFSET\<close> only after
  \<open>LIMIT\<close>).\<close>

lemma offset_without_limit:
  "fst (compile_select (doc_json []) Sqlite (q_offset 5 (new_query ''t''))) = ''SELECT * FROM '' @ [DQ] @ ''t'' @ [DQ] @ '' OFFSET 5''"
proof -
  have "show_int 5 = ''5''" by code_simp
  then show ?thesis
    by (simp add: compile_select_def append_where_def joins_sql_def new_query_def q_offset_def quote_ident_def ident_quote_def)
qed

end
