(* ===== verification/Database.thy ===== *)
theory Database
  imports DbQuery "HOL-Library.Multiset"
begin

text \<open>
  The database facade: \<open>include/socketify/db/pool.h\<close>, \<open>database.h\<close>, \<open>migration.h\<close> and
  \<open>src/db/database.cpp\<close>, \<open>migration.cpp\<close>: the connection pool, statements outside and inside a
  transaction (the thread-local engine), transactions with commit and rollback, and versioned
  migrations. Engines are addresses; what an engine does (a driver's code) is a record of
  operations on the outside world \<open>'w\<close>. The first half is one thread's view of the facade; the
  second half has all threads, as a step relation on the pool.
\<close>

section \<open>Engines, the facade's state\<close>

record ('w, 'j) sql_engine =
  en_exec :: "nat \<Rightarrow> string \<Rightarrow> 'j list \<Rightarrow> ('w, int) dbm"
  en_query :: "nat \<Rightarrow> string \<Rightarrow> 'j list \<Rightarrow> ('w, 'j list) dbm"
  en_insert :: "nat \<Rightarrow> string \<Rightarrow> 'j list \<Rightarrow> ('w, int) dbm"
  en_begin :: "nat \<Rightarrow> ('w, unit) dbm"
  en_commit :: "nat \<Rightarrow> ('w, unit) dbm"
  en_rollback :: "nat \<Rightarrow> ('w, unit) dbm"

text \<open>The pool's free engines (the last one is handed out first), \<open>tls_engine\<close>, the world.\<close>

record 'w db_world =
  dw_free :: "nat list"
  dw_tls :: "nat option"
  dw_env :: 'w

record database =
  da_sql :: bool
  da_doc :: bool
  da_dialect :: dialect

definition open_sql :: "dialect \<Rightarrow> database" where
  "open_sql d = \<lparr>da_sql = True, da_doc = False, da_dialect = d\<rparr>"

definition open_mongo :: database where
  "open_mongo = \<lparr>da_sql = False, da_doc = True, da_dialect = Sqlite\<rparr>"

text \<open>\<open>Pool::Pool\<close>: \<open>size\<close> engines, at least one.\<close>

definition pool_size :: "nat \<Rightarrow> nat" where
  "pool_size n = (if n \<noteq> 0 then n else 1)"

definition new_pool :: "nat \<Rightarrow> nat list" where
  "new_pool n = [0..<pool_size n]"

section \<open>Leases\<close>

definition on_env :: "('w, 'a) dbm \<Rightarrow> ('w db_world, 'a) dbm" where
  "on_env m w = (case m (dw_env w) of (r, e) \<Rightarrow> (r, w\<lparr>dw_env := e\<rparr>))"

text \<open>No engine is free: the caller waits on the condition variable. In one thread's view that is the
  end, marked with this text.\<close>

abbreviation blocked :: string where
  "blocked \<equiv> ''waiting for a connection''"

definition acquire :: "('w db_world, nat) dbm" where
  "acquire w =
     (if dw_free w = [] then (Inl blocked, w)
      else (Inr (last (dw_free w)), w\<lparr>dw_free := butlast (dw_free w)\<rparr>))"

definition release :: "nat \<Rightarrow> 'w db_world \<Rightarrow> 'w db_world" where
  "release e w = w\<lparr>dw_free := dw_free w @ [e]\<rparr>"

text \<open>A lease lives for one scope: its destructor gives the engine back, also on an exception.\<close>

definition with_lease :: "(nat \<Rightarrow> ('w db_world, 'a) dbm) \<Rightarrow> ('w db_world, 'a) dbm" where
  "with_lease f = db_bind acquire (\<lambda>e w. apsnd (release e) (f e w))"

definition ensure_sql :: "database \<Rightarrow> ('s, unit) dbm" where
  "ensure_sql d = (if \<not> da_sql d then db_throw ''not a SQL database'' else db_ret ())"

definition documents :: "database \<Rightarrow> ('s, unit) dbm" where
  "documents d = (if \<not> da_doc d then db_throw ''not a document database'' else db_ret ())"

section \<open>Statements\<close>

definition on_engine :: "database \<Rightarrow> (nat \<Rightarrow> ('w, 'a) dbm) \<Rightarrow> ('w db_world, 'a) dbm" where
  "on_engine d f =
     db_bind (ensure_sql d) (\<lambda>_ w.
       case dw_tls w of
         Some e \<Rightarrow> on_env (f e) w
       | None \<Rightarrow> with_lease (\<lambda>e. on_env (f e)) w)"

definition database_exec :: "('w, 'j) sql_engine \<Rightarrow> database \<Rightarrow> string \<Rightarrow> 'j list \<Rightarrow> ('w db_world, int) dbm" where
  "database_exec en d sql params = on_engine d (\<lambda>e. en_exec en e sql params)"

definition database_query :: "('w, 'j) sql_engine \<Rightarrow> database \<Rightarrow> string \<Rightarrow> 'j list \<Rightarrow> ('w db_world, 'j list) dbm" where
  "database_query en d sql params = on_engine d (\<lambda>e. en_query en e sql params)"

definition database_insert :: "('w, 'j) sql_engine \<Rightarrow> database \<Rightarrow> string \<Rightarrow> 'j list \<Rightarrow> ('w db_world, int) dbm" where
  "database_insert en d sql params = on_engine d (\<lambda>e. en_insert en e sql params)"

definition handle_of :: "('w, 'j) sql_engine \<Rightarrow> database \<Rightarrow> ('w db_world, 'j) db_handle" where
  "handle_of en d =
     \<lparr>dh_dialect = da_dialect d, dh_exec = database_exec en d, dh_query = database_query en d,
      dh_insert = database_insert en d\<rparr>"

text \<open>\<open>create_table\<close> cuts the rendered schema at every semicolon.\<close>

definition is_stmt_space :: "char \<Rightarrow> bool" where
  "is_stmt_space c \<longleftrightarrow> c = SP \<or> c = LF \<or> c = CR"

function cut_statements :: "string \<Rightarrow> string list" where
  "cut_statements sql =
     (case find_char CHR '';'' sql of
        None \<Rightarrow> []
      | Some pos \<Rightarrow>
          (let stmt = dropWhile is_stmt_space (take pos sql)
           in (if stmt \<noteq> [] then [stmt] else []) @ cut_statements (drop (Suc pos) sql)))"
  by pat_completeness auto
termination
  by (relation "measure length") (auto dest: find_char_less)

declare cut_statements.simps [simp del]

fun run_all :: "('a \<Rightarrow> ('s, 'b) dbm) \<Rightarrow> 'a list \<Rightarrow> ('s, unit) dbm" where
  "run_all f [] = db_ret ()"
| "run_all f (x # xs) = db_bind (f x) (\<lambda>_. run_all f xs)"

definition create_table :: "('w, 'j) sql_engine \<Rightarrow> database \<Rightarrow> schema \<Rightarrow> ('w db_world, unit) dbm" where
  "create_table en d s =
     run_all (\<lambda>stmt. database_exec en d stmt []) (cut_statements (schema_to_sql (da_dialect d) s))"

definition drop_table :: "('w, 'j) sql_engine \<Rightarrow> database \<Rightarrow> string \<Rightarrow> ('w db_world, int) dbm" where
  "drop_table en d table = database_exec en d (''DROP TABLE IF EXISTS '' @ quote_ident (da_dialect d) table) []"

section \<open>Transactions\<close>

text \<open>\<open>TransactionScope\<close>: the thread's engine for the time of \<open>f\<close>, restored in any case.\<close>

definition in_scope :: "nat \<Rightarrow> ('w db_world, 'a) dbm \<Rightarrow> ('w db_world, 'a) dbm" where
  "in_scope e f w = (case f (w\<lparr>dw_tls := Some e\<rparr>) of (r, w') \<Rightarrow> (r, w'\<lparr>dw_tls := dw_tls w\<rparr>))"

text \<open>\<open>begin\<close>, the body, \<open>commit\<close>; any exception of the body or of \<open>commit\<close> leads to \<open>rollback\<close>,
  whose own exception is dropped.\<close>

definition transaction :: "('w, 'j) sql_engine \<Rightarrow> database \<Rightarrow> ('w db_world, 'a) dbm \<Rightarrow> ('w db_world, 'a) dbm" where
  "transaction en d f =
     db_bind (ensure_sql d) (\<lambda>_. with_lease (\<lambda>e.
       db_bind (on_env (en_begin en e)) (\<lambda>_ w.
         case in_scope e (db_bind f (\<lambda>x. db_bind (on_env (en_commit en e)) (\<lambda>_. db_ret x))) w of
           (Inr x, w') \<Rightarrow> (Inr x, w')
         | (Inl err, w') \<Rightarrow> (Inl err, snd (on_env (en_rollback en e) w')))))"

section \<open>Migrations\<close>

record 's migration =
  mg_version :: string
  mg_up :: "('s, unit) dbm"
  mg_down :: "('s, unit) dbm option"

definition registry_add :: "'s migration \<Rightarrow> 's migration list \<Rightarrow> 's migration list" where
  "registry_add m items = items @ [m]"

abbreviation migrations_table :: string where
  "migrations_table \<equiv> ''_socketify_migrations''"

definition create_migrations_sql :: "dialect \<Rightarrow> string" where
  "create_migrations_sql d =
     ''CREATE TABLE IF NOT EXISTS '' @ quote_ident d migrations_table @ '' ('' @ quote_ident d ''version''
     @ '' TEXT PRIMARY KEY, '' @ quote_ident d ''applied_at'' @ '' TEXT NOT NULL DEFAULT CURRENT_TIMESTAMP)''"

definition applied_sql :: "dialect \<Rightarrow> string" where
  "applied_sql d = ''SELECT '' @ quote_ident d ''version'' @ '' FROM '' @ quote_ident d migrations_table"

definition record_sql :: "dialect \<Rightarrow> string" where
  "record_sql d =
     ''INSERT INTO '' @ quote_ident d migrations_table @ '' ('' @ quote_ident d ''version'' @ '') VALUES (?)''"

definition last_applied_sql :: "dialect \<Rightarrow> string" where
  "last_applied_sql d =
     applied_sql d @ '' ORDER BY '' @ quote_ident d ''applied_at'' @ '' DESC LIMIT 1''"

definition forget_sql :: "dialect \<Rightarrow> string" where
  "forget_sql d =
     ''DELETE FROM '' @ quote_ident d migrations_table @ '' WHERE '' @ quote_ident d ''version'' @ '' = ?''"

text \<open>\<open>r["version"].get<std::string>()\<close>, for every row.\<close>

fun row_versions :: "'j json_api \<Rightarrow> 'j list \<Rightarrow> ('s, string list) dbm" where
  "row_versions J [] = db_ret []"
| "row_versions J (r # rs) =
     (case Option.bind (js_find J r ''version'') (js_as_str J) of
        None \<Rightarrow> db_throw ''json''
      | Some v \<Rightarrow> db_bind (row_versions J rs) (\<lambda>vs. db_ret (v # vs)))"

definition migrate_one :: "'j json_api \<Rightarrow> ('w, 'j) sql_engine \<Rightarrow> database \<Rightarrow> 'w db_world migration \<Rightarrow> ('w db_world, unit) dbm" where
  "migrate_one J en d m =
     transaction en d (db_bind (mg_up m) (\<lambda>_.
       db_bind (database_exec en d (record_sql (da_dialect d)) [js_of_str J (mg_version m)]) (\<lambda>_. db_ret ())))"

definition migrate :: "'j json_api \<Rightarrow> ('w, 'j) sql_engine \<Rightarrow> database \<Rightarrow> 'w db_world migration list \<Rightarrow> ('w db_world, unit) dbm" where
  "migrate J en d registry =
     db_bind (ensure_sql d) (\<lambda>_.
     db_bind (database_exec en d (create_migrations_sql (da_dialect d)) []) (\<lambda>_.
     db_bind (database_query en d (applied_sql (da_dialect d)) []) (\<lambda>rows.
     db_bind (row_versions J rows) (\<lambda>have_versions.
       run_all (migrate_one J en d) (filter (\<lambda>m. mg_version m \<notin> set have_versions) registry)))))"

definition rollback_one :: "'j json_api \<Rightarrow> ('w, 'j) sql_engine \<Rightarrow> database \<Rightarrow> 'w db_world migration \<Rightarrow> ('w db_world, unit) dbm" where
  "rollback_one J en d m =
     transaction en d (db_bind (case mg_down m of None \<Rightarrow> db_ret () | Some f \<Rightarrow> f) (\<lambda>_.
       db_bind (database_exec en d (forget_sql (da_dialect d)) [js_of_str J (mg_version m)]) (\<lambda>_. db_ret ())))"

definition rollback_last :: "'j json_api \<Rightarrow> ('w, 'j) sql_engine \<Rightarrow> database \<Rightarrow> 'w db_world migration list \<Rightarrow> ('w db_world, unit) dbm" where
  "rollback_last J en d registry =
     db_bind (ensure_sql d) (\<lambda>_.
     db_bind (database_query en d (last_applied_sql (da_dialect d)) []) (\<lambda>rows.
       if rows = [] then db_ret ()
       else db_bind (row_versions J [hd rows]) (\<lambda>vs.
              case List.find (\<lambda>m. mg_version m = hd vs) registry of
                None \<Rightarrow> db_ret ()
              | Some m \<Rightarrow> rollback_one J en d m)))"

section \<open>Leases and scopes\<close>

text \<open>An action that leaves the pool and the thread's engine as it found them, whatever happens.\<close>

definition leaseproof :: "('w db_world, 'a) dbm \<Rightarrow> bool" where
  "leaseproof m \<longleftrightarrow> (\<forall>w. dw_free (snd (m w)) = dw_free w \<and> dw_tls (snd (m w)) = dw_tls w)"

named_theorems lease_intros \<open>the actions that give back what they take\<close>

lemma leaseproof_ret [lease_intros]: "leaseproof (db_ret x)"
  by (simp add: leaseproof_def db_ret_def)

lemma leaseproof_throw [lease_intros]: "leaseproof (db_throw e)"
  by (simp add: leaseproof_def db_throw_def)

lemma leaseproof_bind [lease_intros]: "leaseproof m \<Longrightarrow> (\<And>x. leaseproof (f x)) \<Longrightarrow> leaseproof (db_bind m f)"
  unfolding leaseproof_def db_bind_def by (auto split: prod.splits sum.splits) (metis snd_conv)+

lemma leaseproof_on_env [lease_intros]: "leaseproof (on_env m)"
  by (simp add: leaseproof_def on_env_def split: prod.split)

lemma leaseproof_ensure [lease_intros]: "leaseproof (ensure_sql d)"
  by (simp add: ensure_sql_def leaseproof_def db_throw_def db_ret_def)

lemma with_lease_run: "dw_free w \<noteq> [] \<Longrightarrow>
  with_lease f w = apsnd (release (last (dw_free w))) (f (last (dw_free w)) (w\<lparr>dw_free := butlast (dw_free w)\<rparr>))"
  by (simp add: with_lease_def db_bind_def acquire_def)

lemma with_lease_blocked: "dw_free w = [] \<Longrightarrow> with_lease f w = (Inl blocked, w)"
  by (simp add: with_lease_def db_bind_def acquire_def)

text \<open>The engine that was taken is the one put back: the pool is the same list again.\<close>

lemma leaseproof_with_lease [lease_intros]: "(\<And>e. leaseproof (f e)) \<Longrightarrow> leaseproof (with_lease f)"
proof -
  assume f: "\<And>e. leaseproof (f e)"
  have "dw_free (snd (with_lease f w)) = dw_free w \<and> dw_tls (snd (with_lease f w)) = dw_tls w" for w
    using f [of "last (dw_free w)"]
    by (cases "dw_free w = []") (simp_all add: with_lease_blocked with_lease_run release_def leaseproof_def)
  then show ?thesis by (simp add: leaseproof_def)
qed

lemma leaseproof_on_engine [lease_intros]: "leaseproof (on_engine d f)"
proof -
  have "leaseproof (\<lambda>w. case dw_tls w of Some e \<Rightarrow> on_env (f e) w | None \<Rightarrow> with_lease (\<lambda>e. on_env (f e)) w)"
    using leaseproof_on_env [of "f _"] leaseproof_with_lease [OF leaseproof_on_env, of f]
    by (auto simp: leaseproof_def split: option.split)
  then show ?thesis unfolding on_engine_def by (intro lease_intros)
qed

lemma leaseproof_statements [lease_intros]:
  "leaseproof (database_exec en d sql ps)" "leaseproof (database_query en d sql ps)" "leaseproof (database_insert en d sql ps)"
  by (simp_all add: database_exec_def database_query_def database_insert_def leaseproof_on_engine)

lemma leaseproof_run_all [lease_intros]: "(\<And>x. leaseproof (f x)) \<Longrightarrow> leaseproof (run_all f xs)"
  by (induction xs) (simp_all add: lease_intros)

lemma leaseproof_create_table [lease_intros]: "leaseproof (create_table en d s)"
  unfolding create_table_def by (intro lease_intros)

lemma leaseproof_in_scope [lease_intros]: "leaseproof f \<Longrightarrow> leaseproof (in_scope e f)"
  unfolding leaseproof_def in_scope_def by (auto split: prod.split) (metis db_world.select_convs(1) db_world.surjective db_world.update_convs(2) snd_conv)

lemma leaseproof_guarded [lease_intros]:
  "leaseproof m \<Longrightarrow> leaseproof k \<Longrightarrow>
   leaseproof (\<lambda>w. case m w of (Inr x, w') \<Rightarrow> (Inr x, w') | (Inl err, w') \<Rightarrow> (Inl err, snd (k w')))"
  unfolding leaseproof_def by (auto split: prod.split sum.split) (metis snd_conv)+

lemma leaseproof_transaction [lease_intros]: "leaseproof f \<Longrightarrow> leaseproof (transaction en d f)"
  unfolding transaction_def by (intro lease_intros)

lemma leaseproof_handle [lease_intros]:
  "leaseproof (dh_exec (handle_of en d) sql ps)" "leaseproof (dh_query (handle_of en d) sql ps)"
  "leaseproof (dh_insert (handle_of en d) sql ps)"
  by (simp_all add: handle_of_def leaseproof_statements)

lemma leaseproof_get [lease_intros]: "leaseproof (q_get J (handle_of en d) q)"
  unfolding q_get_def by (cases "compile_select J (dh_dialect (handle_of en d)) q") (simp add: lease_intros)

lemma leaseproof_first [lease_intros]: "leaseproof (q_first J (handle_of en d) q)"
  unfolding q_first_def Let_def by (intro lease_intros)

lemma leaseproof_number [lease_intros]: "leaseproof (number_of J conv v)"
  by (simp add: number_of_def lease_intros split: option.split prod.split)

lemma leaseproof_count [lease_intros]: "leaseproof (q_count J (handle_of en d) q)"
  unfolding q_count_def
  by (cases "count_sql J (dh_dialect (handle_of en d)) q") (auto intro!: lease_intros)

lemma leaseproof_paginate [lease_intros]: "leaseproof (q_paginate J (handle_of en d) page per q)"
  unfolding q_paginate_def Let_def by (intro lease_intros)

lemma leaseproof_update [lease_intros]: "leaseproof (q_update J (handle_of en d) vs q)"
  unfolding q_update_def
  by (cases "update_sql J (dh_dialect (handle_of en d)) vs q") (auto intro!: lease_intros)

lemma leaseproof_destroy [lease_intros]: "leaseproof (q_destroy J (handle_of en d) q)"
  unfolding q_destroy_def
  by (cases "delete_sql J (dh_dialect (handle_of en d)) q") (auto intro!: lease_intros)

lemma leaseproof_versions [lease_intros]: "leaseproof (row_versions J rs)"
  by (induction rs) (auto intro!: lease_intros split: option.split)

lemma leaseproof_migrate [lease_intros]:
  "(\<And>m. m \<in> set registry \<Longrightarrow> leaseproof (mg_up m)) \<Longrightarrow> leaseproof (migrate J en d registry)"
proof -
  assume up: "\<And>m. m \<in> set registry \<Longrightarrow> leaseproof (mg_up m)"
  have one: "leaseproof (migrate_one J en d m)" if "m \<in> set registry" for m
    unfolding migrate_one_def by (intro lease_intros up that)
  have "leaseproof (run_all (migrate_one J en d) ms)" if "set ms \<subseteq> set registry" for ms
    using that by (induction ms) (auto intro!: lease_intros one)
  then have ms: "leaseproof (run_all (migrate_one J en d) (filter P registry))" for P by auto
  show ?thesis unfolding migrate_def
    by (intro leaseproof_bind leaseproof_ensure leaseproof_statements leaseproof_versions ms)
qed

section \<open>Transactions\<close>

text \<open>What the databases promise of a connection: \<open>data\<close> is the database's contents as this client
  sees them, \<open>saved e\<close> the contents when connection \<open>e\<close> began its transaction. A failed commit
  leaves the transaction to be rolled back.\<close>

definition txn_contract :: "('w, 'j) sql_engine \<Rightarrow> ('w \<Rightarrow> 'x) \<Rightarrow> (nat \<Rightarrow> 'w \<Rightarrow> 'x) \<Rightarrow> bool" where
  "txn_contract en data saved \<longleftrightarrow>
     (\<forall>e w. data (snd (en_begin en e w)) = data w) \<and>
     (\<forall>e w u w'. en_begin en e w = (Inr u, w') \<longrightarrow> saved e w' = data w) \<and>
     (\<forall>e w. data (snd (en_rollback en e w)) = saved e w) \<and>
     (\<forall>e w x w'. en_commit en e w = (Inl x, w') \<longrightarrow> saved e w' = saved e w)"

definition stays_in_txn :: "(nat \<Rightarrow> 'w \<Rightarrow> 'x) \<Rightarrow> ('w db_world, 'a) dbm \<Rightarrow> bool" where
  "stays_in_txn saved f \<longleftrightarrow>
     (\<forall>e w. dw_tls w = Some e \<longrightarrow> saved e (dw_env (snd (f w))) = saved e (dw_env w))"

lemma stays_in_txn_statement:
  assumes "\<And>e w. saved e (snd (en_exec en e sql ps w)) = saved e w"
  shows "stays_in_txn saved (database_exec en d sql ps)"
  using assms by (auto simp: stays_in_txn_def database_exec_def on_engine_def db_bind_def ensure_sql_def db_throw_def db_ret_def
      on_env_def split: prod.split) (metis snd_conv)

lemma stays_in_txn_bind:
  assumes "stays_in_txn saved m" "leaseproof m" "\<And>x. stays_in_txn saved (f x)"
  shows "stays_in_txn saved (db_bind m f)"
  using assms unfolding stays_in_txn_def leaseproof_def db_bind_def
  by (auto split: prod.splits sum.splits) (metis snd_conv)+

lemma bind_ret: "db_bind (db_ret x) f = f x"
  by (rule ext) (simp add: db_bind_def db_ret_def)

definition began :: "nat \<Rightarrow> 'w db_world \<Rightarrow> 'w \<Rightarrow> 'w db_world" where
  "began e w env = w\<lparr>dw_free := butlast (dw_free w), dw_env := env, dw_tls := Some e\<rparr>"

lemma transaction_run:
  assumes "da_sql d" "dw_free w \<noteq> []" "e = last (dw_free w)"
  shows "transaction en d f w = apsnd (release e)
    (case en_begin en e (dw_env w) of
       (Inl x, env) \<Rightarrow> (Inl x, w\<lparr>dw_free := butlast (dw_free w), dw_env := env\<rparr>)
     | (Inr _, env) \<Rightarrow>
         (case db_bind f (\<lambda>x. db_bind (on_env (en_commit en e)) (\<lambda>_. db_ret x)) (began e w env) of
            (Inr x, w') \<Rightarrow> (Inr x, w'\<lparr>dw_tls := dw_tls w\<rparr>)
          | (Inl err, w') \<Rightarrow> (Inl err, w'\<lparr>dw_tls := dw_tls w, dw_env := snd (en_rollback en e (dw_env w'))\<rparr>)))"
proof -
  have t: "transaction en d f = with_lease (\<lambda>e. db_bind (on_env (en_begin en e)) (\<lambda>_ w.
         case in_scope e (db_bind f (\<lambda>x. db_bind (on_env (en_commit en e)) (\<lambda>_. db_ret x))) w of
           (Inr x, w') \<Rightarrow> (Inr x, w')
         | (Inl err, w') \<Rightarrow> (Inl err, snd (on_env (en_rollback en e) w'))))"
    using assms(1) by (simp add: transaction_def ensure_sql_def bind_ret)
  show ?thesis
    unfolding t with_lease_run [OF assms(2)] assms(3) [symmetric]
    by (cases "en_begin en e (dw_env w)")
      (simp add: db_bind_def [of "on_env (en_begin en _)"] on_env_def [of "en_begin en _"] on_env_def [of "en_rollback en _"]
        in_scope_def began_def split_def split: sum.split)
qed

section \<open>The pool with many threads\<close>

text \<open>
  The pool's mutex makes \<open>acquire\<close> and \<open>release_\<close> atomic steps; a thread that finds no free engine
  waits, so its step is not enabled. A thread may hold several leases. The state is the free list
  with the leases in hand as (thread, engine) pairs.
\<close>

record pool_state =
  ps_free :: "nat list"
  ps_leases :: "(nat \<times> nat) list"

inductive pool_step :: "pool_state \<Rightarrow> pool_state \<Rightarrow> bool" where
  take_lease: "ps_free p \<noteq> [] \<Longrightarrow>
    pool_step p (p\<lparr>ps_free := butlast (ps_free p), ps_leases := (t, last (ps_free p)) # ps_leases p\<rparr>)"
| drop_lease: "(t, e) \<in> set (ps_leases p) \<Longrightarrow>
    pool_step p (p\<lparr>ps_free := ps_free p @ [e], ps_leases := remove1 (t, e) (ps_leases p)\<rparr>)"

inductive pool_reach :: "nat \<Rightarrow> pool_state \<Rightarrow> bool" for n where
  start: "pool_reach n \<lparr>ps_free = new_pool n, ps_leases = []\<rparr>"
| step: "pool_reach n p \<Longrightarrow> pool_step p p' \<Longrightarrow> pool_reach n p'"

text \<open>Every engine is either free or in exactly one lease: no two threads ever share a connection.\<close>

lemma pool_conserves: "pool_reach n p \<Longrightarrow> mset (ps_free p) + mset (map snd (ps_leases p)) = mset (new_pool n)"
proof (induction rule: pool_reach.induct)
  case start
  show ?case by simp
next
  case (step p p')
  from step.hyps(2) step.IH show ?case
  proof (cases rule: pool_step.cases)
    case (take_lease t)
    then obtain es e where "ps_free p = es @ [e]" by (cases "ps_free p" rule: rev_cases) auto
    then show ?thesis using take_lease step.IH by simp
  next
    case (drop_lease t e)
    have "mset (ps_leases p) = add_mset (t, e) (mset (remove1 (t, e) (ps_leases p)))" using drop_lease(2) by simp
    then have "mset (map snd (ps_leases p)) = add_mset e (mset (map snd (remove1 (t, e) (ps_leases p))))"
      unfolding mset_map by (metis image_mset_add_mset snd_conv)
    then show ?thesis using drop_lease(1) step.IH by simp
  qed
qed

lemma pool_exclusive:
  assumes "pool_reach n p" "(t, e) \<in> set (ps_leases p)" "(t', e) \<in> set (ps_leases p)"
  shows "t = t' \<and> e \<notin> set (ps_free p)"
proof -
  have c: "count (mset (ps_free p)) e + count (mset (map snd (ps_leases p))) e \<le> 1"
    using arg_cong [OF pool_conserves [OF assms(1)], of "\<lambda>m. count m e"]
    by (simp add: new_pool_def count_mset_set')
  have ge: "count (mset (map snd (ps_leases p))) e \<ge> 1"
    using assms(2) by (force simp: count_greater_eq_one_iff)
  have "t = t'"
  proof (rule ccontr)
    assume "t \<noteq> t'"
    have "(t, e) \<in># mset (ps_leases p)" using assms(2) by simp
    then obtain l where l: "mset (ps_leases p) = add_mset (t, e) l" by (rule mset_add)
    have "(t', e) \<in># add_mset (t, e) l" unfolding l [symmetric] using assms(3) by simp
    then have "(t', e) \<in># l" using \<open>t \<noteq> t'\<close> by auto
    then obtain l' where l': "l = add_mset (t', e) l'" by (rule mset_add)
    then have "count (mset (map snd (ps_leases p))) e \<ge> 2" using l l' by (simp only: mset_map) simp
    with c show False by linarith
  qed
  moreover have "count (mset (ps_free p)) e = 0" using c ge by linarith
  ultimately show ?thesis by (simp add: count_eq_zero_iff)
qed

section \<open>Properties\<close>

text \<open>C32: A transaction is all or nothing and never leaks its connection: whatever the body does and
  throws, the pool and the thread's engine are afterwards what they were; when the transaction
  fails, the data are what they were; when it returns, the body ran on one connection that had
  begun a transaction, and what it left there was committed.\<close>

theorem transaction_all_or_nothing:
  assumes "txn_contract en data saved" "leaseproof f" "stays_in_txn saved f" "transaction en d f w = (r, w')"
  shows "dw_free w' = dw_free w \<and> dw_tls w' = dw_tls w \<and>
    (case r of
       Inl err \<Rightarrow> data (dw_env w') = data (dw_env w)
     | Inr x \<Rightarrow> da_sql d \<and> (\<exists>e env w2. e \<in> set (dw_free w) \<and> en_begin en e (dw_env w) = (Inr (), env) \<and>
         f (began e w env) = (Inr x, w2) \<and> en_commit en e (dw_env w2) = (Inr (), dw_env w')))"
proof -
  have lp: "dw_free w' = dw_free w" "dw_tls w' = dw_tls w"
    using leaseproof_transaction [OF assms(2), of en d] assms(4) unfolding leaseproof_def by (metis snd_conv)+
  show ?thesis
  proof (cases "da_sql d \<and> dw_free w \<noteq> []")
    case False
    then have "r = Inl (if da_sql d then blocked else ''not a SQL database'')" "w' = w"
      using assms(4)
      by (auto simp: transaction_def ensure_sql_def bind_ret db_bind_def [of "db_throw _"] db_throw_def with_lease_blocked split: if_splits)
    then show ?thesis by simp
  next
    case True
    define e where "e = last (dw_free w)"
    note run = transaction_run [where f = f and en = en, OF True [THEN conjunct1] True [THEN conjunct2] e_def]
    obtain b env where b: "en_begin en e (dw_env w) = (b, env)" by fastforce
    have data: "data env = data (dw_env w)" using assms(1) b unfolding txn_contract_def by (metis snd_conv)
    show ?thesis
    proof (cases b)
      case (Inl x)
      then have "r = Inl x" "dw_env w' = env" using run b assms(4) by (auto simp: release_def)
      then show ?thesis using lp data by simp
    next
      case (Inr u)
      have saved: "saved e env = data (dw_env w)" using assms(1) b Inr unfolding txn_contract_def by metis
      obtain rb w2 where f: "f (began e w env) = (rb, w2)" by fastforce
      have s2: "saved e (dw_env w2) = data (dw_env w)"
        using assms(3) f saved unfolding stays_in_txn_def by (metis began_def db_world.select_convs(2,3) db_world.surjective db_world.update_convs(2,3) snd_conv)
      obtain c env3 where c: "en_commit en e (dw_env w2) = (c, env3)" by fastforce
      have body: "db_bind f (\<lambda>x. db_bind (on_env (en_commit en e)) (\<lambda>_. db_ret x)) (began e w env) =
          (case rb of Inl x \<Rightarrow> (Inl x, w2)
           | Inr x \<Rightarrow> (case c of Inl y \<Rightarrow> Inl y | Inr _ \<Rightarrow> Inr x, w2\<lparr>dw_env := env3\<rparr>))"
        using f c by (simp add: db_bind_def on_env_def db_ret_def split: sum.split)
      have rollback: "data (snd (en_rollback en e v)) = saved e v" for v
        using assms(1) by (simp add: txn_contract_def)
      have failed: "saved e env3 = saved e (dw_env w2)" if "c = Inl y" for y
        using assms(1) c that unfolding txn_contract_def by metis
      have e: "e \<in> set (dw_free w)" using True e_def by simp
      show ?thesis
        using run b Inr body assms(4) lp rollback failed s2 f c e True
        by (cases rb; cases c) (auto simp: release_def)
    qed
  qed
qed

text \<open>A database with one connection, whose data are the statements executed; the second component
  is what they were when the transaction began.\<close>

definition demo_engine :: "(string list \<times> string list, doc) sql_engine" where
  "demo_engine =
     \<lparr>en_exec = \<lambda>_ sql _ (d, b). (Inr 1, (d @ [sql], b)), en_query = \<lambda>_ _ _ w. (Inr [], w),
      en_insert = \<lambda>_ sql _ (d, b). (Inr 1, (d @ [sql], b)), en_begin = \<lambda>_ (d, b). (Inr (), (d, d)),
      en_commit = \<lambda>_ w. (Inr (), w), en_rollback = \<lambda>_ (d, b). (Inr (), (b, b))\<rparr>"

theorem transaction_all_or_nothing_witness:
  "let w = \<lparr>dw_free = [0], dw_tls = None, dw_env = ([''a''], [])\<rparr>;
       body = db_bind (database_exec demo_engine (open_sql Sqlite) ''b'' []) (\<lambda>_. db_throw ''x'' :: (_, unit) dbm)
   in dw_env (snd (transaction demo_engine (open_sql Sqlite) body w)) = ([''a''], [''a'']) \<and>
      dw_free (snd (transaction demo_engine (open_sql Sqlite) body w)) = [0] \<and>
      fst (dw_env (snd (transaction demo_engine (open_sql Sqlite) body w))) = fst (dw_env w)"
proof -
  define w where "w = \<lparr>dw_free = [0 :: nat], dw_tls = None, dw_env = ([''a''], [] :: string list)\<rparr>"
  define body where "body = db_bind (database_exec demo_engine (open_sql Sqlite) ''b'' []) (\<lambda>_. db_throw ''x'' :: (_, unit) dbm)"
  have c: "txn_contract demo_engine fst (\<lambda>_. snd)" by (auto simp: txn_contract_def demo_engine_def)
  have l: "leaseproof body" unfolding body_def by (intro lease_intros)
  have ex: "stays_in_txn (\<lambda>_. snd) (database_exec demo_engine (open_sql Sqlite) ''b'' [])"
    by (rule stays_in_txn_statement) (simp add: demo_engine_def split: prod.split)
  have th: "stays_in_txn (\<lambda>_. snd) (db_throw ''x'' :: (_, unit) dbm)" by (simp add: stays_in_txn_def db_throw_def)
  have s: "stays_in_txn (\<lambda>_. snd) body" unfolding body_def by (rule stays_in_txn_bind [OF ex leaseproof_statements(1) th])
  have r: "transaction demo_engine (open_sql Sqlite) body w = (Inl ''x'', w\<lparr>dw_env := ([''a''], [''a''])\<rparr>)"
    by (simp add: transaction_def body_def w_def ensure_sql_def open_sql_def bind_ret db_bind_def db_ret_def db_throw_def acquire_def
        with_lease_def on_env_def demo_engine_def in_scope_def database_exec_def on_engine_def release_def)
  have "dw_free (snd (transaction demo_engine (open_sql Sqlite) body w)) = [0] \<and>
      fst (dw_env (snd (transaction demo_engine (open_sql Sqlite) body w))) = fst (dw_env w)"
    using transaction_all_or_nothing [OF c l s r] r by (simp add: w_def)
  then show ?thesis using r unfolding body_def w_def Let_def by simp
qed

section \<open>Tables\<close>

lemma cut_statements_step: "CHR '';'' \<notin> set s \<Longrightarrow>
  cut_statements (s @ CHR '';'' # t) = (if dropWhile is_stmt_space s = [] then [] else [dropWhile is_stmt_space s]) @ cut_statements t"
  by (subst cut_statements.simps) (simp add: find_char_append_hit Let_def)

lemma cut_statements_end: "CHR '';'' \<notin> set s \<Longrightarrow> cut_statements s = []"
  by (subst cut_statements.simps) (simp add: find_char_None_iff [THEN iffD2])

lemma no_semi_quoted: "CHR '';'' \<notin> set (quote_ident d s) \<longleftrightarrow> CHR '';'' \<notin> set s"
proof -
  have "CHR '';'' \<in> set (escape_quote q s) \<longleftrightarrow> CHR '';'' \<in> set s" if "q \<noteq> CHR '';''" for q using that by (induction s) auto
  then show ?thesis by (simp add: quote_ident_def ident_quote_def)
qed

lemma join_avoids: "c \<notin> set sep \<Longrightarrow> \<forall>x \<in> set xs. c \<notin> set x \<Longrightarrow> c \<notin> set (join_with sep xs)"
  by (induction sep xs rule: join_with.induct) auto

lemma no_semi_idents: "\<forall>n \<in> set ns. CHR '';'' \<notin> set n \<Longrightarrow> CHR '';'' \<notin> set (ident_list d ns)"
  unfolding ident_list_def by (rule join_avoids) (auto simp: no_semi_quoted)

text \<open>A schema without semicolons in its names and defaults.\<close>

definition no_semicolons :: "schema \<Rightarrow> bool" where
  "no_semicolons s \<longleftrightarrow> CHR '';'' \<notin> set (sc_table s) \<and>
     (\<forall>c \<in> set (sc_columns s). CHR '';'' \<notin> set (col_name c) \<and> CHR '';'' \<notin> set (col_default c)) \<and>
     (\<forall>fk \<in> set (sc_fks s). CHR '';'' \<notin> set (fk_column fk) \<and> CHR '';'' \<notin> set (fk_ref_table fk) \<and> CHR '';'' \<notin> set (fk_ref_column fk)) \<and>
     (\<forall>ix \<in> set (sc_indexes s). CHR '';'' \<notin> set (ix_name ix) \<and> (\<forall>c \<in> set (ix_columns ix). CHR '';'' \<notin> set c))"

lemma no_semi_type: "CHR '';'' \<notin> set (column_type_sql d c)"
  by (cases d; cases "col_type c"; simp)

lemma no_semi_column: "CHR '';'' \<notin> set (col_name c) \<Longrightarrow> CHR '';'' \<notin> set (col_default c) \<Longrightarrow> CHR '';'' \<notin> set (column_sql d c)"
  by (auto simp: column_sql_def no_semi_quoted no_semi_type)

text \<open>The statement of one index, as it is sent.\<close>

definition index_stmt :: "dialect \<Rightarrow> string \<Rightarrow> index_def \<Rightarrow> string" where
  "index_stmt d table ix =
     ''CREATE '' @ (if ix_unique ix then ''UNIQUE '' else []) @ ''INDEX '' @ (if d \<noteq> Mysql then ''IF NOT EXISTS '' else [])
     @ quote_ident d (ix_name ix) @ '' ON '' @ quote_ident d table @ '' ('' @ ident_list d (ix_columns ix) @ '')''"

lemma cut_indexes:
  assumes "CHR '';'' \<notin> set table" "\<forall>ix \<in> set ixs. CHR '';'' \<notin> set (ix_name ix) \<and> (\<forall>c \<in> set (ix_columns ix). CHR '';'' \<notin> set c)"
  shows "cut_statements (LF # concat (map (index_sql d table) ixs)) = map (index_stmt d table) ixs"
  using assms(2)
proof (induction ixs)
  case Nil
  then show ?case by (simp add: cut_statements_end)
next
  case (Cons ix ixs)
  have "CHR '';'' \<notin> set (LF # index_stmt d table ix)"
    using Cons.prems assms(1) no_semi_idents [of "ix_columns ix" d] by (auto simp: index_stmt_def no_semi_quoted)
  moreover have "index_sql d table ix = index_stmt d table ix @ '';'' @ [LF]" by (simp add: index_sql_def index_stmt_def)
  moreover have "dropWhile is_stmt_space (LF # index_stmt d table ix) = index_stmt d table ix" "index_stmt d table ix \<noteq> []"
    by (simp_all add: index_stmt_def is_stmt_space_def)
  ultimately show ?case
    using cut_statements_step [of "LF # index_stmt d table ix" "LF # concat (map (index_sql d table) ixs)"] Cons by simp
qed

text \<open>\<open>create_table\<close> sends one \<open>CREATE TABLE\<close> and one \<open>CREATE INDEX\<close> for each index.\<close>

lemma create_table_statements:
  assumes "no_semicolons s"
  shows "\<exists>body. schema_to_sql d s = body @ '';'' @ [LF] @ concat (map (index_sql d (sc_table s)) (sc_indexes s)) \<and>
    cut_statements (schema_to_sql d s) = body # map (index_stmt d (sc_table s)) (sc_indexes s)"
proof -
  define body where "body = ''CREATE TABLE IF NOT EXISTS '' @ quote_ident d (sc_table s) @ '' ('' @ [LF]
     @ join_with ('','' @ [LF]) (map (column_sql d) (sc_columns s)) @ concat (map (fk_sql d) (sc_fks s)) @ [LF] @ '')''"
  have j: "CHR '';'' \<notin> set (join_with ('','' @ [LF]) (map (column_sql d) (sc_columns s)))"
    using assms by (intro join_avoids) (auto simp: no_semicolons_def no_semi_column)
  have k: "CHR '';'' \<notin> set (fk_sql d fk)" if "fk \<in> set (sc_fks s)" for fk
    using assms that by (simp add: no_semicolons_def fk_sql_def no_semi_quoted)
  have "CHR '';'' \<notin> set body"
    unfolding body_def set_append Un_iff de_Morgan_disj using j k assms
    by (intro conjI) (auto simp: no_semi_quoted no_semicolons_def)
  moreover have "dropWhile is_stmt_space body = body" "body \<noteq> []" by (simp_all add: body_def is_stmt_space_def)
  moreover have "schema_to_sql d s = body @ '';'' @ [LF] @ concat (map (index_sql d (sc_table s)) (sc_indexes s))"
    by (simp add: schema_to_sql_def body_def)
  moreover have "cut_statements (LF # concat (map (index_sql d (sc_table s)) (sc_indexes s))) = map (index_stmt d (sc_table s)) (sc_indexes s)"
    using assms by (intro cut_indexes) (auto simp: no_semicolons_def)
  ultimately show ?thesis using cut_statements_step [of body "LF # concat (map (index_sql d (sc_table s)) (sc_indexes s))"]
    by (intro exI [of _ body]) simp
qed

section \<open>Observations\<close>

text \<open>A semicolon inside a default value cuts the table's statement in two.\<close>

lemma semicolon_cuts_statement:
  "length (cut_statements (schema_to_sql Sqlite (sc_default (SQ # '';'' @ [SQ]) (sc_text ''a'' (schema_create ''t''))))) = 2"
proof -
  define a where "a = ''CREATE TABLE IF NOT EXISTS '' @ quote_ident Sqlite ''t'' @ '' ('' @ [LF] @ ''  '' @ quote_ident Sqlite ''a'' @ '' TEXT DEFAULT '' @ [SQ]"
  have "schema_to_sql Sqlite (sc_default (SQ # '';'' @ [SQ]) (sc_text ''a'' (schema_create ''t''))) =
      a @ CHR '';'' # (SQ # LF # '')'') @ CHR '';'' # [LF]"
    by (simp add: schema_to_sql_def sc_default_def sc_text_def add_column_def schema_create_def upd_last_def column_sql_def a_def)
  moreover have "CHR '';'' \<notin> set a" "dropWhile is_stmt_space a \<noteq> []"
    by (simp_all add: a_def no_semi_quoted is_stmt_space_def)
  ultimately show ?thesis
    using cut_statements_step [of a "(SQ # LF # '')'') @ CHR '';'' # [LF]"] cut_statements_step [of "SQ # LF # '')''" "[LF]"]
    by (simp add: cut_statements_end is_stmt_space_def)
qed

text \<open>A transaction inside a transaction takes a second connection: with a pool of one it waits for
  the connection its own thread holds.\<close>

lemma nested_transaction_blocks:
  assumes "da_sql d" "dw_free w = [e]" "en_begin en e (dw_env w) = (Inr (), env)"
  shows "fst (transaction en d (transaction en d f) w) = Inl blocked"
proof -
  have "dw_free (began e w env) = []" using assms(2) by (simp add: began_def)
  then have "transaction en d f (began e w env) = (Inl blocked, began e w env)"
    using assms(1) by (simp add: transaction_def ensure_sql_def bind_ret with_lease_blocked)
  then have b: "db_bind (transaction en d f) g (began e w env) = (Inl blocked, began e w env)" for g by (simp add: db_bind_def)
  have e: "dw_free w \<noteq> []" "e = last (dw_free w)" using assms(2) by simp_all
  show ?thesis unfolding transaction_run [OF assms(1) e] assms(3) by (simp add: b)
qed

end
