(* ===== verification/DbModel.thy ===== *)
theory DbModel
  imports Database
begin

text \<open>
  Active records: \<open>include/socketify/db/validation.h\<close>, \<open>relation.h\<close>, \<open>model.h\<close>,
  \<open>model_impl.h\<close> and \<open>src/db/record.cpp\<close>. The class template \<open>Model<Derived>\<close> is a family of
  definitions over the metadata of the derived class (\<open>model_meta\<close>: table, schema, validators,
  hooks, relations); the metadata are complete when \<open>ensure_boot\<close> has run. The clock's readings
  (formatted by \<open>now_iso_\<close>) are arguments. A record's attributes are an abstract JSON object.
\<close>

section \<open>Validators\<close>

text \<open>A validator is a function of the value and all attributes; \<open>None\<close>: no complaint.\<close>

type_synonym 'j validator = "'j \<Rightarrow> 'j \<Rightarrow> string option"

definition v_required :: "'j json_api \<Rightarrow> 'j validator" where
  "v_required J v attrs = (if js_is_null J v \<or> js_as_str J v = Some [] then Some ''is required'' else None)"

definition v_email :: "'j json_api \<Rightarrow> 'j validator" where
  "v_email J v attrs =
     (case js_as_str J v of
        None \<Rightarrow> Some ''must be a string''
      | Some s \<Rightarrow>
          (case find_char CHR ''@'' s of
             None \<Rightarrow> Some ''must be a valid email''
           | Some pos \<Rightarrow>
               if pos = 0 \<or> find_char CHR ''.'' (drop pos s) = None then Some ''must be a valid email'' else None))"

definition v_min_length :: "'j json_api \<Rightarrow> nat \<Rightarrow> 'j validator" where
  "v_min_length J n v attrs =
     (case js_as_str J v of None \<Rightarrow> None | Some s \<Rightarrow> if length s < n then Some ''is too short'' else None)"

definition v_max_length :: "'j json_api \<Rightarrow> nat \<Rightarrow> 'j validator" where
  "v_max_length J n v attrs =
     (case js_as_str J v of None \<Rightarrow> None | Some s \<Rightarrow> if length s > n then Some ''is too long'' else None)"

definition v_min_value :: "'j json_api \<Rightarrow> rat \<Rightarrow> 'j validator" where
  "v_min_value J n v attrs =
     (case js_double J v of None \<Rightarrow> None | Some x \<Rightarrow> if x < n then Some ''is too small'' else None)"

definition v_max_value :: "'j json_api \<Rightarrow> rat \<Rightarrow> 'j validator" where
  "v_max_value J n v attrs =
     (case js_double J v of None \<Rightarrow> None | Some x \<Rightarrow> if x > n then Some ''is too large'' else None)"

fun run_validators :: "'j json_api \<Rightarrow> (string \<times> 'j validator) list \<Rightarrow> 'j \<Rightarrow> (string \<times> string) list" where
  "run_validators J [] attrs = []"
| "run_validators J ((field, fn) # vs) attrs =
     (let val = (case js_find J attrs field of None \<Rightarrow> js_null J | Some v \<Rightarrow> v)
      in (case fn val attrs of Some msg \<Rightarrow> [(field, msg)] | None \<Rightarrow> []) @ run_validators J vs attrs)"

definition validation_failed :: "(string \<times> string) list \<Rightarrow> string" where
  "validation_failed errs = ''validation failed: '' @ fst (hd errs) @ '' '' @ snd (hd errs)"

section \<open>Relations\<close>

datatype relation_kind = HasMany | BelongsTo | HasOne | BelongsToMany

record relation_meta =
  rl_kind :: relation_kind
  rl_name :: string
  rl_related :: string
  rl_foreign_key :: string
  rl_local_key :: string
  rl_pivot :: string
  rl_related_key :: string

definition has_many_on :: "string \<Rightarrow> string \<Rightarrow> string \<Rightarrow> relation_meta" where
  "has_many_on related fk name =
     \<lparr>rl_kind = HasMany, rl_name = name, rl_related = related, rl_foreign_key = fk, rl_local_key = ''id'',
      rl_pivot = [], rl_related_key = ''id''\<rparr>"

definition belongs_to_on :: "string \<Rightarrow> string \<Rightarrow> string \<Rightarrow> relation_meta" where
  "belongs_to_on related fk name = (has_many_on related fk name)\<lparr>rl_kind := BelongsTo\<rparr>"

definition default_name :: "string \<Rightarrow> string \<Rightarrow> string" where
  "default_name related name = (if name = [] then related else name)"

definition has_many :: "string \<Rightarrow> string \<Rightarrow> string \<Rightarrow> relation_meta" where
  "has_many related fk name = has_many_on related fk (default_name related name)"

definition belongs_to :: "string \<Rightarrow> string \<Rightarrow> string \<Rightarrow> relation_meta" where
  "belongs_to related fk name = belongs_to_on related fk (default_name related name)"

definition has_one :: "string \<Rightarrow> string \<Rightarrow> string \<Rightarrow> relation_meta" where
  "has_one related fk name = (has_many_on related fk (default_name related name))\<lparr>rl_kind := HasOne\<rparr>"

definition belongs_to_many :: "string \<Rightarrow> string \<Rightarrow> string \<Rightarrow> string \<Rightarrow> string \<Rightarrow> relation_meta" where
  "belongs_to_many related pivot fk related_key name =
     \<lparr>rl_kind = BelongsToMany, rl_name = default_name related name, rl_related = related, rl_foreign_key = fk,
      rl_local_key = ''id'', rl_pivot = pivot, rl_related_key = related_key\<rparr>"

definition find_relation :: "relation_meta list \<Rightarrow> string \<Rightarrow> relation_meta option" where
  "find_relation rels name = List.find (\<lambda>r. rl_name r = name) rels"

section \<open>Records\<close>

record 'j db_record =
  rc_has_db :: bool
  rc_table :: string
  rc_attrs :: 'j
  rc_dirty :: bool
  rc_dirty_keys :: "string set"

definition new_record :: "bool \<Rightarrow> string \<Rightarrow> 'j \<Rightarrow> 'j db_record" where
  "new_record has_db table attrs =
     \<lparr>rc_has_db = has_db, rc_table = table, rc_attrs = attrs, rc_dirty = False, rc_dirty_keys = {}\<rparr>"

definition rec_has :: "'j json_api \<Rightarrow> string \<Rightarrow> 'j db_record \<Rightarrow> bool" where
  "rec_has J key r = js_contains J (rc_attrs r) key"

text \<open>\<open>id()\<close>: 0 when missing or null; \<open>get\<close> throws for any other value that is not a number.\<close>

definition rec_id :: "'j json_api \<Rightarrow> 'j db_record \<Rightarrow> ('s, int) dbm" where
  "rec_id J r =
     (case js_find J (rc_attrs r) ''id'' of
        None \<Rightarrow> db_ret 0
      | Some v \<Rightarrow>
          if js_is_null J v then db_ret 0
          else (case js_as_int J v of None \<Rightarrow> db_throw ''json'' | Some n \<Rightarrow> db_ret n))"

definition rec_set :: "'j json_api \<Rightarrow> string \<Rightarrow> 'j \<Rightarrow> 'j db_record \<Rightarrow> ('s, 'j db_record) dbm" where
  "rec_set J key v r =
     (case js_put J (rc_attrs r) key v of
        None \<Rightarrow> db_throw ''json''
      | Some a \<Rightarrow> db_ret (r\<lparr>rc_attrs := a, rc_dirty := True, rc_dirty_keys := insert key (rc_dirty_keys r)\<rparr>))"

definition persist_update :: "'j json_api \<Rightarrow> ('s, 'j) db_handle \<Rightarrow> 'j \<Rightarrow> 'j db_record \<Rightarrow> ('s, int) dbm" where
  "persist_update J h patch r =
     db_bind (rec_id J r) (\<lambda>n. q_update J h patch (q_where_eq ''id'' (js_of_int J n) (new_query (rc_table r))))"

definition persist_destroy :: "'j json_api \<Rightarrow> ('s, 'j) db_handle \<Rightarrow> 'j db_record \<Rightarrow> ('s, int) dbm" where
  "persist_destroy J h r =
     db_bind (rec_id J r) (\<lambda>n. q_destroy J h (q_where_eq ''id'' (js_of_int J n) (new_query (rc_table r))))"

text \<open>The guard of \<open>save\<close>: no database, or an \<open>id\<close> that is missing, null or the number 0.\<close>

definition check_savable :: "'j json_api \<Rightarrow> 'j db_record \<Rightarrow> ('s, unit) dbm" where
  "check_savable J r =
     (if \<not> rc_has_db r then db_throw ''record has no database''
      else (let idv = (case js_find J (rc_attrs r) ''id'' of None \<Rightarrow> js_null J | Some v \<Rightarrow> v)
            in if js_is_null J idv \<or> js_trunc J idv = Some 0
               then db_throw ''cannot save record without id'' else db_ret ()))"

text \<open>The members of an object that pass a test, put one by one into an empty object.\<close>

fun collect_members :: "'j json_api \<Rightarrow> (string \<times> 'j) list \<Rightarrow> 'j \<Rightarrow> ('s, 'j) dbm" where
  "collect_members J [] acc = db_ret acc"
| "collect_members J ((k, v) # kvs) acc =
     (case js_put J acc k v of None \<Rightarrow> db_throw ''json'' | Some acc' \<Rightarrow> collect_members J kvs acc')"

definition clean :: "'j db_record \<Rightarrow> 'j db_record" where
  "clean r = r\<lparr>rc_dirty := False, rc_dirty_keys := {}\<rparr>"

definition record_save :: "'j json_api \<Rightarrow> ('s, 'j) db_handle \<Rightarrow> 'j db_record \<Rightarrow> ('s, 'j db_record) dbm" where
  "record_save J h r =
     db_bind (check_savable J r) (\<lambda>_.
     db_bind (collect_members J (set_items J (rc_attrs r)) (js_object J)) (\<lambda>patch.
     db_bind (persist_update J h patch r) (\<lambda>_. db_ret (clean r))))"

fun put_all :: "'j json_api \<Rightarrow> (string \<times> 'j) list \<Rightarrow> 'j db_record \<Rightarrow> ('s, 'j db_record) dbm" where
  "put_all J [] r = db_ret r"
| "put_all J ((k, v) # kvs) r = db_bind (rec_set J k v r) (put_all J kvs)"

definition record_update :: "'j json_api \<Rightarrow> ('s, 'j) db_handle \<Rightarrow> 'j \<Rightarrow> 'j db_record \<Rightarrow> ('s, 'j db_record) dbm" where
  "record_update J h patch r =
     db_bind (put_all J (js_items J patch) r) (\<lambda>r. record_save J h (r\<lparr>rc_dirty := True\<rparr>))"

definition record_destroy :: "'j json_api \<Rightarrow> ('s, 'j) db_handle \<Rightarrow> 'j db_record \<Rightarrow> ('s, unit) dbm" where
  "record_destroy J h r =
     (if \<not> rc_has_db r then db_throw ''record has no database''
      else db_bind (persist_destroy J h r) (\<lambda>_. db_ret ()))"

section \<open>Models\<close>

text \<open>A hook takes the record by reference and may do anything to it, throw included.\<close>

type_synonym ('s, 'j) hook = "'j db_record \<Rightarrow> ('s, 'j db_record) dbm"

record ('s, 'j) model_meta =
  mm_table :: string
  mm_schema :: schema
  mm_validators :: "(string \<times> 'j validator) list"
  mm_before_create :: "('s, 'j) hook list"
  mm_after_create :: "('s, 'j) hook list"
  mm_before_save :: "('s, 'j) hook list"
  mm_after_save :: "('s, 'j) hook list"
  mm_before_update :: "('s, 'j) hook list"
  mm_after_update :: "('s, 'j) hook list"
  mm_before_destroy :: "('s, 'j) hook list"
  mm_after_destroy :: "('s, 'j) hook list"
  mm_relations :: "relation_meta list"

fun run_hooks :: "('s, 'j) hook list \<Rightarrow> ('s, 'j) hook" where
  "run_hooks [] r = db_ret r"
| "run_hooks (f # fs) r = db_bind (f r) (run_hooks fs)"

definition has_column :: "string \<Rightarrow> schema \<Rightarrow> bool" where
  "has_column name s = list_ex (\<lambda>c. col_name c = name) (sc_columns s)"

text \<open>The loop over the columns; the names are distinct, so each \<open>if\<close> fires at most once.\<close>

fun stamp_columns :: "'j json_api \<Rightarrow> 'j \<Rightarrow> db_column list \<Rightarrow> 'j db_record \<Rightarrow> ('s, 'j db_record) dbm" where
  "stamp_columns J now [] r = db_ret r"
| "stamp_columns J now (c # cs) r =
     db_bind (if (col_name c = ''created_at'' \<or> col_name c = ''updated_at'') \<and> \<not> js_contains J (rc_attrs r) (col_name c)
              then rec_set J (col_name c) now r else db_ret r)
       (stamp_columns J now cs)"

definition stamp_for_create :: "'j json_api \<Rightarrow> ('s, 'j) model_meta \<Rightarrow> string \<Rightarrow> 'j db_record \<Rightarrow> ('s, 'j db_record) dbm" where
  "stamp_for_create J mm now r = stamp_columns J (js_of_str J now) (sc_columns (mm_schema mm)) r"

text \<open>Byte-wise comparison of strings, \<open>next <= prev\<close>.\<close>

fun string_le :: "string \<Rightarrow> string \<Rightarrow> bool" where
  "string_le [] t = True"
| "string_le (c # s) [] = False"
| "string_le (c # s) (d # t) = (ord c < ord d \<or> c = d \<and> string_le s t)"

text \<open>\<open>now\<close> is the first reading of the clock, \<open>later\<close> the one after the sleep.\<close>

definition touch_updated_at :: "'j json_api \<Rightarrow> ('s, 'j) model_meta \<Rightarrow> string \<Rightarrow> string \<Rightarrow> 'j db_record \<Rightarrow> ('s, 'j db_record) dbm" where
  "touch_updated_at J mm now later r =
     (if \<not> has_column ''updated_at'' (mm_schema mm) then db_ret r
      else (case js_find J (rc_attrs r) ''updated_at'' of
              None \<Rightarrow> rec_set J ''updated_at'' (js_of_str J now) r
            | Some v \<Rightarrow>
                if js_is_null J v then rec_set J ''updated_at'' (js_of_str J now) r
                else (case js_as_str J v of
                        None \<Rightarrow> db_throw ''json''
                      | Some prev \<Rightarrow>
                          rec_set J ''updated_at'' (js_of_str J (if string_le now prev then later else now)) r)))"

definition persist_insert :: "'j json_api \<Rightarrow> ('s, 'j) db_handle \<Rightarrow> 'j db_record \<Rightarrow> ('s, 'j db_record) dbm" where
  "persist_insert J h r =
     (let d = dh_dialect h; items = insert_items J (rc_attrs r);
          stmt = (if items = [] then
                    (''INSERT INTO '' @ quote_ident d (rc_table r) @ (if d = Mysql then '' () VALUES ()'' else '' DEFAULT VALUES''), [])
                  else insert_sql J d (rc_table r) (rc_attrs r))
      in db_bind (dh_insert h (fst stmt) (snd stmt)) (\<lambda>n.
           if n > 0 then
             (case js_put J (rc_attrs r) ''id'' (js_of_int J n) of
                None \<Rightarrow> db_throw ''json''
              | Some a \<Rightarrow> db_ret (r\<lparr>rc_attrs := a, rc_dirty := False\<rparr>))
           else db_ret (r\<lparr>rc_dirty := False\<rparr>)))"

definition model_create :: "'j json_api \<Rightarrow> ('s, 'j) db_handle \<Rightarrow> ('s, 'j) model_meta \<Rightarrow> string \<Rightarrow> 'j \<Rightarrow> ('s, 'j db_record) dbm" where
  "model_create J h mm now attrs =
     (let r = new_record True (mm_table mm) (if js_is_object J attrs then attrs else js_object J);
          errs = run_validators J (mm_validators mm) (rc_attrs r)
      in if errs \<noteq> [] then db_throw (validation_failed errs)
         else db_bind (run_hooks (mm_before_create mm) r) (\<lambda>r.
              db_bind (run_hooks (mm_before_save mm) r) (\<lambda>r.
              db_bind (stamp_for_create J mm now r) (\<lambda>r.
              db_bind (persist_insert J h r) (\<lambda>r.
              db_bind (run_hooks (mm_after_create mm) r) (run_hooks (mm_after_save mm)))))))"

definition model_find :: "'j json_api \<Rightarrow> ('s, 'j) db_handle \<Rightarrow> ('s, 'j) model_meta \<Rightarrow> int \<Rightarrow> ('s, 'j db_record option) dbm" where
  "model_find J h mm n =
     db_bind (q_get J h (q_limit 1 (q_where_eq ''id'' (js_of_int J n) (new_query (mm_table mm))))) (\<lambda>rows.
       db_ret (if rows = [] then None else Some (new_record True (mm_table mm) (hd rows))))"

definition model_find_or_fail :: "'j json_api \<Rightarrow> ('s, 'j) db_handle \<Rightarrow> ('s, 'j) model_meta \<Rightarrow> int \<Rightarrow> ('s, 'j db_record) dbm" where
  "model_find_or_fail J h mm n =
     db_bind (model_find J h mm n) (\<lambda>r. case r of None \<Rightarrow> db_throw ''record not found'' | Some r \<Rightarrow> db_ret r)"

definition model_query :: "('s, 'j) model_meta \<Rightarrow> 'j query" where
  "model_query mm = new_query (mm_table mm)"

definition model_all :: "'j json_api \<Rightarrow> ('s, 'j) db_handle \<Rightarrow> ('s, 'j) model_meta \<Rightarrow> ('s, 'j db_record list) dbm" where
  "model_all J h mm =
     db_bind (q_get J h (model_query mm)) (\<lambda>rows. db_ret (map (new_record True (mm_table mm)) rows))"

text \<open>The members that \<open>save\<close> writes: the changed ones (\<open>order\<close> is the iteration order of the set of
  their names), or all of them when none is known to be changed; never \<open>id\<close>.\<close>

definition patch_items :: "'j json_api \<Rightarrow> (string set \<Rightarrow> string list) \<Rightarrow> 'j db_record \<Rightarrow> (string \<times> 'j) list" where
  "patch_items J order r =
     (if rc_dirty_keys r = {} then set_items J (rc_attrs r)
      else concat (map (\<lambda>k. if k = ''id'' then [] else
                          (case js_find J (rc_attrs r) k of None \<Rightarrow> [] | Some v \<Rightarrow> [(k, v)])) (order (rc_dirty_keys r))))"

definition model_save :: "'j json_api \<Rightarrow> (string set \<Rightarrow> string list) \<Rightarrow> ('s, 'j) db_handle \<Rightarrow> ('s, 'j) model_meta \<Rightarrow>
    string \<Rightarrow> string \<Rightarrow> 'j db_record \<Rightarrow> ('s, 'j db_record) dbm" where
  "model_save J order h mm now later r =
     db_bind (check_savable J r) (\<lambda>_.
       let errs = run_validators J (mm_validators mm) (rc_attrs r)
       in if errs \<noteq> [] then db_throw (validation_failed errs)
          else db_bind (run_hooks (mm_before_update mm) r) (\<lambda>r.
               db_bind (run_hooks (mm_before_save mm) r) (\<lambda>r.
               db_bind (touch_updated_at J mm now later r) (\<lambda>r.
               if patch_items J order r = [] then db_ret r
               else db_bind (collect_members J (patch_items J order r) (js_object J)) (\<lambda>patch.
                    db_bind (persist_update J h patch r) (\<lambda>_.
                    db_bind (run_hooks (mm_after_update mm) (clean r)) (run_hooks (mm_after_save mm))))))))"

definition model_update :: "'j json_api \<Rightarrow> (string set \<Rightarrow> string list) \<Rightarrow> ('s, 'j) db_handle \<Rightarrow> ('s, 'j) model_meta \<Rightarrow>
    string \<Rightarrow> string \<Rightarrow> 'j \<Rightarrow> 'j db_record \<Rightarrow> ('s, 'j db_record) dbm" where
  "model_update J order h mm now later patch r =
     db_bind (put_all J (js_items J patch) r) (model_save J order h mm now later)"

definition model_destroy :: "'j json_api \<Rightarrow> ('s, 'j) db_handle \<Rightarrow> ('s, 'j) model_meta \<Rightarrow> 'j db_record \<Rightarrow> ('s, 'j db_record) dbm" where
  "model_destroy J h mm r =
     (if \<not> rc_has_db r then db_throw ''record has no database''
      else db_bind (run_hooks (mm_before_destroy mm) r) (\<lambda>r.
           db_bind (persist_destroy J h r) (\<lambda>_. run_hooks (mm_after_destroy mm) r)))"

definition many_to_many_sql :: "dialect \<Rightarrow> relation_meta \<Rightarrow> string" where
  "many_to_many_sql d rel =
     (let q = quote_ident d (rl_related rel); p = quote_ident d (rl_pivot rel)
      in ''SELECT '' @ q @ ''.* FROM '' @ q @ '' INNER JOIN '' @ p @ '' ON '' @ p @ ''.'' @ quote_ident d (rl_related_key rel)
         @ '' = '' @ q @ ''.'' @ quote_ident d (rl_local_key rel) @ '' WHERE '' @ p @ ''.'' @ quote_ident d (rl_foreign_key rel)
         @ '' = ?'')"

definition model_related :: "'j json_api \<Rightarrow> ('s, 'j) db_handle \<Rightarrow> ('s, 'j) model_meta \<Rightarrow> string \<Rightarrow> 'j db_record \<Rightarrow> ('s, 'j list) dbm" where
  "model_related J h mm name r =
     (case find_relation (mm_relations mm) name of
        None \<Rightarrow> db_throw (''unknown relation: '' @ name)
      | Some rel \<Rightarrow>
          (case rl_kind rel of
             HasMany \<Rightarrow> db_bind (rec_id J r) (\<lambda>n. q_get J h (q_where_eq (rl_foreign_key rel) (js_of_int J n) (new_query (rl_related rel))))
           | HasOne \<Rightarrow> db_bind (rec_id J r) (\<lambda>n.
               q_get J h (q_limit 1 (q_where_eq (rl_foreign_key rel) (js_of_int J n) (new_query (rl_related rel)))))
           | BelongsTo \<Rightarrow>
               (let fk = (case js_find J (rc_attrs r) (rl_foreign_key rel) of None \<Rightarrow> js_null J | Some v \<Rightarrow> v)
                in q_get J h (q_limit 1 (q_where_eq (rl_related_key rel) fk (new_query (rl_related rel)))))
           | BelongsToMany \<Rightarrow> db_bind (rec_id J r) (\<lambda>n.
               dh_query h (many_to_many_sql (dh_dialect h) rel) [js_of_int J n])))"

text \<open>\<open>Record::related\<close>, without associations.\<close>

definition record_related :: "string \<Rightarrow> ('s, 'j list) dbm" where
  "record_related name =
     db_throw (''unknown relation: '' @ name @ '' - use Model::related after defining associations in boot()'')"

definition migrate_schema :: "('w, 'j) sql_engine \<Rightarrow> database \<Rightarrow> ('w db_world, 'j) model_meta \<Rightarrow> ('w db_world, unit) dbm" where
  "migrate_schema en d mm = create_table en d (mm_schema mm)"

section \<open>Lemmas\<close>

text \<open>All complaints are reported, in the order of the validators.\<close>

lemma run_validators_concat:
  "run_validators J vs attrs = concat (map (\<lambda>(field, fn).
     case fn (case js_find J attrs field of None \<Rightarrow> js_null J | Some v \<Rightarrow> v) attrs of Some msg \<Rightarrow> [(field, msg)] | None \<Rightarrow> []) vs)"
  by (induction J vs attrs rule: run_validators.induct) (simp_all add: Let_def)

lemma run_validators_valid: "run_validators J vs attrs = [] \<longleftrightarrow>
  (\<forall>(field, fn) \<in> set vs. fn (case js_find J attrs field of None \<Rightarrow> js_null J | Some v \<Rightarrow> v) attrs = None)"
  unfolding run_validators_concat by (auto split: option.splits)

text \<open>An invalid record reaches neither a hook nor the database.\<close>

lemma invalid_not_created:
  assumes "js_is_object J attrs" "run_validators J (mm_validators mm) attrs = e # es"
  shows "model_create J h mm now attrs s = (Inl (''validation failed: '' @ fst e @ '' '' @ snd e), s)"
  using assms by (simp add: model_create_def new_record_def db_throw_def validation_failed_def)

lemma invalid_not_saved:
  assumes "run_validators J (mm_validators mm) (rc_attrs r) \<noteq> []"
  shows "\<exists>e. model_save J order h mm now later r s = (Inl e, s)"
  using assms by (simp add: model_save_def check_savable_def db_bind_def db_throw_def db_ret_def Let_def)

lemma db_bind_ret [simp]: "db_bind (db_ret x) f = f x"
  by (rule bind_ret)

text \<open>Members put into an empty object are found there.\<close>

lemma collect_members_object:
  fixes J :: "'j json_api"
  assumes "json_object_laws J" "js_is_object J acc"
  shows "\<exists>p. collect_members J kvs acc = (db_ret p :: ('s, 'j) dbm) \<and> js_is_object J p \<and>
    (\<forall>k. js_find J p k = (case map_of (rev kvs) k of Some v \<Rightarrow> Some v | None \<Rightarrow> js_find J acc k))"
  using assms(2)
proof (induction kvs arbitrary: acc)
  case Nil
  then show ?case by auto
next
  case (Cons kv kvs)
  obtain k v where kv: "kv = (k, v)" by (cases kv)
  obtain acc' where a: "js_put J acc k v = Some acc'" "js_is_object J acc'"
    "\<And>k'. js_find J acc' k' = (if k' = k then Some v else js_find J acc k')"
    using js_put_object [OF assms(1) Cons.prems] by metis
  obtain p where "collect_members J kvs acc' = (db_ret p :: ('s, 'j) dbm)" "js_is_object J p"
    "\<forall>k. js_find J p k = (case map_of (rev kvs) k of Some v \<Rightarrow> Some v | None \<Rightarrow> js_find J acc' k)"
    using Cons.IH [OF a(2)] by blast
  then show ?case using a kv by (intro exI [of _ p]) (auto simp: map_add_def split: option.splits)
qed

text \<open>What \<open>save\<close> sends for a valid record of a model without hooks and timestamps: one \<open>UPDATE\<close> of
  the row with its id, whose members are the changed ones; afterwards nothing is marked changed.\<close>

lemma model_save_statement:
  fixes J :: "'j json_api" and h :: "('s, 'j) db_handle"
  assumes J: "json_object_laws J" and r: "rc_has_db r" "js_find J (rc_attrs r) ''id'' = Some v" "\<not> js_is_null J v"
      "js_trunc J v \<noteq> Some 0" "js_as_int J v = Some n"
    and mm: "run_validators J (mm_validators mm) (rc_attrs r) = []" "\<not> has_column ''updated_at'' (mm_schema mm)"
      "mm_before_update mm = []" "mm_before_save mm = []" "mm_after_update mm = []" "mm_after_save mm = []"
    and k: "rc_dirty_keys r \<noteq> {}" "set (order (rc_dirty_keys r)) = rc_dirty_keys r" "patch_items J order r \<noteq> []"
  shows "\<exists>patch. model_save J order h mm now later r =
      db_bind (q_update J h patch (q_where_eq ''id'' (js_of_int J n) (new_query (rc_table r)))) (\<lambda>_. db_ret (clean r)) \<and>
    (\<forall>key. js_find J patch key = (if key \<in> rc_dirty_keys r \<and> key \<noteq> ''id'' then js_find J (rc_attrs r) key else None))"
proof -
  have e: "js_is_object J (js_object J)" "\<And>k. js_find J (js_object J) k = None" using J by (auto simp: json_object_laws_def)
  obtain p where p: "collect_members J (patch_items J order r) (js_object J) = (db_ret p :: ('s, 'j) dbm)"
    "\<forall>key. js_find J p key = (case map_of (rev (patch_items J order r)) key of Some v \<Rightarrow> Some v | None \<Rightarrow> js_find J (js_object J) key)"
    using collect_members_object [OF J e(1), of "patch_items J order r"] by blast
  have items: "(key, w) \<in> set (patch_items J order r) \<longleftrightarrow> key \<in> rc_dirty_keys r \<and> key \<noteq> ''id'' \<and> js_find J (rc_attrs r) key = Some w" for key w
    using k by (auto simp: patch_items_def split: if_splits option.splits)
  have "map_of (rev (patch_items J order r)) key = (if key \<in> rc_dirty_keys r \<and> key \<noteq> ''id'' then js_find J (rc_attrs r) key else None)" for key
  proof (cases "map_of (rev (patch_items J order r)) key")
    case None
    then have "\<And>w. (key, w) \<notin> set (patch_items J order r)" by (metis map_of_eq_None_iff image_eqI fst_conv set_rev)
    then show ?thesis using None items by (cases "js_find J (rc_attrs r) key") auto
  next
    case (Some w)
    then have "(key, w) \<in> set (patch_items J order r)" using map_of_SomeD by fastforce
    then show ?thesis using Some items by auto
  qed
  then have f: "js_find J p key = (if key \<in> rc_dirty_keys r \<and> key \<noteq> ''id'' then js_find J (rc_attrs r) key else None)" for key
    by (simp add: p(2) e(2) split: option.split)
  have "model_save J order h mm now later r =
      db_bind (q_update J h p (q_where_eq ''id'' (js_of_int J n) (new_query (rc_table r)))) (\<lambda>_. db_ret (clean r))"
    using r mm k(3) p(1)
    by (simp add: model_save_def check_savable_def touch_updated_at_def persist_update_def rec_id_def Let_def)
  then show ?thesis using f by blast
qed

section \<open>Observations\<close>

text \<open>A change made through the reference that \<open>attrs()\<close> hands out is not recorded as a change: in a
  model with timestamps \<open>save\<close> then writes \<open>updated_at\<close> only.\<close>

lemma direct_change_not_written:
  assumes "json_object_laws J" "js_is_object J (rc_attrs r)" "rc_dirty_keys r = {}" "has_column ''updated_at'' (mm_schema mm)"
    "js_find J (rc_attrs r) ''updated_at'' = None" "order {''updated_at''} = [''updated_at'']"
  shows "\<exists>r'. touch_updated_at J mm now later r s = (Inr r', s) \<and> map fst (patch_items J order r') = [''updated_at'']"
proof -
  obtain a where a: "js_put J (rc_attrs r) ''updated_at'' (js_of_str J now) = Some a"
    "js_find J a ''updated_at'' = Some (js_of_str J now)"
    using js_put_object [OF assms(1,2), of "''updated_at''" "js_of_str J now"] by metis
  then show ?thesis using assms(3-6)
    by (simp add: touch_updated_at_def rec_set_def db_ret_def patch_items_def)
qed

end
