(* ===== verification/DbDocument.thy ===== *)
theory DbDocument
  imports DbModel
begin

text \<open>
  Documents: \<open>include/socketify/db/document.h\<close> and the in-memory document engine of
  \<open>src/db/mongo_engine.cpp\<close> (the MongoDB driver itself is not code of the repository). The engine
  operations are a record (\<open>doc_ops\<close>), of which the in-memory engine is one instance.
\<close>

section \<open>The in-memory engine\<close>

record 'j doc_store =
  ds_colls :: "(string \<times> 'j list) list"
  ds_seq :: int

definition new_doc_store :: "'j doc_store" where
  "new_doc_store = \<lparr>ds_colls = [], ds_seq = 0\<rparr>"

definition match_filter :: "'j json_api \<Rightarrow> 'j \<Rightarrow> 'j \<Rightarrow> bool" where
  "match_filter J d flt \<longleftrightarrow>
     (if \<not> js_is_object J flt \<or> js_is_empty J flt then True
      else list_all (\<lambda>(k, v). case js_find J d k of None \<Rightarrow> False | Some w \<Rightarrow> js_eq J w v) (js_items J flt))"

definition coll_docs :: "string \<Rightarrow> 'j doc_store \<Rightarrow> 'j list" where
  "coll_docs coll s = (case kv_get (=) (ds_colls s) coll of None \<Rightarrow> [] | Some ds \<Rightarrow> ds)"

definition set_docs :: "string \<Rightarrow> 'j list \<Rightarrow> 'j doc_store \<Rightarrow> 'j doc_store" where
  "set_docs coll ds s = s\<lparr>ds_colls := kv_set (=) coll ds (ds_colls s)\<rparr>"

text \<open>A document without \<open>id\<close> and \<open>_id\<close> is given the next number as both.\<close>

definition mem_insert_one :: "'j json_api \<Rightarrow> string \<Rightarrow> 'j \<Rightarrow> ('j doc_store, unit) dbm" where
  "mem_insert_one J coll d s =
     (let s = set_docs coll (coll_docs coll s) s
      in if \<not> js_contains J d ''id'' \<and> \<not> js_contains J d ''_id'' then
           (let s = s\<lparr>ds_seq := ds_seq s + 1\<rparr>; n = js_of_int J (ds_seq s)
            in case Option.bind (js_put J d ''id'' n) (\<lambda>c. js_put J c ''_id'' n) of
                 None \<Rightarrow> db_throw ''json'' s
               | Some c \<Rightarrow> db_ret () (set_docs coll (coll_docs coll s @ [c]) s))
         else db_ret () (set_docs coll (coll_docs coll s @ [d]) s))"

definition mem_find_one :: "'j json_api \<Rightarrow> string \<Rightarrow> 'j \<Rightarrow> ('j doc_store, 'j option) dbm" where
  "mem_find_one J coll flt s = db_ret (List.find (\<lambda>d. match_filter J d flt) (coll_docs coll s)) s"

text \<open>The loop of \<open>find\<close>: skip, collect, stop at the limit (0: no limit).\<close>

fun find_loop :: "'j json_api \<Rightarrow> 'j \<Rightarrow> int \<Rightarrow> int \<Rightarrow> int \<Rightarrow> 'j list \<Rightarrow> 'j list \<Rightarrow> 'j list" where
  "find_loop J flt mx skip skipped acc [] = acc"
| "find_loop J flt mx skip skipped acc (d # ds) =
     (if \<not> match_filter J d flt then find_loop J flt mx skip skipped acc ds
      else if skipped < skip then find_loop J flt mx skip (skipped + 1) acc ds
      else (let acc = acc @ [d]
            in if mx > 0 \<and> int (length acc) \<ge> mx then acc else find_loop J flt mx skip skipped acc ds))"

text \<open>\<open>std::sort\<close> is the argument \<open>srt\<close>: a function of the order and the list.\<close>

definition sort_key_lt :: "'j json_api \<Rightarrow> string \<Rightarrow> bool \<Rightarrow> 'j \<Rightarrow> 'j \<Rightarrow> bool" where
  "sort_key_lt J sf asc a b =
     (let key = (\<lambda>d. case js_find J d sf of None \<Rightarrow> js_null J | Some v \<Rightarrow> v)
      in if asc then js_lt J (key a) (key b) else js_lt J (key b) (key a))"

definition mem_find :: "'j json_api \<Rightarrow> (('j \<Rightarrow> 'j \<Rightarrow> bool) \<Rightarrow> 'j list \<Rightarrow> 'j list) \<Rightarrow> string \<Rightarrow> 'j \<Rightarrow> int \<Rightarrow> int \<Rightarrow>
    string \<Rightarrow> bool \<Rightarrow> ('j doc_store, 'j list) dbm" where
  "mem_find J srt coll flt mx skip sort_field asc s =
     (let found = find_loop J flt mx skip 0 [] (coll_docs coll s)
      in db_ret (if sort_field \<noteq> [] then srt (sort_key_lt J sort_field asc) found else found) s)"

fun set_members :: "'j json_api \<Rightarrow> (string \<times> 'j) list \<Rightarrow> 'j \<Rightarrow> 'j option" where
  "set_members J [] d = Some d"
| "set_members J ((k, v) # kvs) d = Option.bind (js_put J d k v) (set_members J kvs)"

text \<open>The loop of \<open>update_many\<close>; \<open>None\<close> when a document is not an object.\<close>

fun update_docs :: "'j json_api \<Rightarrow> 'j \<Rightarrow> (string \<times> 'j) list \<Rightarrow> 'j list \<Rightarrow> (nat \<times> 'j list) option" where
  "update_docs J flt items [] = Some (0, [])"
| "update_docs J flt items (d # ds) =
     (if \<not> match_filter J d flt then map_option (apsnd ((#) d)) (update_docs J flt items ds)
      else Option.bind (set_members J items d) (\<lambda>d'.
             map_option (\<lambda>(n, ds'). (Suc n, d' # ds')) (update_docs J flt items ds)))"

definition mem_update_many :: "'j json_api \<Rightarrow> string \<Rightarrow> 'j \<Rightarrow> 'j \<Rightarrow> ('j doc_store, int) dbm" where
  "mem_update_many J coll flt upd s =
     (if kv_get (=) (ds_colls s) coll = None then db_ret 0 s
      else (case update_docs J flt (js_items J upd) (coll_docs coll s) of
              None \<Rightarrow> db_throw ''json'' s
            | Some (n, ds) \<Rightarrow> db_ret (int n) (set_docs coll ds s)))"

definition mem_delete_many :: "'j json_api \<Rightarrow> string \<Rightarrow> 'j \<Rightarrow> ('j doc_store, int) dbm" where
  "mem_delete_many J coll flt s =
     (if kv_get (=) (ds_colls s) coll = None then db_ret 0 s
      else (let c = coll_docs coll s; kept = filter (\<lambda>d. \<not> match_filter J d flt) c
            in db_ret (int (length c) - int (length kept)) (set_docs coll kept s)))"

definition mem_count :: "'j json_api \<Rightarrow> string \<Rightarrow> 'j \<Rightarrow> ('j doc_store, int) dbm" where
  "mem_count J coll flt s = db_bind (mem_find J (\<lambda>_ x. x) coll flt 0 0 [] True) (\<lambda>ds. db_ret (int (length ds))) s"

definition mem_create_index :: "string \<Rightarrow> 'j \<Rightarrow> bool \<Rightarrow> ('j doc_store, unit) dbm" where
  "mem_create_index coll keys unique = db_ret ()"

definition mem_drop :: "string \<Rightarrow> ('j doc_store, unit) dbm" where
  "mem_drop coll s = db_ret () (s\<lparr>ds_colls := kv_del (=) coll (ds_colls s)\<rparr>)"

section \<open>Document classes\<close>

record ('s, 'j) doc_ops =
  do_insert_one :: "string \<Rightarrow> 'j \<Rightarrow> ('s, unit) dbm"
  do_find_one :: "string \<Rightarrow> 'j \<Rightarrow> ('s, 'j option) dbm"
  do_find :: "string \<Rightarrow> 'j \<Rightarrow> int \<Rightarrow> int \<Rightarrow> string \<Rightarrow> bool \<Rightarrow> ('s, 'j list) dbm"
  do_update_many :: "string \<Rightarrow> 'j \<Rightarrow> 'j \<Rightarrow> ('s, int) dbm"
  do_delete_many :: "string \<Rightarrow> 'j \<Rightarrow> ('s, int) dbm"
  do_count :: "string \<Rightarrow> 'j \<Rightarrow> ('s, int) dbm"
  do_create_index :: "string \<Rightarrow> 'j \<Rightarrow> bool \<Rightarrow> ('s, unit) dbm"
  do_drop :: "string \<Rightarrow> ('s, unit) dbm"

definition memory_engine :: "'j json_api \<Rightarrow> (('j \<Rightarrow> 'j \<Rightarrow> bool) \<Rightarrow> 'j list \<Rightarrow> 'j list) \<Rightarrow> ('j doc_store, 'j) doc_ops" where
  "memory_engine J srt =
     \<lparr>do_insert_one = mem_insert_one J, do_find_one = mem_find_one J, do_find = mem_find J srt,
      do_update_many = mem_update_many J, do_delete_many = mem_delete_many J, do_count = mem_count J,
      do_create_index = mem_create_index, do_drop = mem_drop\<rparr>"

record 'j index_spec =
  is_keys :: 'j
  is_unique :: bool

definition index_asc :: "'j json_api \<Rightarrow> string \<Rightarrow> 'j index_spec option" where
  "index_asc J field = map_option (\<lambda>k. \<lparr>is_keys = k, is_unique = False\<rparr>) (js_put J (js_object J) field (js_of_int J 1))"

definition index_desc :: "'j json_api \<Rightarrow> string \<Rightarrow> 'j index_spec option" where
  "index_desc J field = map_option (\<lambda>k. \<lparr>is_keys = k, is_unique = False\<rparr>) (js_put J (js_object J) field (js_of_int J (-1)))"

definition index_unique :: "bool \<Rightarrow> 'j index_spec \<Rightarrow> 'j index_spec" where
  "index_unique u i = i\<lparr>is_unique := u\<rparr>"

type_synonym 'j doc_hook = "'j \<Rightarrow> string + 'j"

record 'j doc_meta =
  dm_collection :: string
  dm_validators :: "(string \<times> 'j validator) list"
  dm_before_save :: "'j doc_hook list"
  dm_after_save :: "'j doc_hook list"
  dm_indexes :: "'j index_spec list"

fun run_doc_hooks :: "'j doc_hook list \<Rightarrow> 'j \<Rightarrow> ('s, 'j) dbm" where
  "run_doc_hooks [] a = db_ret a"
| "run_doc_hooks (f # fs) a = (case f a of Inl e \<Rightarrow> db_throw e | Inr a' \<Rightarrow> run_doc_hooks fs a')"

definition ensure_indexes :: "('s, 'j) doc_ops \<Rightarrow> database \<Rightarrow> 'j doc_meta \<Rightarrow> ('s, unit) dbm" where
  "ensure_indexes en d dm =
     db_bind (documents d) (\<lambda>_. run_all (\<lambda>i. do_create_index en (dm_collection dm) (is_keys i) (is_unique i)) (dm_indexes dm))"

definition doc_valid :: "'j json_api \<Rightarrow> 'j doc_meta \<Rightarrow> 'j \<Rightarrow> ('s, unit) dbm" where
  "doc_valid J dm attrs =
     (let errs = run_validators J (dm_validators dm) attrs
      in if errs \<noteq> [] then db_throw (validation_failed errs) else db_ret ())"

text \<open>The result is the attributes of the document object that is returned.\<close>

definition doc_create :: "'j json_api \<Rightarrow> ('s, 'j) doc_ops \<Rightarrow> database \<Rightarrow> 'j doc_meta \<Rightarrow> 'j \<Rightarrow> ('s, 'j) dbm" where
  "doc_create J en d dm attrs =
     db_bind (doc_valid J dm attrs) (\<lambda>_.
     db_bind (run_doc_hooks (dm_before_save dm) attrs) (\<lambda>attrs.
     db_bind (documents d) (\<lambda>_.
     db_bind (do_insert_one en (dm_collection dm) attrs) (\<lambda>_. run_doc_hooks (dm_after_save dm) attrs))))"

definition doc_find_one :: "('s, 'j) doc_ops \<Rightarrow> database \<Rightarrow> 'j doc_meta \<Rightarrow> 'j \<Rightarrow> ('s, 'j option) dbm" where
  "doc_find_one en d dm flt = db_bind (documents d) (\<lambda>_. do_find_one en (dm_collection dm) flt)"

definition doc_find :: "('s, 'j) doc_ops \<Rightarrow> database \<Rightarrow> 'j doc_meta \<Rightarrow> 'j \<Rightarrow> int \<Rightarrow> ('s, 'j list) dbm" where
  "doc_find en d dm flt mx = db_bind (documents d) (\<lambda>_. do_find en (dm_collection dm) flt mx 0 [] True)"

text \<open>The filter that names a document: by \<open>_id\<close>, else by \<open>id\<close>. A default \<open>Row\<close> is null, which
  becomes an object when a member is put.\<close>

definition id_filter :: "'j json_api \<Rightarrow> 'j \<Rightarrow> ('s, 'j) dbm" where
  "id_filter J attrs =
     (case js_find J attrs ''_id'' of
        Some v \<Rightarrow> (case js_put J (js_null J) ''_id'' v of None \<Rightarrow> db_throw ''json'' | Some f \<Rightarrow> db_ret f)
      | None \<Rightarrow>
          (case js_find J attrs ''id'' of
             Some v \<Rightarrow> (case js_put J (js_null J) ''id'' v of None \<Rightarrow> db_throw ''json'' | Some f \<Rightarrow> db_ret f)
           | None \<Rightarrow> db_throw ''document has no id''))"

definition doc_update :: "'j json_api \<Rightarrow> ('s, 'j) doc_ops \<Rightarrow> database \<Rightarrow> 'j doc_meta \<Rightarrow> 'j \<Rightarrow> 'j \<Rightarrow> ('s, 'j) dbm" where
  "doc_update J en d dm patch attrs =
     (case set_members J (js_items J patch) attrs of
        None \<Rightarrow> db_throw ''json''
      | Some attrs \<Rightarrow>
          db_bind (doc_valid J dm attrs) (\<lambda>_.
          db_bind (run_doc_hooks (dm_before_save dm) attrs) (\<lambda>attrs.
          db_bind (id_filter J attrs) (\<lambda>flt.
          db_bind (documents d) (\<lambda>_.
          db_bind (do_update_many en (dm_collection dm) flt (js_del J attrs ''_id'')) (\<lambda>_.
            run_doc_hooks (dm_after_save dm) attrs))))))"

definition doc_destroy :: "'j json_api \<Rightarrow> ('s, 'j) doc_ops \<Rightarrow> database \<Rightarrow> 'j doc_meta \<Rightarrow> 'j \<Rightarrow> ('s, unit) dbm" where
  "doc_destroy J en d dm attrs =
     db_bind (id_filter J attrs) (\<lambda>flt.
     db_bind (documents d) (\<lambda>_.
     db_bind (do_delete_many en (dm_collection dm) flt) (\<lambda>_. db_ret ())))"

definition doc_populate :: "'j json_api \<Rightarrow> ('s, 'j) doc_ops \<Rightarrow> database \<Rightarrow> 'j doc_meta \<Rightarrow> string \<Rightarrow> 'j \<Rightarrow> ('s, 'j list) dbm" where
  "doc_populate J en d related fk attrs =
     (let v = (case js_find J attrs ''id'' of Some v \<Rightarrow> v
               | None \<Rightarrow> (case js_find J attrs ''_id'' of Some v \<Rightarrow> v | None \<Rightarrow> js_null J))
      in case js_put J (js_object J) fk v of
           None \<Rightarrow> db_throw ''json''
         | Some flt \<Rightarrow> doc_find en d related flt 0)"

section \<open>Lemmas\<close>

lemma coll_docs_set [simp]: "coll_docs c (set_docs c' ds s) = (if c' = c then ds else coll_docs c s)"
  by (simp add: coll_docs_def set_docs_def pm.get_set)

text \<open>\<open>find\<close> is a window of the matching documents.\<close>

lemma find_loop_window:
  "find_loop J flt mx skip skipped acc ds =
   (let found = drop (nat (skip - skipped)) (filter (\<lambda>d. match_filter J d flt) ds)
    in if mx > 0 then acc @ take (nat mx - length acc) found else acc @ found)"
  if "0 < mx \<longrightarrow> int (length acc) < mx"
  using that
proof (induction J flt mx skip skipped acc ds rule: find_loop.induct)
  case (1 J flt mx skip skipped acc)
  then show ?case by simp
next
  case (2 J flt mx skip skipped acc d ds)
  show ?case
  proof (cases "match_filter J d flt \<and> skipped < skip")
    case True
    then have "nat (skip - skipped) = Suc (nat (skip - (skipped + 1)))" by linarith
    then show ?thesis using 2 True by (simp add: Let_def)
  next
    case False
    show ?thesis
    proof (cases "match_filter J d flt")
      case m: True
      then have s: "\<not> skipped < skip" "nat (skip - skipped) = 0" using False by auto
      show ?thesis
      proof (cases "mx > 0 \<and> int (length (acc @ [d])) \<ge> mx")
        case True
        then have "nat mx - length acc = 1" using 2(4) by (simp add: nat_diff_distrib)
        then show ?thesis using True m s by (simp add: Let_def)
      next
        case nolim: False
        then have "mx > 0 \<Longrightarrow> nat mx - length acc = Suc (nat mx - Suc (length acc))" by simp
        moreover have p: "0 < mx \<longrightarrow> int (length (acc @ [d])) < mx" using nolim by auto
        moreover have "\<not> \<not> match_filter J d flt" using m by simp
        note 2(3) [OF this s(1) refl nolim p]
        ultimately show ?thesis using m s nolim by (auto simp: Let_def)
      qed
    next
      case False
      then show ?thesis using 2 by (simp add: Let_def)
    qed
  qed
qed

lemma mem_find_exact:
  "fst (mem_find J srt coll flt mx skip [] asc s) = Inr
     (let found = drop (nat skip) (filter (\<lambda>d. match_filter J d flt) (coll_docs coll s))
      in if mx > 0 then take (nat mx) found else found)"
  by (simp add: mem_find_def db_ret_def find_loop_window Let_def)

lemma mem_count_exact:
  "fst (mem_count J coll flt s) = Inr (int (length (filter (\<lambda>d. match_filter J d flt) (coll_docs coll s))))"
  by (simp add: mem_count_def db_bind_def mem_find_def db_ret_def find_loop_window Let_def)

text \<open>After \<open>delete_many\<close> nothing matches any more, and what did not match is still there.\<close>

lemma mem_delete_exact:
  "mem_delete_many J coll flt s = (Inr n, s') \<Longrightarrow>
   coll_docs coll s' = filter (\<lambda>d. \<not> match_filter J d flt) (coll_docs coll s) \<and>
   n = int (length (coll_docs coll s)) - int (length (coll_docs coll s'))"
  by (auto simp: mem_delete_many_def db_ret_def Let_def coll_docs_def split: if_splits)
    (simp_all add: set_docs_def pm.get_set)

section \<open>Observations\<close>

text \<open>The limit is applied before sorting: with a sort field, the first \<open>mx\<close> inserted documents are
  returned in order, not the \<open>mx\<close> smallest.\<close>

lemma limit_before_sort:
  "fst (mem_find (doc_json []) (\<lambda>_. rev) ''c'' (DObj []) 1 0 ''k'' True
     \<lparr>ds_colls = [(''c'', [DObj [(''k'', DInt 2)], DObj [(''k'', DInt 1)]])], ds_seq = 0\<rparr>) = Inr [DObj [(''k'', DInt 2)]]"
  by (simp add: mem_find_def db_ret_def coll_docs_def match_filter_def Let_def)

text \<open>The object that \<open>create\<close> returns does not learn the id that the store gave the document, so it
  can be neither updated nor destroyed.\<close>

lemma created_document_has_no_id:
  "let J = doc_json []; en = memory_engine J (\<lambda>_ x. x);
       dm = \<lparr>dm_collection = ''c'', dm_validators = [], dm_before_save = [], dm_after_save = [], dm_indexes = []\<rparr>;
       r = doc_create J en open_mongo dm (DObj [(''k'', DInt 7)]) new_doc_store
   in fst r = Inr (DObj [(''k'', DInt 7)]) \<and>
      coll_docs ''c'' (snd r) = [DObj [(''k'', DInt 7), (''id'', DInt 1), (''_id'', DInt 1)]] \<and>
      fst (doc_destroy J en open_mongo dm (DObj [(''k'', DInt 7)]) (snd r)) = Inl ''document has no id''"
  by (simp add: doc_create_def doc_valid_def documents_def open_mongo_def memory_engine_def mem_insert_one_def
      db_ret_def db_throw_def db_bind_def new_doc_store_def js_contains_def coll_docs_def set_docs_def doc_destroy_def
      id_filter_def Let_def)

end
