(* ===== verification/HttpDate.thy ===== *)
theory HttpDate
  imports Utils
begin

text \<open>
  Parsing of HTTP dates: \<open>parse_http_date\<close> of \<open>src/detail/utils.cpp\<close>, with the standard functions it
  calls: \<open>std::get_time\<close> (as the C++ standard describes it over \<open>strptime\<close>'s conversions, for the
  conversions of the format) and \<open>timegm\<close>. The calendar of the two directions agrees.
\<close>

section \<open>Definitions\<close>

record tm =
  tm_sec :: nat
  tm_min :: nat
  tm_hour :: nat
  tm_mday :: nat
  tm_mon :: nat
  tm_year :: nat

definition zero_tm :: tm where
  "zero_tm = \<lparr>tm_sec = 0, tm_min = 0, tm_hour = 0, tm_mday = 0, tm_mon = 0, tm_year = 0\<rparr>"

definition long_day_names :: "string list" where
  "long_day_names = [''Sunday'', ''Monday'', ''Tuesday'', ''Wednesday'', ''Thursday'', ''Friday'', ''Saturday'']"

definition long_month_names :: "string list" where
  "long_month_names = [''January'', ''February'', ''March'', ''April'', ''May'', ''June'',
    ''July'', ''August'', ''September'', ''October'', ''November'', ''December'']"

text \<open>A name, in full or abbreviated; its index and what follows it.\<close>

definition scan_name :: "string list \<Rightarrow> string \<Rightarrow> (nat \<times> string) option" where
  "scan_name names s =
     (case List.find (\<lambda>i. istarts_with s (take 3 (names ! i))) [0..<length names] of
        None \<Rightarrow> None
      | Some i \<Rightarrow> Some (i, if istarts_with s (names ! i) then drop (length (names ! i)) s else drop 3 s))"

text \<open>A number of at most \<open>k\<close> digits within its bounds.\<close>

definition scan_num :: "nat \<Rightarrow> nat \<Rightarrow> nat \<Rightarrow> string \<Rightarrow> (nat \<times> string) option" where
  "scan_num k lo hi s =
     (let ds = takeWhile (is_digit_in 10) (take k s); v = digits_value 10 0 ds
      in if ds = [] \<or> v < lo \<or> v > hi then None else Some (v, drop (length ds) s))"

definition scan_field :: "char \<Rightarrow> string \<Rightarrow> tm \<Rightarrow> (string \<times> tm) option" where
  "scan_field f s t =
     (if f = CHR ''a'' then map_option (\<lambda>(_, s). (s, t)) (scan_name long_day_names s)
      else if f = CHR ''b'' then map_option (\<lambda>(n, s). (s, t\<lparr>tm_mon := n\<rparr>)) (scan_name long_month_names s)
      else if f = CHR ''d'' then map_option (\<lambda>(n, s). (s, t\<lparr>tm_mday := n\<rparr>)) (scan_num 2 1 31 s)
      else if f = CHR ''Y'' then map_option (\<lambda>(n, s). (s, t\<lparr>tm_year := n\<rparr>)) (scan_num 4 0 9999 s)
      else if f = CHR ''H'' then map_option (\<lambda>(n, s). (s, t\<lparr>tm_hour := n\<rparr>)) (scan_num 2 0 23 s)
      else if f = CHR ''M'' then map_option (\<lambda>(n, s). (s, t\<lparr>tm_min := n\<rparr>)) (scan_num 2 0 59 s)
      else if f = CHR ''S'' then map_option (\<lambda>(n, s). (s, t\<lparr>tm_sec := n\<rparr>)) (scan_num 2 0 60 s)
      else None)"

text \<open>White space in the format takes any white space, other characters themselves, in either case.\<close>

fun get_time :: "string \<Rightarrow> string \<Rightarrow> tm \<Rightarrow> tm option" where
  "get_time [] s t = Some t"
| "get_time [c] s t =
     (if is_space c then Some t
      else case s of [] \<Rightarrow> None | x # _ \<Rightarrow> if ascii_lower x = ascii_lower c then Some t else None)"
| "get_time (c # f # fs) s t =
     (if c = CHR ''%'' then
        (case scan_field f s t of None \<Rightarrow> None | Some (s, t) \<Rightarrow> get_time fs s t)
      else if is_space c then get_time (f # fs) (dropWhile is_space s) t
      else case s of [] \<Rightarrow> None
        | x # xs \<Rightarrow> if ascii_lower x = ascii_lower c then get_time (f # fs) xs t else None)"

text \<open>The days from 1 January 1970 to a date; days beyond the month's end count on.\<close>

definition days_from_civil :: "int \<Rightarrow> int \<Rightarrow> int \<Rightarrow> int" where
  "days_from_civil y m d =
     (let y = (if m \<le> 2 then y - 1 else y);
          era = y div 400;
          yoe = y mod 400;
          mp = (if m > 2 then m - 3 else m + 9);
          doy = (153 * mp + 2) div 5 + d - 1
      in 146097 * era + 365 * yoe + yoe div 4 - yoe div 100 + doy - 719468)"

definition timegm :: "tm \<Rightarrow> int" where
  "timegm t =
     days_from_civil (int (tm_year t)) (int (tm_mon t) + 1) (int (tm_mday t)) * 86400
     + int (tm_hour t) * 3600 + int (tm_min t) * 60 + int (tm_sec t)"

text \<open>The extraction skips leading white space and fails on an empty stream; what follows the date is left.\<close>

definition parse_http_date :: "string \<Rightarrow> int option" where
  "parse_http_date s =
     (let s = dropWhile is_space s
      in if s = [] then None
         else map_option timegm (get_time ''%a, %d %b %Y %H:%M:%S GMT'' s zero_tm))"

section \<open>The calendar\<close>

lemma div_parts: "(0::int) < n \<Longrightarrow> \<exists>r. x = n * (x div n) + r \<and> 0 \<le> r \<and> r < n"
  by (rule exI [of _ "x mod n"]) simp

lemma civil_parts:
  fixes doe :: int
  assumes "0 \<le> doe" "doe < 146097" "c = min 3 (doe div 36524)" "doc = doe - 36524 * c"
    "q = doc div 1461" "doq = doc mod 1461" "a = min 3 (doq div 365)" "doy = doq - 365 * a"
  shows "0 \<le> c" "c \<le> 3" "0 \<le> q" "q \<le> 24" "0 \<le> a" "a \<le> 3" "0 \<le> doy" "doy \<le> 365"
    "doe = 36524 * c + 1461 * q + 365 * a + doy"
proof -
  obtain r1 where r1: "doe = 36524 * (doe div 36524) + r1" "0 \<le> r1" "r1 < 36524"
    using div_parts [of 36524 doe] by auto
  show c: "0 \<le> c" "c \<le> 3" using assms(1,3) by (simp_all add: pos_imp_zdiv_nonneg_iff)
  have doc: "0 \<le> doc" "doc \<le> 36524" using r1 assms(1-4) by (auto simp: min_def)
  obtain r2 where r2: "doc = 1461 * q + r2" "0 \<le> r2" "r2 < 1461" "doq = r2"
    using assms(5,6) by (intro that [of doq]) simp_all
  show "0 \<le> q" "q \<le> 24" using doc r2 by linarith+
  obtain r3 where r3: "doq = 365 * (doq div 365) + r3" "0 \<le> r3" "r3 < 365"
    using div_parts [of 365 doq] by auto
  show a: "0 \<le> a" "a \<le> 3" using r2 by (simp_all add: assms(7) pos_imp_zdiv_nonneg_iff)
  show "0 \<le> doy" "doy \<le> 365" using r2 r3 assms(7,8) by (auto simp: min_def)
  show "doe = 36524 * c + 1461 * q + 365 * a + doy" using assms(4,8) r2 by simp
qed

lemma month_parts:
  fixes doy :: int
  assumes "0 \<le> doy" "doy \<le> 365" "mp = (5 * doy + 2) div 153" "d = doy - (153 * mp + 2) div 5 + 1"
  shows "0 \<le> mp" "mp \<le> 11" "1 \<le> d" "d \<le> 31"
proof -
  obtain r where r: "5 * doy + 2 = 153 * mp + r" "0 \<le> r" "r < 153"
    using div_parts [of 153 "5 * doy + 2"] assms(3) by auto
  obtain e r' where e: "153 * mp + 2 = 5 * e + r'" "0 \<le> r'" "r' < 5" "e = (153 * mp + 2) div 5"
    using div_parts [of 5 "153 * mp + 2"] by auto
  show "0 \<le> mp" "mp \<le> 11" using r assms(1,2) by linarith+
  show "1 \<le> d" "d \<le> 31" using r e assms(4) by linarith+
qed

lemma year_of_era:
  fixes c q a :: int
  assumes "0 \<le> c" "c \<le> 3" "0 \<le> q" "q \<le> 24" "0 \<le> a" "a \<le> 3" "yoe = 100 * c + 4 * q + a"
  shows "0 \<le> yoe" "yoe < 400" "yoe div 4 = 25 * c + q" "yoe div 100 = c"
proof -
  show "0 \<le> yoe" "yoe < 400" using assms by linarith+
  show "yoe div 4 = 25 * c + q" by (rule int_div_pos_eq [of _ 4 _ a]) (use assms in simp_all)
  show "yoe div 100 = c" by (rule int_div_pos_eq [of _ 100 _ "4 * q + a"]) (use assms in simp_all)
qed

text \<open>The two directions agree, and a date is a date.\<close>

lemma civil_roundtrip:
  assumes "civil_from_days days = (y, m, d)"
  shows "days_from_civil y m d = days" "1 \<le> m" "m \<le> 12" "1 \<le> d" "d \<le> 31"
proof -
  define z where "z = days + 719468"
  define era where "era = z div 146097"
  define doe where "doe = z mod 146097"
  define c where "c = min 3 (doe div 36524)"
  define doc where "doc = doe - 36524 * c"
  define q where "q = doc div 1461"
  define doq where "doq = doc mod 1461"
  define a where "a = min 3 (doq div 365)"
  define doy where "doy = doq - 365 * a"
  define mp where "mp = (5 * doy + 2) div 153"
  define yoe where "yoe = 100 * c + 4 * q + a"
  have "0 \<le> doe" "doe < 146097" by (simp_all add: doe_def)
  note parts = civil_parts [OF this c_def doc_def q_def doq_def a_def doy_def]
  note month = month_parts [OF parts(7,8) mp_def]
  note year = year_of_era [OF parts(1-6) yoe_def]
  have res: "m = (if mp < 10 then mp + 3 else mp - 9)" "d = doy - (153 * mp + 2) div 5 + 1"
    "y = 400 * era + yoe + (if m \<le> 2 then 1 else 0)"
    using assms unfolding civil_from_days_def Let_def z_def [symmetric] era_def [symmetric] doe_def [symmetric]
      c_def [symmetric] doc_def [symmetric] q_def [symmetric] doq_def [symmetric] a_def [symmetric] doy_def [symmetric]
      mp_def [symmetric] by (auto simp: yoe_def)
  show "1 \<le> m" "m \<le> 12" using month(1,2) by (simp_all add: res(1))
  show "1 \<le> d" "d \<le> 31" using month(3,4) [OF res(2)] by simp_all
  have mp: "(if m > 2 then m - 3 else m + 9) = mp" "(if m \<le> 2 then y - 1 else y) = 400 * era + yoe"
    using month(1,2) by (auto simp: res(1,3))
  have y: "(400 * era + yoe) div 400 = era" "(400 * era + yoe) mod 400 = yoe" using year(1,2) by simp_all
  have "z = 146097 * era + doe" by (simp add: era_def doe_def)
  then show "days_from_civil y m d = days"
    unfolding days_from_civil_def mp Let_def y year(3,4) using parts(9) by (simp add: res(2) yoe_def z_def)
qed

section \<open>Scanning what was printed\<close>

lemma scan_day: "i < 7 \<Longrightarrow> scan_name long_day_names (day_names ! i @ CHR '','' # r) = Some (i, CHR '','' # r)"
proof -
  assume "i < 7"
  then consider "i = 0" | "i = 1" | "i = 2" | "i = 3" | "i = 4" | "i = 5" | "i = 6" by linarith
  then show ?thesis
    by cases (simp_all add: scan_name_def day_names_def long_day_names_def upt_conv_Cons istarts_with_def iequal_ascii_def ascii_lower_def)
qed

lemma scan_month:
  assumes "i < 12" shows "scan_name long_month_names (month_names ! i @ SP # r) = Some (i, SP # r)"
proof -
  have "\<forall>i \<in> set [0..<12]. scan_name long_month_names (month_names ! i @ SP # r) = Some (i, SP # r)"
    by (simp add: scan_name_def month_names_def long_month_names_def upt_conv_Cons istarts_with_def iequal_ascii_def ascii_lower_def)
  then show ?thesis using assms by simp
qed

lemma scan_num_digits:
  assumes "\<forall>c \<in> set ds. is_dec c" "ds \<noteq> []" "length ds \<le> k" "\<not> is_digit_in 10 c"
    and "digits_value 10 0 ds = v" "lo \<le> v" "v \<le> hi"
  shows "scan_num k lo hi (ds @ c # r) = Some (v, c # r)"
proof -
  obtain m where m: "k = length ds + m" using assms(3) le_Suc_ex by blast
  have "takeWhile (is_digit_in 10) (take k (ds @ c # r)) = ds"
    unfolding m using assms(1,4) by (cases m) (auto simp: takeWhile_append2 is_dec_digit)
  then show ?thesis using assms(2,5-7) by (simp add: scan_num_def)
qed

lemma two_digits_value:
  assumes "0 \<le> n" "n \<le> 99"
  shows "\<forall>c \<in> set (two_digits n). is_dec c" "length (two_digits n) = 2" "digits_value 10 0 (two_digits n) = nat n"
proof -
  have b: "nat (n div 10) < 10" "nat (n mod 10) < 10" using assms by (auto simp: nat_less_iff)
  then show "\<forall>c \<in> set (two_digits n). is_dec c" "length (two_digits n) = 2" by (simp_all add: two_digits_def is_dec_chr)
  have v: "digit_value (chr (48 + k)) = Some k" if "k < 10" for k using that by (simp add: digit_value_def)
  have "10 * nat (n div 10) + nat (n mod 10) = nat n"
    using assms by (simp add: nat_mult_distrib [symmetric] nat_add_distrib [symmetric] flip: nat_numeral)
  then show "digits_value 10 0 (two_digits n) = nat n" using v [OF b(1)] v [OF b(2)] by (simp add: two_digits_def)
qed

lemma scan_two:
  assumes "int lo \<le> n" "n \<le> int hi" "hi \<le> 99" "\<not> is_digit_in 10 c"
  shows "scan_num 2 lo hi (two_digits n @ c # r) = Some (nat n, c # r)"
proof (rule scan_num_digits)
  have n: "0 \<le> n" "n \<le> 99" using assms(1-3) by linarith+
  note t = two_digits_value [OF n]
  show "\<forall>c \<in> set (two_digits n). is_dec c" "length (two_digits n) \<le> 2" "two_digits n \<noteq> []"
    "digits_value 10 0 (two_digits n) = nat n" using t by auto
  show "lo \<le> nat n" "nat n \<le> hi" using assms(1,2) by linarith+
qed (rule assms(4))

lemma length_year: "n < 10000 \<Longrightarrow> length (show_nat n) \<le> 4"
  by (subst show_nat.simps, subst show_nat.simps, subst show_nat.simps, subst show_nat.simps) auto

lemma scan_year:
  assumes "0 \<le> y" "y \<le> 9999" "\<not> is_digit_in 10 c"
  shows "scan_num 4 0 9999 (show_int y @ c # r) = Some (nat y, c # r)"
proof -
  have "show_int y = show_nat (nat y)" "nat y < 10000" using assms(1,2) by (simp_all add: show_int_def)
  then show ?thesis
    by (simp only:, intro scan_num_digits) (use assms length_year [of "nat y"] in \<open>simp_all add: show_nat_dec digits_value_show_nat\<close>)
qed

section \<open>Round trip\<close>

lemma get_time_steps:
  "get_time (CHR ''%'' # f # fs) s t = (case scan_field f s t of None \<Rightarrow> None | Some (s, t) \<Rightarrow> get_time fs s t)"
  "c \<noteq> CHR ''%'' \<Longrightarrow> \<not> is_space c \<Longrightarrow> get_time (c # f # fs) (c # s) t = get_time (f # fs) s t"
  "\<not> is_space (hd s) \<Longrightarrow> s \<noteq> [] \<Longrightarrow> get_time (SP # f # fs) (SP # s) t = get_time (f # fs) s t"
  "\<not> is_space c \<Longrightarrow> get_time [c] (c # s) t = Some t"
proof -
  show "get_time (SP # f # fs) (SP # s) t = get_time (f # fs) s t" if "\<not> is_space (hd s)" "s \<noteq> []"
  proof -
    have "dropWhile is_space (SP # s) = s" using that by (cases s) (auto simp: is_space_def)
    then show ?thesis by (simp add: is_space_def)
  qed
qed simp_all

lemma printed_heads:
  "i < 7 \<Longrightarrow> \<not> is_space (hd (day_names ! i @ r)) \<and> day_names ! i \<noteq> []"
  "i < 12 \<Longrightarrow> \<not> is_space (hd (month_names ! i @ r)) \<and> month_names ! i \<noteq> []"
  "0 \<le> n \<Longrightarrow> n \<le> 99 \<Longrightarrow> \<not> is_space (hd (two_digits n @ r)) \<and> two_digits n \<noteq> []"
  "0 \<le> y \<Longrightarrow> \<not> is_space (hd (show_int y @ r)) \<and> show_int y \<noteq> []"
proof -
  have "\<forall>i \<in> set [0..<7]. \<not> is_space (hd (day_names ! i)) \<and> day_names ! i \<noteq> []"
    by (simp add: day_names_def upt_conv_Cons is_space_def)
  then show "i < 7 \<Longrightarrow> \<not> is_space (hd (day_names ! i @ r)) \<and> day_names ! i \<noteq> []" by (simp add: hd_append)
  have "\<forall>i \<in> set [0..<12]. \<not> is_space (hd (month_names ! i)) \<and> month_names ! i \<noteq> []"
    by (simp add: month_names_def upt_conv_Cons is_space_def)
  then show "i < 12 \<Longrightarrow> \<not> is_space (hd (month_names ! i @ r)) \<and> month_names ! i \<noteq> []" by (simp add: hd_append)
  show "\<not> is_space (hd (two_digits n @ r)) \<and> two_digits n \<noteq> []" if "0 \<le> n" "n \<le> 99"
    using two_digits_value(1) [OF that] by (auto simp: two_digits_def is_dec_not_space)
  show "\<not> is_space (hd (show_int y @ r)) \<and> show_int y \<noteq> []" if "0 \<le> y"
  proof -
    have "hd (show_nat (nat y)) \<in> set (show_nat (nat y))" by (rule hd_in_set) simp
    then have "\<not> is_space (hd (show_nat (nat y)))" using show_nat_dec is_dec_not_space by blast
    then show ?thesis using that by (simp add: show_int_def)
  qed
qed

lemma no_digit: "\<not> is_digit_in 10 SP" "\<not> is_digit_in 10 CHR '':''"
  by (simp_all add: is_digit_in_def digit_value_def)

lemma printed_fields:
  "i < 7 \<Longrightarrow> scan_field CHR ''a'' (day_names ! i @ CHR '','' # r) t = Some (CHR '','' # r, t)"
  "1 \<le> d \<Longrightarrow> d \<le> 31 \<Longrightarrow> scan_field CHR ''d'' (two_digits d @ SP # r) t = Some (SP # r, t\<lparr>tm_mday := nat d\<rparr>)"
  "i < 12 \<Longrightarrow> scan_field CHR ''b'' (month_names ! i @ SP # r) t = Some (SP # r, t\<lparr>tm_mon := i\<rparr>)"
  "0 \<le> y \<Longrightarrow> y \<le> 9999 \<Longrightarrow> scan_field CHR ''Y'' (show_int y @ SP # r) t = Some (SP # r, t\<lparr>tm_year := nat y\<rparr>)"
  "0 \<le> n \<Longrightarrow> n \<le> 23 \<Longrightarrow> scan_field CHR ''H'' (two_digits n @ CHR '':'' # r) t = Some (CHR '':'' # r, t\<lparr>tm_hour := nat n\<rparr>)"
  "0 \<le> n \<Longrightarrow> n \<le> 59 \<Longrightarrow> scan_field CHR ''M'' (two_digits n @ CHR '':'' # r) t = Some (CHR '':'' # r, t\<lparr>tm_min := nat n\<rparr>)"
  "0 \<le> n \<Longrightarrow> n \<le> 59 \<Longrightarrow> scan_field CHR ''S'' (two_digits n @ SP # r) t = Some (SP # r, t\<lparr>tm_sec := nat n\<rparr>)"
  by (simp_all add: scan_field_def scan_day scan_month scan_year scan_two no_digit)

lemma http_date_parsed:
  assumes "civil_from_days (u div 86400) = (y, m, d)" "0 \<le> y" "y \<le> 9999"
  shows "parse_http_date (http_date u) = Some u"
proof -
  define sod where "sod = u mod 86400"
  have sod: "0 \<le> sod" "sod < 86400" "u = 86400 * (u div 86400) + sod" by (simp_all add: sod_def)
  define h where "h = sod div 3600"
  define mi where "mi = sod mod 3600 div 60"
  define s where "s = sod mod 60"
  have h: "0 \<le> h" "h \<le> 23" "0 \<le> mi" "mi \<le> 59" "0 \<le> s" "s \<le> 59" "sod = h * 3600 + mi * 60 + s"
  proof -
    obtain r where r: "sod = 3600 * h + r" "0 \<le> r" "r < 3600" "r = sod mod 3600" by (auto simp: h_def)
    obtain r' where r': "r = 60 * mi + r'" "0 \<le> r'" "r' < 60" using div_parts [of 60 r] by (auto simp: mi_def r(4))
    have "sod = 60 * (60 * h + mi) + r'" using r(1) r'(1) by simp
    then have "s = r'" unfolding s_def by (rule int_mod_pos_eq [OF _ r'(2,3)])
    then show "0 \<le> h" "h \<le> 23" "0 \<le> mi" "mi \<le> 59" "0 \<le> s" "s \<le> 59" "sod = h * 3600 + mi * 60 + s"
      using r r' sod(1,2) by linarith+
  qed
  note c = civil_roundtrip [OF assms(1)]
  define i where "i = nat ((u div 86400 + 4) mod 7)"
  define j where "j = nat (m - 1)"
  have ij: "i < 7" "j < 12" "int j + 1 = m" using c(2,3) by (auto simp: i_def j_def nat_less_iff)
  have p: "http_date u = day_names ! i @ '', '' @ two_digits d @ '' '' @ month_names ! j @ '' '' @ show_int y @ '' '' @
      two_digits h @ '':'' @ two_digits mi @ '':'' @ two_digits s @ '' GMT''"
    by (simp add: http_date_def assms(1) i_def j_def h_def mi_def s_def sod_def Let_def)
  have "dropWhile is_space (http_date u) = http_date u" "http_date u \<noteq> []"
    using printed_heads(1) [OF ij(1), of "[]"] by (auto simp: p dropWhile_eq_self_iff)
  moreover have sp: "\<not> is_space CHR '',''" "\<not> is_space CHR '':''" "\<not> is_space CHR ''G''" "\<not> is_space CHR ''M''" "\<not> is_space CHR ''T''"
    by (simp_all add: is_space_def)
  moreover have "get_time ''%a, %d %b %Y %H:%M:%S GMT'' (http_date u) zero_tm =
      Some \<lparr>tm_sec = nat s, tm_min = nat mi, tm_hour = nat h, tm_mday = nat d, tm_mon = j, tm_year = nat y\<rparr>"
    unfolding p using c(4,5) h(1-6) ij(1,2) assms(2,3)
    by (simp add: get_time_steps(1) printed_fields printed_heads [where r = "[]", unfolded append_Nil2] get_time_steps(2-4) sp zero_tm_def
        del: get_time.simps)
  moreover have "timegm \<lparr>tm_sec = nat s, tm_min = nat mi, tm_hour = nat h, tm_mday = nat d, tm_mon = j, tm_year = nat y\<rparr> = u"
    using c(1,4) assms(2) h sod(3) by (simp add: timegm_def ij(3))
  ultimately show ?thesis by (simp add: parse_http_date_def)
qed

text \<open>C36: dates survive the exchange. Every time of the years 0 to 9999, printed as an HTTP date, is parsed back to the
  same second: calendar, weekday, padding and the numbers of the two directions agree.\<close>

theorem http_date_roundtrip:
  assumes "civil_from_days (u div 86400) = (y, m, d)" "0 \<le> y" "y \<le> 9999"
  shows "parse_http_date (http_date u) = Some u"
  by (rule http_date_parsed [OF assms])

theorem http_date_roundtrip_witness: "parse_http_date (http_date 784111777) = Some 784111777"
proof (rule http_date_roundtrip)
  show "civil_from_days (784111777 div 86400) = (1994, 11, 6)" by code_simp
qed simp_all

text \<open>A day beyond the end of its month counts on: 31 February is read as 3 March.\<close>

lemma impossible_date_accepted: "timegm (zero_tm\<lparr>tm_year := 2021, tm_mon := 1, tm_mday := 31\<rparr>) = timegm (zero_tm\<lparr>tm_year := 2021, tm_mon := 2, tm_mday := 3\<rparr>)"
  by (simp add: timegm_def zero_tm_def days_from_civil_def)

end
