(* ===== verification/StaticFiles.thy ===== *)
theory StaticFiles
  imports Cors HttpDate
begin

text \<open>
  Static files: \<open>include/socketify/static_files.h\<close> and \<open>src/static_files.cpp\<close>. Mount points,
  the resolution of a request path inside the served directory, conditional and range requests.
  The file system (\<open>std::filesystem\<close>) is an argument: canonical paths, the kind, size and time
  of a file, the entries of a directory.
\<close>

section \<open>Definitions\<close>

datatype file_kind = Regular | Directory | Special

record fs_api =
  fs_canonical :: "string \<Rightarrow> string option"
  fs_kind :: "string \<Rightarrow> file_kind option"
  fs_size :: "string \<Rightarrow> nat option"
  fs_mtime :: "string \<Rightarrow> int"
  fs_entries :: "string \<Rightarrow> (string \<times> bool) list"

record static_options =
  sf_root :: string
  sf_mount :: string
  sf_fallthrough :: bool
  sf_auto_index :: bool
  sf_index_names :: "string list"
  sf_directory_listing :: bool
  sf_allow_hidden :: bool
  sf_etag :: bool
  sf_last_modified :: bool
  sf_cache_max_age :: int
  sf_immutable :: bool

definition default_static_options :: "string \<Rightarrow> static_options" where
  "default_static_options root =
     \<lparr>sf_root = root, sf_mount = ''/'', sf_fallthrough = True, sf_auto_index = True,
      sf_index_names = [''index.html'', ''index.htm''], sf_directory_listing = False, sf_allow_hidden = False,
      sf_etag = True, sf_last_modified = True, sf_cache_max_age = 0, sf_immutable = False\<rparr>"

definition contains_dot_segment :: "string list \<Rightarrow> bool \<Rightarrow> bool" where
  "contains_dot_segment parts allow_hidden \<longleftrightarrow>
     list_ex (\<lambda>p. p = ''.'' \<or> p = ''..'' \<or> (\<not> allow_hidden \<and> p \<noteq> [] \<and> hd p = CHR ''.'')) parts"

definition normalize_mount :: "string \<Rightarrow> string" where
  "normalize_mount m =
     (if m = [] then ''/''
      else let m = (if hd m \<noteq> CHR ''/'' then CHR ''/'' # m else m)
           in if length m > 1 \<and> last m = CHR ''/'' then butlast m else m)"

text \<open>\<open>root / p\<close> for a relative path \<open>p\<close>.\<close>

definition path_append :: "string \<Rightarrow> string \<Rightarrow> string" where
  "path_append root p = (if root = [] \<or> last root = CHR ''/'' then root @ p else root @ ''/'' @ p)"

definition safe_join :: "fs_api \<Rightarrow> string \<Rightarrow> string \<Rightarrow> bool \<Rightarrow> string option" where
  "safe_join fs root url_subpath allow_hidden =
     (let parts = split_view url_subpath CHR ''/''
      in if contains_dot_segment parts allow_hidden then None
         else (case fs_canonical fs (foldl path_append root parts) of
                 None \<Rightarrow> None
               | Some nstr \<Rightarrow>
                   (case fs_canonical fs root of
                      None \<Rightarrow> None
                    | Some rstr \<Rightarrow>
                        if \<not> starts_with nstr rstr then None
                        else if length nstr > length rstr \<and> last rstr \<noteq> CHR ''/'' \<and> nstr ! length rstr \<noteq> CHR ''/'' then None
                        else Some nstr)))"

definition weak_etag :: "nat \<Rightarrow> int \<Rightarrow> string" where
  "weak_etag sz mtime = ''W/'' @ [DQ] @ show_nat sz @ ''-'' @ show_int mtime @ [DQ]"

text \<open>The two bounds of \<open>Range: bytes=a-b\<close>, once the dash has been found; \<open>None\<close> is \<open>false\<close>.\<close>

definition range_bounds :: "string \<Rightarrow> string \<Rightarrow> nat \<Rightarrow> (nat \<times> nat) option" where
  "range_bounds a b sz =
     (if a = [] then
        (case strtoll 10 b of (n, e, _) \<Rightarrow>
           if e = 0 \<or> n \<le> 0 then None
           else if nat n \<ge> sz then Some (0, if sz \<noteq> 0 then sz - 1 else 0)
           else Some (sz - nat n, sz - 1))
      else
        (case strtoll 10 a of (aa, ea, _) \<Rightarrow>
           if ea = 0 \<or> aa < 0 then None
           else
             (case (if b = [] then Some (if sz \<noteq> 0 then sz - 1 else 0)
                    else (case strtoll 10 b of (bb, eb, _) \<Rightarrow> if eb = 0 \<or> bb < 0 then None else Some (nat bb))) of
                None \<Rightarrow> None
              | Some e \<Rightarrow>
                  if nat aa \<ge> sz \<or> e < nat aa then None
                  else Some (nat aa, if e \<ge> sz then sz - 1 else e))))"

definition parse_single_range :: "string \<Rightarrow> nat \<Rightarrow> (nat \<times> nat) option" where
  "parse_single_range v sz =
     (case find_char CHR ''='' v of
        None \<Rightarrow> None
      | Some pos \<Rightarrow>
          if to_lower_copy (take pos v) \<noteq> ''bytes'' then None
          else (let spec = drop (Suc pos) v
                in if find_char CHR '','' spec \<noteq> None then None
                   else (let spec = trim_view spec
                         in case find_char CHR ''-'' spec of
                              None \<Rightarrow> None
                            | Some dash \<Rightarrow> range_bounds (take dash spec) (drop (Suc dash) spec) sz)))"

fun html_escape :: "string \<Rightarrow> string" where
  "html_escape [] = []"
| "html_escape (c # cs) =
     (if c = CHR ''&'' then ''&amp;'' else if c = CHR ''<'' then ''&lt;'' else if c = CHR ''>'' then ''&gt;''
      else if c = DQ then ''&quot;'' else [c]) @ html_escape cs"

definition list_directory_html :: "fs_api \<Rightarrow> string \<Rightarrow> string \<Rightarrow> string" where
  "list_directory_html fs dir url_path =
     ''<!doctype html><html><head><meta charset='' @ [DQ] @ ''utf-8'' @ [DQ] @ ''><title>Index of '' @ html_escape url_path
     @ ''</title></head><body><h1>Index of '' @ html_escape url_path @ ''</h1><ul>''
     @ concat (map (\<lambda>(name, is_dir). ''<li><a href='' @ [DQ] @ html_escape name @ (if is_dir then ''/'' else []) @ [DQ, CHR ''>'']
                      @ html_escape name @ (if is_dir then ''/'' else []) @ ''</a></li>'') (fs_entries fs dir))
     @ ''</ul></body></html>''"

section \<open>The middleware\<close>

definition miss :: "static_options \<Rightarrow> status \<Rightarrow> string \<Rightarrow> 'e ctx mware" where
  "miss opts s text w =
     (if sf_fallthrough opts then Next w pass_on
      else Ret (upd_res (\<lambda>r. snd (res_send text text_plain (res_status s r))) w))"

definition cache_control :: "static_options \<Rightarrow> response \<Rightarrow> response" where
  "cache_control opts r =
     (if sf_cache_max_age opts > 0 then
        res_set_header H_CacheControl (''public, max-age='' @ show_int (sf_cache_max_age opts)
          @ (if sf_immutable opts then '', immutable'' else [])) r
      else r)"

text \<open>The first index file of a directory that is a regular file.\<close>

definition find_index :: "fs_api \<Rightarrow> static_options \<Rightarrow> string \<Rightarrow> string option" where
  "find_index fs opts dir =
     (if sf_auto_index opts
      then List.find (\<lambda>p. fs_kind fs p = Some Regular) (map (path_append dir) (sf_index_names opts)) else None)"

text \<open>The headers every answer for an existing file carries.\<close>

definition file_headers :: "static_options \<Rightarrow> string \<Rightarrow> nat \<Rightarrow> int \<Rightarrow> 'e ctx \<Rightarrow> 'e ctx" where
  "file_headers opts fullpath fsize mtime w =
     (let w = upd_res (res_set_header H_ContentType (content_type_for_path fullpath)) w;
          w = upd_res (cache_control opts) w;
          w = (if sf_last_modified opts then upd_res (res_set_header H_LastModified (http_date mtime)) w else w)
      in (if sf_etag opts then upd_res (res_set_header H_ETag (weak_etag fsize mtime)) w else w))"

definition not_modified :: "static_options \<Rightarrow> nat \<Rightarrow> int \<Rightarrow> request \<Rightarrow> bool" where
  "not_modified opts fsize mtime rq =
     (let inm = req_header rq ''If-None-Match''; ims = req_header rq ''If-Modified-Since''
      in (sf_etag opts \<and> inm \<noteq> [] \<and> inm = weak_etag fsize mtime) \<or>
         (sf_last_modified opts \<and> ims \<noteq> [] \<and>
            (case parse_http_date ims of None \<Rightarrow> False | Some since \<Rightarrow> mtime \<le> since)))"

text \<open>The body: the whole file, or the one range asked for.\<close>

definition send_range :: "fs_api \<Rightarrow> static_options \<Rightarrow> string \<Rightarrow> nat \<Rightarrow> 'e ctx mware" where
  "send_range fs opts fullpath fsize w =
     (let rng = req_header (cx_req w) H_Range;
          parsed = (if rng \<noteq> [] then parse_single_range rng fsize else Some (0, if fsize \<noteq> 0 then fsize - 1 else 0))
      in case parsed of
           None \<Rightarrow>
             Ret (upd_res (\<lambda>r. res_end (res_set_header H_ContentRange (''bytes */'' @ show_nat fsize)
                    (res_status RangeNotSatisfiable r))) w)
         | Some (start, end) \<Rightarrow>
             (let content_len = (if fsize = 0 then 0 else end - start + 1);
                  w = (if rng \<noteq> [] then
                         upd_res (\<lambda>r. res_set_header H_ContentRange
                           (''bytes '' @ show_nat start @ ''-'' @ show_nat end @ ''/'' @ show_nat fsize)
                           (res_status PartialContent r)) w
                       else w)
              in case res_send_file_range (fs_size fs) fullpath start content_len (cx_res w) of
                   (True, r) \<Rightarrow> Ret (w\<lparr>cx_res := r\<rparr>)
                 | (False, _) \<Rightarrow> miss opts InternalServerError (''Failed to read file'' @ [LF]) w))"

text \<open>From \<open>fsize\<close> on: the answer for a file that exists.\<close>

definition serve_file :: "fs_api \<Rightarrow> static_options \<Rightarrow> string \<Rightarrow> 'e ctx mware" where
  "serve_file fs opts fullpath w =
     (case fs_size fs fullpath of
        None \<Rightarrow> miss opts NotFound (''Not Found'' @ [LF]) w
      | Some fsize \<Rightarrow>
          (let mtime = fs_mtime fs fullpath; w = file_headers opts fullpath fsize mtime w
           in if not_modified opts fsize mtime (cx_req w) then Ret (upd_res (\<lambda>r. res_end (res_status NotModified r)) w)
              else send_range fs opts fullpath fsize (upd_res (res_set_header ''Accept-Ranges'' ''bytes'') w)))"

definition serve_directory :: "fs_api \<Rightarrow> static_options \<Rightarrow> string \<Rightarrow> string \<Rightarrow> 'e ctx mware" where
  "serve_directory fs opts fullpath path w =
     (if \<not> sf_directory_listing opts then miss opts NotFound (''Not Found'' @ [LF]) w
      else Ret (upd_res (\<lambda>r. snd (res_send (list_directory_html fs fullpath path) ''text/html; charset=utf-8'' (cache_control opts r))) w))"

definition static_serve :: "fs_api \<Rightarrow> static_options \<Rightarrow> 'e ctx mware" where
  "static_serve fs opts0 w =
     (let opts = opts0\<lparr>sf_mount := normalize_mount (sf_mount opts0)\<rparr>; rq = cx_req w
      in if \<not> (rq_method rq = GET \<or> rq_method rq = HEAD) then
           (if sf_fallthrough opts then Next w pass_on
            else Ret (upd_res (\<lambda>r. snd (res_send (''Method Not Allowed'' @ [LF]) text_plain
                   (res_set_header ''Allow'' ''GET, HEAD'' (res_status MethodNotAllowed r)))) w))
         else
           (let path = (if rq_path rq = [] then ''/'' else rq_path rq)
            in if \<not> starts_with path (sf_mount opts) then Next w pass_on
               else
                 (let sub = drop (length (sf_mount opts)) path;
                      sub = (if sub \<noteq> [] \<and> hd sub = CHR ''/'' then tl sub else sub)
                  in case safe_join fs (sf_root opts) sub (sf_allow_hidden opts) of
                       None \<Rightarrow> miss opts NotFound (''Not Found'' @ [LF]) w
                     | Some fullpath \<Rightarrow>
                         (case fs_kind fs fullpath of
                            None \<Rightarrow> miss opts NotFound (''Not Found'' @ [LF]) w
                          | Some Directory \<Rightarrow>
                              (case find_index fs opts fullpath of
                                 Some p \<Rightarrow> serve_file fs opts p w
                               | None \<Rightarrow> serve_directory fs opts fullpath path w)
                          | Some _ \<Rightarrow> serve_file fs opts fullpath w))))"

section \<open>Lemmas\<close>

lemma range_bounds_ok: "range_bounds a b sz = Some (s, e) \<Longrightarrow> s \<le> e \<and> (e < sz \<or> sz = 0 \<and> s = 0 \<and> e = 0)"
  by (auto simp: range_bounds_def split: if_splits option.splits prod.splits)

lemma parse_single_range_ok: "parse_single_range v sz = Some (s, e) \<Longrightarrow> s \<le> e \<and> (e < sz \<or> sz = 0 \<and> s = 0 \<and> e = 0)"
  by (auto simp: parse_single_range_def Let_def dest: range_bounds_ok split: if_splits option.splits)

text \<open>A rendered range is read as what it says.\<close>

lemma scan_dec_prefix: "find_char CHR ''-'' (show_nat a @ CHR ''-'' # t) = Some (length (show_nat a))"
  by (rule find_char_append_hit) (use show_nat_dec [of a] in \<open>auto simp: is_dec_def\<close>)

lemma parse_single_range_render:
  assumes "a \<le> b" "b < sz" "sz < 2 ^ 63"
  shows "parse_single_range (''bytes='' @ show_nat a @ ''-'' @ show_nat b) sz = Some (a, b)"
proof -
  let ?s = "show_nat a @ ''-'' @ show_nat b"
  have dec: "c \<in> set ?s \<Longrightarrow> is_dec c \<or> c = CHR ''-''" for c using show_nat_dec [of a] show_nat_dec [of b] by auto
  have nc: "CHR '','' \<notin> set ?s"
  proof
    assume "CHR '','' \<in> set ?s"
    from dec [OF this] show False by (simp add: is_dec_def)
  qed
  have "\<not> is_blank (hd ?s)" using dec [of "hd ?s"] by (auto simp: is_blank_def is_dec_def)
  moreover have "\<not> is_blank (last ?s)" using dec [of "last ?s"] by (auto simp: is_blank_def is_dec_def)
  ultimately have t: "trim_view ?s = ?s" by (intro trim_view_id) blast
  have eq: "find_char CHR ''='' (''bytes='' @ ?s) = Some 5" "take 5 (''bytes='' @ ?s) = ''bytes''" "drop (Suc 5) (''bytes='' @ ?s) = ?s"
    by simp_all
  have lower: "to_lower_copy ''bytes'' = ''bytes''" by code_simp
  have nocomma: "find_char CHR '','' ?s = None" using nc unfolding find_char_None_iff .
  have dash: "find_char CHR ''-'' ?s = Some (length (show_nat a))" using scan_dec_prefix [of a "show_nat b"] by simp
  have td: "take (length (show_nat a)) ?s = show_nat a" "drop (Suc (length (show_nat a))) ?s = show_nat b" by simp_all
  have rb: "range_bounds (show_nat a) (show_nat b) sz = Some (a, b)"
    using assms by (simp add: range_bounds_def strtoll_show_nat)
  show ?thesis
    unfolding parse_single_range_def eq option.case lower Let_def nocomma t dash td rb by simp
qed

lemma html_escape_safe: "set (html_escape s) \<inter> {CHR ''<'', CHR ''>'', DQ} = {}"
  by (induction s) auto

lemma safe_join_inside:
  assumes "safe_join fs root sub hidden = Some p"
  shows "\<exists>rstr. fs_canonical fs root = Some rstr \<and> fs_canonical fs (foldl path_append root (split_view sub CHR ''/'')) = Some p \<and>
    (p = rstr \<or> (\<exists>t. p = rstr @ CHR ''/'' # t) \<or> last rstr = CHR ''/'' \<and> starts_with p rstr) \<and>
    (\<forall>seg \<in> set (split_view sub CHR ''/''). seg \<noteq> ''.'' \<and> seg \<noteq> ''..'' \<and> (\<not> hidden \<longrightarrow> hd seg \<noteq> CHR ''.''))"
proof -
  let ?parts = "split_view sub CHR ''/''"
  obtain rstr where r: "\<not> contains_dot_segment ?parts hidden" "fs_canonical fs root = Some rstr"
    "fs_canonical fs (foldl path_append root ?parts) = Some p" "starts_with p rstr"
    "\<not> (length p > length rstr \<and> last rstr \<noteq> CHR ''/'' \<and> p ! length rstr \<noteq> CHR ''/'')"
    using assms by (auto simp: safe_join_def Let_def split: if_splits option.splits)
  obtain t where t: "p = rstr @ t" using r(4) by (auto simp: starts_with_iff)
  have "p = rstr \<or> (\<exists>t. p = rstr @ CHR ''/'' # t) \<or> last rstr = CHR ''/'' \<and> starts_with p rstr"
    using r(4,5) t by (cases t) auto
  moreover have "seg \<noteq> []" if "seg \<in> set ?parts" for seg using split_view_pieces that by blast
  ultimately show ?thesis using r(1-3) by (auto simp: contains_dot_segment_def list_ex_iff)
qed

lemma upd_res_sel [simp]: "cx_res (upd_res f w) = f (cx_res w)" "cx_req (upd_res f w) = cx_req w"
  by (simp_all add: upd_res_def)

lemma kind_kept [simp]:
  "rs_kind (res_set_header k v r) = rs_kind r" "rs_kind (res_status st r) = rs_kind r" "rs_kind (cache_control opts r) = rs_kind r"
  "rs_kind (res_end r) = rs_kind r" "rs_kind (snd (res_send b ct r)) = rs_kind r"
  by (simp_all add: res_set_header_def res_status_def cache_control_def res_end_def default_status_def res_send_def Let_def)

lemma miss_kind: "miss opts st text w = Ret w' \<Longrightarrow> rs_kind (cx_res w') = rs_kind (cx_res w)"
  by (auto simp: miss_def split: if_splits)

lemma send_file_range_sent:
  "res_send_file_range fsz p off len r = (True, r') \<Longrightarrow>
   rs_kind r' = File \<and> rs_file_path r' = p \<and> rs_file_offset r' = off \<and> rs_file_length r' = len \<and> rs_ended r'"
  by (auto simp: res_send_file_range_def default_file_type_def res_set_header_def Let_def split: if_splits option.splits)

lemma file_type_kind: "rs_kind (default_file_type p r) = rs_kind r"
  by (simp add: default_file_type_def)

lemma ended_kept:
  "rs_ended (res_set_header k v r) = rs_ended r" "rs_ended (res_status st r) = rs_ended r"
  "rs_ended (cache_control opts r) = rs_ended r"
  "rs_ended (cx_res (file_headers opts p sz mt w)) = rs_ended (cx_res w)"
  by (simp_all add: res_set_header_def res_status_def cache_control_def file_headers_def Let_def)

text \<open>A file that is served is the file asked for, and the bytes sent are bytes it has.\<close>

lemma file_headers_kept [simp]:
  "rs_kind (cx_res (file_headers opts p sz mt w)) = rs_kind (cx_res w)" "cx_req (file_headers opts p sz mt w) = cx_req w"
  by (simp_all add: file_headers_def Let_def)

lemma send_range_served:
  assumes "send_range fs opts p sz w = Ret w'" "rs_kind (cx_res w) = Buffered" "rs_kind (cx_res w') = File"
  shows "\<exists>s e. rs_file_path (cx_res w') = p \<and> rs_ended (cx_res w') \<and>
    (if req_header (cx_req w) H_Range = [] then s = 0 \<and> e = sz - 1
     else parse_single_range (req_header (cx_req w) H_Range) sz = Some (s, e)) \<and>
    rs_file_offset (cx_res w') = s \<and> rs_file_length (cx_res w') = (if sz = 0 then 0 else e - s + 1)"
proof -
  let ?rng = "req_header (cx_req w) H_Range"
  let ?p = "if ?rng \<noteq> [] then parse_single_range ?rng sz else Some (0, if sz \<noteq> 0 then sz - 1 else 0)"
  obtain s e where se: "?p = Some (s, e)"
    using assms by (cases ?p) (auto simp: send_range_def Let_def)
  define w2 where "w2 = (if ?rng \<noteq> [] then upd_res (\<lambda>r. res_set_header H_ContentRange
                       (''bytes '' @ show_nat s @ ''-'' @ show_nat e @ ''/'' @ show_nat sz) (res_status PartialContent r)) w else w)"
  define len where "len = (if sz = 0 then 0 else e - s + 1)"
  have k2: "rs_kind (cx_res w2) = Buffered" using assms(2) by (simp add: w2_def)
  have r2: "(case res_send_file_range (fs_size fs) p s len (cx_res w2) of
                (True, r) \<Rightarrow> Ret (w2\<lparr>cx_res := r\<rparr>)
              | (False, _) \<Rightarrow> miss opts InternalServerError (''Failed to read file'' @ [LF]) w2) = Ret w'"
    using assms(1) unfolding send_range_def Let_def se option.case prod.case w2_def [symmetric] len_def [symmetric] .
  obtain b r' where b: "res_send_file_range (fs_size fs) p s len (cx_res w2) = (b, r')" by fastforce
  have "b" using r2 b k2 assms(3) miss_kind [of opts InternalServerError "''Failed to read file'' @ [LF]" w2 w'] by (cases b) auto
  then have w': "w' = w2\<lparr>cx_res := r'\<rparr>" using r2 b by simp
  have sent: "rs_kind r' = File \<and> rs_file_path r' = p \<and> rs_file_offset r' = s \<and> rs_file_length r' = len \<and> rs_ended r'"
    using send_file_range_sent b \<open>b\<close> by metis
  have rng: "if ?rng = [] then s = 0 \<and> e = sz - 1 else parse_single_range ?rng sz = Some (s, e)"
    using se by (auto split: if_splits)
  show ?thesis by (rule exI [of _ s], rule exI [of _ e]) (use sent rng w' in \<open>simp add: len_def\<close>)
qed

lemma serve_file_served:
  assumes "serve_file fs opts p w = Ret w'" "rs_kind (cx_res w) = Buffered" "rs_kind (cx_res w') = File"
  shows "\<exists>sz. fs_size fs p = Some sz \<and> rs_file_path (cx_res w') = p \<and> rs_ended (cx_res w') \<and>
    rs_file_offset (cx_res w') + rs_file_length (cx_res w') \<le> sz"
proof -
  obtain sz where sz: "fs_size fs p = Some sz"
    using assms miss_kind by (cases "fs_size fs p") (fastforce simp: serve_file_def)+
  let ?w = "upd_res (res_set_header ''Accept-Ranges'' ''bytes'') (file_headers opts p sz (fs_mtime fs p) w)"
  have "send_range fs opts p sz ?w = Ret w'"
    using assms sz by (auto simp: serve_file_def Let_def split: if_splits)
  then obtain s e where
    f: "rs_file_path (cx_res w') = p" "rs_ended (cx_res w')"
       "if req_header (cx_req w) H_Range = [] then s = 0 \<and> e = sz - 1
        else parse_single_range (req_header (cx_req w) H_Range) sz = Some (s, e)"
       "rs_file_offset (cx_res w') = s" "rs_file_length (cx_res w') = (if sz = 0 then 0 else e - s + 1)"
    using send_range_served [of fs opts p sz ?w w'] assms(2,3)
    unfolding upd_res_sel file_headers_kept kind_kept by blast
  have "s \<le> e \<and> (e < sz \<or> sz = 0 \<and> s = 0 \<and> e = 0)" using f(3) parse_single_range_ok by (auto split: if_splits)
  then show ?thesis using sz f by auto
qed

lemma static_serve_served:
  assumes "static_serve fs opts w = Ret w'" "rs_kind (cx_res w) = Buffered" "rs_kind (cx_res w') = File"
  obtains mount sub full p where "rq_method (cx_req w) \<in> {GET, HEAD}" "mount = normalize_mount (sf_mount opts)"
    "safe_join fs (sf_root opts) sub (sf_allow_hidden opts) = Some full"
    "p = full \<or> (\<exists>name \<in> set (sf_index_names opts). p = path_append full name \<and> fs_kind fs p = Some Regular)"
    "serve_file fs (opts\<lparr>sf_mount := mount\<rparr>) p w = Ret w'"
proof -
  let ?o = "opts\<lparr>sf_mount := normalize_mount (sf_mount opts)\<rparr>"
  let ?path = "if rq_path (cx_req w) = [] then ''/'' else rq_path (cx_req w)"
  let ?s0 = "drop (length (sf_mount ?o)) ?path"
  define sub where "sub = (if ?s0 \<noteq> [] \<and> hd ?s0 = CHR ''/'' then tl ?s0 else ?s0)"
  have m: "rq_method (cx_req w) \<in> {GET, HEAD}"
    using assms by (auto simp: static_serve_def Let_def split: if_splits)
  moreover have "starts_with ?path (sf_mount ?o)"
    using assms m by (auto simp: static_serve_def Let_def split: if_splits)
  ultimately have r: "(case safe_join fs (sf_root ?o) sub (sf_allow_hidden ?o) of
                       None \<Rightarrow> miss ?o NotFound (''Not Found'' @ [LF]) w
                     | Some fullpath \<Rightarrow>
                         (case fs_kind fs fullpath of
                            None \<Rightarrow> miss ?o NotFound (''Not Found'' @ [LF]) w
                          | Some Directory \<Rightarrow>
                              (case find_index fs ?o fullpath of
                                 Some p \<Rightarrow> serve_file fs ?o p w
                               | None \<Rightarrow> serve_directory fs ?o fullpath ?path w)
                          | Some _ \<Rightarrow> serve_file fs ?o fullpath w)) = Ret w'"
    using assms(1) unfolding static_serve_def Let_def sub_def by auto
  have nomiss: "miss ?o NotFound (''Not Found'' @ [LF]) w \<noteq> Ret w'" using miss_kind assms(2,3) by fastforce
  obtain full where full: "safe_join fs (sf_root opts) sub (sf_allow_hidden opts) = Some full"
    using r nomiss by (cases "safe_join fs (sf_root opts) sub (sf_allow_hidden opts)") auto
  have nodir: "serve_directory fs ?o full ?path w \<noteq> Ret w'"
    using nomiss assms(2,3) by (auto simp: serve_directory_def)
  obtain k where k: "fs_kind fs full = Some k" using r full nomiss by (cases "fs_kind fs full") auto
  show ?thesis
  proof (cases "k = Directory")
    case False
    then have "serve_file fs ?o full w = Ret w'" using r full k by (cases k) auto
    then show ?thesis using that [OF m refl full, of full] by blast
  next
    case True
    then obtain p where p: "find_index fs ?o full = Some p" "serve_file fs ?o p w = Ret w'"
      using r full k nodir by (cases "find_index fs ?o full") auto
    then have "p \<in> set (map (path_append full) (sf_index_names opts)) \<and> fs_kind fs p = Some Regular"
      by (auto simp: find_index_def find_Some_iff split: if_splits)
    then show ?thesis using that [OF m refl full, of p] p(2) by auto
  qed
qed

section \<open>What is served\<close>


definition demo_fs :: fs_api where
  "demo_fs =
     \<lparr>fs_canonical = Some, fs_kind = (\<lambda>p. if p = ''/srv/a.txt'' then Some Regular else None),
      fs_size = (\<lambda>p. if p = ''/srv/a.txt'' then Some 10 else None), fs_mtime = (\<lambda>_. 0),
      fs_entries = (\<lambda>_. [])\<rparr>"

definition demo_ask :: "unit ctx" where
  "demo_ask =
     \<lparr>cx_req = empty_request\<lparr>rq_method := GET, rq_path := ''/a.txt'', rq_headers := [(''Range'', ''bytes=2-5'')]\<rparr>,
      cx_res = new_response, cx_ext = ()\<rparr>"


section \<open>Conditional requests\<close>

text \<open>A client that sends back the validator it was given is told that nothing has changed.\<close>

lemma date_validator_understood:
  assumes "sf_last_modified opts" "req_header rq ''If-Modified-Since'' = http_date mtime"
    "civil_from_days (mtime div 86400) = (y, m, d)" "0 \<le> y" "y \<le> 9999"
  shows "not_modified opts fsize mtime rq"
proof -
  have "parse_http_date (http_date mtime) = Some mtime" using assms(3-5)
    by (cases "civil_from_days (mtime div 86400)") (auto intro: HttpDate.http_date_parsed)
  moreover from this have "http_date mtime \<noteq> []" by (auto simp: parse_http_date_def)
  ultimately show ?thesis using assms(1,2) by (simp add: not_modified_def)
qed

text \<open>An entity tag that no longer fits is overruled by the date: a file that changed within the second, or was
  replaced by an older one, is reported as not modified (RFC 9110 has the date ignored then).\<close>

lemma date_overrules_tag:
  "sf_last_modified opts \<Longrightarrow> req_header rq ''If-None-Match'' \<noteq> weak_etag fsize mtime \<Longrightarrow>
   parse_http_date (req_header rq ''If-Modified-Since'') = Some since \<Longrightarrow> mtime \<le> since \<Longrightarrow>
   not_modified opts fsize mtime rq"
  by (auto simp: not_modified_def parse_http_date_def Let_def split: if_splits)

end
