(* ===== verification/HttpClient.thy ===== *)
theory HttpClient
  imports Respond
begin

text \<open>
  The HTTP client: \<open>include/socketify/http_client.h\<close> and \<open>src/http_client.cpp\<close>. URL parsing, the
  request as written, the response as read. The resolver, the sockets and TLS are an argument: a
  transport says whether a write went through and which pieces the reads return before the end of
  the file or an error. The chunk loop may not end, so a client call is \<open>None\<close> when it does not return.
\<close>

section \<open>Definitions\<close>

record client_url =
  cu_tls :: bool
  cu_host :: string
  cu_port :: string
  cu_target :: string

definition url_authority :: "bool \<Rightarrow> string \<Rightarrow> client_url option" where
  "url_authority tls sv =
     (let slash = find_char CHR ''/'' sv;
          authority = (case slash of None \<Rightarrow> sv | Some i \<Rightarrow> take i sv);
          target = (case slash of None \<Rightarrow> ''/'' | Some i \<Rightarrow> drop i sv);
          authority = (case find_char CHR ''@'' authority of None \<Rightarrow> authority | Some i \<Rightarrow> drop (Suc i) authority);
          (host, port) = (case rfind_char CHR '':'' authority of
                            Some i \<Rightarrow> (take i authority, drop (Suc i) authority)
                          | None \<Rightarrow> (authority, if tls then ''443'' else ''80''))
      in if host = [] then None
         else Some \<lparr>cu_tls = tls, cu_host = host, cu_port = port, cu_target = (if target = [] then ''/'' else target)\<rparr>)"

definition parse_url :: "string \<Rightarrow> client_url option" where
  "parse_url url =
     (if istarts_with url ''https://'' then url_authority True (drop 8 url)
      else if istarts_with url ''http://'' then url_authority False (drop 7 url)
      else None)"

definition method_name :: "http_method \<Rightarrow> string" where
  "method_name m = (let sv = method_to_string m in if sv = [] then ''GET'' else sv)"

definition parse_header_line :: "string \<Rightarrow> header_map \<Rightarrow> header_map" where
  "parse_header_line line hs =
     (let line = (if line \<noteq> [] \<and> last line = CR then butlast line else line)
      in if line = [] then hs
         else (case find_char CHR '':'' line of
                 None \<Rightarrow> hs
               | Some colon \<Rightarrow> hm_set (trim_view (take colon line)) (trim_view (drop (Suc colon) line)) hs))"

definition client_parse_headers :: "string \<Rightarrow> header_map \<Rightarrow> header_map" where
  "client_parse_headers block hs = fold parse_header_line (split_view block LF) hs"

definition header_or :: "header_map \<Rightarrow> string \<Rightarrow> string" where
  "header_or h key = (case hm_get h key of None \<Rightarrow> [] | Some v \<Rightarrow> v)"

text \<open>The loop of \<open>dechunk\<close>; the offset is a \<open>size_t\<close> and wraps.\<close>

partial_function (option) dechunk_from :: "string \<Rightarrow> nat \<Rightarrow> string \<Rightarrow> string option" where
  "dechunk_from raw pos acc =
     (if pos < length raw then
        (case find_sub CRLF (drop pos raw) of
           None \<Rightarrow> Some acc
         | Some n \<Rightarrow>
             (let line = take n (drop pos raw);
                  size_line = (case find_char CHR '';'' line of None \<Rightarrow> line | Some semi \<Rightarrow> take semi line)
              in case stoull 16 size_line of
                   None \<Rightarrow> Some acc
                 | Some (chunk, _) \<Rightarrow>
                     (let p = pos + n + 2; q = (p + chunk) mod 2 ^ 64
                      in if chunk = 0 then Some acc
                         else if q > length raw then Some acc
                         else dechunk_from raw (if take 2 (drop q raw) = CRLF then q + 2 else q)
                                (acc @ take chunk (drop p raw)))))
      else Some acc)"

definition dechunk :: "string \<Rightarrow> string option" where
  "dechunk raw = dechunk_from raw 0 []"

section \<open>Requests and responses\<close>

record client_request =
  cq_method :: http_method
  cq_url :: string
  cq_headers :: header_map
  cq_body :: string
  cq_timeout_ms :: int

definition new_client_request :: client_request where
  "new_client_request = \<lparr>cq_method = GET, cq_url = [], cq_headers = [], cq_body = [], cq_timeout_ms = 15000\<rparr>"

record client_response =
  cr_status :: int
  cr_headers :: header_map
  cr_body :: string
  cr_error :: string

definition new_client_response :: client_response where
  "new_client_response = \<lparr>cr_status = 0, cr_headers = [], cr_body = [], cr_error = []\<rparr>"

definition cr_ok :: "client_response \<Rightarrow> bool" where
  "cr_ok r \<longleftrightarrow> cr_status r \<ge> 200 \<and> cr_status r < 300"

text \<open>\<open>Response::json\<close>; the argument is the JSON library's parser without exceptions.\<close>

definition cr_json :: "(string \<Rightarrow> 'j option) \<Rightarrow> client_response \<Rightarrow> 'j option" where
  "cr_json parse r = (if cr_body r = [] then None else parse (cr_body r))"

text \<open>The loop over the request's headers: which are written, and whether a user agent or a length was among them.\<close>

fun client_fields :: "header_map \<Rightarrow> string \<times> bool \<times> bool" where
  "client_fields [] = ([], False, False)"
| "client_fields ((k, v) # hs) =
     (let (rest, ua, len) = client_fields hs
      in ((if iequal_ascii k ''host'' \<or> iequal_ascii k ''connection'' then [] else k @ '': '' @ v @ CRLF) @ rest,
          iequal_ascii k ''user-agent'' \<or> ua, iequal_ascii k ''content-length'' \<or> len))"

definition client_wire :: "(header_map \<Rightarrow> header_map) \<Rightarrow> client_url \<Rightarrow> client_request \<Rightarrow> string" where
  "client_wire order u rq =
     (let (fields, has_ua, has_len) = client_fields (order (cq_headers rq))
      in method_name (cq_method rq) @ '' '' @ cu_target u @ '' HTTP/1.1'' @ CRLF
         @ ''Host: '' @ cu_host u @ CRLF @ ''Connection: close'' @ CRLF @ fields
         @ (if \<not> has_ua then ''User-Agent: socketify-http-client'' @ CRLF else [])
         @ (if cq_body rq \<noteq> [] \<and> \<not> has_len then ''Content-Length: '' @ show_nat (length (cq_body rq)) @ CRLF else [])
         @ CRLF @ cq_body rq)"

text \<open>A transport: does a write go through, what the reads return, and whether they end with an error.\<close>

record transport =
  tp_write :: "string \<Rightarrow> bool"
  tp_reads :: "string list"
  tp_failed :: bool

fun read_all :: "string list \<Rightarrow> bool \<Rightarrow> string \<Rightarrow> string option" where
  "read_all [] failed raw = (if failed \<and> raw = [] then None else Some raw)"
| "read_all (s # ss) failed raw = (if s = [] then Some raw else read_all ss failed (raw @ s))"

text \<open>The status line: the code, or the error text.\<close>

definition status_code :: "string \<Rightarrow> string + int" where
  "status_code line =
     (case find_char SP line of
        None \<Rightarrow> Inl ''malformed status line''
      | Some sp1 \<Rightarrow>
          (let rest = drop (Suc sp1) line;
               code = (case find_char SP rest of None \<Rightarrow> rest | Some sp2 \<Rightarrow> take sp2 rest)
           in case stoi code of
                None \<Rightarrow> Inl ''malformed status code''
              | Some (v, _) \<Rightarrow> Inr v))"

definition client_body :: "header_map \<Rightarrow> string \<Rightarrow> string option" where
  "client_body hs raw =
     (if iequal_ascii (header_or hs ''Transfer-Encoding'') ''chunked'' then dechunk raw
      else
        (let cl = header_or hs ''Content-Length''
         in if cl \<noteq> [] then
              (case stoull 10 cl of
                 Some (len, _) \<Rightarrow> Some (take (min len (length raw)) raw)
               | None \<Rightarrow> Some raw)
            else Some raw))"

text \<open>When the head has no line end, the offset \<open>npos + 2\<close> wraps to 1.\<close>

definition parse_response :: "string \<Rightarrow> client_response option" where
  "parse_response raw =
     (let err = (\<lambda>e. Some (new_client_response\<lparr>cr_error := e\<rparr>))
      in case find_sub (CRLF @ CRLF) raw of
           None \<Rightarrow> err ''malformed response (no header terminator)''
         | Some header_end \<Rightarrow>
             (let head = take header_end raw; body_raw = drop (header_end + 4) raw;
                  first_eol = find_sub CRLF head;
                  line = (case first_eol of None \<Rightarrow> head | Some i \<Rightarrow> take i head)
              in case status_code line of
                   Inl e \<Rightarrow> err e
                 | Inr st \<Rightarrow>
                     (let hs = client_parse_headers (drop (case first_eol of None \<Rightarrow> 1 | Some i \<Rightarrow> i + 2) head) []
                      in map_option (\<lambda>b. \<lparr>cr_status = st, cr_headers = hs, cr_body = b, cr_error = []\<rparr>)
                           (client_body hs body_raw))))"

text \<open>\<open>dial\<close> and the TLS handshake are the argument \<open>net\<close>: an error text or a transport.\<close>

definition client_send :: "(client_url \<Rightarrow> int \<Rightarrow> string + transport) \<Rightarrow> bool \<Rightarrow> (header_map \<Rightarrow> header_map) \<Rightarrow>
    client_request \<Rightarrow> client_response option" where
  "client_send net has_tls order rq =
     (let err = (\<lambda>e. Some (new_client_response\<lparr>cr_error := e\<rparr>))
      in case parse_url (cq_url rq) of
           None \<Rightarrow> err (''invalid or unsupported URL: '' @ cq_url rq)
         | Some u \<Rightarrow>
             if \<not> has_tls \<and> cu_tls u then
               err ''https requires building Socketify with TLS (SOCKETIFY_WITH_TLS=ON)''
             else
               (case net u (cq_timeout_ms rq) of
                  Inl e \<Rightarrow> err e
                | Inr t \<Rightarrow>
                    if \<not> tp_write t (client_wire order u rq) then err ''write failed''
                    else
                      (case read_all (tp_reads t) (tp_failed t) [] of
                         None \<Rightarrow> err ''read failed''
                       | Some raw \<Rightarrow> parse_response raw)))"

definition client_get :: "(client_url \<Rightarrow> int \<Rightarrow> string + transport) \<Rightarrow> bool \<Rightarrow> (header_map \<Rightarrow> header_map) \<Rightarrow>
    string \<Rightarrow> header_map \<Rightarrow> client_response option" where
  "client_get net has_tls order url hs =
     client_send net has_tls order (new_client_request\<lparr>cq_method := GET, cq_url := url, cq_headers := hs\<rparr>)"

definition client_post :: "(client_url \<Rightarrow> int \<Rightarrow> string + transport) \<Rightarrow> bool \<Rightarrow> (header_map \<Rightarrow> header_map) \<Rightarrow>
    string \<Rightarrow> string \<Rightarrow> header_map \<Rightarrow> client_response option" where
  "client_post net has_tls order url body hs =
     client_send net has_tls order
       (new_client_request\<lparr>cq_method := POST, cq_url := url, cq_body := body,
          cq_headers := (if hm_get hs ''Content-Type'' = None then hm_set ''Content-Type'' ''application/json'' hs else hs)\<rparr>)"

section \<open>Searching for the line ends\<close>

text \<open>The blank line is found at the end of the last of the lines.\<close>

lemma find_blank_line:
  assumes "ls \<noteq> []" "\<forall>l \<in> set ls. l \<noteq> [] \<and> CR \<notin> set l"
  shows "find_sub (CRLF @ CRLF) (concat (map (\<lambda>l. l @ CRLF) ls) @ CRLF @ s) =
    Some (length (concat (map (\<lambda>l. l @ CRLF) ls)) - 2)"
  using assms
proof (induction ls)
  case Nil
  then show ?case by simp
next
  case (Cons l ls)
  let ?t = "concat (map (\<lambda>l. l @ CRLF) ls) @ CRLF @ s"
  have l: "CR \<notin> set l" using Cons.prems by simp
  have skip: "find_sub (CRLF @ CRLF) (l @ CRLF @ ?t) = map_option ((+) (length l)) (find_sub (CRLF @ CRLF) (CRLF @ ?t))"
    using find_sub_skip [OF l, of "LF # CRLF" "CRLF @ ?t"] by simp
  show ?case
  proof (cases ls)
    case Nil
    then show ?thesis using skip by simp
  next
    case (Cons m ms)
    then obtain c cs where m: "m = c # cs" "c \<noteq> CR" using Cons.prems by (cases m) auto
    have "find_sub (CRLF @ CRLF) (CRLF @ ?t) = map_option (\<lambda>n. n + 2) (find_sub (CRLF @ CRLF) ?t)"
      using m Cons by (simp add: option.map_comp comp_def)
    moreover have "find_sub (CRLF @ CRLF) ?t = Some (length (concat (map (\<lambda>l. l @ CRLF) ls)) - 2)"
      using Cons.IH Cons.prems Cons by simp
    moreover have "length (concat (map (\<lambda>l. l @ CRLF) ls)) \<ge> 2" using Cons by simp
    ultimately show ?thesis using skip by simp
  qed
qed

section \<open>Chunked bodies\<close>

lemma stoull_hex: "n < 2 ^ 64 \<Longrightarrow> \<exists>e. stoull 16 (show_hex n) = Some (n, e)"
  using show_hex_facts [of n] by (simp add: stoull_def strtoull_hex)

lemma hex_line: "CR \<notin> set (show_hex n) \<and> CHR '';'' \<notin> set (show_hex n)"
  using show_hex_facts [of n] by (auto simp: hex_digits_def)

lemma dechunk_step:
  assumes "raw = pre @ show_hex (length d) @ CRLF @ d @ CRLF @ rest" "d \<noteq> []" "length raw < 2 ^ 64"
  shows "dechunk_from raw (length pre) acc = dechunk_from raw (length (pre @ render_chunk d)) (acc @ d)"
proof -
  let ?h = "show_hex (length d)"
  have dr: "drop (length pre) raw = ?h @ CRLF @ d @ CRLF @ rest" using assms(1) by simp
  have fs: "find_sub CRLF (?h @ CRLF @ d @ CRLF @ rest) = Some (length ?h)"
    using find_crlf hex_line by blast
  have ln: "take (length ?h) (?h @ CRLF @ d @ CRLF @ rest) = ?h" by simp
  have semi: "find_char CHR '';'' ?h = None" using hex_line unfolding find_char_None_iff by blast
  obtain e where e: "stoull 16 ?h = Some (length d, e)" using stoull_hex [of "length d"] assms by auto
  have lt: "length pre < length raw" using assms(1) by simp
  let ?p = "length pre + length ?h + 2"
  have q: "(?p + length d) mod 2 ^ 64 = ?p + length d" "\<not> ?p + length d > length raw"
    using assms(1,3) by simp_all
  have tk: "take 2 (drop (?p + length d) raw) = CRLF" "take (length d) (drop ?p raw) = d"
    using assms(1) by simp_all
  have n0: "length d \<noteq> 0" using assms(2) by simp
  have "dechunk_from raw (length pre) acc = dechunk_from raw (?p + length d + 2) (acc @ d)"
    by (subst dechunk_from.simps, unfold dr fs option.case ln semi Let_def e prod.case q(1) tk if_P [OF lt] if_not_P [OF n0]
        if_not_P [OF q(2)] if_P [OF refl]) (rule refl)
  then show ?thesis by (simp add: render_chunk_def add.commute add.left_commute)
qed

lemma dechunk_last:
  assumes "raw = pre @ show_hex 0 @ CRLF @ rest"
  shows "dechunk_from raw (length pre) acc = Some acc"
proof -
  have dr: "drop (length pre) raw = show_hex 0 @ CRLF @ rest" using assms(1) by simp
  have fs: "find_sub CRLF (show_hex 0 @ CRLF @ rest) = Some (length (show_hex 0))"
    using find_crlf hex_line by blast
  have semi: "find_char CHR '';'' (show_hex 0) = None" using hex_line unfolding find_char_None_iff by blast
  obtain e where e: "stoull 16 (show_hex 0) = Some (0, e)" using stoull_hex [of 0] by auto
  show ?thesis by (subst dechunk_from.simps) (simp add: dr fs [simplified] semi e Let_def)
qed

lemma dechunk_chunks:
  "raw = pre @ render_chunks ds @ rest \<Longrightarrow> length raw < 2 ^ 64 \<Longrightarrow> [] \<notin> set ds \<Longrightarrow>
   dechunk_from raw (length pre) acc = Some (acc @ concat ds)"
proof (induction ds arbitrary: pre acc)
  case Nil
  then show ?case using dechunk_last [of raw pre "CRLF @ rest" acc] by (simp add: render_chunks_def)
next
  case (Cons d ds)
  have "dechunk_from raw (length pre) acc = dechunk_from raw (length (pre @ render_chunk d)) (acc @ d)"
    by (rule dechunk_step [where rest = "render_chunks ds @ rest"])
       (use Cons.prems in \<open>auto simp: render_chunks_def render_chunk_def\<close>)
  also have "\<dots> = Some ((acc @ d) @ concat ds)"
    by (rule Cons.IH) (use Cons.prems in \<open>simp_all add: render_chunks_def\<close>)
  finally show ?case by simp
qed

lemma dechunk_render: "[] \<notin> set ds \<Longrightarrow> length (render_chunks ds @ rest) < 2 ^ 64 \<Longrightarrow>
    dechunk (render_chunks ds @ rest) = Some (concat ds)"
  using dechunk_chunks [of "render_chunks ds @ rest" "[]" ds rest "[]"] by (simp add: dechunk_def)

text \<open>A size line that wraps the offset back to the start keeps the client in the loop forever.\<close>

lemma wrap_scan: "scan_int 16 ''FFFFFFFFFFFFFFEE'' = (False, 2 ^ 64 - 18, 16)"
proof -
  have 1: "c_str ''FFFFFFFFFFFFFFEE'' = ''FFFFFFFFFFFFFFEE''" by code_simp
  have 2: "takeWhile is_space ''FFFFFFFFFFFFFFEE'' = []" by code_simp
  have 3: "hex_prefix 16 ''FFFFFFFFFFFFFFEE'' = 0" by code_simp
  have 4: "takeWhile (is_digit_in 16) ''FFFFFFFFFFFFFFEE'' = ''FFFFFFFFFFFFFFEE''" by code_simp
  have 5: "digits_value 16 0 ''FFFFFFFFFFFFFFEE'' = 2 ^ 64 - 18" by (simp add: digit_value_def)
  show ?thesis unfolding scan_int_def Let_def 1 2 by (simp add: 3 [simplified] 4 [simplified] 5 [simplified])
qed

lemma dechunk_spins:
  assumes "dechunk_from raw pos acc = Some r" "raw = ''FFFFFFFFFFFFFFEE'' @ CRLF"
  shows "pos \<noteq> 0"
  using assms
proof (induction rule: dechunk_from.raw_induct [rotated 1, consumes 1])
  case (1 f raw pos acc r)
  have fs: "find_sub CRLF (''FFFFFFFFFFFFFFEE'' @ CRLF) = Some 16" by code_simp
  have ln: "take 16 (''FFFFFFFFFFFFFFEE'' @ CRLF) = ''FFFFFFFFFFFFFFEE''" by code_simp
  have semi: "find_char CHR '';'' ''FFFFFFFFFFFFFFEE'' = None" by code_simp
  have e: "stoull 16 ''FFFFFFFFFFFFFFEE'' = Some (2 ^ 64 - 18, 16)"
    unfolding stoull_def strtoull_def wrap_scan by simp
  have hd: "take 2 (''FFFFFFFFFFFFFFEE'' @ CRLF) \<noteq> CRLF" by code_simp
  show ?case
  proof
    assume p: "pos = 0"
    have "f raw 0 (acc @ take (2 ^ 64 - 18) (drop 18 raw)) = Some r"
      using 1(2) unfolding p 1(3) drop_0 fs option.case ln semi Let_def e prod.case using hd by simp
    then show False using 1(1) 1(3) by blast
  qed
qed

lemma dechunk_diverges: "dechunk (''FFFFFFFFFFFFFFEE'' @ CRLF) = None"
  using dechunk_spins [of _ 0 "[]"] by (cases "dechunk (''FFFFFFFFFFFFFFEE'' @ CRLF)") (auto simp: dechunk_def)

section \<open>Reading what the server wrote\<close>

definition clean_header :: "string \<times> string \<Rightarrow> bool" where
  "clean_header kv \<longleftrightarrow> header_ok kv \<and> \<not> is_blank (hd (fst kv)) \<and> CR \<notin> set (fst kv) \<and> CR \<notin> set (snd kv)"

definition field_line :: "string \<times> string \<Rightarrow> string" where
  "field_line kv = fst kv @ '': '' @ snd kv"

lemma render_field: "render_header kv = field_line kv @ CRLF"
  by (simp add: render_header_def field_line_def)

lemma render_fun: "render_header = (\<lambda>kv. field_line kv @ CRLF)"
  by (rule ext) (rule render_field)

lemma field_line_plain: "clean_header kv \<Longrightarrow> field_line kv \<noteq> [] \<and> CR \<notin> set (field_line kv) \<and> LF \<notin> set (field_line kv)"
  by (auto simp: field_line_def clean_header_def header_ok_def)

lemma parse_field_line:
  assumes "clean_header kv"
  shows "parse_header_line (field_line kv @ [CR]) hs = hm_set (fst kv) (snd kv) hs"
    "parse_header_line (field_line kv) hs = hm_set (fst kv) (snd kv) hs"
proof -
  have ok: "header_ok kv" "\<not> is_blank (hd (fst kv))" using assms by (auto simp: clean_header_def)
  have l: "field_line kv \<noteq> []" "last (field_line kv) \<noteq> CR"
    using field_line_plain [OF assms] last_in_set [of "field_line kv"] by metis+
  have c: "find_char CHR '':'' (field_line kv) = Some (length (fst kv))"
    using find_char_append_hit [of "CHR '':''" "fst kv" "SP # snd kv"] ok(1) by (simp add: header_ok_def field_line_def)
  have k: "trim_view (fst kv) = fst kv" using ok by (intro trim_view_id) (auto simp: header_ok_def)
  have "trim_view (SP # snd kv) = trim_view (snd kv)" by (simp add: trim_view_def)
  then have v: "trim_view (SP # snd kv) = snd kv" using ok(1) by (simp add: header_ok_def)
  have t: "take (length (fst kv)) (field_line kv) = fst kv" "drop (Suc (length (fst kv))) (field_line kv) = SP # snd kv"
    by (simp_all add: field_line_def)
  show "parse_header_line (field_line kv) hs = hm_set (fst kv) (snd kv) hs"
    using l by (simp add: parse_header_line_def c t k v)
  then show "parse_header_line (field_line kv @ [CR]) hs = hm_set (fst kv) (snd kv) hs"
    using l by (simp add: parse_header_line_def c t k v)
qed

lemma fields_block:
  assumes "\<forall>f \<in> set fs. clean_header f" "clean_header g"
  shows "split_view (concat (map render_header fs) @ field_line g) LF = map (\<lambda>f. field_line f @ [CR]) fs @ [field_line g]"
proof -
  have "Utils.fields LF (concat (map render_header fs) @ field_line g) = map (\<lambda>f. field_line f @ [CR]) fs @ [field_line g]"
    using assms(1)
  proof (induction fs)
    case Nil
    then show ?case using field_line_plain [OF assms(2)] by (simp add: fields_no_sep)
  next
    case (Cons f fs)
    have "LF \<notin> set (field_line f @ [CR])" using Cons.prems field_line_plain [of f] by simp
    from fields_append_sep [OF this, of "concat (map render_header fs) @ field_line g"] show ?case
      using Cons by (simp add: render_field [of f])
  qed
  moreover have "filter (\<lambda>f. f \<noteq> []) (map (\<lambda>f. field_line f @ [CR]) fs @ [field_line g]) =
      map (\<lambda>f. field_line f @ [CR]) fs @ [field_line g]"
    using field_line_plain [OF assms(2)] by (simp add: filter_id_conv)
  ultimately show ?thesis by (simp add: split_view_fields)
qed

definition all_fields :: "(string \<times> string) list \<Rightarrow> header_map \<Rightarrow> header_map" where
  "all_fields fs hs = fold (\<lambda>(k, v). hm_set k v) fs hs"

lemma parse_headers_block:
  assumes "\<forall>f \<in> set fs. clean_header f" "clean_header g"
  shows "client_parse_headers (concat (map render_header fs) @ field_line g) hs = all_fields (fs @ [g]) hs"
proof -
  have "fold parse_header_line (map (\<lambda>f. field_line f @ [CR]) fs) hs = all_fields fs hs"
    using assms(1) by (induction fs arbitrary: hs) (auto simp: all_fields_def parse_field_line)
  then show ?thesis
    unfolding client_parse_headers_def fields_block [OF assms]
    by (simp add: parse_field_line [OF assms(2)] all_fields_def split_beta)
qed

lemma all_fields_get:
  "hm_get (all_fields fs hs) k = (if field_values k fs = [] then hm_get hs k else Some (last (field_values k fs)))"
proof (induction fs arbitrary: hs)
  case Nil
  show ?case by (simp add: all_fields_def)
next
  case (Cons f fs)
  have "all_fields (f # fs) hs = all_fields fs (hm_set (fst f) (snd f) hs)" by (simp add: all_fields_def split_beta)
  then show ?case by (auto simp: Cons.IH hm_get_set ci_equal_iff)
qed

lemma drop_blank_line: "drop (length a + 4) (a @ CRLF @ CRLF @ b) = b"
  by simp

lemma parse_response_render:
  assumes "CR \<notin> set line" "line \<noteq> []" "fs \<noteq> []" "\<forall>f \<in> set fs. clean_header f" "status_code line = Inr st"
  shows "parse_response (line @ CRLF @ concat (map render_header fs) @ CRLF @ body) =
    map_option (\<lambda>b. \<lparr>cr_status = st, cr_headers = all_fields fs [], cr_body = b, cr_error = []\<rparr>)
      (client_body (all_fields fs []) body)"
proof -
  obtain gs g where fs: "fs = gs @ [g]" using assms(3) by (cases fs rule: rev_cases) auto
  have cg: "\<forall>f \<in> set gs. clean_header f" "clean_header g" using assms(4) fs by auto
  let ?head = "line @ CRLF @ concat (map render_header gs) @ field_line g"
  let ?ls = "line # map field_line fs"
  have raw: "line @ CRLF @ concat (map render_header fs) @ CRLF @ body = ?head @ CRLF @ CRLF @ body"
    by (simp add: fs render_field)
  have lines: "concat (map (\<lambda>l. l @ CRLF) ?ls) = ?head @ CRLF"
    by (simp add: fs render_fun comp_def)
  have "\<forall>l \<in> set ?ls. l \<noteq> [] \<and> CR \<notin> set l" using assms(1,2,4) field_line_plain by auto
  then have he: "find_sub (CRLF @ CRLF) (?head @ CRLF @ CRLF @ body) = Some (length ?head)"
    using find_blank_line [of ?ls body] unfolding lines by simp
  have tk: "take (length ?head) (?head @ CRLF @ CRLF @ body) = ?head"
    "drop (length ?head + 4) (?head @ CRLF @ CRLF @ body) = body"
    by (simp, rule drop_blank_line)
  have fe: "find_sub CRLF ?head = Some (length line)" by (rule find_crlf [OF assms(1)])
  have tl: "take (length line) ?head = line" "drop (length line + 2) ?head = concat (map render_header gs) @ field_line g"
    by simp_all
  show ?thesis
    unfolding raw parse_response_def Let_def he option.case tk fe tl assms(5) sum.case parse_headers_block [OF cg]
    by (simp only: fs)
qed

section \<open>Round trips\<close>

lemma reason_plain: "CR \<notin> set (reason s)"
  by (cases s) simp_all

lemma stoi_show_nat: "n < 2 ^ 31 \<Longrightarrow> stoi (show_nat n) = Some (int n, length (show_nat n))"
proof -
  assume n: "n < 2 ^ 31"
  then have "n < 2 ^ 63" by simp
  then show ?thesis using n by (simp add: stoi_def stoll_def strtoll_show_nat)
qed

lemma status_code_line:
  assumes "n < 2 ^ 31"
  shows "status_code (''HTTP/1.1 '' @ show_nat n @ [SP] @ t) = Inr (int n)"
proof -
  have p: "CR \<notin> set ''HTTP/1.1''" "SP \<notin> set ''HTTP/1.1''" by (simp_all)
  have sp1: "find_char SP (''HTTP/1.1 '' @ show_nat n @ [SP] @ t) = Some 8"
    using find_char_append_hit [OF p(2), of "show_nat n @ [SP] @ t"] by simp
  have dr: "drop (Suc 8) (''HTTP/1.1 '' @ show_nat n @ [SP] @ t) = show_nat n @ SP # t" by simp
  have "SP \<notin> set (show_nat n)" using show_nat_dec [of n] by (auto simp: is_dec_def)
  then have sp2: "find_char SP (show_nat n @ SP # t) = Some (length (show_nat n))" by (rule find_char_append_hit)
  have tk: "take (length (show_nat n)) (show_nat n @ SP # t) = show_nat n" by simp
  show ?thesis
    unfolding status_code_def sp1 option.case dr Let_def sp2 tk stoi_show_nat [OF assms] prod.case ..
qed

lemma stoull_show_nat: "n < 2 ^ 64 \<Longrightarrow> \<exists>e. stoull 10 (show_nat n) = Some (n, e)"
  by (simp add: stoull_def strtoull_show_nat)

lemma client_body_length:
  assumes "hm_get hs ''Transfer-Encoding'' = None" "hm_get hs ''Content-Length'' = Some (show_nat n)" "n < 2 ^ 64"
  shows "client_body hs raw = Some (take n raw)"
proof -
  obtain e where "stoull 10 (show_nat n) = Some (n, e)" using stoull_show_nat [OF assms(3)] by blast
  moreover have "\<not> iequal_ascii [] ''chunked''" by (simp add: iequal_ascii_def)
  ultimately show ?thesis using assms(1,2) by (simp add: client_body_def header_or_def min_def)
qed

lemma read_all_pieces: "[] \<notin> set ss \<Longrightarrow> raw @ concat ss \<noteq> [] \<Longrightarrow> read_all ss failed raw = Some (raw @ concat ss)"
  by (induction ss arbitrary: raw) auto

lemma response_parsed:
  assumes "rs_kind rs = Buffered" "\<forall>f \<in> set (response_fields z date iter opts srq rs close). clean_header f"
    "field_values ''Transfer-Encoding'' (response_fields z date iter opts srq rs close) = []"
    "rs_status rs < 2 ^ 31" "length (fst (sent_body z opts srq rs)) < 2 ^ 64"
  shows "parse_response (fst (serialize_response z date iter opts srq rs head close)) =
    Some \<lparr>cr_status = (if rs_status rs \<noteq> 0 then int (rs_status rs) else 200),
          cr_headers = all_fields (response_fields z date iter opts srq rs close) [],
          cr_body = (if head then [] else fst (sent_body z opts srq rs)), cr_error = []\<rparr>"
proof -
  let ?fs = "response_fields z date iter opts srq rs close" and ?b = "fst (sent_body z opts srq rs)"
  let ?n = "if rs_status rs \<noteq> 0 then rs_status rs else 200"
  let ?line = "''HTTP/1.1 '' @ show_nat ?n @ [SP] @ reason (status_of_num ?n)"
  have wire: "fst (serialize_response z date iter opts srq rs head close) =
      ?line @ CRLF @ concat (map render_header ?fs) @ CRLF @ (if head then [] else ?b)"
    unfolding serialize_structure by (simp add: status_line_def Let_def)
  have "CR \<notin> set (show_nat ?n)" using show_nat_dec [of ?n] unfolding is_dec_def by fastforce
  then have cr: "CR \<notin> set ?line" using reason_plain by simp
  have ne: "?fs \<noteq> []" by (simp add: response_fields_def Let_def split_beta)
  have n31: "?n < 2 ^ 31" using assms(4) by simp
  have te: "hm_get (all_fields ?fs []) ''Transfer-Encoding'' = None" using assms(3) by (simp add: all_fields_get)
  have "field_values ''Content-Length'' ?fs = [show_nat (length ?b)]"
    using assms(1) response_fields_framing(1) [of z date iter opts srq rs close] by simp
  then have cl: "hm_get (all_fields ?fs []) ''Content-Length'' = Some (show_nat (length ?b))" by (simp add: all_fields_get)
  have "?line \<noteq> []" by simp
  from parse_response_render [OF cr this ne assms(2) status_code_line [OF n31]]
  show ?thesis unfolding wire client_body_length [OF te cl assms(5)] by simp
qed

text \<open>A concrete exchange, for the witnesses.\<close>

definition demo_zlib :: zlib_api where
  "demo_zlib = \<lparr>z_gzip = (\<lambda>_. None), z_deflate = (\<lambda>_. None)\<rparr>"

definition demo_hello :: response where
  "demo_hello = new_response\<lparr>rs_status := 404, rs_body := ''hi''\<rparr>"

definition demo_bytes :: string where
  "demo_bytes = fst (serialize_response demo_zlib ''now'' id default_comp_options empty_request demo_hello False True)"

definition demo_transport :: transport where
  "demo_transport = \<lparr>tp_write = (\<lambda>_. True), tp_reads = [take 20 demo_bytes, drop 20 demo_bytes], tp_failed = False\<rparr>"

definition demo_post :: client_request where
  "demo_post = new_client_request\<lparr>cq_method := POST, cq_url := ''http://u@h:80/a?b'', cq_body := ''xy''\<rparr>"

lemma demo_url: "parse_url (cq_url demo_post) = Some \<lparr>cu_tls = False, cu_host = ''h'', cu_port = ''80'', cu_target = ''/a?b''\<rparr>"
  by code_simp

lemma demo_written:
  "response_fields demo_zlib ''now'' id default_comp_options empty_request demo_hello True =
     [(''Date'', ''now''), (''Server'', ''socketify''), (''Content-Type'', ''text/plain; charset=utf-8''),
      (''Content-Length'', ''2''), (''Connection'', ''close'')]"
  "fst (sent_body demo_zlib default_comp_options empty_request demo_hello) = ''hi''"
  "rs_kind demo_hello = Buffered" "rs_status demo_hello = 404"
  by code_simp+

lemma demo_reads: "[] \<notin> set (tp_reads demo_transport)" "concat (tp_reads demo_transport) = demo_bytes"
  by code_simp+

text \<open>C34: client and server understand each other's responses. Whatever response a handler made
  (compressed or not, to any method), if its fields are clean (no line ends inside, no blanks around)
  and none of them is a \<open>Transfer-Encoding\<close>, and however the network cuts the bytes the server
  wrote into reads, the client's call returns the status, the body as sent and every field, the last
  of repeated ones; the read loop, the header scan and the body extraction all end.\<close>

theorem client_reads_server_response:
  assumes "parse_url (cq_url rq) = Some u" "has_tls \<or> \<not> cu_tls u" "net u (cq_timeout_ms rq) = Inr t"
    "tp_write t (client_wire order u rq)" "[] \<notin> set (tp_reads t)"
    "concat (tp_reads t) = fst (serialize_response z date iter opts srq rs head close)"
    "rs_kind rs = Buffered" "\<forall>f \<in> set (response_fields z date iter opts srq rs close). clean_header f"
    "field_values ''Transfer-Encoding'' (response_fields z date iter opts srq rs close) = []"
    "rs_status rs < 2 ^ 31" "length (fst (sent_body z opts srq rs)) < 2 ^ 64"
  shows "client_send net has_tls order rq =
    Some \<lparr>cr_status = (if rs_status rs \<noteq> 0 then int (rs_status rs) else 200),
          cr_headers = all_fields (response_fields z date iter opts srq rs close) [],
          cr_body = (if head then [] else fst (sent_body z opts srq rs)), cr_error = []\<rparr>"
proof -
  have "concat (tp_reads t) \<noteq> []" unfolding assms(6) serialize_structure by (simp add: status_line_def Let_def)
  then have "read_all (tp_reads t) (tp_failed t) [] = Some (concat (tp_reads t))"
    using read_all_pieces [of "tp_reads t" "[]"] assms(5) by simp
  moreover have "\<not> (\<not> has_tls \<and> cu_tls u)" using assms(2) by blast
  ultimately have "client_send net has_tls order rq = parse_response (concat (tp_reads t))"
    using assms(1,3,4) by (auto simp: client_send_def)
  then show ?thesis unfolding assms(6) response_parsed [OF assms(7-11)] .
qed

text \<open>The fields the client writes, and its request read by the server's parser.\<close>

definition client_header_list :: "(header_map \<Rightarrow> header_map) \<Rightarrow> client_url \<Rightarrow> client_request \<Rightarrow> (string \<times> string) list" where
  "client_header_list order u rq =
     (let hs = order (cq_headers rq)
      in [(''Host'', cu_host u), (''Connection'', ''close'')]
         @ filter (\<lambda>(k, v). \<not> iequal_ascii k ''host'' \<and> \<not> iequal_ascii k ''connection'') hs
         @ (if \<exists>(k, v) \<in> set hs. iequal_ascii k ''user-agent'' then [] else [(''User-Agent'', ''socketify-http-client'')])
         @ (if cq_body rq = [] \<or> (\<exists>(k, v) \<in> set hs. iequal_ascii k ''content-length'') then []
            else [(''Content-Length'', show_nat (length (cq_body rq)))]))"

lemma client_fields_eq:
  "client_fields hs =
     (concat (map render_header (filter (\<lambda>(k, v). \<not> iequal_ascii k ''host'' \<and> \<not> iequal_ascii k ''connection'') hs)),
      (\<exists>(k, v) \<in> set hs. iequal_ascii k ''user-agent''), (\<exists>(k, v) \<in> set hs. iequal_ascii k ''content-length''))"
  by (induction hs rule: client_fields.induct) (auto simp: render_header_def)

lemma client_wire_render:
  assumes "cq_method rq \<noteq> UNKNOWN" "cq_method rq \<noteq> ANY"
  shows "client_wire order u rq =
    render_head (cq_method rq) (cu_target u) ''HTTP/1.1'' (client_header_list order u rq) @ cq_body rq"
proof -
  have "method_name (cq_method rq) = method_to_string (cq_method rq)"
    using assms by (cases "cq_method rq") (simp_all add: method_name_def)
  then show ?thesis
    by (simp add: client_wire_def render_head_def client_header_list_def client_fields_eq Let_def render_header_def)
qed

text \<open>Client and server understand each other's requests. When the target and the fields the
  client writes are well formed (one field per name) and announce the body's length, the server's
  parser reads the bytes of \<open>client_wire\<close> back to the method, the target with its path and query, the
  fields and the body, and consumes exactly those bytes.\<close>

lemma client_request_understood:
  assumes "request_ok (cq_method rq) (cu_target u) ''HTTP/1.1'' (client_header_list order u rq)"
    "head_fits p (length (client_wire order u rq) - length (cq_body rq))" "length_framed (client_header_list order u rq) (cq_body rq)"
    "p_max_body_bytes p = 0 \<or> length (cq_body rq) \<le> p_max_body_bytes p" "length (cq_body rq) < 2 ^ 63"
  shows "case consume_request (parser_reset p) (client_wire order u rq) of (n, q) \<Rightarrow>
    n = length (client_wire order u rq) \<and> p_state q = Complete \<and> p_method q = cq_method rq \<and>
    p_target q = cu_target u \<and> p_path q = path_of (cu_target u) \<and> p_query q = query_of (cu_target u) \<and>
    p_headers q = client_header_list order u rq \<and> p_body q = cq_body rq"
proof -
  let ?hs = "client_header_list order u rq" and ?m = "cq_method rq"
  have m: "?m \<noteq> UNKNOWN" "?m \<noteq> ANY" using assms(1) by (auto simp: request_ok_def)
  have fits: "head_fits p (length (render_head ?m (cu_target u) ''HTTP/1.1'' ?hs))"
    using assms(2) by (simp add: client_wire_render [OF m])
  from request_length_run [OF assms(1) fits assms(3,4,5), of "[]"] show ?thesis
    unfolding client_wire_render [OF m] append_Nil2 split_beta by blast
qed

theorem client_reads_server_response_witness:
  "client_send (\<lambda>_ _. Inr demo_transport) False id demo_post =
     Some \<lparr>cr_status = 404, cr_headers =
       all_fields [(''Date'', ''now''), (''Server'', ''socketify''), (''Content-Type'', ''text/plain; charset=utf-8''),
         (''Content-Length'', ''2''), (''Connection'', ''close'')] [],
       cr_body = ''hi'', cr_error = []\<rparr>"
proof -
  have clean: "\<forall>f \<in> set (response_fields demo_zlib ''now'' id default_comp_options empty_request demo_hello True). clean_header f"
    unfolding demo_written by (simp add: clean_header_def header_ok_def is_blank_def trim_view_def)
  have te: "field_values ''Transfer-Encoding'' (response_fields demo_zlib ''now'' id default_comp_options empty_request demo_hello True) = []"
    unfolding demo_written by code_simp
  have "tp_write demo_transport (client_wire id \<lparr>cu_tls = False, cu_host = ''h'', cu_port = ''80'', cu_target = ''/a?b''\<rparr> demo_post)"
    by (simp add: demo_transport_def)
  from client_reads_server_response [OF demo_url _ refl this demo_reads(1) demo_reads(2) [unfolded demo_bytes_def] demo_written(3) clean te]
  show ?thesis by (simp add: demo_written)
qed

lemma client_request_understood_example:
  "let u = \<lparr>cu_tls = False, cu_host = ''h'', cu_port = ''80'', cu_target = ''/a?b''\<rparr>
   in case consume_request (parser_reset new_parser) (client_wire id u demo_post) of (n, q) \<Rightarrow>
    n = length (client_wire id u demo_post) \<and> p_state q = Complete \<and> p_method q = cq_method demo_post \<and>
    p_target q = cu_target u \<and> p_path q = path_of (cu_target u) \<and> p_query q = query_of (cu_target u) \<and>
    p_headers q = client_header_list id u demo_post \<and> p_body q = cq_body demo_post"
  unfolding Let_def
proof (rule client_request_understood)
  let ?u = "\<lparr>cu_tls = False, cu_host = ''h'', cu_port = ''80'', cu_target = ''/a?b''\<rparr>"
  show "request_ok (cq_method demo_post) (cu_target ?u) ''HTTP/1.1'' (client_header_list id ?u demo_post)" by code_simp
  have "length (client_wire id ?u demo_post) - length (cq_body demo_post) < 128" by code_simp
  moreover have "n < 128 \<Longrightarrow> head_fits new_parser n" for n by (simp add: head_fits_def new_parser_def)
  ultimately show "head_fits new_parser (length (client_wire id ?u demo_post) - length (cq_body demo_post))" by blast
  show "length_framed (client_header_list id ?u demo_post) (cq_body demo_post)" by code_simp
qed (simp_all add: demo_post_def new_parser_def new_client_request_def)

end
