(* ===== verification/RateLimit.thy ===== *)
theory RateLimit
  imports Cors Complex_Main
begin

text \<open>
  The token-bucket rate limiter: \<open>include/socketify/ratelimit.h\<close> and \<open>src/ratelimit.cpp\<close>. The
  monotonic clock is read in nanoseconds; a \<open>double\<close> is a rational number (no rounding). The store
  lives outside the request, in \<open>cx_ext\<close>; its mutex makes \<open>take\<close> one step.
\<close>

section \<open>Definitions\<close>

record limit_options =
  lo_capacity :: rat
  lo_refill :: rat
  lo_key_fn :: "(request \<Rightarrow> string) option"
  lo_standard_headers :: bool
  lo_message :: string

definition default_limit_options :: limit_options where
  "default_limit_options =
     \<lparr>lo_capacity = 60, lo_refill = 1, lo_key_fn = None, lo_standard_headers = True,
      lo_message = ''Too Many Requests'' @ [LF]\<rparr>"

record bucket =
  bk_tokens :: rat
  bk_last :: int

record limit_store =
  ls_buckets :: "(string \<times> bucket) list"
  ls_last_prune :: int

record take_result =
  tr_allowed :: bool
  tr_remaining :: rat
  tr_retry_after :: rat

text \<open>\<open>duration<double>(b - a).count()\<close>\<close>

definition seconds_between :: "int \<Rightarrow> int \<Rightarrow> rat" where
  "seconds_between a b = rat_of_int (b - a) / 1000000000"

definition refilled :: "limit_options \<Rightarrow> int \<Rightarrow> bucket \<Rightarrow> rat" where
  "refilled opts now b = bk_tokens b + seconds_between (bk_last b) now * lo_refill opts"

definition prune_buckets :: "limit_options \<Rightarrow> int \<Rightarrow> string \<Rightarrow> (string \<times> bucket) list \<Rightarrow> (string \<times> bucket) list" where
  "prune_buckets opts now key m = filter (\<lambda>(k, b). \<not> (refilled opts now b \<ge> lo_capacity opts \<and> k \<noteq> key)) m"

definition take_token :: "limit_options \<Rightarrow> int \<Rightarrow> string \<Rightarrow> limit_store \<Rightarrow> take_result \<times> limit_store" where
  "take_token opts now key st =
     (let b = (case kv_get (=) (ls_buckets st) key of
                 None \<Rightarrow> \<lparr>bk_tokens = lo_capacity opts, bk_last = now\<rparr>
               | Some b \<Rightarrow> \<lparr>bk_tokens = min (lo_capacity opts) (refilled opts now b), bk_last = now\<rparr>);
          (r, b) =
            (if bk_tokens b \<ge> 1 then
               (let b = b\<lparr>bk_tokens := bk_tokens b - 1\<rparr>
                in (\<lparr>tr_allowed = True, tr_remaining = bk_tokens b, tr_retry_after = 0\<rparr>, b))
             else
               (\<lparr>tr_allowed = False, tr_remaining = 0,
                 tr_retry_after = (if lo_refill opts > 0 then (1 - bk_tokens b) / lo_refill opts else 3600)\<rparr>, b));
          m = kv_set (=) key b (ls_buckets st)
      in if now - ls_last_prune st > 300000000000
         then (r, \<lparr>ls_buckets = prune_buckets opts now key m, ls_last_prune = now\<rparr>)
         else (r, st\<lparr>ls_buckets := m\<rparr>))"

section \<open>The middleware\<close>

record limit_world =
  lw_store :: limit_store
  lw_now :: int

definition limit_key :: "limit_options \<Rightarrow> request \<Rightarrow> string" where
  "limit_key opts rq = (case lo_key_fn opts of None \<Rightarrow> rq_remote_ip rq | Some f \<Rightarrow> f rq)"

text \<open>\<open>static_cast<long long>\<close>: towards zero.\<close>

definition truncate_rat :: "rat \<Rightarrow> int" where
  "truncate_rat x = (if x < 0 then ceiling x else floor x)"

definition limit_headers :: "limit_options \<Rightarrow> take_result \<Rightarrow> response \<Rightarrow> response" where
  "limit_headers opts r rs =
     (if lo_standard_headers opts then
        res_set_header ''RateLimit-Remaining'' (show_int (truncate_rat (tr_remaining r)))
          (res_set_header ''RateLimit-Limit'' (show_int (truncate_rat (lo_capacity opts))) rs)
      else rs)"

definition refuse_response :: "limit_options \<Rightarrow> take_result \<Rightarrow> response \<Rightarrow> response" where
  "refuse_response opts r rs =
     (let retry = ceiling (tr_retry_after r);
          retry = (if retry < 1 then 1 else retry);
          rs = res_set_header ''Retry-After'' (show_int retry) rs;
          rs = (if lo_standard_headers opts then res_set_header ''RateLimit-Reset'' (show_int retry) rs else rs)
      in snd (res_send (lo_message opts) text_plain (res_status TooManyRequests rs)))"

definition rate_limit :: "limit_options \<Rightarrow> 'x limit_world_scheme ctx mware" where
  "rate_limit opts w =
     (let key = limit_key opts (cx_req w)
      in if key = [] then Next w pass_on
         else
           (let e = cx_ext w; (r, st) = take_token opts (lw_now e) key (lw_store e);
                w = w\<lparr>cx_ext := e\<lparr>lw_store := st\<rparr>\<rparr>;
                w = upd_res (limit_headers opts r) w
            in if \<not> tr_allowed r then Ret (upd_res (refuse_response opts r) w) else Next w pass_on))"

section \<open>The level of a bucket\<close>

text \<open>The tokens a key has at a time: a key without a bucket has a full one.\<close>

definition level :: "limit_options \<Rightarrow> int \<Rightarrow> string \<Rightarrow> limit_store \<Rightarrow> rat" where
  "level opts now key st =
     (case kv_get (=) (ls_buckets st) key of None \<Rightarrow> lo_capacity opts | Some b \<Rightarrow> min (lo_capacity opts) (refilled opts now b))"

definition store_ok :: "limit_options \<Rightarrow> int \<Rightarrow> limit_store \<Rightarrow> bool" where
  "store_ok opts now st \<longleftrightarrow>
     kv_wf (=) (ls_buckets st) \<and>
     (\<forall>k b. kv_get (=) (ls_buckets st) k = Some b \<longrightarrow> 0 \<le> bk_tokens b \<and> bk_last b \<le> now)"

definition sane :: "limit_options \<Rightarrow> bool" where
  "sane opts \<longleftrightarrow> 0 \<le> lo_capacity opts \<and> 0 \<le> lo_refill opts"

lemma seconds_nonneg: "a \<le> b \<Longrightarrow> 0 \<le> seconds_between a b"
  by (simp add: seconds_between_def)

lemma seconds_split: "seconds_between a c = seconds_between a b + seconds_between b c"
  by (simp add: seconds_between_def add_divide_distrib diff_divide_distrib)

lemma refilled_later: "refilled opts c b = refilled opts a b + seconds_between a c * lo_refill opts"
  using seconds_split [of "bk_last b" c a] by (simp add: refilled_def distrib_right)

lemma refilled_mono: "sane opts \<Longrightarrow> a \<le> c \<Longrightarrow> refilled opts a b \<le> refilled opts c b"
  using seconds_nonneg [of a c] by (simp add: refilled_later [of opts c b a] sane_def)

lemma refilled_nonneg: "sane opts \<Longrightarrow> 0 \<le> bk_tokens b \<Longrightarrow> bk_last b \<le> now \<Longrightarrow> 0 \<le> refilled opts now b"
  using seconds_nonneg [of "bk_last b" now] by (simp add: refilled_def sane_def)

lemma level_later:
  assumes "sane opts" "a \<le> c"
  shows "level opts c key st \<le> level opts a key st + seconds_between a c * lo_refill opts"
proof -
  have "0 \<le> seconds_between a c * lo_refill opts" using assms seconds_nonneg by (simp add: sane_def)
  then show ?thesis by (auto simp: level_def refilled_later [of opts c _ a] min_def split: option.split)
qed

lemma level_nonneg: "sane opts \<Longrightarrow> store_ok opts now st \<Longrightarrow> 0 \<le> level opts now key st"
  by (auto simp: level_def store_ok_def sane_def intro: refilled_nonneg split: option.split)

lemma store_ok_later: "store_ok opts a st \<Longrightarrow> a \<le> b \<Longrightarrow> store_ok opts b st"
  by (fastforce simp: store_ok_def)

text \<open>Pruning cannot be seen: what it drops is a full bucket, now and later.\<close>

lemma prune_get:
  assumes "kv_wf (=) m"
  shows "kv_get (=) (prune_buckets opts now key m) k =
    (case kv_get (=) m k of None \<Rightarrow> None
     | Some b \<Rightarrow> if refilled opts now b \<ge> lo_capacity opts \<and> k \<noteq> key then None else Some b)"
  unfolding prune_buckets_def get_filtered [OF assms] by (auto split: option.split)

lemma prune_invisible:
  assumes "sane opts" "kv_wf (=) m" "now \<le> t"
  shows "level opts t k \<lparr>ls_buckets = prune_buckets opts now key m, ls_last_prune = p\<rparr> =
    level opts t k \<lparr>ls_buckets = m, ls_last_prune = p'\<rparr>"
proof -
  have "lo_capacity opts \<le> refilled opts t b" if "lo_capacity opts \<le> refilled opts now b" for b
    using that refilled_mono [OF assms(1,3), of b] by simp
  then show ?thesis by (auto simp: level_def prune_get [OF assms(2)] min_def split: option.split)
qed

text \<open>One call of \<open>take\<close> in terms of levels: it grants iff a whole token is there, takes it from this
  key and from no other.\<close>

definition bucket_after :: "limit_options \<Rightarrow> int \<Rightarrow> string \<Rightarrow> limit_store \<Rightarrow> bucket" where
  "bucket_after opts now key st =
     (let l = level opts now key st in \<lparr>bk_tokens = (if l \<ge> 1 then l - 1 else l), bk_last = now\<rparr>)"

lemma take_token_eq:
  "take_token opts now key st =
    (let l = level opts now key st; m = kv_set (=) key (bucket_after opts now key st) (ls_buckets st)
     in (if l \<ge> 1 then \<lparr>tr_allowed = True, tr_remaining = l - 1, tr_retry_after = 0\<rparr>
         else \<lparr>tr_allowed = False, tr_remaining = 0,
                tr_retry_after = (if lo_refill opts > 0 then (1 - l) / lo_refill opts else 3600)\<rparr>,
         if now - ls_last_prune st > 300000000000
         then \<lparr>ls_buckets = prune_buckets opts now key m, ls_last_prune = now\<rparr> else st\<lparr>ls_buckets := m\<rparr>))"
  by (cases "kv_get (=) (ls_buckets st) key") (simp_all add: take_token_def level_def bucket_after_def Let_def)

lemma take_store:
  assumes "sane opts" "store_ok opts now st" "take_token opts now key st = (r, st')"
  shows "store_ok opts now st'"
    "now \<le> t \<Longrightarrow> level opts t k st' =
       (if k = key then min (lo_capacity opts) (refilled opts t (bucket_after opts now key st)) else level opts t k st)"
proof -
  let ?b = "bucket_after opts now key st"
  let ?m = "kv_set (=) key ?b (ls_buckets st)"
  have wf: "kv_wf (=) (ls_buckets st)" using assms(2) by (simp add: store_ok_def)
  then have wfm: "kv_wf (=) ?m" by (simp add: pm_laws)
  have b0: "0 \<le> bk_tokens ?b \<and> bk_last ?b \<le> now"
    using level_nonneg [OF assms(1,2), of key] by (simp add: bucket_after_def Let_def)
  have st': "ls_buckets st' = ?m \<or> ls_buckets st' = prune_buckets opts now key ?m"
    using assms(3) by (auto simp: take_token_eq Let_def split: if_splits)
  have wfp: "kv_wf (=) (prune_buckets opts now key ?m)"
    using wf_filtered [OF wfm] by (simp add: prune_buckets_def)
  have sub: "kv_get (=) (ls_buckets st') k = Some b \<Longrightarrow> kv_get (=) ?m k = Some b" for k b
    using st' by (auto simp: prune_get [OF wfm] split: option.splits if_splits)
  have "kv_get (=) ?m k = Some b \<Longrightarrow> 0 \<le> bk_tokens b \<and> bk_last b \<le> now" for k b
    using assms(2) b0 by (auto simp: store_ok_def pm_laws split: if_splits)
  moreover have "kv_wf (=) (ls_buckets st')" using st' wfm wfp by metis
  ultimately show "store_ok opts now st'" using sub unfolding store_ok_def by blast
  assume t: "now \<le> t"
  have lm: "level opts t k \<lparr>ls_buckets = ?m, ls_last_prune = p\<rparr> =
      (if k = key then min (lo_capacity opts) (refilled opts t ?b) else level opts t k st)" for p
    by (auto simp: level_def pm_laws)
  have "level opts t k st' = level opts t k \<lparr>ls_buckets = ls_buckets st', ls_last_prune = p\<rparr>" for p
    by (simp add: level_def)
  then show "level opts t k st' =
       (if k = key then min (lo_capacity opts) (refilled opts t ?b) else level opts t k st)"
    using st' lm prune_invisible [OF assms(1) wfm t, of k key] by metis
qed

section \<open>Over any history\<close>

fun run_takes :: "limit_options \<Rightarrow> (int \<times> string) list \<Rightarrow> limit_store \<Rightarrow> take_result list \<times> limit_store" where
  "run_takes opts [] st = ([], st)"
| "run_takes opts ((now, key) # evs) st =
     (case take_token opts now key st of
        (r, st) \<Rightarrow> (case run_takes opts evs st of (rs, st) \<Rightarrow> (r # rs, st)))"

definition admitted :: "string \<Rightarrow> (int \<times> string) list \<Rightarrow> take_result list \<Rightarrow> nat" where
  "admitted key evs rs = length (filter (\<lambda>((_, k), r). k = key \<and> tr_allowed r) (zip evs rs))"

definition new_store :: "int \<Rightarrow> limit_store" where
  "new_store now = \<lparr>ls_buckets = [], ls_last_prune = now\<rparr>"

lemma new_store_ok: "store_ok opts t (new_store now)"
  by (simp add: store_ok_def new_store_def)

lemma run_takes_ok:
  assumes "sane opts" "store_ok opts t0 st" "sorted (map fst evs)" "\<forall>(t, k) \<in> set evs. t0 \<le> t \<and> t \<le> t1" "t0 \<le> t1"
  shows "store_ok opts t1 (snd (run_takes opts evs st))"
  using assms(2-)
proof (induction evs arbitrary: t0 st)
  case Nil
  then show ?case by (auto intro: store_ok_later)
next
  case (Cons e evs)
  obtain n k where e: "e = (n, k)" by (cases e)
  obtain r st' where t: "take_token opts n k st = (r, st')" by fastforce
  have "store_ok opts n st" using Cons.prems e store_ok_later by auto
  from take_store(1) [OF assms(1) this t] have "store_ok opts n st'" .
  then have "store_ok opts t1 (snd (run_takes opts evs st'))"
    by (rule Cons.IH) (use Cons.prems e in auto)
  then show ?case by (simp add: e t split_beta)
qed

lemma admitted_bound:
  assumes "sane opts" "store_ok opts t0 st" "sorted (map fst evs)" "\<forall>(t, k) \<in> set evs. t0 \<le> t \<and> t \<le> t1" "t0 \<le> t1"
  shows "rat_of_nat (admitted key evs (fst (run_takes opts evs st)))
     \<le> level opts t0 key st + seconds_between t0 t1 * lo_refill opts"
  using assms(2-)
proof (induction evs arbitrary: t0 st)
  case Nil
  have "0 \<le> seconds_between t0 t1 * lo_refill opts" using assms(1) Nil seconds_nonneg by (simp add: sane_def)
  then show ?case using level_nonneg [OF assms(1) Nil.prems(1), of key] by (simp add: admitted_def)
next
  case (Cons e evs)
  obtain n k where e: "e = (n, k)" by (cases e)
  obtain r st' where t: "take_token opts n k st = (r, st')" by fastforce
  have n: "t0 \<le> n" "n \<le> t1" using Cons.prems e by auto
  have ok: "store_ok opts n st" using Cons.prems(1) n(1) store_ok_later by blast
  note after = take_store [OF assms(1) ok t]
  have ih: "rat_of_nat (admitted key evs (fst (run_takes opts evs st')))
     \<le> level opts n key st' + seconds_between n t1 * lo_refill opts"
    by (rule Cons.IH) (use Cons.prems e after(1) n in auto)
  have step: "(if k = key \<and> tr_allowed r then 1 else 0) + level opts n key st' \<le> level opts n key st"
  proof (cases "k = key")
    case True
    have "tr_allowed r \<longleftrightarrow> 1 \<le> level opts n key st" using t True by (auto simp: take_token_eq Let_def split: if_splits)
    moreover have "refilled opts n (bucket_after opts n key st) = level opts n key st - (if 1 \<le> level opts n key st then 1 else 0)"
      by (simp add: refilled_def bucket_after_def Let_def seconds_between_def)
    ultimately show ?thesis using after(2) [of n key] True by auto
  next
    case False
    then show ?thesis using after(2) [of n key] by simp
  qed
  have "rat_of_nat (admitted key (e # evs) (fst (run_takes opts (e # evs) st))) =
      (if k = key \<and> tr_allowed r then 1 else 0) + rat_of_nat (admitted key evs (fst (run_takes opts evs st')))"
    by (simp add: admitted_def e t split_beta)
  also have "\<dots> \<le> level opts n key st + seconds_between n t1 * lo_refill opts" using ih step by simp
  also have "\<dots> \<le> level opts t0 key st + seconds_between t0 n * lo_refill opts + seconds_between n t1 * lo_refill opts"
    using level_later [OF assms(1) n(1), of key st] by simp
  also have "\<dots> = level opts t0 key st + seconds_between t0 t1 * lo_refill opts"
    using seconds_split [of t0 t1 n] by (simp add: distrib_right)
  finally show ?case .
qed

lemma run_takes_append:
  "run_takes opts (xs @ ys) st =
    (case run_takes opts xs st of (rs, st) \<Rightarrow> (case run_takes opts ys st of (rs', st) \<Rightarrow> (rs @ rs', st)))"
  by (induction xs arbitrary: st) (auto simp: split_beta)

text \<open>C37: the limiter keeps its promise over every history. Whatever clients took before, in any
  window of time the requests admitted for one key are at most the burst size plus what the refill
  rate yields in that window; requests of other keys and the pruning of idle buckets change nothing.\<close>

theorem rate_limit_bound:
  assumes "0 \<le> lo_capacity opts" "0 \<le> lo_refill opts" "t0 \<le> t1" "sorted (map fst (before @ window))"
    "\<forall>(t, k) \<in> set before. start \<le> t \<and> t \<le> t0" "\<forall>(t, k) \<in> set window. t0 \<le> t \<and> t \<le> t1" "start \<le> t0"
    "run_takes opts before (new_store start) = (rs, st)" "run_takes opts window st = (rs', st')"
  shows "rat_of_nat (admitted key window rs') \<le> lo_capacity opts + seconds_between t0 t1 * lo_refill opts"
proof -
  have s: "sane opts" using assms(1,2) by (simp add: sane_def)
  have "store_ok opts t0 (snd (run_takes opts before (new_store start)))"
    by (rule run_takes_ok [OF s new_store_ok]) (use assms(4,5,7) in \<open>auto simp: sorted_append\<close>)
  then have "store_ok opts t0 st" by (simp add: assms(8))
  from admitted_bound [OF s this, of window t1 key] have
    "rat_of_nat (admitted key window rs') \<le> level opts t0 key st + seconds_between t0 t1 * lo_refill opts"
    using assms(3,4,6,9) by (simp add: sorted_append)
  moreover have "level opts t0 key st \<le> lo_capacity opts" by (simp add: level_def split: option.split)
  ultimately show ?thesis by simp
qed

theorem rate_limit_bound_witness:
  "\<exists>rs' st'. run_takes (default_limit_options\<lparr>lo_capacity := 1\<rparr>) [(5, ''a''), (6, ''b''), (7, ''a'')] (new_store 0) = (rs', st') \<and>
     rat_of_nat (admitted ''a'' [(5, ''a''), (6, ''b''), (7, ''a'')] rs') \<le> 1 + seconds_between 5 7 * 1"
proof -
  let ?o = "default_limit_options\<lparr>lo_capacity := 1\<rparr>" and ?w = "[(5, ''a''), (6, ''b''), (7, ''a'')]"
  obtain rs' st' where r: "run_takes ?o ?w (new_store 0) = (rs', st')" by fastforce
  have "rat_of_nat (admitted ''a'' ?w rs') \<le> lo_capacity ?o + seconds_between 5 7 * lo_refill ?o"
    by (rule rate_limit_bound [where before = "[]" and start = 0 and st = "new_store 0"])
       (use r in \<open>simp_all add: default_limit_options_def\<close>)
  then show ?thesis using r by (simp add: default_limit_options_def)
qed

text \<open>\<open>Retry-After\<close> is honest: who waits that long is admitted, if nobody else spends the key's tokens.\<close>

lemma retry_after_sufficient:
  assumes "0 < lo_refill opts" "1 \<le> lo_capacity opts" "store_ok opts now st" "now \<le> t"
    "take_token opts now key st = (r, st')" "\<not> tr_allowed r" "tr_retry_after r \<le> seconds_between now t"
  shows "tr_allowed (fst (take_token opts t key st'))"
proof -
  have s: "sane opts" using assms(1,2) by (simp add: sane_def)
  let ?l = "level opts now key st"
  have r: "\<not> 1 \<le> ?l" "tr_retry_after r = (1 - ?l) / lo_refill opts"
    using assms(1,5,6) by (auto simp: take_token_eq Let_def split: if_splits)
  have "1 - ?l \<le> seconds_between now t * lo_refill opts"
    using assms(1,7) r(2) by (simp add: pos_divide_le_eq)
  then have "1 \<le> refilled opts t (bucket_after opts now key st)"
    using r(1) by (simp add: refilled_def bucket_after_def Let_def)
  then have "1 \<le> level opts t key st'"
    using take_store(2) [OF s assms(3,5,4), of key] assms(2) by simp
  then show ?thesis by (simp add: take_token_eq Let_def)
qed

end
