(* ===== verification/Body.thy ===== *)
theory Body
  imports Messages
begin

text \<open>
  Body parsers: \<open>include/socketify/body.h\<close> and \<open>src/body.cpp\<close>. JSON, URL-encoded forms and
  \<open>multipart/form-data\<close>. A position in the body is the text that remains from it.
\<close>

section \<open>Definitions\<close>

definition is_json :: "request \<Rightarrow> bool" where
  "is_json rq = istarts_with (req_header rq H_ContentType) ''application/json''"

definition is_form :: "request \<Rightarrow> bool" where
  "is_form rq = istarts_with (req_header rq H_ContentType) ''application/x-www-form-urlencoded''"

definition is_multipart :: "request \<Rightarrow> bool" where
  "is_multipart rq = istarts_with (req_header rq H_ContentType) ''multipart/form-data''"

text \<open>\<open>parse\<close> is the JSON library's parser without exceptions.\<close>

definition body_json :: "(string \<Rightarrow> 'j option) \<Rightarrow> request \<Rightarrow> 'j option" where
  "body_json parse rq = (let b = rq_body rq in if b = [] then None else parse b)"

definition body_form :: "request \<Rightarrow> param_map" where
  "body_form rq = parse_query_string (rq_body rq) []"

text \<open>The value of the parameter that starts at a position: quoted, or up to the semicolon.\<close>

definition boundary_value :: "string \<Rightarrow> string" where
  "boundary_value rest =
     (if rest \<noteq> [] \<and> hd rest = DQ then
        (case find_char DQ (tl rest) of None \<Rightarrow> [] | Some n \<Rightarrow> take n (tl rest))
      else trim_view (case find_char CHR '';'' rest of None \<Rightarrow> rest | Some semi \<Rightarrow> take semi rest))"

function boundary_from :: "string \<Rightarrow> nat \<Rightarrow> string" where
  "boundary_from ct pos =
     (if pos < length ct then
        (case find_sub ''boundary='' (drop pos ct) of
           None \<Rightarrow> []
         | Some n \<Rightarrow>
             (let found = pos + n
              in if found > 0 \<and> ct ! (found - 1) \<notin> {CHR '';'', SP, TAB} then boundary_from ct (found + 9)
                 else boundary_value (drop (found + 9) ct)))
      else [])"
  by pat_completeness auto
termination
  by (relation "measure (\<lambda>(ct, pos). length ct - pos)") auto

declare boundary_from.simps [simp del]

definition extract_boundary :: "string \<Rightarrow> string" where
  "extract_boundary ct = boundary_from ct 0"

fun find_param :: "string \<Rightarrow> string list \<Rightarrow> string" where
  "find_param param [] = []"
| "find_param param (p # ps) =
     (let piece = trim_view p
      in case find_char CHR ''='' piece of
           None \<Rightarrow> find_param param ps
         | Some eq \<Rightarrow>
             if \<not> iequal_ascii (trim_view (take eq piece)) param then find_param param ps
             else (let val = trim_view (drop (Suc eq) piece)
                   in if length val \<ge> 2 \<and> hd val = DQ \<and> last val = DQ then butlast (tl val) else val))"

definition disposition_param :: "string \<Rightarrow> string \<Rightarrow> string" where
  "disposition_param v param = find_param param (split_view v CHR '';'')"

record file_part =
  fp_name :: string
  fp_filename :: string
  fp_content_type :: string
  fp_data :: string

record multipart_data =
  md_fields :: param_map
  md_files :: "file_part list"

text \<open>The headers of a part: disposition, content type and what follows the empty line; \<open>None\<close> when
  the body ends before it.\<close>

function part_headers :: "string \<Rightarrow> string \<Rightarrow> string \<Rightarrow> (string \<times> string \<times> string) option" where
  "part_headers body disp ct =
     (case find_sub CRLF body of
        None \<Rightarrow> None
      | Some eol \<Rightarrow>
          (let line = take eol body; rest = drop (eol + 2) body
           in if line = [] then Some (disp, ct, rest)
              else (case find_char CHR '':'' line of
                      None \<Rightarrow> part_headers rest disp ct
                    | Some colon \<Rightarrow>
                        (let key = trim_view (take colon line); val = trim_view (drop (Suc colon) line)
                         in if iequal_ascii key ''Content-Disposition'' then part_headers rest val ct
                            else if iequal_ascii key ''Content-Type'' then part_headers rest disp val
                            else part_headers rest disp ct))))"
  by pat_completeness auto
termination
  by (relation "measure (\<lambda>(body, disp, ct). length body)") (auto dest: find_sub_bound)

declare part_headers.simps [simp del]

lemma part_headers_length: "part_headers body disp ct = Some (d, c, rest) \<Longrightarrow> length rest < length body"
proof (induction body disp ct rule: part_headers.induct)
  case (1 body disp ct)
  obtain eol where e: "find_sub CRLF body = Some eol" using 1(5) by (subst (asm) part_headers.simps) (auto split: option.splits)
  have l: "length (drop (eol + 2) body) < length body" using find_sub_bound [OF e] by simp
  have "length rest < length body \<or> length rest < length (drop (eol + 2) body)"
    using 1(5) 1(1-4) [OF e refl refl] l e
    by (subst (asm) part_headers.simps) (auto simp: Let_def split: if_splits option.splits)
  then show ?case using l by linarith
qed

text \<open>What a part adds to the result.\<close>

definition add_part :: "string \<Rightarrow> string \<Rightarrow> string \<Rightarrow> multipart_data \<Rightarrow> multipart_data" where
  "add_part disp ct data out =
     (let name = disposition_param disp ''name''; filename = disposition_param disp ''filename''
      in if filename \<noteq> [] \<or> ct \<noteq> [] then
           out\<lparr>md_files := md_files out @ [\<lparr>fp_name = name, fp_filename = filename, fp_content_type = ct, fp_data = data\<rparr>]\<rparr>
         else if name \<noteq> [] then out\<lparr>md_fields := kv_set (=) name data (md_fields out)\<rparr>
         else out)"

text \<open>The loop over the parts, from behind a delimiter.\<close>

function multipart_loop :: "string \<Rightarrow> string \<Rightarrow> multipart_data \<Rightarrow> multipart_data option" where
  "multipart_loop delim body out =
     (if length body \<ge> 2 \<and> take 2 body = ''--'' then Some out
      else if length body < 2 then Some out
      else
        (case part_headers (if take 2 body = CRLF then drop 2 body else body) [] [] of
           None \<Rightarrow> None
         | Some (disp, ct, rest) \<Rightarrow>
             (case find_sub (CRLF @ delim) rest of
                None \<Rightarrow> None
              | Some e \<Rightarrow> multipart_loop delim (drop (e + length (CRLF @ delim)) rest) (add_part disp ct (take e rest) out))))"
  by pat_completeness auto
termination
  by (relation "measure (\<lambda>(delim, body, out). length body)") (auto dest!: part_headers_length split: if_splits)

declare multipart_loop.simps [simp del]

definition multipart :: "request \<Rightarrow> multipart_data option" where
  "multipart rq =
     (if \<not> is_multipart rq then None
      else
        (let boundary = extract_boundary (req_header rq H_ContentType)
         in if boundary = [] then None
            else
              (let delim = ''--'' @ boundary
               in case find_sub delim (rq_body rq) of
                    None \<Rightarrow> None
                  | Some pos \<Rightarrow> multipart_loop delim (drop (pos + length delim) (rq_body rq)) \<lparr>md_fields = [], md_files = []\<rparr>)))"

section \<open>Rendering a form\<close>

datatype form_item = TextField string string | FileField file_part

definition quoted :: "string \<Rightarrow> string" where
  "quoted s = [DQ] @ s @ [DQ]"

fun item_disposition :: "form_item \<Rightarrow> string" where
  "item_disposition (TextField n v) = ''form-data; name='' @ quoted n"
| "item_disposition (FileField f) = ''form-data; name='' @ quoted (fp_name f) @ ''; filename='' @ quoted (fp_filename f)"

fun item_type :: "form_item \<Rightarrow> string" where
  "item_type (TextField n v) = []"
| "item_type (FileField f) = fp_content_type f"

fun item_data :: "form_item \<Rightarrow> string" where
  "item_data (TextField n v) = v"
| "item_data (FileField f) = fp_data f"

definition item_headers :: "form_item \<Rightarrow> string" where
  "item_headers i =
     ''Content-Disposition: '' @ item_disposition i @ CRLF
     @ (if item_type i \<noteq> [] then ''Content-Type: '' @ item_type i @ CRLF else []) @ CRLF"

text \<open>What stands behind the first delimiter.\<close>

fun form_tail :: "string \<Rightarrow> form_item list \<Rightarrow> string" where
  "form_tail b [] = ''--'' @ CRLF"
| "form_tail b (i # is) = CRLF @ item_headers i @ item_data i @ CRLF @ ''--'' @ b @ form_tail b is"

definition render_form :: "string \<Rightarrow> form_item list \<Rightarrow> string" where
  "render_form b is = ''--'' @ b @ form_tail b is"

fun add_item :: "form_item \<Rightarrow> multipart_data \<Rightarrow> multipart_data" where
  "add_item (TextField n v) out = out\<lparr>md_fields := kv_set (=) n v (md_fields out)\<rparr>"
| "add_item (FileField f) out = out\<lparr>md_files := md_files out @ [f]\<rparr>"

definition plain_param :: "string \<Rightarrow> bool" where
  "plain_param s \<longleftrightarrow> CR \<notin> set s \<and> CHR '';'' \<notin> set s"

text \<open>A boundary is fresh for data if the closing delimiter is not found before the end of the data.\<close>

definition fresh_boundary :: "string \<Rightarrow> string \<Rightarrow> bool" where
  "fresh_boundary b data \<longleftrightarrow> find_sub (CRLF @ ''--'' @ b) (data @ CRLF @ ''--'' @ b) = Some (length data)"

fun item_ok :: "string \<Rightarrow> form_item \<Rightarrow> bool" where
  "item_ok b (TextField n v) \<longleftrightarrow> n \<noteq> [] \<and> plain_param n \<and> fresh_boundary b v"
| "item_ok b (FileField f) \<longleftrightarrow>
     plain_param (fp_name f) \<and> plain_param (fp_filename f) \<and> (fp_filename f \<noteq> [] \<or> fp_content_type f \<noteq> []) \<and>
     CR \<notin> set (fp_content_type f) \<and> trim_view (fp_content_type f) = fp_content_type f \<and> fresh_boundary b (fp_data f)"

section \<open>Reading it back\<close>

lemma trim_quoted: "trim_view (quoted s) = quoted s"
  by (rule trim_view_id) (simp add: quoted_def is_blank_def)

lemma unquote_quoted: "butlast (tl (quoted s)) = s" "length (quoted s) \<ge> 2" "hd (quoted s) = DQ" "last (quoted s) = DQ" "quoted s \<noteq> []"
  by (simp_all add: quoted_def)

lemma param_piece:
  assumes "CHR ''='' \<notin> set k" "trim_view k = k" "k \<noteq> []"
  shows "trim_view (SP # k @ ''='' @ quoted s) = k @ ''='' @ quoted s"
    "find_char CHR ''='' (k @ ''='' @ quoted s) = Some (length k)"
    "drop (Suc (length k)) (k @ ''='' @ quoted s) = quoted s"
proof -
  have "\<not> is_blank (hd k)" using trim_view_no_blank_ends [of k] assms(2,3) by auto
  then have "trim_view (k @ ''='' @ quoted s) = k @ ''='' @ quoted s"
    by (intro trim_view_id) (use assms(3) unquote_quoted in \<open>simp add: is_blank_def\<close>)
  moreover have "trim_view (SP # x) = trim_view x" for x by (simp add: trim_view_def is_blank_def)
  ultimately show "trim_view (SP # k @ ''='' @ quoted s) = k @ ''='' @ quoted s" by simp
  show "find_char CHR ''='' (k @ ''='' @ quoted s) = Some (length k)"
    using find_char_append_hit [OF assms(1), of "quoted s"] by simp
  show "drop (Suc (length k)) (k @ ''='' @ quoted s) = quoted s" by simp
qed

lemma find_param_piece:
  assumes "CHR ''='' \<notin> set k" "trim_view k = k" "k \<noteq> []"
  shows "find_param param ((SP # k @ ''='' @ quoted s) # ps) = (if iequal_ascii k param then s else find_param param ps)"
  unfolding find_param.simps Let_def param_piece [OF assms] option.case
  using assms(2) trim_quoted unquote_quoted by simp

lemma find_param_skip: "CHR ''='' \<notin> set p \<Longrightarrow> find_param param (p # ps) = find_param param ps"
proof -
  assume p: "CHR ''='' \<notin> set p"
  have "set (trim_view p) \<subseteq> set p"
    by (auto simp: trim_view_def dest!: set_dropWhileD)
  then have "find_char CHR ''='' (trim_view p) = None" using p unfolding find_char_None_iff by blast
  then show ?thesis by simp
qed

lemma param_names:
  "CHR ''='' \<notin> set ''name''" "trim_view ''name'' = ''name''" "CHR ''='' \<notin> set ''filename''" "trim_view ''filename'' = ''filename''"
  "iequal_ascii ''name'' ''name''" "iequal_ascii ''filename'' ''filename''" "\<not> iequal_ascii ''name'' ''filename''"
  "CHR ''='' \<notin> set ''form-data''" "CHR '';'' \<notin> set ''form-data''"
  by code_simp+

lemma disposition_pieces:
  assumes "plain_param n"
  shows "split_view (''form-data; name='' @ quoted n) CHR '';'' = [''form-data'', SP # ''name'' @ ''='' @ quoted n]"
    "plain_param f \<Longrightarrow> split_view (''form-data; name='' @ quoted n @ ''; filename='' @ quoted f) CHR '';'' =
       [''form-data'', SP # ''name'' @ ''='' @ quoted n, SP # ''filename'' @ ''='' @ quoted f]"
proof -
  have q: "plain_param s \<Longrightarrow> CHR '';'' \<notin> set (SP # ''name'' @ ''='' @ quoted s) \<and> CHR '';'' \<notin> set (SP # ''filename'' @ ''='' @ quoted s)" for s
    by (simp add: plain_param_def quoted_def)
  have n: "Utils.fields CHR '';'' (SP # ''name'' @ ''='' @ quoted n) = [SP # ''name'' @ ''='' @ quoted n]"
    by (rule fields_no_sep) (use q assms in blast)
  have h: "Utils.fields CHR '';'' (''form-data'' @ CHR '';'' # x) = ''form-data'' # Utils.fields CHR '';'' x" for x
    by (rule fields_append_sep) (rule param_names)
  show "split_view (''form-data; name='' @ quoted n) CHR '';'' = [''form-data'', SP # ''name'' @ ''='' @ quoted n]"
    using h [of "SP # ''name'' @ ''='' @ quoted n"] n by (simp add: split_view_fields)
  assume f: "plain_param f"
  have f1: "Utils.fields CHR '';'' (SP # ''filename'' @ ''='' @ quoted f) = [SP # ''filename'' @ ''='' @ quoted f]"
    by (rule fields_no_sep) (use q f in blast)
  have "Utils.fields CHR '';'' ((SP # ''name'' @ ''='' @ quoted n) @ CHR '';'' # SP # ''filename'' @ ''='' @ quoted f) =
      (SP # ''name'' @ ''='' @ quoted n) # Utils.fields CHR '';'' (SP # ''filename'' @ ''='' @ quoted f)"
    by (rule fields_append_sep) (use q assms in blast)
  then show "split_view (''form-data; name='' @ quoted n @ ''; filename='' @ quoted f) CHR '';'' =
       [''form-data'', SP # ''name'' @ ''='' @ quoted n, SP # ''filename'' @ ''='' @ quoted f]"
    using h [of "SP # ''name'' @ ''='' @ quoted n @ ''; filename='' @ quoted f"] f1 by (simp add: split_view_fields)
qed

lemma item_params:
  assumes "item_ok b i"
  shows "add_part (item_disposition i) (item_type i) (item_data i) out = add_item i out"
proof (cases i)
  case (TextField n v)
  then have n: "plain_param n" "n \<noteq> []" using assms by auto
  have "disposition_param (item_disposition i) ''name'' = n" "disposition_param (item_disposition i) ''filename'' = []"
    unfolding disposition_param_def TextField item_disposition.simps disposition_pieces(1) [OF n(1)]
      find_param_skip [OF param_names(8)] find_param_piece [OF param_names(1,2) list.discI [OF refl]]
    using param_names by simp_all
  then show ?thesis using n(2) TextField by (simp add: add_part_def)
next
  case (FileField f)
  then have n: "plain_param (fp_name f)" "plain_param (fp_filename f)" "fp_filename f \<noteq> [] \<or> fp_content_type f \<noteq> []"
    using assms by auto
  have "disposition_param (item_disposition i) ''name'' = fp_name f" "disposition_param (item_disposition i) ''filename'' = fp_filename f"
    unfolding disposition_param_def FileField item_disposition.simps disposition_pieces(2) [OF n(1,2)]
      find_param_skip [OF param_names(8)] find_param_piece [OF param_names(1,2) list.discI [OF refl]]
      find_param_piece [OF param_names(3,4) list.discI [OF refl]]
    using param_names by simp_all
  then show ?thesis using n(3) FileField by (auto simp: add_part_def Let_def)
qed

lemma part_header_end: "part_headers (CRLF @ rest) d c = Some (d, c, rest)"
  by (subst part_headers.simps) simp

lemma drop_prefixed: "length a = n \<Longrightarrow> drop n (a @ b) = b"
  by simp

lemma part_header_line:
  assumes "CR \<notin> set k" "CR \<notin> set v" "CHR '':'' \<notin> set k" "trim_view k = k" "trim_view v = v"
  shows "part_headers (k @ '': '' @ v @ CRLF @ rest) d c =
    (if iequal_ascii k ''Content-Disposition'' then part_headers rest v c
     else if iequal_ascii k ''Content-Type'' then part_headers rest d v else part_headers rest d c)"
proof -
  let ?l = "k @ '': '' @ v"
  have f: "find_sub CRLF (?l @ CRLF @ rest) = Some (length ?l)" by (rule find_crlf) (use assms(1,2) in simp)
  have c: "find_char CHR '':'' ?l = Some (length k)"
    using find_char_append_hit [OF assms(3), of "SP # v"] by simp
  have "trim_view (SP # x) = trim_view x" for x by (simp add: trim_view_def is_blank_def)
  then have t: "trim_view (drop (Suc (length k)) ?l) = v" "trim_view (take (length k) ?l) = k"
    using assms(4,5) by simp_all
  have d: "take (length ?l) (?l @ CRLF @ rest) = ?l" "drop (length ?l + 2) (?l @ CRLF @ rest) = rest" "?l \<noteq> []"
    using drop_prefixed [of "?l @ CRLF" "length ?l + 2" rest] by simp_all
  have "part_headers (?l @ CRLF @ rest) d c =
    (if iequal_ascii k ''Content-Disposition'' then part_headers rest v c
     else if iequal_ascii k ''Content-Type'' then part_headers rest d v else part_headers rest d c)"
    by (subst part_headers.simps, unfold f option.case Let_def d(1,2) if_not_P [OF d(3)] c t) (rule refl)
  then show ?thesis by simp
qed

lemma header_names:
  "CR \<notin> set ''Content-Disposition''" "CHR '':'' \<notin> set ''Content-Disposition''" "trim_view ''Content-Disposition'' = ''Content-Disposition''"
  "CR \<notin> set ''Content-Type''" "CHR '':'' \<notin> set ''Content-Type''" "trim_view ''Content-Type'' = ''Content-Type''"
  "iequal_ascii ''Content-Disposition'' ''Content-Disposition''" "\<not> iequal_ascii ''Content-Type'' ''Content-Disposition''"
  "iequal_ascii ''Content-Type'' ''Content-Type''"
  by code_simp+

lemma item_disposition_plain:
  assumes "item_ok b i"
  shows "CR \<notin> set (item_disposition i)" "trim_view (item_disposition i) = item_disposition i"
proof -
  show "CR \<notin> set (item_disposition i)" using assms by (cases i) (auto simp: plain_param_def quoted_def)
  have "last (item_disposition i) = DQ" "hd (item_disposition i) = CHR ''f''"
    by (cases i; simp add: quoted_def)+
  then show "trim_view (item_disposition i) = item_disposition i" by (intro trim_view_id) (simp add: is_blank_def)
qed

lemma item_headers_read:
  assumes "item_ok b i"
  shows "part_headers (item_headers i @ rest) [] [] = Some (item_disposition i, item_type i, rest)"
proof -
  note disp = part_header_line [OF header_names(1) item_disposition_plain(1) [OF assms] header_names(2,3)
      item_disposition_plain(2) [OF assms]]
  show ?thesis
  proof (cases "item_type i = []")
    case True
    then have "item_headers i @ rest = ''Content-Disposition'' @ '': '' @ item_disposition i @ CRLF @ CRLF @ rest"
      by (simp add: item_headers_def)
    then show ?thesis using True header_names(7) by (simp only: disp part_header_end if_True)
  next
    case False
    then have t: "CR \<notin> set (item_type i)" "trim_view (item_type i) = item_type i" using assms by (cases i; simp)+
    have "item_headers i @ rest = ''Content-Disposition'' @ '': '' @ item_disposition i @ CRLF
        @ ''Content-Type'' @ '': '' @ item_type i @ CRLF @ CRLF @ rest"
      using False by (simp add: item_headers_def)
    then show ?thesis
      using header_names(7,8,9) part_header_line [OF header_names(4) t(1) header_names(5,6) t(2)]
      by (simp only: disp part_header_end if_True if_False)
  qed
qed

lemma multipart_loop_form:
  "\<forall>i \<in> set is. item_ok b i \<Longrightarrow> multipart_loop (''--'' @ b) (form_tail b is) out = Some (fold add_item is out)"
proof (induction "is" arbitrary: out)
  case Nil
  show ?case by (subst multipart_loop.simps) simp
next
  case (Cons i "is")
  have ok: "item_ok b i" using Cons.prems by simp
  let ?rest = "item_data i @ CRLF @ ''--'' @ b @ form_tail b is"
  let ?d = "''--'' @ b"
  have "fresh_boundary b (item_data i)" using ok by (cases i) auto
  then have e: "find_sub (CRLF @ ?d) ?rest = Some (length (item_data i))"
    using find_sub_extend [of "CRLF @ ?d" "item_data i @ CRLF @ ?d" _ "form_tail b is"] by (simp add: fresh_boundary_def)
  have dr: "drop (length (item_data i) + length (CRLF @ ?d)) ?rest = form_tail b is"
    using drop_prefixed [of "item_data i @ CRLF @ ?d" "length (item_data i) + length (CRLF @ ?d)" "form_tail b is"] by simp
  have tk: "take (length (item_data i)) ?rest = item_data i" by simp
  have hd: "take 2 (form_tail b (i # is)) = CRLF" "drop 2 (form_tail b (i # is)) = item_headers i @ ?rest"
    "\<not> (length (form_tail b (i # is)) \<ge> 2 \<and> take 2 (form_tail b (i # is)) = ''--'')" "\<not> length (form_tail b (i # is)) < 2"
    by simp_all
  have "multipart_loop ?d (form_tail b (i # is)) out = multipart_loop ?d (form_tail b is) (add_item i out)"
    by (subst multipart_loop.simps, unfold if_not_P [OF hd(3)] if_not_P [OF hd(4)] if_P [OF hd(1)] hd(2) item_headers_read [OF ok]
        option.case prod.case e dr tk item_params [OF ok]) (rule refl)
  then show ?case using Cons by simp
qed

definition boundary_ok :: "string \<Rightarrow> bool" where
  "boundary_ok b \<longleftrightarrow> b \<noteq> [] \<and> hd b \<noteq> DQ \<and> CHR '';'' \<notin> set b \<and> trim_view b = b"

lemma extract_boundary_plain:
  assumes "boundary_ok b"
  shows "extract_boundary (''multipart/form-data; boundary='' @ b) = b"
proof -
  let ?ct = "''multipart/form-data; boundary='' @ b"
  have f: "find_sub ''boundary='' (drop 0 ?ct) = Some 21" by simp
  have p: "?ct ! 20 = SP" "drop (0 + 21 + 9) ?ct = b" by simp_all
  have s: "find_char CHR '';'' b = None" using assms unfolding boundary_ok_def find_char_None_iff by blast
  have v: "boundary_value b = b" using assms s by (simp add: boundary_value_def boundary_ok_def)
  show ?thesis
    unfolding extract_boundary_def by (subst boundary_from.simps, unfold f) (simp add: Let_def v)
qed


definition demo_upload :: "form_item list" where
  "demo_upload = [TextField ''a'' ''1'', FileField \<lparr>fp_name = ''f'', fp_filename = ''x.txt'', fp_content_type = ''text/plain'', fp_data = ''hi''\<rparr>]"


end
