(* ===== verification/Config.thy ===== *)
theory Config
  imports Utils CLib Complex_Main
begin

text \<open>
  Configuration: \<open>include/socketify/config.h\<close> and \<open>src/config.cpp\<close>. A \<open>Config\<close> is a map from keys
  to values; the process environment and the content of a file are arguments, as is \<open>std::stod\<close>
  (the value and the number of characters read; \<open>None\<close> is its exception).
\<close>

section \<open>Definitions\<close>

type_synonym config = "(string \<times> string) list"

definition unquote :: "string \<Rightarrow> string" where
  "unquote v =
     (if length v \<ge> 2 \<and> (hd v = DQ \<or> hd v = CHR 0x27) \<and> last v = hd v then butlast (tl v) else v)"

text \<open>The value of a line: an inline comment is cut off unless the value is quoted.\<close>

definition env_value :: "string \<Rightarrow> string" where
  "env_value v =
     (let v = (if v \<noteq> [] \<and> hd v \<noteq> DQ \<and> hd v \<noteq> CHR 0x27 then
                 (case find_sub '' #'' v of None \<Rightarrow> v | Some hash \<Rightarrow> trim_view (take hash v))
               else v)
      in unquote v)"

definition env_line :: "string \<Rightarrow> config \<Rightarrow> config" where
  "env_line line out =
     (let t = trim_view line
      in if t = [] \<or> hd t = CHR ''#'' then out
         else
           (let t = (if istarts_with t ''export '' then trim_view (drop 7 t) else t)
            in case find_char CHR ''='' t of
                 None \<Rightarrow> out
               | Some eq \<Rightarrow>
                   (let key = trim_view (take eq t); v = trim_view (drop (Suc eq) t)
                    in if key = [] then out else kv_set (=) key (env_value v) out)))"

text \<open>\<open>std::getline\<close> delivers no empty line behind the last line feed; such a line would be skipped anyway.\<close>

definition parse_env :: "string \<Rightarrow> config" where
  "parse_env text = fold env_line (Utils.fields LF text) []"

definition env_entry :: "string \<Rightarrow> config \<Rightarrow> config" where
  "env_entry entry c =
     (case find_char CHR ''='' entry of None \<Rightarrow> c | Some eq \<Rightarrow> kv_set (=) (take eq entry) (drop (Suc eq) entry) c)"

definition from_env :: "string list \<Rightarrow> config" where
  "from_env environ = fold env_entry environ []"

text \<open>The file is \<open>None\<close> when it cannot be opened.\<close>

definition merge_entry :: "bool \<Rightarrow> string \<times> string \<Rightarrow> config \<Rightarrow> config" where
  "merge_entry overrides kv c = (if overrides \<or> kv_get (=) c (fst kv) = None then kv_set (=) (fst kv) (snd kv) c else c)"

definition merge_file :: "string option \<Rightarrow> bool \<Rightarrow> config \<Rightarrow> config" where
  "merge_file content overrides c =
     (case content of None \<Rightarrow> c | Some text \<Rightarrow> fold (merge_entry overrides) (parse_env text) c)"

definition from_file :: "string option \<Rightarrow> config" where
  "from_file content = merge_file content True []"

definition config_set :: "string \<Rightarrow> string \<Rightarrow> config \<Rightarrow> config" where
  "config_set key v c = kv_set (=) key v c"

definition config_contains :: "config \<Rightarrow> string \<Rightarrow> bool" where
  "config_contains c key \<longleftrightarrow> kv_get (=) c key \<noteq> None"

definition config_get :: "config \<Rightarrow> string \<Rightarrow> string option" where
  "config_get c key = kv_get (=) c key"

definition config_get_or :: "config \<Rightarrow> string \<Rightarrow> string \<Rightarrow> string" where
  "config_get_or c key fallback = (case config_get c key of None \<Rightarrow> fallback | Some v \<Rightarrow> v)"

definition get_int :: "config \<Rightarrow> string \<Rightarrow> int option" where
  "get_int c key =
     (case config_get c key of
        None \<Rightarrow> None
      | Some v \<Rightarrow> (case stoll 10 v of None \<Rightarrow> None | Some (n, pos) \<Rightarrow> if pos \<noteq> length v then None else Some n))"

definition get_double :: "(string \<Rightarrow> (rat \<times> nat) option) \<Rightarrow> config \<Rightarrow> string \<Rightarrow> rat option" where
  "get_double stod c key =
     (case config_get c key of
        None \<Rightarrow> None
      | Some v \<Rightarrow> (case stod v of None \<Rightarrow> None | Some (n, pos) \<Rightarrow> if pos \<noteq> length v then None else Some n))"

definition get_bool :: "config \<Rightarrow> string \<Rightarrow> bool option" where
  "get_bool c key =
     (case config_get c key of
        None \<Rightarrow> None
      | Some v \<Rightarrow>
          (let s = to_lower_copy v
           in if s \<in> {''1'', ''true'', ''yes'', ''on''} then Some True
              else if s \<in> {''0'', ''false'', ''no'', ''off'', []} then Some False
              else None))"

text \<open>\<open>Inl\<close> is the exception \<open>config::Error\<close> and its message.\<close>

definition config_error :: "string \<Rightarrow> string" where
  "config_error key = ''missing required config key '' @ [CHR 0x27] @ key @ [CHR 0x27]"

definition require :: "config \<Rightarrow> string \<Rightarrow> string + string" where
  "require c key = (case config_get c key of None \<Rightarrow> Inl (config_error key) | Some v \<Rightarrow> Inr v)"

definition require_int :: "config \<Rightarrow> string \<Rightarrow> string + int" where
  "require_int c key = (case get_int c key of None \<Rightarrow> Inl (config_error key) | Some n \<Rightarrow> Inr n)"

section \<open>Merging\<close>

abbreviation set_all :: "config \<Rightarrow> config \<Rightarrow> config" where
  "set_all es c \<equiv> fold (\<lambda>kv. kv_set (=) (fst kv) (snd kv)) es c"

lemma get_None_keys: "kv_get (=) m x = None \<longleftrightarrow> x \<notin> fst ` set m"
  unfolding pm.get_None_iff by force

lemma kv_distinct: "kv_wf (=) m \<Longrightarrow> distinct (map fst m)"
  by (induction m) (auto simp: get_None_keys, force)

lemma map_of_kv: "kv_get (=) m k = map_of m k"
  by (induction m) auto

lemma rev_map_of: "distinct (map fst m) \<Longrightarrow> map_of (rev m) k = map_of m k"
proof (induction m)
  case (Cons e m)
  have "fst e = k \<Longrightarrow> map_of m k = None" using Cons.prems by (auto simp: map_of_eq_None_iff)
  then show ?case using Cons by (cases e) (auto simp: map_add_def split: option.split)
qed simp

lemma set_all_get: "kv_get (=) (set_all es c) k = (case map_of (rev es) k of None \<Rightarrow> kv_get (=) c k | Some v \<Rightarrow> Some v)"
  by (induction es rule: rev_induct) (auto simp: pm_laws split: option.splits)

lemma merge_True: "merge_entry True = (\<lambda>kv. kv_set (=) (fst kv) (snd kv))"
  by (intro ext) (simp add: merge_entry_def)

lemma merge_False_get:
  "kv_get (=) (fold (merge_entry False) es c) k = (case kv_get (=) c k of None \<Rightarrow> map_of es k | Some v \<Rightarrow> Some v)"
proof (induction es arbitrary: c)
  case Nil
  show ?case by (simp split: option.split)
next
  case (Cons e es)
  have "kv_get (=) (merge_entry False e c) k =
      (case kv_get (=) c k of None \<Rightarrow> if fst e = k then Some (snd e) else None | Some v \<Rightarrow> Some v)"
    by (auto simp: merge_entry_def pm_laws split: option.split)
  then have "kv_get (=) (fold (merge_entry False) (e # es) c) k =
      (case (case kv_get (=) c k of None \<Rightarrow> if fst e = k then Some (snd e) else None | Some v \<Rightarrow> Some v)
       of None \<Rightarrow> map_of es k | Some v \<Rightarrow> Some v)"
    unfolding fold_simps Cons.IH by (rule arg_cong)
  then show ?case by (cases "kv_get (=) c k"; cases e) auto
qed

lemma parse_env_wf: "kv_wf (=) (parse_env text)"
proof -
  have "kv_wf (=) c \<Longrightarrow> kv_wf (=) (fold env_line ls c)" for ls c
    by (induction ls arbitrary: c) (auto simp: env_line_def Let_def pm_laws split: option.split)
  then show ?thesis by (simp add: parse_env_def)
qed

text \<open>A file read into a configuration fills the gaps, or overrides, exactly for the keys it sets.\<close>

lemma merge_file_get:
  "config_get (merge_file (Some text) ov c) k =
    (if ov then (case config_get (parse_env text) k of None \<Rightarrow> config_get c k | Some v \<Rightarrow> Some v)
     else (case config_get c k of None \<Rightarrow> config_get (parse_env text) k | Some v \<Rightarrow> Some v))"
proof -
  have "map_of (rev (parse_env text)) k = kv_get (=) (parse_env text) k"
    by (simp add: rev_map_of [OF kv_distinct [OF parse_env_wf]] map_of_kv)
  then show ?thesis
    unfolding merge_file_def config_get_def option.case
    by (cases ov) (simp_all add: merge_True set_all_get merge_False_get, simp only: map_of_kv)
qed

section \<open>Writing and reading\<close>

definition env_quoted :: "string \<times> string \<Rightarrow> string" where
  "env_quoted kv = fst kv @ ''='' @ [DQ] @ snd kv @ [DQ]"

definition env_ok :: "string \<times> string \<Rightarrow> bool" where
  "env_ok kv \<longleftrightarrow>
     fst kv \<noteq> [] \<and> trim_view (fst kv) = fst kv \<and> hd (fst kv) \<noteq> CHR ''#'' \<and> \<not> istarts_with (env_quoted kv) ''export '' \<and>
     CHR ''='' \<notin> set (fst kv) \<and> LF \<notin> set (fst kv) \<and> LF \<notin> set (snd kv)"

lemma env_line_quoted:
  assumes "env_ok kv"
  shows "env_line (env_quoted kv) c = kv_set (=) (fst kv) (snd kv) c"
proof -
  note ok = assms [unfolded env_ok_def]
  let ?q = "[DQ] @ snd kv @ [DQ]"
  have "\<not> is_blank (hd (fst kv))" using trim_view_no_blank_ends [of "fst kv"] ok by auto
  then have t: "trim_view (env_quoted kv) = env_quoted kv"
    by (intro trim_view_id) (use ok in \<open>simp add: env_quoted_def is_blank_def\<close>)
  have q: "trim_view ?q = ?q" by (rule trim_view_id) (simp add: is_blank_def)
  have h: "\<not> (env_quoted kv = [] \<or> hd (env_quoted kv) = CHR ''#'')" using ok by (simp add: env_quoted_def)
  have f: "find_char CHR ''='' (env_quoted kv) = Some (length (fst kv))"
    using find_char_append_hit [of "CHR ''=''" "fst kv" ?q] ok by (simp add: env_quoted_def)
  have tk: "take (length (fst kv)) (env_quoted kv) = fst kv" "drop (Suc (length (fst kv))) (env_quoted kv) = ?q"
    by (simp_all add: env_quoted_def)
  have v: "env_value ?q = snd kv" by (simp add: env_value_def unquote_def)
  have e: "\<not> istarts_with (env_quoted kv) ''export ''" "trim_view (fst kv) = fst kv" "fst kv \<noteq> []" using ok by auto
  show ?thesis
    unfolding env_line_def Let_def t if_not_P [OF h] if_not_P [OF e(1)] f option.case tk e(2) q v if_not_P [OF e(3)] ..
qed

lemma parse_env_roundtrip:
  assumes "\<forall>kv \<in> set es. env_ok kv"
  shows "parse_env (concat (map (\<lambda>kv. env_quoted kv @ [LF]) es)) = set_all es []"
proof -
  have "Utils.fields LF (concat (map (\<lambda>kv. env_quoted kv @ [LF]) es)) = map env_quoted es @ [[]]"
    using assms
  proof (induction es)
    case Nil
    show ?case by simp
  next
    case (Cons kv es)
    have "LF \<notin> set (env_quoted kv)" using Cons.prems by (auto simp: env_ok_def env_quoted_def)
    from fields_append_sep [OF this] show ?case using Cons by simp
  qed
  moreover have "fold env_line (map env_quoted es) c = set_all es c" for c
    using assms by (induction es arbitrary: c) (auto simp: env_line_quoted)
  moreover have "env_line [] c = c" for c by (simp add: env_line_def trim_view_def)
  ultimately show ?thesis by (simp add: parse_env_def)
qed

text \<open>The carriage return of a file with CRLF line ends stays in the value.\<close>

lemma crlf_value_keeps_cr: "config_get (parse_env (''A=1'' @ CRLF @ ''B=2'' @ CRLF)) ''A'' = Some (''1'' @ [CR])"
  by code_simp

end
