(* ===== verification/Validation.thy ===== *)
theory Validation
  imports Json Utils
begin

text \<open>
  Paths into JSON documents and validation of JSON bodies: \<open>include/socketify/json.h\<close>,
  \<open>src/json.cpp\<close>, \<open>include/socketify/validate.h\<close>, \<open>src/validate.cpp\<close>. The regular expression engine
  is an argument: \<open>None\<close> is \<open>std::regex_error\<close>. A \<open>double\<close> is a rational number. A conversion
  \<open>get<T>()\<close> is a function that returns \<open>None\<close> when it throws.
\<close>

section \<open>Paths\<close>

definition json_parse :: "'j json_api \<Rightarrow> string \<Rightarrow> 'j option" where
  "json_parse J s = (if s = [] then None else js_parse J s)"

definition parse_or :: "'j json_api \<Rightarrow> string \<Rightarrow> 'j \<Rightarrow> 'j" where
  "parse_or J s fallback = (case json_parse J s of None \<Rightarrow> fallback | Some j \<Rightarrow> j)"

definition is_all_digits :: "string \<Rightarrow> bool" where
  "is_all_digits s \<longleftrightarrow> s \<noteq> [] \<and> list_all (\<lambda>c. 48 \<le> ord c \<and> ord c \<le> 57) s"

text \<open>The index of a segment, a \<open>size_t\<close>.\<close>

definition index_of :: "string \<Rightarrow> nat" where
  "index_of s = fold (\<lambda>c idx. (idx * 10 + (ord c - 48)) mod 2 ^ 64) s 0"

definition find_seg :: "'j json_api \<Rightarrow> string \<Rightarrow> 'j \<Rightarrow> 'j option" where
  "find_seg J seg cur =
     (if seg = [] then None
      else if js_is_object J cur then js_find J cur seg
      else (case js_elems J cur of
              None \<Rightarrow> None
            | Some es \<Rightarrow> if is_all_digits seg then (let idx = index_of seg in if idx \<ge> length es then None else Some (es ! idx)) else None))"

fun find_segs :: "'j json_api \<Rightarrow> string list \<Rightarrow> 'j \<Rightarrow> 'j option" where
  "find_segs J [] cur = Some cur"
| "find_segs J (seg # segs) cur = (case find_seg J seg cur of None \<Rightarrow> None | Some j \<Rightarrow> find_segs J segs j)"

definition json_find :: "'j json_api \<Rightarrow> 'j \<Rightarrow> string \<Rightarrow> 'j option" where
  "json_find J doc path = (if path = [] then Some doc else find_segs J (split_view path CHR ''.'') doc)"

definition json_has :: "'j json_api \<Rightarrow> 'j \<Rightarrow> string \<Rightarrow> bool" where
  "json_has J doc path = (case json_find J doc path of None \<Rightarrow> False | Some j \<Rightarrow> \<not> js_is_null J j)"

definition json_get :: "'j json_api \<Rightarrow> ('j \<Rightarrow> 't option) \<Rightarrow> 'j \<Rightarrow> string \<Rightarrow> 't option" where
  "json_get J conv doc path =
     (case json_find J doc path of None \<Rightarrow> None | Some j \<Rightarrow> if js_is_null J j then None else conv j)"

definition json_get_or :: "'j json_api \<Rightarrow> ('j \<Rightarrow> 't option) \<Rightarrow> 'j \<Rightarrow> string \<Rightarrow> 't \<Rightarrow> 't" where
  "json_get_or J conv doc path fallback = (case json_get J conv doc path of None \<Rightarrow> fallback | Some v \<Rightarrow> v)"

text \<open>\<open>Inl\<close> is the exception \<open>json_util::Error\<close>: the path and the message.\<close>

definition json_require :: "'j json_api \<Rightarrow> ('j \<Rightarrow> 't option) \<Rightarrow> 'j \<Rightarrow> string \<Rightarrow> (string \<times> string) + 't" where
  "json_require J conv doc path =
     (let quoted = [CHR 0x27] @ path @ [CHR 0x27]; missing = Inl (path, ''missing required field '' @ quoted)
      in case json_find J doc path of
           None \<Rightarrow> missing
         | Some j \<Rightarrow>
             if js_is_null J j then missing
             else (case conv j of None \<Rightarrow> Inl (path, ''field '' @ quoted @ '' has the wrong type'') | Some v \<Rightarrow> Inr v))"

section \<open>Rules\<close>

datatype jtype = TAny | TString | TInteger | TNumber | TBoolean | TArray | TObject

fun type_name :: "jtype \<Rightarrow> string" where
  "type_name TString = ''a string''"
| "type_name TInteger = ''an integer''"
| "type_name TNumber = ''a number''"
| "type_name TBoolean = ''a boolean''"
| "type_name TArray = ''an array''"
| "type_name TObject = ''an object''"
| "type_name TAny = ''valid''"

fun type_matches :: "'j json_api \<Rightarrow> jtype \<Rightarrow> 'j \<Rightarrow> bool" where
  "type_matches J TAny v = True"
| "type_matches J TString v = (js_as_str J v \<noteq> None)"
| "type_matches J TInteger v = (js_integer J v \<noteq> None)"
| "type_matches J TNumber v = (js_double J v \<noteq> None)"
| "type_matches J TBoolean v = js_is_bool J v"
| "type_matches J TArray v = (js_elems J v \<noteq> None)"
| "type_matches J TObject v = js_is_object J v"

definition looks_like_email :: "string \<Rightarrow> bool" where
  "looks_like_email s =
     (case find_char CHR ''@'' s of
        None \<Rightarrow> False
      | Some a \<Rightarrow>
          if a = 0 then False
          else (case find_char CHR ''.'' (drop a s) of None \<Rightarrow> False | Some n \<Rightarrow> a + n + 1 < length s))"

text \<open>The size metric of \<open>min\<close> and \<open>max\<close>, and whether it is a count.\<close>

definition magnitude :: "'j json_api \<Rightarrow> 'j \<Rightarrow> rat \<times> bool" where
  "magnitude J v =
     (case js_as_str J v of
        Some s \<Rightarrow> (rat_of_nat (length s), True)
      | None \<Rightarrow>
          if js_elems J v \<noteq> None \<or> js_is_object J v then (rat_of_nat (js_size J v), True)
          else (case js_double J v of Some x \<Rightarrow> (x, False) | None \<Rightarrow> (0, False)))"

record 'j rule =
  ru_name :: string
  ru_required :: bool
  ru_type :: jtype
  ru_min :: "rat option"
  ru_max :: "rat option"
  ru_email :: bool
  ru_allowed :: "string list"
  ru_pattern :: "string option"
  ru_custom :: "('j \<Rightarrow> string option) option"

definition rule_field :: "string \<Rightarrow> 'j rule" where
  "rule_field name =
     \<lparr>ru_name = name, ru_required = False, ru_type = TAny, ru_min = None, ru_max = None, ru_email = False,
      ru_allowed = [], ru_pattern = None, ru_custom = None\<rparr>"

definition rule_required :: "'j rule \<Rightarrow> 'j rule" where "rule_required f = f\<lparr>ru_required := True\<rparr>"
definition rule_optional :: "'j rule \<Rightarrow> 'j rule" where "rule_optional f = f\<lparr>ru_required := False\<rparr>"
definition rule_type :: "jtype \<Rightarrow> 'j rule \<Rightarrow> 'j rule" where "rule_type t f = f\<lparr>ru_type := t\<rparr>"
definition rule_min :: "rat \<Rightarrow> 'j rule \<Rightarrow> 'j rule" where "rule_min v f = f\<lparr>ru_min := Some v\<rparr>"
definition rule_max :: "rat \<Rightarrow> 'j rule \<Rightarrow> 'j rule" where "rule_max v f = f\<lparr>ru_max := Some v\<rparr>"
definition rule_email :: "'j rule \<Rightarrow> 'j rule" where "rule_email f = rule_type TString (f\<lparr>ru_email := True\<rparr>)"
definition rule_one_of :: "string list \<Rightarrow> 'j rule \<Rightarrow> 'j rule" where "rule_one_of vs f = f\<lparr>ru_allowed := ru_allowed f @ vs\<rparr>"
definition rule_matches :: "string \<Rightarrow> 'j rule \<Rightarrow> 'j rule" where "rule_matches p f = f\<lparr>ru_pattern := Some p\<rparr>"
definition rule_custom :: "('j \<Rightarrow> string option) \<Rightarrow> 'j rule \<Rightarrow> 'j rule" where "rule_custom g f = f\<lparr>ru_custom := Some g\<rparr>"

section \<open>Checking\<close>

text \<open>The complaints of the single checks about a value of the right type.\<close>

definition check_email :: "'j json_api \<Rightarrow> 'j rule \<Rightarrow> 'j \<Rightarrow> string list" where
  "check_email J f v =
     (if ru_email f \<and> (case js_as_str J v of None \<Rightarrow> True | Some s \<Rightarrow> \<not> looks_like_email s)
      then [''must be a valid email''] else [])"

definition check_range :: "'j json_api \<Rightarrow> 'j rule \<Rightarrow> 'j \<Rightarrow> string list" where
  "check_range J f v =
     (case magnitude J v of (m, is_count) \<Rightarrow>
        (case ru_min f of None \<Rightarrow> [] | Some lo \<Rightarrow> if m < lo then [if is_count then ''is too short'' else ''is too small''] else [])
        @ (case ru_max f of None \<Rightarrow> [] | Some hi \<Rightarrow> if m > hi then [if is_count then ''is too long'' else ''is too large''] else []))"

text \<open>\<open>None\<close>: the serialization of the value throws.\<close>

definition check_allowed :: "'j json_api \<Rightarrow> 'j rule \<Rightarrow> 'j \<Rightarrow> string list option" where
  "check_allowed J f v =
     (if ru_allowed f = [] then Some []
      else (case (case js_as_str J v of Some s \<Rightarrow> Some s | None \<Rightarrow> js_dump J v) of
              None \<Rightarrow> None
            | Some s \<Rightarrow> Some (if s \<in> set (ru_allowed f) then [] else [''is not an allowed value''])))"

definition check_pattern :: "'j json_api \<Rightarrow> (string \<Rightarrow> string \<Rightarrow> bool option) \<Rightarrow> 'j rule \<Rightarrow> 'j \<Rightarrow> string list" where
  "check_pattern J rx f v =
     (case (ru_pattern f, js_as_str J v) of
        (Some p, Some s) \<Rightarrow>
          (case rx p s of
             None \<Rightarrow> [''has an invalid validation pattern'']
           | Some ok \<Rightarrow> if ok then [] else [''has an invalid format''])
      | _ \<Rightarrow> [])"

definition check_custom :: "'j rule \<Rightarrow> 'j \<Rightarrow> string list" where
  "check_custom f v =
     (case ru_custom f of None \<Rightarrow> [] | Some g \<Rightarrow> (case g v of None \<Rightarrow> [] | Some msg \<Rightarrow> [msg]))"

definition present_value :: "'j json_api \<Rightarrow> 'j \<Rightarrow> string \<Rightarrow> 'j option" where
  "present_value J doc name =
     (if js_is_object J doc then
        (case js_find J doc name of None \<Rightarrow> None | Some v \<Rightarrow> if js_is_null J v then None else Some v)
      else None)"

definition check_field :: "'j json_api \<Rightarrow> (string \<Rightarrow> string \<Rightarrow> bool option) \<Rightarrow> 'j \<Rightarrow> 'j rule \<Rightarrow> string list option" where
  "check_field J rx doc f =
     (case present_value J doc (ru_name f) of
        None \<Rightarrow> Some (if ru_required f then [''is required''] else [])
      | Some v \<Rightarrow>
          if ru_type f \<noteq> TAny \<and> \<not> type_matches J (ru_type f) v then Some [''must be '' @ type_name (ru_type f)]
          else map_option (\<lambda>al. check_email J f v @ check_range J f v @ al @ check_pattern J rx f v @ check_custom f v)
                 (check_allowed J f v))"

text \<open>The errors, with the field they are about, in the order of the schema.\<close>

fun validate :: "'j json_api \<Rightarrow> (string \<Rightarrow> string \<Rightarrow> bool option) \<Rightarrow> 'j \<Rightarrow> 'j rule list \<Rightarrow> (string \<times> string) list option" where
  "validate J rx doc [] = Some []"
| "validate J rx doc (f # fs) =
     (case check_field J rx doc f of
        None \<Rightarrow> None
      | Some ms \<Rightarrow> map_option (\<lambda>es. map (Pair (ru_name f)) ms @ es) (validate J rx doc fs))"

definition first_message :: "(string \<times> string) list \<Rightarrow> string" where
  "first_message errors = (case errors of [] \<Rightarrow> [] | e # es \<Rightarrow> snd e)"

text \<open>\<open>errors_json\<close>: the messages of each field, collected; \<open>None\<close> if the library throws.\<close>

definition add_error :: "'j json_api \<Rightarrow> string \<times> string \<Rightarrow> 'j \<Rightarrow> 'j option" where
  "add_error J e acc =
     (case (case js_find J acc (fst e) of None \<Rightarrow> Some [] | Some a \<Rightarrow> js_elems J a) of
        None \<Rightarrow> None
      | Some ms \<Rightarrow> js_put J acc (fst e) (js_array J (ms @ [js_of_str J (snd e)])))"

fun add_errors :: "'j json_api \<Rightarrow> (string \<times> string) list \<Rightarrow> 'j \<Rightarrow> 'j option" where
  "add_errors J [] acc = Some acc"
| "add_errors J (e # es) acc = (case add_error J e acc of None \<Rightarrow> None | Some f \<Rightarrow> add_errors J es f)"

definition errors_json :: "'j json_api \<Rightarrow> (string \<times> string) list \<Rightarrow> 'j option" where
  "errors_json J errors =
     (case add_errors J errors (js_object J) of
        None \<Rightarrow> None
      | Some acc \<Rightarrow>
          (case js_put J (js_object J) ''error'' (js_of_str J ''validation failed'') of
             None \<Rightarrow> None
           | Some j \<Rightarrow> js_put J j ''errors'' acc))"

section \<open>What a validated document is\<close>

text \<open>The declarative reading of one rule.\<close>

definition field_valid :: "'j json_api \<Rightarrow> (string \<Rightarrow> string \<Rightarrow> bool option) \<Rightarrow> 'j \<Rightarrow> 'j rule \<Rightarrow> bool" where
  "field_valid J rx doc f \<longleftrightarrow>
     (case present_value J doc (ru_name f) of
        None \<Rightarrow> \<not> ru_required f
      | Some v \<Rightarrow>
          type_matches J (ru_type f) v \<and>
          (ru_email f \<longrightarrow> (\<exists>s. js_as_str J v = Some s \<and> looks_like_email s)) \<and>
          (\<forall>lo. ru_min f = Some lo \<longrightarrow> lo \<le> fst (magnitude J v)) \<and>
          (\<forall>hi. ru_max f = Some hi \<longrightarrow> fst (magnitude J v) \<le> hi) \<and>
          (ru_allowed f \<noteq> [] \<longrightarrow> (\<exists>s \<in> set (ru_allowed f). js_as_str J v = Some s \<or> js_as_str J v = None \<and> js_dump J v = Some s)) \<and>
          (\<forall>p s. ru_pattern f = Some p \<longrightarrow> js_as_str J v = Some s \<longrightarrow> rx p s = Some True) \<and>
          (\<forall>g. ru_custom f = Some g \<longrightarrow> g v = None))"

lemma check_email_ok: "check_email J f v = [] \<longleftrightarrow> (ru_email f \<longrightarrow> (\<exists>s. js_as_str J v = Some s \<and> looks_like_email s))"
  by (simp add: check_email_def split: option.split)

lemma check_range_ok:
  "check_range J f v = [] \<longleftrightarrow>
    (\<forall>lo. ru_min f = Some lo \<longrightarrow> lo \<le> fst (magnitude J v)) \<and> (\<forall>hi. ru_max f = Some hi \<longrightarrow> fst (magnitude J v) \<le> hi)"
  by (auto simp: check_range_def not_less split: prod.split option.split)

lemma check_pattern_ok:
  "check_pattern J rx f v = [] \<longleftrightarrow> (\<forall>p s. ru_pattern f = Some p \<longrightarrow> js_as_str J v = Some s \<longrightarrow> rx p s = Some True)"
  by (simp add: check_pattern_def split: option.split)

lemma check_custom_ok: "check_custom f v = [] \<longleftrightarrow> (\<forall>g. ru_custom f = Some g \<longrightarrow> g v = None)"
  by (simp add: check_custom_def split: option.split)

lemma check_allowed_ok:
  "check_allowed J f v = Some al \<Longrightarrow>
   al = [] \<longleftrightarrow>
    (ru_allowed f \<noteq> [] \<longrightarrow> (\<exists>s \<in> set (ru_allowed f). js_as_str J v = Some s \<or> js_as_str J v = None \<and> js_dump J v = Some s))"
  by (auto simp: check_allowed_def split: if_splits option.splits)

lemma check_field_ok:
  assumes "check_field J rx doc f = Some ms"
  shows "ms = [] \<longleftrightarrow> field_valid J rx doc f"
proof (cases "present_value J doc (ru_name f)")
  case None
  then show ?thesis using assms by (auto simp: check_field_def field_valid_def)
next
  case (Some v)
  show ?thesis
  proof (cases "type_matches J (ru_type f) v")
    case False
    then have "ru_type f \<noteq> TAny" by auto
    then show ?thesis using Some False assms by (auto simp: check_field_def field_valid_def)
  next
    case True
    then obtain al where al: "check_allowed J f v = Some al"
      "ms = check_email J f v @ check_range J f v @ al @ check_pattern J rx f v @ check_custom f v"
      using Some assms by (auto simp: check_field_def)
    then have "ms = [] \<longleftrightarrow> check_email J f v = [] \<and> check_range J f v = [] \<and> al = [] \<and> check_pattern J rx f v = [] \<and> check_custom f v = []"
      by simp
    then show ?thesis
      unfolding check_email_ok check_range_ok check_pattern_ok check_custom_ok check_allowed_ok [OF al(1)] field_valid_def
      using Some True by auto
  qed
qed

lemma validate_errors:
  "validate J rx doc fs = Some es \<Longrightarrow>
   set es = {(ru_name f, m) |f m ms. f \<in> set fs \<and> check_field J rx doc f = Some ms \<and> m \<in> set ms} \<and>
   (\<forall>f \<in> set fs. check_field J rx doc f \<noteq> None)"
proof (induction fs arbitrary: es)
  case Nil
  then show ?case by simp
next
  case (Cons f fs)
  obtain ms es' where m: "check_field J rx doc f = Some ms" "validate J rx doc fs = Some es'" "es = map (Pair (ru_name f)) ms @ es'"
    using Cons.prems by (auto split: option.splits)
  show ?case using Cons.IH [OF m(2)] m(1,3) by auto
qed

text \<open>C40: validation means what the rules say. The engine returns no error exactly when every rule
  holds of the document: a required field is there and not null, and a field that is there has the
  declared type, lies within its bounds, is one of the allowed values, matches its pattern and
  satisfies its predicate; every error names a field of the schema whose rule fails, and every rule
  that fails is reported.\<close>

theorem validate_sound_complete:
  assumes "validate J rx doc fs = Some es"
  shows "(es = [] \<longleftrightarrow> (\<forall>f \<in> set fs. field_valid J rx doc f)) \<and>
    fst ` set es = ru_name ` {f \<in> set fs. \<not> field_valid J rx doc f}"
proof -
  note e = validate_errors [OF assms]
  have ok: "f \<in> set fs \<Longrightarrow> check_field J rx doc f = Some ms \<Longrightarrow> field_valid J rx doc f \<longleftrightarrow> ms = []" for f ms
    using check_field_ok [of J rx doc f ms] by simp
  have "fst ` set es = ru_name ` {f \<in> set fs. \<not> field_valid J rx doc f}"
  proof (rule set_eqI, rule iffI)
    fix n
    assume "n \<in> fst ` set es"
    then obtain f m ms where "n = ru_name f" "f \<in> set fs" "check_field J rx doc f = Some ms" "m \<in> set ms" using e by auto
    then show "n \<in> ru_name ` {f \<in> set fs. \<not> field_valid J rx doc f}" using ok by fastforce
  next
    fix n
    assume "n \<in> ru_name ` {f \<in> set fs. \<not> field_valid J rx doc f}"
    then obtain f where f: "n = ru_name f" "f \<in> set fs" "\<not> field_valid J rx doc f" by auto
    obtain ms where ms: "check_field J rx doc f = Some ms" using e f(2) by fastforce
    then obtain m where "m \<in> set ms" using ok f by (cases ms) auto
    then have "(n, m) \<in> set es" using e f ms by auto
    then show "n \<in> fst ` set es" by force
  qed
  moreover have "es = [] \<longleftrightarrow> fst ` set es = {}" by simp
  ultimately show ?thesis by auto
qed

theorem validate_sound_complete_witness:
  "\<exists>es. validate (doc_json []) (\<lambda>p s. Some True) (DObj [(''age'', DInt 200)])
      [rule_required (rule_field ''name''), rule_max 150 (rule_type TInteger (rule_field ''age''))] = Some es \<and>
    fst ` set es = {''name'', ''age''}"
proof -
  let ?J = "doc_json []" and ?d = "DObj [(''age'', DInt 200)]"
  let ?fs = "[rule_required (rule_field ''name''), rule_max 150 (rule_type TInteger (rule_field ''age''))] :: doc rule list"
  have "validate ?J (\<lambda>p s. Some True) ?d ?fs \<noteq> None"
    by (simp add: check_field_def check_allowed_def rule_required_def rule_max_def rule_type_def rule_field_def present_value_def)
  then obtain es where es: "validate ?J (\<lambda>p s. Some True) ?d ?fs = Some es" by blast
  have "\<not> field_valid ?J (\<lambda>p s. Some True) ?d (rule_required (rule_field ''name''))"
    by (simp add: field_valid_def rule_required_def rule_field_def present_value_def)
  moreover have "\<not> field_valid ?J (\<lambda>p s. Some True) ?d (rule_max 150 (rule_type TInteger (rule_field ''age'')))"
    by (simp add: field_valid_def rule_max_def rule_type_def rule_field_def present_value_def magnitude_def)
  ultimately have all: "{f \<in> set ?fs. \<not> field_valid ?J (\<lambda>p s. Some True) ?d f} = set ?fs" by auto
  have "fst ` set es = ru_name ` set ?fs"
    using conjunct2 [OF validate_sound_complete [OF es]] unfolding all .
  then show ?thesis using es by (simp add: rule_required_def rule_max_def rule_type_def rule_field_def)
qed

section \<open>Paths, observed\<close>

text \<open>The index of a segment wraps: two to the power of 64 is element 0. Empty segments are skipped.\<close>

lemma index_wraps: "index_of ''18446744073709551616'' = 0"
  by (simp add: index_of_def)

lemma empty_segments_skipped: "json_find J doc ''a..b'' = json_find J doc ''a.b''"
proof -
  have "split_view ''a..b'' CHR ''.'' = split_view ''a.b'' CHR ''.''" by code_simp
  then show ?thesis by (simp add: json_find_def)
qed

text \<open>A path of plain segments through objects reaches the member it names.\<close>

lemma find_segs_append: "find_segs J (xs @ ys) j = (case find_segs J xs j of None \<Rightarrow> None | Some k \<Rightarrow> find_segs J ys k)"
  by (induction xs arbitrary: j) (auto split: option.splits)

lemma json_find_member:
  assumes "p \<noteq> []" "CHR ''.'' \<notin> set k" "k \<noteq> []" "json_find J doc p = Some obj" "js_is_object J obj"
  shows "json_find J doc (p @ CHR ''.'' # k) = js_find J obj k"
proof -
  have "Utils.fields CHR ''.'' (p @ CHR ''.'' # k) = Utils.fields CHR ''.'' p @ [k]" for p
  proof (induction p)
    case Nil
    show ?case using assms(2) by (simp add: fields_no_sep)
  next
    case (Cons c p)
    then show ?case by (cases "Utils.fields CHR ''.'' p") auto
  qed
  then have "split_view (p @ CHR ''.'' # k) CHR ''.'' = split_view p CHR ''.'' @ [k]"
    using assms(3) by (simp add: split_view_fields)
  then show ?thesis using assms(1,3-5) by (simp add: json_find_def find_segs_append find_seg_def split: option.split)
qed

end
