(* ===== verification/Logging.thy ===== *)
theory Logging
  imports Cors
begin

text \<open>
  Logging: \<open>include/socketify/logging.h\<close> and \<open>src/logging.cpp\<close>. The global threshold and sink are a
  state; a record is what a sink receives; what the default sink prints of it is in
  \<open>Timestamps\<close>. The clocks are fields of the world, read where the code
  reads them.
\<close>

section \<open>Levels\<close>

datatype log_level = LTrace | LDebug | LInfo | LWarn | LError | LFatal | LOff

fun level_num :: "log_level \<Rightarrow> nat" where
  "level_num LTrace = 0" | "level_num LDebug = 1" | "level_num LInfo = 2" | "level_num LWarn = 3"
| "level_num LError = 4" | "level_num LFatal = 5" | "level_num LOff = 6"

lemma level_num_inject: "level_num a = level_num b \<longleftrightarrow> a = b"
  by (cases a; cases b) simp_all

instantiation log_level :: linorder
begin

definition "a \<le> b \<longleftrightarrow> level_num a \<le> level_num b"
definition "a < b \<longleftrightarrow> level_num a < level_num b"

instance
  by standard (auto simp: less_eq_log_level_def less_log_level_def level_num_inject)

end

fun level_tag :: "log_level \<Rightarrow> string" where
  "level_tag LTrace = ''TRACE''" | "level_tag LDebug = ''DEBUG''" | "level_tag LInfo = ''INFO ''"
| "level_tag LWarn = ''WARN ''" | "level_tag LError = ''ERROR''" | "level_tag LFatal = ''FATAL''"
| "level_tag LOff = ''?????''"

section \<open>The logger\<close>

text \<open>\<open>lg_custom\<close>: a sink is installed; \<open>lg_records\<close>: what the sinks have received, latest last, with
  the sink that received it.\<close>

record logger =
  lg_level :: log_level
  lg_custom :: bool
  lg_records :: "(bool \<times> log_level \<times> string) list"

definition new_logger :: logger where
  "new_logger = \<lparr>lg_level = LInfo, lg_custom = False, lg_records = []\<rparr>"

definition set_level :: "log_level \<Rightarrow> logger \<Rightarrow> logger" where
  "set_level l g = g\<lparr>lg_level := l\<rparr>"

definition set_sink :: "bool \<Rightarrow> logger \<Rightarrow> logger" where
  "set_sink custom g = g\<lparr>lg_custom := custom\<rparr>"

definition log_record :: "log_level \<Rightarrow> string \<Rightarrow> logger \<Rightarrow> logger" where
  "log_record lvl msg g =
     (if lvl < lg_level g \<or> lvl = LOff then g
      else g\<lparr>lg_records := lg_records g @ [(lg_custom g, lvl, msg)]\<rparr>)"

text \<open>\<open>fmt_detail::format\<close>: the remaining pattern and the rendered arguments.\<close>

fun format_pattern :: "string \<Rightarrow> string list \<Rightarrow> string" where
  "format_pattern pattern [] = pattern"
| "format_pattern pattern (a # as) =
     (case find_sub ''{}'' pattern of
        None \<Rightarrow> pattern
      | Some brace \<Rightarrow> take brace pattern @ a @ format_pattern (drop (brace + 2) pattern) as)"

text \<open>\<open>trace\<close>, \<open>debug\<close>, \<open>info\<close>, \<open>warn\<close>, \<open>error\<close>, \<open>fatal\<close>: the same body at their level.\<close>

definition log_fmt :: "log_level \<Rightarrow> string \<Rightarrow> string list \<Rightarrow> logger \<Rightarrow> logger" where
  "log_fmt lvl pattern as g = (if lg_level g \<le> lvl then log_record lvl (format_pattern pattern as) g else g)"

section \<open>The request log\<close>

record log_world =
  lx_logger :: logger
  lx_steady :: int
  lx_wall :: int

definition log_client_ip :: "request \<Rightarrow> bool \<Rightarrow> string" where
  "log_client_ip rq trust_proxy =
     (let xff = req_header rq ''X-Forwarded-For'';
          hop = (case find_char CHR '','' xff of None \<Rightarrow> xff | Some comma \<Rightarrow> take comma xff);
          hop = trim_view hop
      in if trust_proxy \<and> xff \<noteq> [] \<and> hop \<noteq> [] then hop
         else if rq_remote_ip rq = [] then ''-'' else rq_remote_ip rq)"

definition status_level :: "nat \<Rightarrow> log_level" where
  "status_level status = (if status \<ge> 500 then LError else if status \<ge> 400 then LWarn else LInfo)"

definition debug_extras :: "log_level \<Rightarrow> request \<Rightarrow> string" where
  "debug_extras threshold rq =
     (if threshold > LDebug then []
      else
        (let rid = req_header rq ''X-Request-Id''; ua = req_header rq ''User-Agent''
         in (if rid \<noteq> [] then '' rid='' @ rid else [])
            @ (if ua \<noteq> [] then '' ua='' @ (if length ua \<le> 40 then ua else take 40 ua @ ''...'') else [])))"

definition request_line :: "bool \<Rightarrow> bool \<Rightarrow> int \<Rightarrow> int \<Rightarrow> request \<Rightarrow> response \<Rightarrow> string" where
  "request_line common trust_proxy wall us rq rs =
     (let status = (if rs_status rs \<noteq> 0 then rs_status rs else 200);
          bytes = (if rs_kind rs = File then rs_file_length rs else length (rs_body rs));
          ip = log_client_ip rq trust_proxy
      in if common then
           ip @ '' - - ['' @ http_date wall @ ''] '' @ [DQ] @ method_to_string (rq_method rq) @ '' ''
           @ (if rq_target rq = [] then rq_path rq else rq_target rq) @ '' ''
           @ (if rq_version rq = [] then ''HTTP/1.1'' else rq_version rq) @ [DQ] @ '' ''
           @ show_nat status @ '' '' @ show_nat bytes
         else
           ip @ '' '' @ method_to_string (rq_method rq) @ '' '' @ rq_path rq @ '' '' @ show_nat status @ '' ''
           @ show_int (us div 1000) @ ''.'' @ show_int (us mod 1000 div 100) @ ''ms '' @ show_nat bytes @ ''B'')"

text \<open>The middleware: it runs the rest first; an exception passes through and nothing is logged. The
  monotonic clock does not go back, so the quotient of the elapsed time is the truncating one.\<close>

definition log_request :: "string \<Rightarrow> bool \<Rightarrow> 'x log_world_scheme ctx mware" where
  "log_request fmt trust_proxy w0 =
     Next w0 (\<lambda>w e.
       case e of
         Some x \<Rightarrow> Throw x w
       | None \<Rightarrow>
           (let us = (lx_steady (cx_ext w) - lx_steady (cx_ext w0)) div 1000;
                status = (if rs_status (cx_res w) \<noteq> 0 then rs_status (cx_res w) else 200);
                g = lx_logger (cx_ext w);
                line = request_line (fmt = ''common'') trust_proxy (lx_wall (cx_ext w)) us (cx_req w) (cx_res w)
                       @ debug_extras (lg_level g) (cx_req w)
            in Ret (w\<lparr>cx_ext := (cx_ext w)\<lparr>lx_logger := log_record (status_level status) line g\<rparr>\<rparr>)))"

section \<open>Lemmas\<close>

text \<open>Nothing below the threshold, and nothing at all when logging is off, reaches a sink.\<close>

definition records_ok :: "logger \<Rightarrow> bool" where
  "records_ok g \<longleftrightarrow> (\<forall>(c, l, m) \<in> set (lg_records g). l \<noteq> LOff)"

lemma log_record_kept: "records_ok g \<Longrightarrow> records_ok (log_record l m g)"
  by (auto simp: records_ok_def log_record_def)

lemma log_fmt_record: "log_fmt l p as g = log_record l (format_pattern p as) g"
  by (auto simp: log_fmt_def log_record_def not_le)

lemma log_off_silent: "lg_level g = LOff \<Longrightarrow> log_record l m g = g"
  by (cases l) (simp_all add: log_record_def less_log_level_def)

text \<open>Arguments stand for the placeholders, in order, and are not read as placeholders themselves.\<close>

lemma format_in_order:
  "\<forall>s \<in> set texts. CHR ''{'' \<notin> set s \<Longrightarrow> length texts = length as \<Longrightarrow>
   format_pattern (concat (map (\<lambda>s. s @ ''{}'') texts) @ t) as = concat (map2 (@) texts as) @ t"
proof (induction texts as rule: list_induct2')
  case (4 s ss a as)
  have "find_sub ''{}'' (s @ ''{}'' @ u) = Some (length s)" for u
    using find_sub_skip [of "CHR ''{''" s "''}''" "''{}'' @ u"] 4(2) by simp
  moreover have "drop (length s + 2) (s @ ''{}'' @ u) = u" for u by simp
  ultimately show ?case using 4 by simp
qed auto

text \<open>Exactly one record for a request that was answered, at the level of its status; none on an exception.\<close>

lemma log_request_records:
  assumes "log_request fmt tp w0 = Next w0 k" "lg_level (lx_logger (cx_ext w)) \<le> status_level (if rs_status (cx_res w) \<noteq> 0 then rs_status (cx_res w) else 200)"
  shows "\<exists>w' line. k w None = Ret w' \<and> cx_res w' = cx_res w \<and>
      lg_records (lx_logger (cx_ext w')) = lg_records (lx_logger (cx_ext w)) @
        [(lg_custom (lx_logger (cx_ext w)), status_level (if rs_status (cx_res w) \<noteq> 0 then rs_status (cx_res w) else 200), line)]"
    "k w (Some x) = Throw x w"
proof -
  have "status_level n \<noteq> LOff" for n by (simp add: status_level_def)
  then show "\<exists>w' line. k w None = Ret w' \<and> cx_res w' = cx_res w \<and>
      lg_records (lx_logger (cx_ext w')) = lg_records (lx_logger (cx_ext w)) @
        [(lg_custom (lx_logger (cx_ext w)), status_level (if rs_status (cx_res w) \<noteq> 0 then rs_status (cx_res w) else 200), line)]"
    using assms unfolding log_request_def Let_def log_record_def by fastforce
  show "k w (Some x) = Throw x w" using assms(1) by (auto simp: log_request_def)
qed

text \<open>A line feed in the decoded path starts a line of its own in the log.\<close>

lemma log_injection:
  "request_line False False 0 0 (empty_request\<lparr>rq_method := GET, rq_path := ''/a'' @ [LF] @ ''b'', rq_remote_ip := ''x''\<rparr>) new_response =
     ''x GET /a'' @ [LF] @ ''b 200 0.0ms 0B''"
proof -
  have "show_nat 200 = ''200''" "show_int 0 = ''0''" "show_nat 0 = ''0''" by code_simp+
  then show ?thesis
    by (simp add: request_line_def log_client_ip_def empty_request_def new_response_def Let_def)
qed

end
