(* ===== verification/EventLoop.thy ===== *)
theory EventLoop
  imports Server
begin

text \<open>
  The event loop of a worker: \<open>include/socketify/detail/loop.h\<close> and \<open>src/detail/loop_epoll.cpp\<close>. The interest
  set of epoll, the counter of the wakeup eventfd and the queue of posted closures. Other threads run
  \<open>post\<close> concurrently: its two halves (append under the mutex, write to the eventfd) are separate steps, and so are
  \<open>wait\<close> and \<open>run_posted\<close> on the loop's side.
\<close>

section \<open>Definitions\<close>

text \<open>\<open>data\<close> of a registration; \<open>None\<close> (the null pointer) marks the wakeup channel.\<close>

record interest =
  in_read :: bool
  in_write :: bool
  in_data :: "nat option"

record 'f event_loop =
  el_interest :: "(nat \<times> interest) list"
  el_wake_fd :: nat
  el_wake :: nat
  el_posted :: "'f list"

definition new_loop :: "nat \<Rightarrow> 'f event_loop" where
  "new_loop wake_fd =
     \<lparr>el_interest = [(wake_fd, \<lparr>in_read = True, in_write = False, in_data = None\<rparr>)], el_wake_fd = wake_fd,
      el_wake = 0, el_posted = []\<rparr>"

text \<open>\<open>make_events_\<close>: \<open>EPOLLRDHUP\<close> is always asked for.\<close>

definition make_events :: "bool \<Rightarrow> bool \<Rightarrow> epoll_bits" where
  "make_events read write = \<lparr>ep_in = read, ep_out = write, ep_err = False, ep_hup = False, ep_rdhup = True\<rparr>"

text \<open>\<open>epoll_ctl\<close> refuses to add a descriptor twice and to change or delete one that is not there.\<close>

definition loop_add :: "nat \<Rightarrow> bool \<Rightarrow> bool \<Rightarrow> nat option \<Rightarrow> 'f event_loop \<Rightarrow> bool \<times> 'f event_loop" where
  "loop_add fd read write data l =
     (if kv_get (=) (el_interest l) fd \<noteq> None then (False, l)
      else (True, l\<lparr>el_interest := kv_set (=) fd \<lparr>in_read = read, in_write = write, in_data = data\<rparr> (el_interest l)\<rparr>))"

definition loop_mod :: "nat \<Rightarrow> bool \<Rightarrow> bool \<Rightarrow> nat option \<Rightarrow> 'f event_loop \<Rightarrow> bool \<times> 'f event_loop" where
  "loop_mod fd read write data l =
     (if kv_get (=) (el_interest l) fd = None then (False, l)
      else (True, l\<lparr>el_interest := kv_set (=) fd \<lparr>in_read = read, in_write = write, in_data = data\<rparr> (el_interest l)\<rparr>))"

definition loop_del :: "nat \<Rightarrow> 'f event_loop \<Rightarrow> bool \<times> 'f event_loop" where
  "loop_del fd l =
     (if kv_get (=) (el_interest l) fd = None then (False, l)
      else (True, l\<lparr>el_interest := kv_del (=) fd (el_interest l)\<rparr>))"

text \<open>What \<open>wait\<close> does with epoll's answer: at most 256 registrations and their bits, \<open>Inl\<close> if the call failed
  (interrupted or not). The result is the return value, the events, the loop.\<close>

definition loop_events :: "(nat option \<times> epoll_bits) list \<Rightarrow> (nat \<times> loop_event) list" where
  "loop_events evs = List.map_filter (\<lambda>(d, bits). map_option (\<lambda>a. (a, loop_event_of bits)) d) evs"

definition loop_wait :: "bool + (nat option \<times> epoll_bits) list \<Rightarrow> 'f event_loop \<Rightarrow> int \<times> (nat \<times> loop_event) list \<times> 'f event_loop" where
  "loop_wait answer l =
     (case answer of
        Inl interrupted \<Rightarrow> (if interrupted then 0 else -1, [], l)
      | Inr evs \<Rightarrow>
          (let out = loop_events evs;
               l = (if list_ex (\<lambda>(d, _). d = None) evs then l\<lparr>el_wake := 0\<rparr> else l)
           in (int (length out), out, l)))"

text \<open>The write of 1 fails, without effect, when the counter is full.\<close>

definition wakeup :: "'f event_loop \<Rightarrow> 'f event_loop" where
  "wakeup l = (if el_wake l < 2 ^ 64 - 2 then l\<lparr>el_wake := el_wake l + 1\<rparr> else l)"

definition push_posted :: "'f \<Rightarrow> 'f event_loop \<Rightarrow> 'f event_loop" where
  "push_posted f l = l\<lparr>el_posted := el_posted l @ [f]\<rparr>"

definition post :: "'f \<Rightarrow> 'f event_loop \<Rightarrow> 'f event_loop" where
  "post f l = wakeup (push_posted f l)"

text \<open>\<open>run_posted\<close> swaps the queue out; the closures to run are returned.\<close>

definition take_posted :: "'f event_loop \<Rightarrow> 'f list \<times> 'f event_loop" where
  "take_posted l = (el_posted l, l\<lparr>el_posted := []\<rparr>)"

section \<open>The loop and its posters, interleaved\<close>

text \<open>Where the loop's thread is: before \<open>wait\<close>, or between \<open>wait\<close> and \<open>run_posted\<close>. \<open>il_between\<close> counts the posters that
  have appended but not yet written to the eventfd; \<open>il_ran\<close> and \<open>il_all\<close> record what has been run and posted.\<close>

datatype loop_pc = AtWait | AtRun

record 'f interleaved =
  il_loop :: "'f event_loop"
  il_pc :: loop_pc
  il_between :: nat
  il_ran :: "'f list"
  il_all :: "'f list"

text \<open>The kernel reports the wakeup channel only when the counter is positive; it may leave it out (other
  descriptors filled the answer, or the time is up).\<close>

inductive loop_step :: "'f interleaved \<Rightarrow> 'f interleaved \<Rightarrow> bool" where
  push: "loop_step s (s\<lparr>il_loop := push_posted f (il_loop s), il_between := il_between s + 1, il_all := il_all s @ [f]\<rparr>)"
| wake: "il_between s > 0 \<Longrightarrow> loop_step s (s\<lparr>il_loop := wakeup (il_loop s), il_between := il_between s - 1\<rparr>)"
| wait: "il_pc s = AtWait \<Longrightarrow> (\<forall>(d, _) \<in> set evs. d = None \<longrightarrow> el_wake (il_loop s) > 0) \<Longrightarrow>
    loop_wait (Inr evs) (il_loop s) = (n, out, l) \<Longrightarrow> loop_step s (s\<lparr>il_loop := l, il_pc := AtRun\<rparr>)"
| run: "il_pc s = AtRun \<Longrightarrow> take_posted (il_loop s) = (fs, l) \<Longrightarrow>
    loop_step s (s\<lparr>il_loop := l, il_pc := AtWait, il_ran := il_ran s @ fs\<rparr>)"

inductive loop_reachable :: "nat \<Rightarrow> 'f interleaved \<Rightarrow> bool" for fd where
  start: "loop_reachable fd \<lparr>il_loop = new_loop fd, il_pc = AtWait, il_between = 0, il_ran = [], il_all = []\<rparr>"
| step: "loop_reachable fd s \<Longrightarrow> loop_step s t \<Longrightarrow> loop_reachable fd t"

inductive_cases loop_stepE: "loop_step s t"

definition no_lost_wakeup :: "'f interleaved \<Rightarrow> bool" where
  "no_lost_wakeup s \<longleftrightarrow>
     il_all s = il_ran s @ el_posted (il_loop s) \<and>
     (el_posted (il_loop s) \<noteq> [] \<longrightarrow> el_wake (il_loop s) > 0 \<or> il_between s > 0 \<or> il_pc s = AtRun)"

lemma wakeup_fields [simp]:
  "el_posted (wakeup l) = el_posted l" "el_wake (wakeup l) > 0" "el_interest (wakeup l) = el_interest l"
  by (simp_all add: wakeup_def)

lemma push_fields [simp]:
  "el_posted (push_posted f l) = el_posted l @ [f]" "el_wake (push_posted f l) = el_wake l"
  by (simp_all add: push_posted_def)

lemma wait_posted: "loop_wait a l = (n, out, l') \<Longrightarrow> el_posted l' = el_posted l"
  by (auto simp: loop_wait_def Let_def split: sum.splits if_splits)

lemma loop_step_keeps: "loop_step s t \<Longrightarrow> no_lost_wakeup s \<Longrightarrow> no_lost_wakeup t"
proof (induction rule: loop_step.induct)
  case (push s f)
  then show ?case by (simp add: no_lost_wakeup_def)
next
  case (wake s)
  then show ?case by (simp add: no_lost_wakeup_def)
next
  case (wait s evs n out l)
  then show ?case using wait_posted [OF wait(3)] by (simp add: no_lost_wakeup_def)
next
  case (run s fs l)
  then show ?case by (auto simp: no_lost_wakeup_def take_posted_def)
qed

lemma reachable_no_lost: "loop_reachable fd s \<Longrightarrow> no_lost_wakeup s"
  by (induction rule: loop_reachable.induct) (simp add: no_lost_wakeup_def new_loop_def, rule loop_step_keeps)

text \<open>C21: no wakeup is lost, under every interleaving of the loop with any number of posting threads: whatever was
  posted runs exactly once and in the order it was posted, and the loop never goes to sleep on a queue that is not empty
  (when no poster is between its two steps, the eventfd is readable, so \<open>wait\<close> returns at once).\<close>

theorem posted_tasks_run:
  assumes "loop_reachable fd s"
  shows "il_all s = il_ran s @ el_posted (il_loop s) \<and>
    (il_pc s = AtWait \<and> il_between s = 0 \<and> el_wake (il_loop s) = 0 \<longrightarrow> il_ran s = il_all s)"
  using reachable_no_lost [OF assms] by (auto simp: no_lost_wakeup_def)

text \<open>At the run that posts while the loop is waiting, wakes it up, and runs what was posted.\<close>

definition demo_run :: "char interleaved" where
  "demo_run = \<lparr>il_loop = \<lparr>el_interest = [(3, \<lparr>in_read = True, in_write = False, in_data = None\<rparr>)], el_wake_fd = 3,
     el_wake = 0, el_posted = []\<rparr>, il_pc = AtWait, il_between = 0, il_ran = ''a'', il_all = ''a''\<rparr>"

lemma demo_run_reachable: "loop_reachable 3 demo_run"
proof -
  let ?s0 = "\<lparr>il_loop = new_loop 3, il_pc = AtWait, il_between = 0, il_ran = [], il_all = []\<rparr> :: char interleaved"
  let ?s1 = "?s0\<lparr>il_loop := push_posted CHR ''a'' (il_loop ?s0), il_between := il_between ?s0 + 1, il_all := il_all ?s0 @ ''a''\<rparr>"
  let ?s2 = "?s1\<lparr>il_loop := wakeup (il_loop ?s1), il_between := il_between ?s1 - 1\<rparr>"
  let ?evs = "[(None, make_events True False)]"
  let ?l = "snd (snd (loop_wait (Inr ?evs) (il_loop ?s2)))"
  let ?s3 = "?s2\<lparr>il_loop := ?l, il_pc := AtRun\<rparr>"
  let ?s4 = "?s3\<lparr>il_loop := snd (take_posted ?l), il_pc := AtWait, il_ran := il_ran ?s3 @ fst (take_posted ?l)\<rparr>"
  have "loop_reachable 3 ?s1" by (rule loop_reachable.step [OF loop_reachable.start loop_step.push])
  then have "loop_reachable 3 ?s2" by (rule loop_reachable.step) (rule loop_step.wake, simp)
  then have "loop_reachable 3 ?s3" by (rule loop_reachable.step) (rule loop_step.wait [where evs = ?evs and n = 0 and out = "[]"],
      simp_all add: loop_wait_def loop_events_def map_filter_simps)
  then have "loop_reachable 3 ?s4" by (rule loop_reachable.step) (rule loop_step.run, simp_all)
  moreover have "?s4 = demo_run"
    by (simp add: demo_run_def new_loop_def push_posted_def wakeup_def loop_wait_def take_posted_def Let_def)
  ultimately show ?thesis by simp
qed

theorem posted_tasks_run_witness: "il_ran demo_run = il_all demo_run"
proof -
  have "il_pc demo_run = AtWait \<and> il_between demo_run = 0 \<and> el_wake (il_loop demo_run) = 0" by (simp add: demo_run_def)
  then show ?thesis using posted_tasks_run [OF demo_run_reachable] by blast
qed

end
