(* ===== verification/Worker.thy ===== *)
theory Worker
  imports ServerLaws EventLoop
begin

text \<open>
  A worker of \<open>src/server.cpp\<close> as a whole: the map of its connections, the turn of its loop (posted closures,
  events, deadlines), shutdown. The connections are those of \<open>Server\<close>, each found by the address of its object; addresses
  are handed out by the allocator (an argument: any address that is not in use, also one that was in use before). The token
  that a posted closure carries is the serial number of its connection.
\<close>

section \<open>Definitions\<close>

record wentry =
  we_serial :: nat
  we_conn :: conn

datatype wtask = SseTask nat | PulseTask nat

record 'u worker =
  wk_conns :: "(nat \<times> wentry) list"
  wk_world :: "'u world"
  wk_next :: nat
  wk_posted :: "wtask list"
  wk_stop :: bool
  wk_listening :: bool
  wk_running :: bool
  wk_last_sweep :: nat

record wk_cfg =
  wc_max_header :: nat
  wc_max_body :: nat
  wc_tls :: bool
  wc_alloc :: "nat list \<Rightarrow> nat"

definition new_worker :: "'u world \<Rightarrow> nat \<Rightarrow> 'u worker" where
  "new_worker world now =
     \<lparr>wk_conns = [], wk_world = world, wk_next = 0, wk_posted = [], wk_stop = False, wk_listening = True,
      wk_running = True, wk_last_sweep = now\<rparr>"

text \<open>A handler of \<open>Server\<close>, run on the connection at an address; a closed one leaves the map.\<close>

definition at_conn :: "nat \<Rightarrow> ('u st \<Rightarrow> 'u st) \<Rightarrow> 'u worker \<Rightarrow> 'u worker" where
  "at_conn a f w =
     (case kv_get (=) (wk_conns w) a of
        None \<Rightarrow> w
      | Some e \<Rightarrow>
          (let s = f \<lparr>st_world = wk_world w, st_conn = we_conn e\<rparr>
           in w\<lparr>wk_world := st_world s,
                wk_conns := (if cn_alive (st_conn s) then kv_set (=) a (e\<lparr>we_conn := st_conn s\<rparr>) (wk_conns w)
                             else kv_del (=) a (wk_conns w))\<rparr>))"

text \<open>One accepted socket: its remote address, and whether OpenSSL gave a session for it.\<close>

definition accept_one :: "wk_cfg \<Rightarrow> 'u cfg \<Rightarrow> string \<times> bool \<Rightarrow> 'u worker \<Rightarrow> 'u worker" where
  "accept_one wc cfg acc w =
     (case acc of (ip, session) \<Rightarrow>
        if wc_tls wc \<and> \<not> session then w
        else (let a = wc_alloc wc (map fst (wk_conns w));
                  e = \<lparr>we_serial = wk_next w, we_conn = accept_conn (wc_max_header wc) (wc_max_body wc) ip (wc_tls wc) cfg\<rparr>
              in w\<lparr>wk_conns := kv_set (=) a e (wk_conns w), wk_next := wk_next w + 1\<rparr>))"

definition accept_new :: "wk_cfg \<Rightarrow> 'u cfg \<Rightarrow> (string \<times> bool) list \<Rightarrow> 'u worker \<Rightarrow> 'u worker" where
  "accept_new wc cfg accs w = fold (accept_one wc cfg) accs w"

text \<open>A posted closure: \<open>wt.lock()\<close> succeeds while the connection the token belongs to lives.\<close>

definition run_task :: "'u cfg \<Rightarrow> wtask \<Rightarrow> 'u worker \<Rightarrow> 'u worker" where
  "run_task cfg t w =
     (let (n, f) = (case t of SseTask n \<Rightarrow> (n, posted_sse cfg) | PulseTask n \<Rightarrow> (n, posted_pulse cfg))
      in case List.find (\<lambda>(_, e). we_serial e = n) (wk_conns w) of
           None \<Rightarrow> w
         | Some (a, _) \<Rightarrow> at_conn a f w)"

definition run_posted :: "'u cfg \<Rightarrow> 'u worker \<Rightarrow> 'u worker" where
  "run_posted cfg w = fold (run_task cfg) (wk_posted w) (w\<lparr>wk_posted := []\<rparr>)"

datatype wevent = OnListener "(string \<times> bool) list" | OnConn nat epoll_bits hs_result "rd list"

definition handle_event :: "nat \<Rightarrow> wk_cfg \<Rightarrow> 'u cfg \<Rightarrow> wevent \<Rightarrow> 'u worker \<Rightarrow> 'u worker" where
  "handle_event fuel wc cfg ev w =
     (case ev of
        OnListener accs \<Rightarrow> accept_new wc cfg accs w
      | OnConn a bits hs reads \<Rightarrow> at_conn a (worker_event fuel cfg (loop_event_of bits) hs reads) w)"

definition sweep_deadlines :: "nat \<Rightarrow> 'u cfg \<Rightarrow> 'u worker \<Rightarrow> 'u worker" where
  "sweep_deadlines fuel cfg w =
     (let expired = map fst (filter (\<lambda>(_, e). case cn_deadline (we_conn e) of None \<Rightarrow> False | Some d \<Rightarrow> d \<le> cf_now cfg) (wk_conns w))
      in fold (\<lambda>a. at_conn a (sweep fuel cfg)) expired w)"

definition shutdown :: "'u cfg \<Rightarrow> 'u worker \<Rightarrow> 'u worker" where
  "shutdown cfg w =
     (let w = w\<lparr>wk_listening := False\<rparr>
      in (fold (\<lambda>a. at_conn a (close_conn cfg)) (map fst (wk_conns w)) w)\<lparr>wk_running := False\<rparr>)"

text \<open>One turn of the loop in \<open>run\<close>; \<open>None\<close>: \<open>wait\<close> has failed.\<close>

definition worker_turn :: "nat \<Rightarrow> wk_cfg \<Rightarrow> 'u cfg \<Rightarrow> wevent list option \<Rightarrow> 'u worker \<Rightarrow> 'u worker" where
  "worker_turn fuel wc cfg events w =
     (if \<not> wk_running w then w
      else if wk_stop w then shutdown cfg w
      else case events of
             None \<Rightarrow> shutdown cfg w
           | Some evs \<Rightarrow>
               (let w = fold (handle_event fuel wc cfg) evs (run_posted cfg w)
                in if cf_now cfg - wk_last_sweep w \<ge> 250 then (sweep_deadlines fuel cfg w)\<lparr>wk_last_sweep := cf_now cfg\<rparr>
                   else w))"

definition request_stop :: "'u worker \<Rightarrow> 'u worker" where
  "request_stop w = w\<lparr>wk_stop := True\<rparr>"

section \<open>The invariant\<close>

definition alloc_fresh :: "wk_cfg \<Rightarrow> bool" where
  "alloc_fresh wc \<longleftrightarrow> (\<forall>as. wc_alloc wc as \<notin> set as)"

definition worker_ok :: "'u worker \<Rightarrow> bool" where
  "worker_ok w \<longleftrightarrow>
     kv_wf (=) (wk_conns w) \<and>
     (\<forall>a e. kv_get (=) (wk_conns w) a = Some e \<longrightarrow> cn_alive (we_conn e) \<and> conn_ok (we_conn e) \<and> we_serial e < wk_next w) \<and>
     (\<forall>a b e f. kv_get (=) (wk_conns w) a = Some e \<and> kv_get (=) (wk_conns w) b = Some f \<and> we_serial e = we_serial f \<longrightarrow> a = b) \<and>
     (\<not> wk_running w \<longrightarrow> wk_conns w = [] \<and> \<not> wk_listening w)"

lemma worker_ok_simps [simp]:
  "worker_ok (w\<lparr>wk_last_sweep := n\<rparr>) = worker_ok w" "worker_ok (w\<lparr>wk_posted := ts\<rparr>) = worker_ok w"
  "worker_ok (w\<lparr>wk_stop := b\<rparr>) = worker_ok w" "worker_ok (w\<lparr>wk_world := wd\<rparr>) = worker_ok w"
  by (simp_all add: worker_ok_def)

lemma at_conn_fields [simp]:
  "wk_next (at_conn a f w) = wk_next w" "wk_posted (at_conn a f w) = wk_posted w" "wk_stop (at_conn a f w) = wk_stop w"
  "wk_listening (at_conn a f w) = wk_listening w" "wk_running (at_conn a f w) = wk_running w"
  "wk_last_sweep (at_conn a f w) = wk_last_sweep w"
  by (simp_all add: at_conn_def Let_def split: option.split)

text \<open>A handler touches its own connection only.\<close>

lemma at_conn_other: "kv_wf (=) (wk_conns w) \<Longrightarrow> b \<noteq> a \<Longrightarrow> kv_get (=) (wk_conns (at_conn a f w)) b = kv_get (=) (wk_conns w) b"
  by (auto simp: at_conn_def Let_def pm_laws split: option.split)

lemma at_conn_wf: "kv_wf (=) (wk_conns w) \<Longrightarrow> kv_wf (=) (wk_conns (at_conn a f w))"
  by (auto simp: at_conn_def Let_def pm_laws split: option.split)

lemma at_conn_get:
  "kv_wf (=) (wk_conns w) \<Longrightarrow> kv_get (=) (wk_conns (at_conn a f w)) b = Some e \<Longrightarrow>
   \<exists>e0. kv_get (=) (wk_conns w) b = Some e0 \<and> we_serial e = we_serial e0 \<and>
     (a \<noteq> b \<and> e = e0 \<or>
      a = b \<and> cn_alive (we_conn e) \<and> we_conn e = st_conn (f \<lparr>st_world = wk_world w, st_conn = we_conn e0\<rparr>))"
  by (cases "kv_get (=) (wk_conns w) a")
    (auto simp: at_conn_def Let_def pm_laws split: if_splits)

lemma at_conn_ok:
  assumes ok: "worker_ok w" and f: "\<And>s. conn_step s (f s)"
  shows "worker_ok (at_conn a f w)"
proof -
  note wf = ok [unfolded worker_ok_def, THEN conjunct1]
  have one: "cn_alive (we_conn e) \<and> conn_ok (we_conn e) \<and> we_serial e < wk_next w"
    if g: "kv_get (=) (wk_conns (at_conn a f w)) b = Some e" for b e
  proof -
    obtain e0 where e0: "kv_get (=) (wk_conns w) b = Some e0" "we_serial e = we_serial e0"
      "a \<noteq> b \<and> e = e0 \<or> a = b \<and> cn_alive (we_conn e) \<and> we_conn e = st_conn (f \<lparr>st_world = wk_world w, st_conn = we_conn e0\<rparr>)"
      using at_conn_get [OF wf g] by blast
    have old: "cn_alive (we_conn e0)" "conn_ok (we_conn e0)" "we_serial e0 < wk_next w"
      using ok e0(1) unfolding worker_ok_def by blast+
    show ?thesis
      using e0(2,3) old conn_step_ok [OF f, of "\<lparr>st_world = wk_world w, st_conn = we_conn e0\<rparr>"] by auto
  qed
  have two: "b = c" if b: "kv_get (=) (wk_conns (at_conn a f w)) b = Some e"
    and c: "kv_get (=) (wk_conns (at_conn a f w)) c = Some g" and eq: "we_serial e = we_serial g" for b c e g
  proof -
    obtain e0 g0 where "kv_get (=) (wk_conns w) b = Some e0" "we_serial e = we_serial e0"
      "kv_get (=) (wk_conns w) c = Some g0" "we_serial g = we_serial g0"
      using at_conn_get [OF wf b] at_conn_get [OF wf c] by blast
    then show ?thesis using ok eq unfolding worker_ok_def by metis
  qed
  have "\<not> wk_running w \<longrightarrow> wk_conns (at_conn a f w) = [] \<and> \<not> wk_listening w"
    using ok by (auto simp: worker_ok_def at_conn_def)
  then show ?thesis unfolding worker_ok_def at_conn_fields using at_conn_wf [OF wf] one two by blast
qed

lemma fold_keeps: "(\<And>x w. P w \<Longrightarrow> P (f x w)) \<Longrightarrow> P w \<Longrightarrow> P (fold f xs w)"
  by (induction xs arbitrary: w) simp_all

lemma alloc_unused: "alloc_fresh wc \<Longrightarrow> kv_get (=) m (wc_alloc wc (map fst m)) = None"
proof -
  assume "alloc_fresh wc"
  then have "wc_alloc wc (map fst m) \<notin> fst ` set m" by (simp add: alloc_fresh_def flip: set_map)
  then show ?thesis by (force simp: pm.get_None_iff)
qed

lemma del_absent: "kv_get (=) m a = None \<Longrightarrow> kv_del (=) a m = m"
  by (induction m) (auto split: if_splits)

lemma accept_one_ok:
  assumes "worker_ok w" "alloc_fresh wc" "wk_running w"
  shows "worker_ok (accept_one wc cfg acc w)" "wk_running (accept_one wc cfg acc w)"
proof -
  obtain ip session where acc: "acc = (ip, session)" by fastforce
  let ?a = "wc_alloc wc (map fst (wk_conns w))"
  let ?e = "\<lparr>we_serial = wk_next w, we_conn = accept_conn (wc_max_header wc) (wc_max_body wc) ip (wc_tls wc) cfg\<rparr>"
  have alive: "cn_alive (we_conn ?e)" by (simp add: accept_conn_def new_conn_def Let_def)
  have old: "cn_alive (we_conn e) \<and> conn_ok (we_conn e) \<and> we_serial e < wk_next w" if "kv_get (=) (wk_conns w) b = Some e" for b e
    using assms(1) that unfolding worker_ok_def by blast
  have uniq: "b = c" if "kv_get (=) (wk_conns w) b = Some f" "kv_get (=) (wk_conns w) c = Some g" "we_serial f = we_serial g" for b f c g
    using assms(1) that unfolding worker_ok_def by blast
  have "b = c" if "kv_get (=) (kv_set (=) ?a ?e (wk_conns w)) b = Some f" "kv_get (=) (kv_set (=) ?a ?e (wk_conns w)) c = Some g"
    "we_serial f = we_serial g" for b c f g
    using that old [of b f] old [of c g] uniq [of b f c g] by (cases "?a = b"; cases "?a = c") (auto simp: pm.get_set)
  moreover have "cn_alive (we_conn f) \<and> conn_ok (we_conn f) \<and> we_serial f < wk_next w + 1"
    if "kv_get (=) (kv_set (=) ?a ?e (wk_conns w)) b = Some f" for b f
    using that old [of b f] alive by (auto simp: pm.get_set accept_conn_ok split: if_splits)
  moreover have "kv_wf (=) (kv_set (=) ?a ?e (wk_conns w))" using assms(1) by (simp add: worker_ok_def pm_laws)
  ultimately have "worker_ok (w\<lparr>wk_conns := kv_set (=) ?a ?e (wk_conns w), wk_next := wk_next w + 1\<rparr>)"
    using assms(3) by (simp add: worker_ok_def)
  then show "worker_ok (accept_one wc cfg acc w)" using assms(1) by (simp add: accept_one_def acc Let_def)
  show "wk_running (accept_one wc cfg acc w)" using assms(3) by (simp add: accept_one_def acc Let_def)
qed

lemma accept_new_ok:
  "worker_ok w \<and> wk_running w \<Longrightarrow> alloc_fresh wc \<Longrightarrow> worker_ok (accept_new wc cfg accs w) \<and> wk_running (accept_new wc cfg accs w)"
  unfolding accept_new_def by (rule fold_keeps) (auto intro: accept_one_ok)

lemma run_task_ok: "worker_ok w \<Longrightarrow> worker_ok (run_task cfg t w)" "wk_running (run_task cfg t w) = wk_running w"
  by (auto simp: run_task_def Let_def split: wtask.split option.split intro: at_conn_ok conn_step.intros)

lemma run_posted_ok:
  assumes "worker_ok w" shows "worker_ok (run_posted cfg w)" "wk_running (run_posted cfg w) = wk_running w"
proof -
  have "worker_ok (w\<lparr>wk_posted := []\<rparr>)" using assms by simp
  then show "worker_ok (run_posted cfg w)" unfolding run_posted_def by (rule fold_keeps [rotated]) (rule run_task_ok)
  have "wk_running (fold (run_task cfg) ts v) = wk_running v" for ts v
    by (induction ts arbitrary: v) (simp_all add: run_task_ok)
  then show "wk_running (run_posted cfg w) = wk_running w" by (simp add: run_posted_def)
qed

lemma handle_event_ok:
  "worker_ok w \<and> wk_running w \<Longrightarrow> alloc_fresh wc \<Longrightarrow>
   worker_ok (handle_event fuel wc cfg ev w) \<and> wk_running (handle_event fuel wc cfg ev w)"
  by (cases ev) (auto simp: handle_event_def accept_new_ok intro: at_conn_ok conn_step.event)

lemma handle_events_ok:
  "worker_ok w \<and> wk_running w \<Longrightarrow> alloc_fresh wc \<Longrightarrow>
   worker_ok (fold (handle_event fuel wc cfg) evs w) \<and> wk_running (fold (handle_event fuel wc cfg) evs w)"
proof (induction evs arbitrary: w)
  case (Cons ev evs)
  from Cons.IH [OF handle_event_ok [OF Cons.prems] Cons.prems(2)] show ?case by simp
qed simp

lemma sweep_deadlines_ok: "worker_ok w \<Longrightarrow> worker_ok (sweep_deadlines fuel cfg w)"
  unfolding sweep_deadlines_def Let_def by (rule fold_keeps) (auto intro: at_conn_ok conn_step.sweep)

text \<open>Closing is also a step: the sweep's, of a connection whose deadline has passed. Shutdown is treated on its own.\<close>

lemma at_conn_close: "wk_conns (at_conn a (close_conn cfg) w) = kv_del (=) a (wk_conns w)"
  by (simp add: at_conn_def Let_def del_absent split: option.split)

section \<open>Shutdown\<close>

lemma shutdown_conns: "wk_conns (fold (\<lambda>a. at_conn a (close_conn cfg)) (map fst (wk_conns w)) w) = []"
proof -
  have "wk_conns (fold (\<lambda>a. at_conn a (close_conn cfg)) as w) = fold (kv_del (=)) as (wk_conns w)" for as w
    by (induction as arbitrary: w) (simp_all add: at_conn_close)
  moreover have "fold (kv_del (=)) (map fst m) m = []" for m :: "(nat \<times> wentry) list"
    by (induction m) auto
  ultimately show ?thesis by simp
qed

lemma close_keeps_closed:
  "ss_closed (wd_sse (st_world s) x) \<Longrightarrow> ss_closed (wd_sse (st_world (close_conn cfg s)) x)"
  "ch_closed (pw_chans (wd_pulse (st_world s)) y) \<Longrightarrow> ch_closed (pw_chans (wd_pulse (st_world (close_conn cfg s))) y)"
  by (auto simp: close_conn_world release_pulse_sse release_sse_def Let_def split: option.split)
    (auto simp: release_pulse_def release_sse_def upd_pulse_def upd_chan_get Let_def split: option.split)

definition streams_closed :: "conn \<Rightarrow> 'u world \<Rightarrow> bool" where
  "streams_closed c wd \<longleftrightarrow>
     (\<forall>x. cn_sse c = Some x \<longrightarrow> ss_closed (wd_sse wd x)) \<and> (\<forall>y. cn_pulse c = Some y \<longrightarrow> ch_closed (pw_chans (wd_pulse wd) y))"

lemma streams_stay_closed: "streams_closed c (st_world s) \<Longrightarrow> streams_closed c (st_world (close_conn cfg s))"
  by (simp add: streams_closed_def close_keeps_closed)

lemma streams_closed_later:
  assumes "streams_closed c (wk_world w)" shows "streams_closed c (wk_world (at_conn a (close_conn cfg) w))"
proof (cases "kv_get (=) (wk_conns w) a")
  case (Some e)
  have "streams_closed c (st_world (close_conn cfg \<lparr>st_world = wk_world w, st_conn = we_conn e\<rparr>))"
    by (rule streams_stay_closed) (simp add: assms)
  then show ?thesis by (simp add: at_conn_def Some Let_def)
qed (simp add: at_conn_def assms)

lemma close_closes_streams:
  "kv_get (=) (wk_conns w) a = Some e \<Longrightarrow> streams_closed (we_conn e) (wk_world (at_conn a (close_conn cfg) w))"
  using close_conn_sse [where s = "\<lparr>st_world = wk_world w, st_conn = we_conn e\<rparr>" and cfg = cfg]
    close_conn_pulse [where s = "\<lparr>st_world = wk_world w, st_conn = we_conn e\<rparr>" and cfg = cfg]
  by (auto simp: at_conn_def streams_closed_def Let_def)

lemma shutdown_streams:
  "wk_conns w = m \<Longrightarrow> (a, e) \<in> set m \<Longrightarrow>
   streams_closed (we_conn e) (wk_world (fold (\<lambda>a. at_conn a (close_conn cfg)) (map fst m) w))"
proof (induction m arbitrary: w)
  case (Cons x m)
  obtain b f where x: "x = (b, f)" by fastforce
  let ?w = "at_conn b (close_conn cfg) w"
  have later: "streams_closed c (wk_world v) \<Longrightarrow> streams_closed c (wk_world (fold (\<lambda>a. at_conn a (close_conn cfg)) as v))" for c as v
    by (rule fold_keeps) (rule streams_closed_later)
  have m: "wk_conns ?w = m" by (simp add: at_conn_close Cons.prems(1) x)
  show ?case
  proof (cases "(a, e) = x")
    case True
    then have "streams_closed (we_conn e) (wk_world ?w)" using close_closes_streams [of w b f cfg] Cons.prems(1) x by simp
    then show ?thesis using later x by simp
  next
    case False
    then show ?thesis using Cons.IH [OF m] Cons.prems(2) x by auto
  qed
qed simp

lemma shutdown_ok: "worker_ok (shutdown cfg w)"
proof -
  have "wk_listening (fold (\<lambda>a. at_conn a (close_conn cfg)) as v) = wk_listening v" for as v
    by (induction as arbitrary: v) simp_all
  then show ?thesis
    using shutdown_conns [of cfg "w\<lparr>wk_listening := False\<rparr>"] by (simp add: shutdown_def worker_ok_def Let_def)
qed

section \<open>Runs of a worker\<close>

text \<open>The loop's turns, and what happens around it: other threads post closures, ask it to stop and change the
  objects they share with it; the kernel takes bytes when it likes.\<close>

inductive wk_step :: "'u worker \<Rightarrow> 'u worker \<Rightarrow> bool" where
  turn: "alloc_fresh wc \<Longrightarrow> wk_step w (worker_turn fuel wc cfg events w)"
| posted: "wk_step w (w\<lparr>wk_posted := wk_posted w @ [t]\<rparr>)"
| stop: "wk_step w (request_stop w)"
| world: "wk_step w (w\<lparr>wk_world := wd\<rparr>)"
| kernel: "wk_step w (at_conn a (upd_conn (\<lambda>c. c\<lparr>cn_script := io\<rparr>)) w)"

inductive wk_reachable :: "'u worker \<Rightarrow> bool" where
  start: "wk_reachable (new_worker wd now)"
| step: "wk_reachable w \<Longrightarrow> wk_step w v \<Longrightarrow> wk_reachable v"

lemma worker_turn_ok:
  assumes ok: "worker_ok w" and wc: "alloc_fresh wc"
  shows "worker_ok (worker_turn fuel wc cfg events w)"
proof (cases "\<not> wk_running w \<or> wk_stop w \<or> events = None")
  case True
  then show ?thesis using ok shutdown_ok by (auto simp: worker_turn_def)
next
  case False
  then obtain evs where evs: "events = Some evs" by blast
  have "worker_ok (run_posted cfg w) \<and> wk_running (run_posted cfg w)" using run_posted_ok [OF ok] False by simp
  then have "worker_ok (fold (handle_event fuel wc cfg) evs (run_posted cfg w)) \<and> wk_running (fold (handle_event fuel wc cfg) evs (run_posted cfg w))"
    by (rule handle_events_ok [OF _ wc])
  moreover from this have "worker_ok ((sweep_deadlines fuel cfg (fold (handle_event fuel wc cfg) evs (run_posted cfg w)))\<lparr>wk_last_sweep := cf_now cfg\<rparr>)"
    by (simp add: sweep_deadlines_ok)
  ultimately show ?thesis using False by (simp add: worker_turn_def evs Let_def)
qed

lemma wk_step_ok: "wk_step w v \<Longrightarrow> worker_ok w \<Longrightarrow> worker_ok v"
proof (induction rule: wk_step.induct)
  case (turn wc w fuel cfg events)
  then show ?case by (rule worker_turn_ok [rotated])
next
  case (kernel w a io)
  then show ?case by (rule at_conn_ok) (rule conn_step.kernel)
qed (simp_all add: request_stop_def)

lemma wk_reachable_ok: "wk_reachable w \<Longrightarrow> worker_ok w"
  by (induction rule: wk_reachable.induct) (simp add: worker_ok_def new_worker_def, rule wk_step_ok)

section \<open>Properties\<close>

text \<open>C20: the bookkeeping of a worker holds in every reachable state, whatever the clients, the kernel, the other threads
  and the allocator do: at most one connection per address, each of them open and well formed, tokens unique (so a posted
  closure can reach no connection but its own); a worker that has left its loop has no connection and does not listen.\<close>

theorem worker_invariant:
  assumes "wk_reachable w"
  shows "kv_wf (=) (wk_conns w) \<and>
    (\<forall>a e. kv_get (=) (wk_conns w) a = Some e \<longrightarrow> cn_alive (we_conn e) \<and> conn_ok (we_conn e)) \<and>
    (\<forall>a b e f. kv_get (=) (wk_conns w) a = Some e \<and> kv_get (=) (wk_conns w) b = Some f \<and> we_serial e = we_serial f \<longrightarrow> a = b) \<and>
    (\<not> wk_running w \<longrightarrow> wk_conns w = [] \<and> \<not> wk_listening w)"
  using wk_reachable_ok [OF assms] unfolding worker_ok_def by blast

definition demo_wc :: wk_cfg where
  "demo_wc = \<lparr>wc_max_header = 10, wc_max_body = 10, wc_tls = False, wc_alloc = (\<lambda>as. Suc (sum_list as))\<rparr>"

lemma demo_wc_fresh: "alloc_fresh demo_wc"
proof -
  have "Suc (sum_list as) \<notin> set as" for as :: "nat list"
    using member_le_sum_list [of "Suc (sum_list as)" as] by auto
  then show ?thesis by (simp add: alloc_fresh_def demo_wc_def)
qed

text \<open>A worker that has accepted one connection.\<close>

definition demo_worker :: "nat worker" where
  "demo_worker = worker_turn 0 demo_wc demo_cfg (Some [OnListener [(''::1'', True)]]) (new_worker (st_world (demo_st [])) 0)"

lemma demo_worker_reachable: "wk_reachable demo_worker"
  unfolding demo_worker_def by (rule wk_reachable.step [OF wk_reachable.start wk_step.turn]) (rule demo_wc_fresh)

lemma demo_worker_conns:
  "wk_conns demo_worker = [(1, \<lparr>we_serial = 0, we_conn = accept_conn 10 10 ''::1'' False demo_cfg\<rparr>)]" "wk_running demo_worker"
  by (simp_all add: demo_worker_def worker_turn_def new_worker_def run_posted_def handle_event_def accept_new_def accept_one_def
      demo_wc_def demo_cfg_def Let_def)

theorem worker_invariant_witness: "conn_ok (accept_conn 10 10 ''::1'' False demo_cfg)"
proof -
  have "kv_get (=) (wk_conns demo_worker) 1 = Some \<lparr>we_serial = 0, we_conn = accept_conn 10 10 ''::1'' False demo_cfg\<rparr>"
    by (simp add: demo_worker_conns)
  then show ?thesis using worker_invariant [OF demo_worker_reachable] by fastforce
qed

text \<open>A request to stop is honoured by the next turn: the listener is closed, every connection is closed (the event
  streams and channels they carried too), and the loop is left for good.\<close>

lemma stop_closes_everything:
  assumes "wk_running w" "wk_stop w"
  shows "let w' = worker_turn fuel wc cfg events w in
    wk_conns w' = [] \<and> \<not> wk_listening w' \<and> \<not> wk_running w' \<and>
    (\<forall>(a, e) \<in> set (wk_conns w). streams_closed (we_conn e) (wk_world w')) \<and>
    worker_turn fuel' wc' cfg' events' w' = w'"
proof -
  let ?w = "w\<lparr>wk_listening := False\<rparr>"
  have s: "worker_turn fuel wc cfg events w = shutdown cfg w" using assms by (simp add: worker_turn_def)
  have "streams_closed (we_conn e) (wk_world (shutdown cfg w))" if "(a, e) \<in> set (wk_conns w)" for a e
    using shutdown_streams [of ?w "wk_conns w" a e cfg] that by (simp add: shutdown_def Let_def)
  moreover have r: "\<not> wk_running (shutdown cfg w)" by (simp add: shutdown_def Let_def)
  moreover have "wk_conns (shutdown cfg w) = [] \<and> \<not> wk_listening (shutdown cfg w)"
    using shutdown_ok [of cfg w] r unfolding worker_ok_def by blast
  ultimately show ?thesis by (auto simp: s Let_def worker_turn_def [of fuel'])
qed

lemma stop_closes_everything_example:
  "wk_conns (worker_turn 0 demo_wc demo_cfg None (request_stop demo_worker)) = []"
  using stop_closes_everything [of "request_stop demo_worker" 0 demo_wc demo_cfg None] demo_worker_conns(2)
  by (simp add: request_stop_def Let_def)

text \<open>What happens to one connection is invisible to the others; a closure posted for a connection that is gone does
  nothing, even if its address is in use again.\<close>

lemma event_isolated:
  "kv_wf (=) (wk_conns w) \<Longrightarrow> b \<noteq> a \<Longrightarrow>
   kv_get (=) (wk_conns (handle_event fuel wc cfg (OnConn a bits hs reads) w)) b = kv_get (=) (wk_conns w) b"
  by (simp add: handle_event_def at_conn_other)

lemma late_closure_harmless:
  "\<forall>(a, e) \<in> set (wk_conns w). we_serial e \<noteq> n \<Longrightarrow> run_task cfg (SseTask n) w = w \<and> run_task cfg (PulseTask n) w = w"
proof -
  assume "\<forall>(a, e) \<in> set (wk_conns w). we_serial e \<noteq> n"
  then have "List.find (\<lambda>(_, e). we_serial e = n) (wk_conns w) = None" by (auto simp: find_None_iff)
  then show ?thesis by (simp add: run_task_def)
qed

text \<open>Events carry no token: posted closures run after \<open>wait\<close> and before its events. If one of them closes a connection that
  also has an event in the batch, and the listener's event comes first and the allocator hands the address out again, then
  the new connection is given the old one's event; a hang-up closes it.\<close>

lemma stale_event_hits_successor:
  assumes "kv_wf (=) (wk_conns w)" "kv_get (=) (wk_conns w) a = None" "wc_alloc wc (map fst (wk_conns w)) = a" "\<not> wc_tls wc" "ep_rdhup bits"
  shows "kv_get (=) (wk_conns (fold (handle_event fuel wc cfg) [OnListener [(ip, True)], OnConn a bits hs reads] w)) a = None"
  using assms by (simp add: handle_event_def accept_new_def accept_one_def at_conn_def Let_def pm_laws worker_event_def loop_event_of_def
      accept_conn_def new_conn_def close_conn_def)

end
