(* ===== verification/Lifecycle.thy ===== *)
theory Lifecycle
  imports Worker
begin

text \<open>
  Starting and stopping a server: \<open>Worker::setup_listener\<close> and \<open>Server::Run\<close>, \<open>Stop\<close>, \<open>Wait\<close> of
  \<open>src/server.cpp\<close>, with the workers of \<open>Worker\<close>. The answers of the resolver and of the socket calls and OpenSSL's
  initialization are arguments. The objects of the application are shared by all workers.
\<close>

section \<open>Definitions\<close>

text \<open>What the socket calls say for one address: \<open>socket\<close>, \<open>bind\<close>, \<open>listen\<close>, the port of \<open>getsockname\<close>.\<close>

record addr_try =
  at_socket :: bool
  at_bind :: bool
  at_listen :: bool
  at_port :: "nat option"

text \<open>\<open>Inl\<close>: the error; \<open>Inr\<close>: the port that was bound. The first address that can be bound is taken.\<close>

definition setup_listener :: "string + addr_try list \<Rightarrow> string \<Rightarrow> nat \<Rightarrow> string + nat" where
  "setup_listener lookup strerror bound =
     (case lookup of
        Inl gai \<Rightarrow> Inl (''getaddrinfo: '' @ gai)
      | Inr tries \<Rightarrow>
          (case List.find (\<lambda>t. at_socket t \<and> at_bind t \<and> at_listen t) tries of
             None \<Rightarrow> Inl (''bind/listen failed: '' @ strerror)
           | Some t \<Rightarrow> Inr (case at_port t of None \<Rightarrow> bound | Some p \<Rightarrow> p)))"

record 'u server =
  sv_opt_workers :: nat
  sv_opt_tls :: bool
  sv_running :: bool
  sv_tls_enabled :: bool
  sv_last_error :: string
  sv_port :: nat
  sv_workers :: "'u worker list"
  sv_threads :: nat
  sv_world :: "'u world"

definition new_server :: "nat \<Rightarrow> bool \<Rightarrow> 'u world \<Rightarrow> 'u server" where
  "new_server workers tls wd =
     \<lparr>sv_opt_workers = workers, sv_opt_tls = tls, sv_running = False, sv_tls_enabled = False, sv_last_error = [],
      sv_port = 0, sv_workers = [], sv_threads = 0, sv_world = wd\<rparr>"

text \<open>The loop over the workers: \<open>net i p\<close> is what \<open>setup_listener\<close> answers for worker \<open>i\<close> and port \<open>p\<close>; each worker
  binds the port the one before it got.\<close>

fun bind_workers :: "(nat \<Rightarrow> nat \<Rightarrow> string + nat) \<Rightarrow> nat \<Rightarrow> nat \<Rightarrow> nat \<Rightarrow> string + nat" where
  "bind_workers net i 0 bound = Inr bound"
| "bind_workers net i (Suc n) bound =
     (case net i bound of Inl err \<Rightarrow> Inl err | Inr p \<Rightarrow> bind_workers net (Suc i) n p)"

definition worker_count :: "nat \<Rightarrow> nat \<Rightarrow> nat" where
  "worker_count opt hardware = (if opt \<noteq> 0 then opt else max 1 hardware)"

text \<open>\<open>tls_init\<close>: the error of the TLS set-up, if it fails.\<close>

definition server_run :: "nat \<Rightarrow> string option \<Rightarrow> (nat \<Rightarrow> nat \<Rightarrow> string + nat) \<Rightarrow> nat \<Rightarrow> nat \<Rightarrow> 'u server \<Rightarrow> bool \<times> 'u server" where
  "server_run hardware tls_init net now port s =
     (if sv_running s then (False, s)
      else
        (let s = s\<lparr>sv_running := True, sv_tls_enabled := False\<rparr>
         in case (if sv_opt_tls s then tls_init else None) of
              Some e \<Rightarrow> (False, s\<lparr>sv_last_error := ''TLS init failed: '' @ e, sv_running := False\<rparr>)
            | None \<Rightarrow>
                (let s = s\<lparr>sv_tls_enabled := sv_opt_tls s, sv_workers := []\<rparr>; n = worker_count (sv_opt_workers s) hardware
                 in case bind_workers net 0 n port of
                      Inl err \<Rightarrow> (False, s\<lparr>sv_last_error := err, sv_running := False\<rparr>)
                    | Inr bound \<Rightarrow>
                        (True, s\<lparr>sv_workers := replicate n (new_worker (sv_world s) now), sv_port := bound,
                                 sv_threads := sv_threads s + n\<rparr>))))"

text \<open>\<open>Stop\<close> up to the join, and from it on: joining returns when every worker has left its loop.\<close>

definition stop_begin :: "'u server \<Rightarrow> bool \<times> 'u server" where
  "stop_begin s =
     (if \<not> sv_running s then (False, s)
      else (True, s\<lparr>sv_running := False, sv_workers := map request_stop (sv_workers s)\<rparr>))"

definition joinable :: "'u server \<Rightarrow> bool" where
  "joinable s \<longleftrightarrow> (\<forall>w \<in> set (sv_workers s). \<not> wk_running w)"

definition stop_end :: "'u server \<Rightarrow> 'u server" where
  "stop_end s = s\<lparr>sv_threads := 0\<rparr>"

text \<open>A turn of worker \<open>i\<close>, on the shared objects.\<close>

definition server_turn :: "nat \<Rightarrow> nat \<Rightarrow> wk_cfg \<Rightarrow> 'u cfg \<Rightarrow> wevent list option \<Rightarrow> 'u server \<Rightarrow> 'u server" where
  "server_turn i fuel wc cfg events s =
     (if i < length (sv_workers s) then
        (let w = worker_turn fuel wc cfg events ((sv_workers s ! i)\<lparr>wk_world := sv_world s\<rparr>)
         in s\<lparr>sv_workers := (sv_workers s)[i := w], sv_world := wk_world w\<rparr>)
      else s)"

section \<open>Starting\<close>

lemma listener_takes_first:
  "setup_listener (Inr tries) strerror bound = Inr p \<Longrightarrow>
   \<exists>i < length tries. at_bind (tries ! i) \<and> at_listen (tries ! i) \<and> p = (case at_port (tries ! i) of None \<Rightarrow> bound | Some q \<Rightarrow> q) \<and>
     (\<forall>j < i. \<not> (at_socket (tries ! j) \<and> at_bind (tries ! j) \<and> at_listen (tries ! j)))"
  by (auto simp: setup_listener_def find_Some_iff split: option.splits)

text \<open>A network that gives out the port it is asked for, or some port when asked for 0.\<close>

definition honest_net :: "(nat \<Rightarrow> nat \<Rightarrow> string + nat) \<Rightarrow> bool" where
  "honest_net net \<longleftrightarrow> (\<forall>i p q. net i p = Inr q \<longrightarrow> q \<noteq> 0 \<and> (p \<noteq> 0 \<longrightarrow> q = p))"

lemma bind_workers_same:
  "honest_net net \<Longrightarrow> bound \<noteq> 0 \<Longrightarrow> bind_workers net i n bound = Inr p \<Longrightarrow> p = bound \<and> (\<forall>j < n. net (i + j) bound = Inr bound)"
proof (induction n arbitrary: i)
  case (Suc n)
  from Suc.prems obtain q where q: "net i bound = Inr q" "bind_workers net (Suc i) n q = Inr p" by (auto split: sum.splits)
  have "q = bound" using Suc.prems(1,2) q(1) by (simp add: honest_net_def)
  with q Suc.IH [of "Suc i"] Suc.prems(1,2) show ?case by (auto simp: less_Suc_eq_0_disj)
qed simp



section \<open>Stopping\<close>

definition gone :: "'u worker \<Rightarrow> bool" where
  "gone w \<longleftrightarrow> \<not> wk_running w \<and> wk_conns w = [] \<and> \<not> wk_listening w"

lemma stopped_turn_gone:
  assumes "worker_ok w" "wk_stop w"
  shows "gone (worker_turn fuel wc cfg events (w\<lparr>wk_world := wd\<rparr>))" "worker_ok (worker_turn fuel wc cfg events (w\<lparr>wk_world := wd\<rparr>))"
proof -
  have "gone (shutdown cfg v)" for v :: "'a worker"
  proof -
    have "\<not> wk_running (shutdown cfg v)" by (simp add: shutdown_def Let_def)
    then show ?thesis using shutdown_ok [of cfg v] unfolding gone_def worker_ok_def by blast
  qed
  then show "gone (worker_turn fuel wc cfg events (w\<lparr>wk_world := wd\<rparr>))"
    using assms by (auto simp: worker_turn_def gone_def worker_ok_def)
  show "worker_ok (worker_turn fuel wc cfg events (w\<lparr>wk_world := wd\<rparr>))"
    using assms shutdown_ok by (auto simp: worker_turn_def)
qed

lemma gone_turn: "gone w \<Longrightarrow> gone (worker_turn fuel wc cfg events (w\<lparr>wk_world := wd\<rparr>))"
  by (simp add: worker_turn_def gone_def)

text \<open>All workers have been asked to stop; those in \<open>A\<close> have had a turn since.\<close>

definition stopping :: "nat set \<Rightarrow> 'u server \<Rightarrow> bool" where
  "stopping A s \<longleftrightarrow> (\<forall>i < length (sv_workers s). worker_ok (sv_workers s ! i) \<and> (wk_stop (sv_workers s ! i) \<or> gone (sv_workers s ! i)) \<and>
     (i \<in> A \<longrightarrow> gone (sv_workers s ! i)))"

lemma stopping_turn:
  assumes "stopping A s" shows "stopping (insert i A) (server_turn i fuel wc cfg events s)"
proof (cases "i < length (sv_workers s)")
  case True
  let ?w = "worker_turn fuel wc cfg events ((sv_workers s ! i)\<lparr>wk_world := sv_world s\<rparr>)"
  have w: "worker_ok (sv_workers s ! i)" "wk_stop (sv_workers s ! i) \<or> gone (sv_workers s ! i)"
    using assms True by (auto simp: stopping_def)
  have "gone ?w" using w stopped_turn_gone(1) gone_turn by blast
  moreover have "worker_ok ?w"
    using w stopped_turn_gone(2) [OF w(1)] by (auto simp: worker_turn_def gone_def)
  ultimately show ?thesis using assms True by (auto simp: stopping_def server_turn_def Let_def nth_list_update)
next
  case False
  then show ?thesis using assms by (auto simp: stopping_def server_turn_def)
qed

lemma stopping_turns:
  "stopping A s \<Longrightarrow> stopping (set is \<union> A) (fold (\<lambda>i. server_turn i fuel wc cfg (events i)) is s)"
proof (induction "is" arbitrary: A s)
  case (Cons i "is")
  from Cons.IH [OF stopping_turn [OF Cons.prems]] show ?case by simp
qed simp

lemma length_turns [simp]: "length (sv_workers (fold (\<lambda>i. server_turn i fuel wc cfg (events i)) is s)) = length (sv_workers s)"
  by (induction "is" arbitrary: s) (simp_all add: server_turn_def Let_def)

text \<open>C23: stopping ends. Once \<open>Stop\<close> has asked the workers to stop, each of them needs one more turn, in whatever order they
  get it and whatever happens in it: then all have left their loops and the join returns, no worker listens or has a
  connection. A second \<open>Stop\<close> does nothing.\<close>

theorem server_stops:
  assumes "stop_begin s = (True, s')" "\<forall>w \<in> set (sv_workers s). worker_ok w" "{..< length (sv_workers s)} \<subseteq> set is"
  shows "let t = fold (\<lambda>i. server_turn i fuel wc cfg (events i)) is s'
    in joinable t \<and> (\<forall>w \<in> set (sv_workers t). wk_conns w = [] \<and> \<not> wk_listening w) \<and> stop_begin s' = (False, s')"
proof -
  have s': "s' = s\<lparr>sv_running := False, sv_workers := map request_stop (sv_workers s)\<rparr>"
    using assms(1) by (simp add: stop_begin_def split: if_splits)
  have "stopping {} s'" using assms(2) by (auto simp: s' stopping_def request_stop_def)
  define t where "t = fold (\<lambda>i. server_turn i fuel wc cfg (events i)) is s'"
  have "stopping (set is) t" using stopping_turns [OF \<open>stopping {} s'\<close>, of "is" fuel wc cfg events] by (simp add: t_def)
  moreover have "i \<in> set is" if "i < length (sv_workers t)" for i using that assms(3) by (auto simp: t_def s')
  ultimately have "\<forall>w \<in> set (sv_workers t). gone w" unfolding stopping_def by (metis in_set_conv_nth)
  then show ?thesis by (simp add: joinable_def gone_def stop_begin_def s' Let_def flip: t_def) (simp add: gone_def t_def s')
qed

theorem server_stops_witness:
  "joinable (server_turn 0 0 demo_wc demo_cfg None
     (snd (stop_begin ((new_server 1 False (st_world (demo_st [])))\<lparr>sv_running := True, sv_workers := [demo_worker]\<rparr>))))"
proof -
  let ?s = "(new_server 1 False (st_world (demo_st [])))\<lparr>sv_running := True, sv_workers := [demo_worker]\<rparr>"
  have b: "stop_begin ?s = (True, snd (stop_begin ?s))" by (simp add: stop_begin_def)
  have "worker_ok demo_worker" using wk_reachable_ok demo_worker_reachable by blast
  then show ?thesis using server_stops [OF b, of "[0]" 0 demo_wc demo_cfg "\<lambda>_. None"] by (auto simp: Let_def new_server_def)
qed

end
