(* ===== verification/DbEngines.thy ===== *)
theory DbEngines
  imports DbDocument Utils
begin

text \<open>
  The engines over the database drivers: \<open>src/db/sqlite_engine.cpp\<close>, \<open>postgres_engine.cpp\<close>, \<open>mysql_engine.cpp\<close> and
  the driver half of \<open>mongo_engine.cpp\<close>. The drivers' functions are arguments (records of operations on the outside
  world); what the engines do around them is here: how values are bound and read back, how markers are rewritten or
  filled in, which calls are made in which order, what is thrown.
\<close>

section \<open>Values\<close>

text \<open>What is needed of the JSON library beyond \<open>json_api\<close>: \<open>get<bool>\<close>, a real number, an array of bytes.\<close>

record 'j scalar_api =
  sc_bool :: "'j \<Rightarrow> bool"
  sc_of_real :: "rat \<Rightarrow> 'j"
  sc_of_bytes :: "string \<Rightarrow> 'j"

text \<open>\<open>get<std::int64_t>\<close> of an integer: an unsigned one beyond the range wraps.\<close>

definition wrap64 :: "int \<Rightarrow> int" where
  "wrap64 n = (n + 2 ^ 63) mod 2 ^ 64 - 2 ^ 63"

text \<open>\<open>std::to_string(double)\<close>: six decimals, a tie to the even one.\<close>

definition show_f6 :: "rat \<Rightarrow> string" where
  "show_f6 x =
     (let q = \<bar>x\<bar> * 1000000; r = q - of_int \<lfloor>q\<rfloor>;
          n = nat (\<lfloor>q\<rfloor> + (if r > 1 / 2 \<or> r = 1 / 2 \<and> odd \<lfloor>q\<rfloor> then 1 else 0)); f = show_nat (n mod 1000000);
          s = show_nat (n div 1000000) @ ''.'' @ replicate (6 - length f) CHR ''0'' @ f
      in if x < 0 then CHR ''-'' # s else s)"

definition json_fail :: "('s, 'a) dbm" where
  "json_fail = db_throw ''json''"

text \<open>\<open>row[name] = v\<close> for the columns in order.\<close>

definition build_row :: "'j json_api \<Rightarrow> (string \<times> 'j) list \<Rightarrow> 'j option" where
  "build_row J kvs = fold (\<lambda>(k, v) r. Option.bind r (\<lambda>j. js_put J j k v)) kvs (Some (js_object J))"

definition build_rows :: "'j json_api \<Rightarrow> (string \<times> 'j) list list \<Rightarrow> ('s, 'j list) dbm" where
  "build_rows J rows = (case those (map (build_row J) rows) of None \<Rightarrow> json_fail | Some js \<Rightarrow> db_ret js)"

section \<open>SQLite\<close>

datatype sql_value = SqlNull | SqlInt int | SqlReal rat | SqlText string

definition bind_value :: "'j json_api \<Rightarrow> 'j scalar_api \<Rightarrow> 'j \<Rightarrow> sql_value option" where
  "bind_value J K v =
     (if js_is_null J v then Some SqlNull
      else if js_is_bool J v then Some (SqlInt (if sc_bool K v then 1 else 0))
      else case js_integer J v of
        Some n \<Rightarrow> Some (SqlInt (wrap64 n))
      | None \<Rightarrow>
          (case js_double J v of
             Some x \<Rightarrow> Some (SqlReal x)
           | None \<Rightarrow>
               (case js_as_str J v of Some s \<Rightarrow> Some (SqlText s) | None \<Rightarrow> map_option SqlText (js_dump J v))))"

datatype sq_column = ColInt int | ColReal rat | ColText string | ColBlob string | ColNull
datatype sq_step = SqRow "(string \<times> sq_column) list" | SqDone | SqFail

text \<open>\<open>sq_steps\<close>: the outcomes of stepping a statement until it is done or fails.\<close>

record 's sqlite_api =
  sq_prepare :: "string \<Rightarrow> ('s, nat) dbm"
  sq_bind :: "nat \<Rightarrow> sql_value list \<Rightarrow> 's \<Rightarrow> 's"
  sq_one_step :: "nat \<Rightarrow> 's \<Rightarrow> sq_step \<times> 's"
  sq_steps :: "nat \<Rightarrow> 's \<Rightarrow> sq_step list \<times> 's"
  sq_finalize :: "nat \<Rightarrow> 's \<Rightarrow> 's"
  sq_errmsg :: "'s \<Rightarrow> string"
  sq_changes :: "'s \<Rightarrow> int"
  sq_rowid :: "'s \<Rightarrow> int"

definition sqlite_prepared :: "'s sqlite_api \<Rightarrow> 'j json_api \<Rightarrow> 'j scalar_api \<Rightarrow> string \<Rightarrow> 'j list \<Rightarrow> ('s, nat) dbm" where
  "sqlite_prepared A J K sql params =
     db_bind (sq_prepare A sql) (\<lambda>st.
       case those (map (bind_value J K) params) of
         None \<Rightarrow> json_fail
       | Some vs \<Rightarrow> (\<lambda>s. db_ret st (sq_bind A st vs s)))"

definition sqlite_exec :: "'s sqlite_api \<Rightarrow> 'j json_api \<Rightarrow> 'j scalar_api \<Rightarrow> string \<Rightarrow> 'j list \<Rightarrow> ('s, int) dbm" where
  "sqlite_exec A J K sql params =
     db_bind (sqlite_prepared A J K sql params) (\<lambda>st s.
       case sq_one_step A st s of
         (r, s) \<Rightarrow>
           (let s = sq_finalize A st s
            in case r of SqFail \<Rightarrow> db_throw (sq_errmsg A s) s | _ \<Rightarrow> db_ret (sq_changes A s) s))"

definition column_value :: "'j json_api \<Rightarrow> 'j scalar_api \<Rightarrow> sq_column \<Rightarrow> 'j" where
  "column_value J K c =
     (case c of
        ColInt n \<Rightarrow> js_of_int J n
      | ColReal x \<Rightarrow> sc_of_real K x
      | ColText t \<Rightarrow> js_of_str J (c_str t)
      | ColBlob b \<Rightarrow> sc_of_bytes K b
      | ColNull \<Rightarrow> js_null J)"

text \<open>The loop over the steps: the rows, and whether it ended with an error.\<close>

fun read_rows :: "sq_step list \<Rightarrow> (string \<times> sq_column) list list \<times> bool" where
  "read_rows [] = ([], False)"
| "read_rows (SqRow r # ss) = apfst (Cons r) (read_rows ss)"
| "read_rows (SqDone # ss) = ([], False)"
| "read_rows (SqFail # ss) = ([], True)"

definition sqlite_query :: "'s sqlite_api \<Rightarrow> 'j json_api \<Rightarrow> 'j scalar_api \<Rightarrow> string \<Rightarrow> 'j list \<Rightarrow> ('s, 'j list) dbm" where
  "sqlite_query A J K sql params =
     db_bind (sqlite_prepared A J K sql params) (\<lambda>st s.
       case sq_steps A st s of
         (ss, s) \<Rightarrow>
           (case read_rows ss of
              (rows, failed) \<Rightarrow>
                (let s = sq_finalize A st s
                 in if failed then db_throw (sq_errmsg A s) s
                    else build_rows J (map (map (apsnd (column_value J K))) rows) s)))"

definition sqlite_insert :: "'s sqlite_api \<Rightarrow> 'j json_api \<Rightarrow> 'j scalar_api \<Rightarrow> string \<Rightarrow> 'j list \<Rightarrow> ('s, int) dbm" where
  "sqlite_insert A J K sql params = db_bind (sqlite_exec A J K sql params) (\<lambda>_ s. db_ret (sq_rowid A s) s)"

definition simple_stmt :: "(string \<Rightarrow> 'j list \<Rightarrow> ('s, int) dbm) \<Rightarrow> string \<Rightarrow> ('s, unit) dbm" where
  "simple_stmt exec sql = db_bind (exec sql []) (\<lambda>_. db_ret ())"

definition sqlite_engine :: "(nat \<Rightarrow> 's sqlite_api) \<Rightarrow> 'j json_api \<Rightarrow> 'j scalar_api \<Rightarrow> ('s, 'j) sql_engine" where
  "sqlite_engine A J K =
     \<lparr>en_exec = \<lambda>e. sqlite_exec (A e) J K, en_query = \<lambda>e. sqlite_query (A e) J K, en_insert = \<lambda>e. sqlite_insert (A e) J K,
      en_begin = \<lambda>e. simple_stmt (sqlite_exec (A e) J K) ''BEGIN'',
      en_commit = \<lambda>e. simple_stmt (sqlite_exec (A e) J K) ''COMMIT'',
      en_rollback = \<lambda>e. simple_stmt (sqlite_exec (A e) J K) ''ROLLBACK''\<rparr>"

section \<open>PostgreSQL\<close>

fun rewrite_from :: "nat \<Rightarrow> string \<Rightarrow> string" where
  "rewrite_from idx [] = []"
| "rewrite_from idx (c # cs) =
     (if c = CHR ''?'' then CHR ''$'' # show_nat (idx + 1) @ rewrite_from (idx + 1) cs else c # rewrite_from idx cs)"

definition rewrite_placeholders :: "string \<Rightarrow> string" where
  "rewrite_placeholders sql = rewrite_from 0 sql"

text \<open>A parameter as the C string that is passed (a null pointer for null); \<open>None\<close>: the JSON library throws.\<close>

definition pg_param :: "'j json_api \<Rightarrow> 'j scalar_api \<Rightarrow> 'j \<Rightarrow> string option option" where
  "pg_param J K v =
     (if js_is_null J v then Some None
      else case js_as_str J v of
        Some s \<Rightarrow> Some (Some (c_str s))
      | None \<Rightarrow>
          if js_is_bool J v then Some (Some (if sc_bool K v then ''t'' else ''f''))
          else (case js_dump J v of
                  None \<Rightarrow> None
                | Some d \<Rightarrow>
                    Some (Some (case js_integer J v of
                      Some n \<Rightarrow> show_int (wrap64 n)
                    | None \<Rightarrow> (case js_double J v of Some x \<Rightarrow> show_f6 x | None \<Rightarrow> c_str d)))))"

datatype pg_result = PgCommand string | PgTuples "string list" "string option list list" string | PgBad

record 's pg_api =
  pg_exec_params :: "string \<Rightarrow> string option list \<Rightarrow> 's \<Rightarrow> pg_result \<times> 's"
  pg_error :: "'s \<Rightarrow> string"

definition pg_run :: "'s pg_api \<Rightarrow> 'j json_api \<Rightarrow> 'j scalar_api \<Rightarrow> string \<Rightarrow> 'j list \<Rightarrow> ('s, pg_result) dbm" where
  "pg_run A J K sql params =
     (case those (map (pg_param J K) params) of
        None \<Rightarrow> json_fail
      | Some vs \<Rightarrow> (\<lambda>s. case pg_exec_params A (rewrite_placeholders sql) vs s of (r, s) \<Rightarrow> db_ret r s))"

definition pg_exec :: "'s pg_api \<Rightarrow> 'j json_api \<Rightarrow> 'j scalar_api \<Rightarrow> string \<Rightarrow> 'j list \<Rightarrow> ('s, int) dbm" where
  "pg_exec A J K sql params =
     db_bind (pg_run A J K sql params) (\<lambda>r s.
       let count = (\<lambda>t. if t \<noteq> [] then fst (strtoll 10 t) else 0)
       in case r of PgBad \<Rightarrow> db_throw (pg_error A s) s | PgCommand t \<Rightarrow> db_ret (count t) s | PgTuples _ _ t \<Rightarrow> db_ret (count t) s)"

definition pg_query :: "'s pg_api \<Rightarrow> 'j json_api \<Rightarrow> 'j scalar_api \<Rightarrow> string \<Rightarrow> 'j list \<Rightarrow> ('s, 'j list) dbm" where
  "pg_query A J K sql params =
     db_bind (pg_run A J K sql params) (\<lambda>r s.
       case r of
         PgTuples names rows _ \<Rightarrow>
           build_rows J (map (\<lambda>row. zip names (map (\<lambda>v. case v of None \<Rightarrow> js_null J | Some t \<Rightarrow> js_of_str J (c_str t)) row)) rows) s
       | _ \<Rightarrow> db_throw (pg_error A s) s)"

definition pg_insert :: "'s pg_api \<Rightarrow> 'j json_api \<Rightarrow> 'j scalar_api \<Rightarrow> string \<Rightarrow> 'j list \<Rightarrow> ('s, int) dbm" where
  "pg_insert A J K sql params =
     (let s = (if find_sub ''RETURNING'' sql = None \<and> find_sub ''returning'' sql = None then sql @ '' RETURNING id'' else sql)
      in db_bind (pg_query A J K s params) (\<lambda>rows.
           case rows of
             [] \<Rightarrow> db_ret 0
           | r # _ \<Rightarrow>
               (case js_find J r ''id'' of
                  None \<Rightarrow> db_ret 0
                | Some v \<Rightarrow>
                    if js_double J v \<noteq> None then (case js_as_int J v of None \<Rightarrow> json_fail | Some n \<Rightarrow> db_ret n)
                    else (case js_as_str J v of
                            None \<Rightarrow> json_fail
                          | Some t \<Rightarrow> (case stoll 10 t of None \<Rightarrow> db_throw ''stoll'' | Some (n, _) \<Rightarrow> db_ret n)))))"

definition pg_engine :: "(nat \<Rightarrow> 's pg_api) \<Rightarrow> 'j json_api \<Rightarrow> 'j scalar_api \<Rightarrow> ('s, 'j) sql_engine" where
  "pg_engine A J K =
     \<lparr>en_exec = \<lambda>e. pg_exec (A e) J K, en_query = \<lambda>e. pg_query (A e) J K, en_insert = \<lambda>e. pg_insert (A e) J K,
      en_begin = \<lambda>e. simple_stmt (pg_exec (A e) J K) ''BEGIN'', en_commit = \<lambda>e. simple_stmt (pg_exec (A e) J K) ''COMMIT'',
      en_rollback = \<lambda>e. simple_stmt (pg_exec (A e) J K) ''ROLLBACK''\<rparr>"

text \<open>The connection string.\<close>

definition pg_conninfo :: "string \<Rightarrow> nat \<Rightarrow> string \<Rightarrow> string \<Rightarrow> string \<Rightarrow> string" where
  "pg_conninfo host port db user password =
     ''host='' @ host @ '' port='' @ show_nat port @ '' dbname='' @ db @ '' user='' @ user @
     (if password \<noteq> [] then '' password='' @ password else [])"

section \<open>MySQL\<close>

text \<open>The text a value takes in the statement; \<open>esc\<close> is \<open>mysql_real_escape_string\<close>.\<close>

definition my_value :: "(string \<Rightarrow> string) \<Rightarrow> 'j json_api \<Rightarrow> 'j scalar_api \<Rightarrow> 'j \<Rightarrow> string option" where
  "my_value esc J K v =
     (if js_is_null J v then Some ''NULL''
      else if js_is_bool J v then Some (if sc_bool K v then ''1'' else ''0'')
      else case js_integer J v of
        Some n \<Rightarrow> Some (show_int (wrap64 n))
      | None \<Rightarrow>
          (case js_double J v of
             Some x \<Rightarrow> Some (show_f6 x)
           | None \<Rightarrow>
               map_option (\<lambda>t. [SQ] @ esc t @ [SQ]) (case js_as_str J v of Some s \<Rightarrow> Some s | None \<Rightarrow> js_dump J v)))"

text \<open>The loop of \<open>bind_sql_\<close> over the text.\<close>

fun bind_sql :: "(string \<Rightarrow> string) \<Rightarrow> 'j json_api \<Rightarrow> 'j scalar_api \<Rightarrow> string \<Rightarrow> 'j list \<Rightarrow> string + string" where
  "bind_sql esc J K [] ps = Inr []"
| "bind_sql esc J K (c # cs) ps =
     (if c \<noteq> CHR ''?'' then (case bind_sql esc J K cs ps of Inl e \<Rightarrow> Inl e | Inr out \<Rightarrow> Inr (c # out))
      else (case ps of
              [] \<Rightarrow> Inl ''not enough bind parameters''
            | p # ps \<Rightarrow>
                (case my_value esc J K p of
                   None \<Rightarrow> Inl ''json''
                 | Some t \<Rightarrow> (case bind_sql esc J K cs ps of Inl e \<Rightarrow> Inl e | Inr out \<Rightarrow> Inr (t @ out)))))"

record 's my_api =
  my_query_ok :: "string \<Rightarrow> 's \<Rightarrow> bool \<times> 's"
  my_store :: "'s \<Rightarrow> (string list \<times> string option list list) option \<times> 's"
  my_field_count :: "'s \<Rightarrow> nat"
  my_error :: "'s \<Rightarrow> string"
  my_affected :: "'s \<Rightarrow> int"
  my_insert_id :: "'s \<Rightarrow> int"
  my_escape :: "string \<Rightarrow> string"

definition my_run :: "'s my_api \<Rightarrow> 'j json_api \<Rightarrow> 'j scalar_api \<Rightarrow> string \<Rightarrow> 'j list \<Rightarrow> ('s, unit) dbm" where
  "my_run A J K sql params =
     (case bind_sql (my_escape A) J K sql params of
        Inl e \<Rightarrow> db_throw e
      | Inr bound \<Rightarrow> (\<lambda>s. case my_query_ok A bound s of (ok, s) \<Rightarrow> if ok then db_ret () s else db_throw (my_error A s) s))"

definition my_exec :: "'s my_api \<Rightarrow> 'j json_api \<Rightarrow> 'j scalar_api \<Rightarrow> string \<Rightarrow> 'j list \<Rightarrow> ('s, int) dbm" where
  "my_exec A J K sql params =
     db_bind (my_run A J K sql params) (\<lambda>_ s. case my_store A s of (_, s) \<Rightarrow> db_ret (my_affected A s) s)"

definition my_query :: "'s my_api \<Rightarrow> 'j json_api \<Rightarrow> 'j scalar_api \<Rightarrow> string \<Rightarrow> 'j list \<Rightarrow> ('s, 'j list) dbm" where
  "my_query A J K sql params =
     db_bind (my_run A J K sql params) (\<lambda>_ s.
       case my_store A s of
         (None, s) \<Rightarrow> if my_field_count A s = 0 then db_ret [] s else db_throw (my_error A s) s
       | (Some (names, rows), s) \<Rightarrow>
           build_rows J (map (\<lambda>row. zip names (map (\<lambda>v. case v of None \<Rightarrow> js_null J | Some t \<Rightarrow> js_of_str J t) row)) rows) s)"

definition my_insert :: "'s my_api \<Rightarrow> 'j json_api \<Rightarrow> 'j scalar_api \<Rightarrow> string \<Rightarrow> 'j list \<Rightarrow> ('s, int) dbm" where
  "my_insert A J K sql params = db_bind (my_exec A J K sql params) (\<lambda>_ s. db_ret (my_insert_id A s) s)"

definition my_engine :: "(nat \<Rightarrow> 's my_api) \<Rightarrow> 'j json_api \<Rightarrow> 'j scalar_api \<Rightarrow> ('s, 'j) sql_engine" where
  "my_engine A J K =
     \<lparr>en_exec = \<lambda>e. my_exec (A e) J K, en_query = \<lambda>e. my_query (A e) J K, en_insert = \<lambda>e. my_insert (A e) J K,
      en_begin = \<lambda>e. simple_stmt (my_exec (A e) J K) ''START TRANSACTION'',
      en_commit = \<lambda>e. simple_stmt (my_exec (A e) J K) ''COMMIT'',
      en_rollback = \<lambda>e. simple_stmt (my_exec (A e) J K) ''ROLLBACK''\<rparr>"

section \<open>MongoDB\<close>

text \<open>\<open>'b\<close> are the driver's documents; conversions throw (\<open>None\<close>) on text that is not a document.\<close>

record find_options =
  fo_limit :: "int option"
  fo_skip :: "int option"
  fo_sort :: "(string \<times> int) option"

record ('s, 'b) mongo_api =
  mg_from_json :: "string \<Rightarrow> 'b option"
  mg_to_json :: "'b \<Rightarrow> string"
  mg_insert_one :: "string \<Rightarrow> 'b \<Rightarrow> ('s, unit) dbm"
  mg_find_one :: "string \<Rightarrow> 'b \<Rightarrow> ('s, 'b option) dbm"
  mg_find :: "string \<Rightarrow> 'b \<Rightarrow> find_options \<Rightarrow> ('s, 'b list) dbm"
  mg_update_many :: "string \<Rightarrow> 'b \<Rightarrow> 'b \<Rightarrow> ('s, int) dbm"
  mg_delete_many :: "string \<Rightarrow> 'b \<Rightarrow> ('s, int) dbm"
  mg_count :: "string \<Rightarrow> 'b \<Rightarrow> ('s, int) dbm"
  mg_create_index :: "string \<Rightarrow> 'b \<Rightarrow> bool \<Rightarrow> ('s, unit) dbm"
  mg_drop :: "string \<Rightarrow> ('s, unit) dbm"

definition to_bson :: "('s, 'b) mongo_api \<Rightarrow> 'j json_api \<Rightarrow> 'j \<Rightarrow> ('s, 'b) dbm" where
  "to_bson A J d = (case Option.bind (js_dump J d) (mg_from_json A) of None \<Rightarrow> json_fail | Some b \<Rightarrow> db_ret b)"

definition of_bson :: "('s, 'b) mongo_api \<Rightarrow> 'j json_api \<Rightarrow> 'b \<Rightarrow> ('s, 'j) dbm" where
  "of_bson A J b = (case js_parse J (mg_to_json A b) of None \<Rightarrow> json_fail | Some d \<Rightarrow> db_ret d)"

definition mongo_insert_one :: "('s, 'b) mongo_api \<Rightarrow> 'j json_api \<Rightarrow> string \<Rightarrow> 'j \<Rightarrow> ('s, unit) dbm" where
  "mongo_insert_one A J coll d = db_bind (to_bson A J d) (mg_insert_one A coll)"

definition mongo_find_one :: "('s, 'b) mongo_api \<Rightarrow> 'j json_api \<Rightarrow> string \<Rightarrow> 'j \<Rightarrow> ('s, 'j option) dbm" where
  "mongo_find_one A J coll flt =
     db_bind (to_bson A J flt) (\<lambda>f.
     db_bind (mg_find_one A coll f) (\<lambda>r.
       case r of None \<Rightarrow> db_ret None | Some b \<Rightarrow> db_bind (of_bson A J b) (\<lambda>d. db_ret (Some d))))"

fun of_bsons :: "('s, 'b) mongo_api \<Rightarrow> 'j json_api \<Rightarrow> 'b list \<Rightarrow> ('s, 'j list) dbm" where
  "of_bsons A J [] = db_ret []"
| "of_bsons A J (b # bs) = db_bind (of_bson A J b) (\<lambda>d. db_bind (of_bsons A J bs) (\<lambda>ds. db_ret (d # ds)))"

definition mongo_find :: "('s, 'b) mongo_api \<Rightarrow> 'j json_api \<Rightarrow> string \<Rightarrow> 'j \<Rightarrow> int \<Rightarrow> int \<Rightarrow> string \<Rightarrow> bool \<Rightarrow> ('s, 'j list) dbm" where
  "mongo_find A J coll flt limit skip sort_field asc =
     (let opts = \<lparr>fo_limit = (if limit > 0 then Some limit else None), fo_skip = (if skip > 0 then Some skip else None),
                  fo_sort = (if sort_field \<noteq> [] then Some (sort_field, if asc then 1 else -1) else None)\<rparr>
      in db_bind (to_bson A J flt) (\<lambda>f. db_bind (mg_find A coll f opts) (of_bsons A J)))"

text \<open>The update document wraps the fields in \<open>$set\<close>.\<close>

definition mongo_update_many :: "('s, 'b) mongo_api \<Rightarrow> 'j json_api \<Rightarrow> string \<Rightarrow> 'j \<Rightarrow> 'j \<Rightarrow> ('s, int) dbm" where
  "mongo_update_many A J coll flt set_fields =
     db_bind (to_bson A J flt) (\<lambda>f.
       case js_put J (js_object J) ''$set'' set_fields of
         None \<Rightarrow> json_fail
       | Some u \<Rightarrow> db_bind (to_bson A J u) (mg_update_many A coll f))"

definition mongo_delete_many :: "('s, 'b) mongo_api \<Rightarrow> 'j json_api \<Rightarrow> string \<Rightarrow> 'j \<Rightarrow> ('s, int) dbm" where
  "mongo_delete_many A J coll flt = db_bind (to_bson A J flt) (mg_delete_many A coll)"

definition mongo_count :: "('s, 'b) mongo_api \<Rightarrow> 'j json_api \<Rightarrow> string \<Rightarrow> 'j \<Rightarrow> ('s, int) dbm" where
  "mongo_count A J coll flt = db_bind (to_bson A J flt) (mg_count A coll)"

definition mongo_create_index :: "('s, 'b) mongo_api \<Rightarrow> 'j json_api \<Rightarrow> string \<Rightarrow> 'j \<Rightarrow> bool \<Rightarrow> ('s, unit) dbm" where
  "mongo_create_index A J coll keys uniq = db_bind (to_bson A J keys) (\<lambda>k. mg_create_index A coll k uniq)"

definition mongo_engine :: "('s, 'b) mongo_api \<Rightarrow> 'j json_api \<Rightarrow> ('s, 'j) doc_ops" where
  "mongo_engine A J =
     \<lparr>do_insert_one = mongo_insert_one A J, do_find_one = mongo_find_one A J, do_find = mongo_find A J,
      do_update_many = mongo_update_many A J, do_delete_many = mongo_delete_many A J, do_count = mongo_count A J,
      do_create_index = mongo_create_index A J, do_drop = mg_drop A\<rparr>"

text \<open>The factory: the in-memory engine for its scheme, else the driver's, if it was built in.\<close>

datatype doc_engine_kind = MemoryDocs | DriverDocs

definition make_mongo_engine :: "bool \<Rightarrow> string \<Rightarrow> string + doc_engine_kind" where
  "make_mongo_engine built_in uri =
     (if uri = ''memory://'' \<or> starts_with uri ''memory://'' then Inr MemoryDocs
      else if built_in then Inr DriverDocs
      else Inl (''Mongo URI requires SOCKETIFY_WITH_MONGO=ON, or use Mongo{.uri='' @ [DQ] @ ''memory://'' @ [DQ] @ ''} for in-process documents''))"

section \<open>MySQL: a value stays a value\<close>

text \<open>How MySQL reads a string literal, from behind its opening quote: the value and what follows the closing quote. A
  backslash escapes the next character, a doubled quote is a quote.\<close>

definition unescaped :: "char \<Rightarrow> char" where
  "unescaped c = (if c = CHR ''0'' then NUL else if c = CHR ''n'' then LF else if c = CHR ''r'' then CR
     else if c = CHR ''Z'' then CHR 0x1A else if c = CHR ''t'' then TAB else if c = CHR ''b'' then CHR 0x08 else c)"

fun read_literal :: "string \<Rightarrow> (string \<times> string) option" where
  "read_literal [] = None"
| "read_literal [c] = (if c = SQ then Some ([], []) else None)"
| "read_literal (c # d # cs) =
     (if c = CHR 0x5C then map_option (apfst (Cons (unescaped d))) (read_literal cs)
      else if c = SQ then (if d = SQ then map_option (apfst (Cons SQ)) (read_literal cs) else Some ([], d # cs))
      else map_option (apfst (Cons c)) (read_literal (d # cs)))"

lemma read_literal_length: "read_literal s = Some (v, r) \<Longrightarrow> length r < length s"
  by (induction s arbitrary: v rule: read_literal.induct) (fastforce split: if_splits)+

datatype my_token = Plain char | Literal string | Unclosed

function my_tokens :: "string \<Rightarrow> my_token list" where
  "my_tokens [] = []"
| "my_tokens (c # cs) =
     (if c = SQ then (case read_literal cs of None \<Rightarrow> [Unclosed] | Some (v, r) \<Rightarrow> Literal v # my_tokens r)
      else Plain c # my_tokens cs)"
  by pat_completeness auto
termination
  by (relation "measure length") (auto dest: read_literal_length)

text \<open>What the statement is meant to be: the template with values at its markers.\<close>

definition value_tokens :: "'j json_api \<Rightarrow> 'j scalar_api \<Rightarrow> 'j \<Rightarrow> my_token list" where
  "value_tokens J K v =
     (if js_is_null J v then map Plain ''NULL''
      else if js_is_bool J v then map Plain (if sc_bool K v then ''1'' else ''0'')
      else case js_integer J v of
        Some n \<Rightarrow> map Plain (show_int (wrap64 n))
      | None \<Rightarrow>
          (case js_double J v of
             Some x \<Rightarrow> map Plain (show_f6 x)
           | None \<Rightarrow> [Literal (case js_as_str J v of Some s \<Rightarrow> s | None \<Rightarrow> the (js_dump J v))]))"

fun template_tokens :: "'j json_api \<Rightarrow> 'j scalar_api \<Rightarrow> string \<Rightarrow> 'j list \<Rightarrow> my_token list" where
  "template_tokens J K [] ps = []"
| "template_tokens J K (c # cs) [] = Plain c # template_tokens J K cs []"
| "template_tokens J K (c # cs) (p # ps) =
     (if c = CHR ''?'' then value_tokens J K p @ template_tokens J K cs ps else Plain c # template_tokens J K cs (p # ps))"

text \<open>Two markers in a row would make one literal of two.\<close>

fun markers_apart :: "string \<Rightarrow> bool" where
  "markers_apart (c # d # cs) \<longleftrightarrow> \<not> (c = CHR ''?'' \<and> d = CHR ''?'') \<and> markers_apart (d # cs)"
| "markers_apart _ \<longleftrightarrow> True"

text \<open>The documented behaviour of \<open>mysql_real_escape_string\<close>: between quotes, the result is read as the argument.\<close>

definition escape_law :: "(string \<Rightarrow> string) \<Rightarrow> bool" where
  "escape_law esc \<longleftrightarrow> (\<forall>s r. r = [] \<or> hd r \<noteq> SQ \<longrightarrow> read_literal (esc s @ SQ # r) = Some (s, r))"

lemma tokens_plain: "SQ \<notin> set s \<Longrightarrow> my_tokens (s @ r) = map Plain s @ my_tokens r"
  by (induction s) auto

lemma show_nat_no_quote: "SQ \<notin> set (show_nat n)"
  using show_nat_dec [of n] by (auto simp: is_dec_def)

lemma show_no_quote: "SQ \<notin> set (show_int n)" "SQ \<notin> set (show_f6 x)"
  using show_nat_no_quote by (auto simp: show_int_def show_f6_def Let_def)

lemma value_reads:
  assumes "escape_law esc" "my_value esc J K v = Some t" "r = [] \<or> hd r \<noteq> SQ"
  shows "my_tokens (t @ r) = value_tokens J K v @ my_tokens r"
proof -
  have lit: "my_tokens ([SQ] @ esc s @ [SQ] @ r) = Literal s # my_tokens r" for s
  proof -
    have "read_literal (esc s @ SQ # r) = Some (s, r)" using assms(1,3) unfolding escape_law_def by blast
    then show ?thesis by simp
  qed
  have plain: "SQ \<notin> set ''NULL''" "SQ \<notin> set ''1''" "SQ \<notin> set ''0''" by simp_all
  show ?thesis
    using assms(2) lit tokens_plain [OF plain(1), of r] tokens_plain [OF plain(2), of r] tokens_plain [OF plain(3), of r]
      tokens_plain [OF show_no_quote(1), of _ r] tokens_plain [OF show_no_quote(2), of _ r]
    by (auto simp: my_value_def value_tokens_def split: if_splits option.splits)
qed

lemma bound_head:
  assumes "bind_sql esc J K (c # cs) ps = Inr out" "c \<noteq> CHR ''?''" "c \<noteq> SQ"
  shows "out = [] \<or> hd out \<noteq> SQ"
  using assms by (auto split: sum.splits)

lemma bound_nil: "bind_sql esc J K [] ps = Inr out \<Longrightarrow> out = [] \<or> hd out \<noteq> SQ"
  by simp

lemma bind_sql_tokens:
  assumes "escape_law esc"
  shows "SQ \<notin> set sql \<Longrightarrow> markers_apart sql \<Longrightarrow> bind_sql esc J K sql ps = Inr out \<Longrightarrow> my_tokens out = template_tokens J K sql ps"
proof (induction sql arbitrary: ps out)
  case Nil
  then show ?case by simp
next
  case (Cons c cs)
  have apart: "markers_apart cs" using Cons.prems(2) by (cases cs) auto
  show ?case
  proof (cases "c = CHR ''?''")
    case False
    then obtain out' where o: "bind_sql esc J K cs ps = Inr out'" "out = c # out'" using Cons.prems(3) by (auto split: sum.splits)
    then show ?thesis using Cons.IH [OF _ apart o(1)] Cons.prems(1) False by (cases ps) auto
  next
    case True
    then obtain p ps' t out' where o: "ps = p # ps'" "my_value esc J K p = Some t" "bind_sql esc J K cs ps' = Inr out'" "out = t @ out'"
      using Cons.prems(3) by (auto split: list.splits option.splits sum.splits)
    have "out' = [] \<or> hd out' \<noteq> SQ"
    proof (cases cs)
      case Nil
      then show ?thesis using bound_nil o(3) by blast
    next
      case (Cons d ds)
      then show ?thesis using bound_head [of esc J K d ds ps' out'] o(3) Cons.prems(1,2) True \<open>c = CHR ''?''\<close> by auto
    qed
    from value_reads [OF assms o(2) this] show ?thesis
      using Cons.IH [OF _ apart o(3)] Cons.prems(1) True by (simp add: o(1,4))
  qed
qed

text \<open>The function as its documentation describes it.\<close>

definition escape_char :: "char \<Rightarrow> string" where
  "escape_char c =
     (if c = NUL then [CHR 0x5C, CHR ''0''] else if c = LF then [CHR 0x5C, CHR ''n''] else if c = CR then [CHR 0x5C, CHR ''r'']
      else if c = CHR 0x1A then [CHR 0x5C, CHR ''Z''] else if c \<in> {CHR 0x5C, SQ, DQ} then [CHR 0x5C, c] else [c])"

lemma read_literal_step:
  assumes "rest \<noteq> []"
  shows "read_literal (escape_char c @ rest) = map_option (apfst (Cons c)) (read_literal rest)"
proof -
  obtain d ds where r: "rest = d # ds" using assms by (cases rest) auto
  consider "c = NUL" | "c = LF" | "c = CR" | "c = CHR 0x1A" | "c \<in> {CHR 0x5C, SQ, DQ}" | "c \<notin> {NUL, LF, CR, CHR 0x1A, CHR 0x5C, SQ, DQ}"
    by blast
  then show ?thesis by cases (auto simp: escape_char_def unescaped_def r)
qed

lemma escape_char_law: "escape_law (\<lambda>s. concat (map escape_char s))"
proof -
  have "read_literal (concat (map escape_char s) @ SQ # r) = Some (s, r)" if "r = [] \<or> hd r \<noteq> SQ" for s r
  proof (induction s)
    case Nil
    show ?case using that by (cases r) auto
  next
    case (Cons c s)
    have "read_literal (escape_char c @ concat (map escape_char s) @ SQ # r) =
        map_option (apfst (Cons c)) (read_literal (concat (map escape_char s) @ SQ # r))"
      by (rule read_literal_step) simp
    then show ?case by (simp add: Cons)
  qed
  then show ?thesis by (simp add: escape_law_def)
qed



section \<open>PostgreSQL: markers are numbered\<close>

fun numbered :: "nat \<Rightarrow> string list \<Rightarrow> string" where
  "numbered n [] = []"
| "numbered n (p # ps) = CHR ''$'' # show_nat (n + 1) @ p @ numbered (n + 1) ps"

lemma rewrite_from_fields:
  "rewrite_from n sql = hd (Utils.fields CHR ''?'' sql) @ numbered n (tl (Utils.fields CHR ''?'' sql))"
proof (induction sql arbitrary: n)
  case (Cons c cs)
  obtain f fs where "Utils.fields CHR ''?'' cs = f # fs" by (cases "Utils.fields CHR ''?'' cs") auto
  then show ?case using Cons by simp
qed simp

section \<open>Observations\<close>

text \<open>Markers are sought also inside quoted identifiers and literals: the next value is written there.\<close>

lemma marker_in_identifier:
  "rewrite_placeholders ([DQ] @ ''a?'' @ [DQ] @ '' = ?'') = [DQ] @ ''a$1'' @ [DQ] @ '' = $2''"
  "bind_sql esc (doc_json []) K ([CHR 0x60] @ ''a?'' @ [CHR 0x60]) [DStr v] =
     Inr ([CHR 0x60] @ ''a'' @ [SQ] @ esc v @ [SQ] @ [CHR 0x60])"
proof -
  have "show_nat 1 = ''1''" "show_nat 2 = ''2''" by code_simp+
  then show "rewrite_placeholders ([DQ] @ ''a?'' @ [DQ] @ '' = ?'') = [DQ] @ ''a$1'' @ [DQ] @ '' = $2''"
    by (simp add: rewrite_placeholders_def numeral_2_eq_2)
qed (simp add: my_value_def)

text \<open>A small number is bound as zero.\<close>

lemma small_real_lost: "show_f6 (1 / 10000000) = ''0.000000''"
proof -
  have "show_nat 0 = ''0''" by code_simp
  moreover have "replicate 5 CHR ''0'' = ''00000''" by (simp add: numeral_eq_Suc)
  ultimately show ?thesis by (simp add: show_f6_def Let_def)
qed

text \<open>A text column comes back cut at its first NUL byte, though it was bound with its length.\<close>

lemma text_cut_at_nul:
  "bind_value (doc_json []) K (DStr (''a'' @ [NUL] @ ''b'')) = Some (SqlText (''a'' @ [NUL] @ ''b''))"
  "column_value (doc_json []) K (ColText (''a'' @ [NUL] @ ''b'')) = DStr ''a''"
  by (simp_all add: bind_value_def column_value_def c_str_def)

text \<open>A space in the password starts another connection parameter.\<close>

lemma password_adds_parameter:
  "pg_conninfo h p d u ''x sslmode=disable'' = pg_conninfo h p d u ''x'' @ '' sslmode=disable''"
  by (simp add: pg_conninfo_def)

end
