(* ===== verification/Sockets.thy ===== *)
theory Sockets
  imports CLib
begin

text \<open>
  Sockets and files: \<open>include/socketify/detail/socket.h\<close>, \<open>file_io.h\<close>, \<open>src/detail/socket_posix.cpp\<close>,
  \<open>file_io_posix.cpp\<close>. The system calls and OpenSSL are arguments, a record of operations on the kernel's state; what
  the program makes of their results is here: which outcome of the five a call has, who owns a descriptor, how a file is
  read to the end of a range.
\<close>

section \<open>The system\<close>

datatype errno = EAGAIN | EINTR | EPIPE | ECONNRESET | EOther
datatype fcntl_cmd = F_GETFL | F_SETFL | F_GETFD | F_SETFD
datatype ssl_err = SslWantRead | SslWantWrite | SslZeroReturn | SslSyscall | SslOther

text \<open>Calls that deliver bytes return them beside the result; \<open>sy_sendfile\<close> gets offset and length; \<open>sy_fstat\<close>
  returns whether the file is regular, its length and its time, or nothing.\<close>

record 'k sys_api =
  sy_errno :: "'k \<Rightarrow> errno"
  sy_recv :: "int \<Rightarrow> nat \<Rightarrow> 'k \<Rightarrow> (int \<times> string) \<times> 'k"
  sy_send :: "int \<Rightarrow> string \<Rightarrow> 'k \<Rightarrow> int \<times> 'k"
  sy_sendfile :: "int \<Rightarrow> int \<Rightarrow> nat \<Rightarrow> nat \<Rightarrow> 'k \<Rightarrow> int \<times> 'k"
  sy_pread :: "int \<Rightarrow> nat \<Rightarrow> nat \<Rightarrow> 'k \<Rightarrow> (int \<times> string) \<times> 'k"
  sy_close :: "int \<Rightarrow> 'k \<Rightarrow> 'k"
  sy_open :: "string \<Rightarrow> 'k \<Rightarrow> int \<times> 'k"
  sy_fstat :: "int \<Rightarrow> 'k \<Rightarrow> (bool \<times> nat \<times> int) option \<times> 'k"
  sy_fcntl :: "int \<Rightarrow> fcntl_cmd \<Rightarrow> int \<Rightarrow> 'k \<Rightarrow> int \<times> 'k"
  sy_nodelay :: "int \<Rightarrow> int \<Rightarrow> 'k \<Rightarrow> int \<times> 'k"
  sy_ssl_accept :: "nat \<Rightarrow> 'k \<Rightarrow> int \<times> 'k"
  sy_ssl_read :: "nat \<Rightarrow> int \<Rightarrow> 'k \<Rightarrow> (int \<times> string) \<times> 'k"
  sy_ssl_write :: "nat \<Rightarrow> string \<Rightarrow> int \<Rightarrow> 'k \<Rightarrow> int \<times> 'k"
  sy_ssl_error :: "nat \<Rightarrow> int \<Rightarrow> 'k \<Rightarrow> ssl_err"
  sy_ssl_clear :: "'k \<Rightarrow> 'k"
  sy_ssl_free :: "nat \<Rightarrow> 'k \<Rightarrow> 'k"

section \<open>Sockets\<close>

datatype io_result = ResOk | ResWantRead | ResWantWrite | ResClosed | ResError

text \<open>\<open>so_fd\<close> is -1 when closed; \<open>so_ssl\<close> names the TLS session.\<close>

record sock =
  so_fd :: int
  so_ssl :: "nat option"
  so_handshaken :: bool
  so_remote_ip :: string

definition no_sock :: sock where
  "no_sock = \<lparr>so_fd = -1, so_ssl = None, so_handshaken = False, so_remote_ip = []\<rparr>"

text \<open>\<open>O_NONBLOCK\<close> is 2048 and \<open>FD_CLOEXEC\<close> is 1.\<close>

definition set_nonblocking :: "'k sys_api \<Rightarrow> int \<Rightarrow> 'k \<Rightarrow> bool \<times> 'k" where
  "set_nonblocking A fd k =
     (case sy_fcntl A fd F_GETFL 0 k of
        (flags, k) \<Rightarrow>
          if flags < 0 then (False, k)
          else (case sy_fcntl A fd F_SETFL (or flags 2048) k of (rc, k) \<Rightarrow> (rc = 0, k)))"

definition set_cloexec :: "'k sys_api \<Rightarrow> int \<Rightarrow> 'k \<Rightarrow> bool \<times> 'k" where
  "set_cloexec A fd k =
     (case sy_fcntl A fd F_GETFD 0 k of
        (flags, k) \<Rightarrow>
          if flags < 0 then (False, k)
          else (case sy_fcntl A fd F_SETFD (or flags 1) k of (rc, k) \<Rightarrow> (rc = 0, k)))"

definition set_nodelay :: "'k sys_api \<Rightarrow> int \<Rightarrow> 'k \<Rightarrow> bool \<times> 'k" where
  "set_nodelay A fd k = (case sy_nodelay A fd 1 k of (rc, k) \<Rightarrow> (rc = 0, k))"

text \<open>The constructor takes no notice of whether the flags could be set.\<close>

definition new_sock :: "'k sys_api \<Rightarrow> int \<Rightarrow> 'k \<Rightarrow> sock \<times> 'k" where
  "new_sock A fd k =
     (no_sock\<lparr>so_fd := fd\<rparr>,
      if fd \<ge> 0 then snd (set_nodelay A fd (snd (set_cloexec A fd (snd (set_nonblocking A fd k))))) else k)"

definition adopt_tls :: "nat \<Rightarrow> sock \<Rightarrow> sock" where
  "adopt_tls ssl s = s\<lparr>so_ssl := Some ssl, so_handshaken := False\<rparr>"

text \<open>Moving: the new owner, and what is left behind.\<close>

definition sock_move :: "sock \<Rightarrow> sock \<times> sock" where
  "sock_move other = (other, other\<lparr>so_fd := -1, so_ssl := None, so_remote_ip := []\<rparr>)"

definition sock_close :: "'k sys_api \<Rightarrow> sock \<Rightarrow> 'k \<Rightarrow> sock \<times> 'k" where
  "sock_close A s k =
     (let (s, k) = (case so_ssl s of None \<Rightarrow> (s, k) | Some ssl \<Rightarrow> (s\<lparr>so_ssl := None\<rparr>, sy_ssl_free A ssl k))
      in if so_fd s \<ge> 0 then (s\<lparr>so_fd := -1\<rparr>, sy_close A (so_fd s) k) else (s, k))"

definition sock_assign :: "'k sys_api \<Rightarrow> sock \<Rightarrow> sock \<Rightarrow> 'k \<Rightarrow> sock \<times> sock \<times> 'k" where
  "sock_assign A this other k = (case sock_close A this k of (_, k) \<Rightarrow> (case sock_move other of (s, r) \<Rightarrow> (s, r, k)))"

definition would_block :: "errno \<Rightarrow> bool" where
  "would_block e \<longleftrightarrow> e = EAGAIN"

definition map_ssl_error :: "'k sys_api \<Rightarrow> nat \<Rightarrow> int \<Rightarrow> 'k \<Rightarrow> io_result \<times> 'k" where
  "map_ssl_error A ssl ret k =
     (case sy_ssl_error A ssl ret k of
        SslWantRead \<Rightarrow> (ResWantRead, k)
      | SslWantWrite \<Rightarrow> (ResWantWrite, k)
      | SslZeroReturn \<Rightarrow> (ResClosed, k)
      | SslSyscall \<Rightarrow> (if ret = 0 then ResClosed else if would_block (sy_errno A k) then ResWantRead else ResError, k)
      | SslOther \<Rightarrow> (ResError, sy_ssl_clear A k))"

definition sock_handshake :: "'k sys_api \<Rightarrow> sock \<Rightarrow> 'k \<Rightarrow> io_result \<times> sock \<times> 'k" where
  "sock_handshake A s k =
     (case so_ssl s of
        None \<Rightarrow> (ResOk, s, k)
      | Some ssl \<Rightarrow>
          if so_handshaken s then (ResOk, s, k)
          else (case sy_ssl_accept A ssl k of
                  (rc, k) \<Rightarrow>
                    if rc = 1 then (ResOk, s\<lparr>so_handshaken := True\<rparr>, k)
                    else (case map_ssl_error A ssl rc k of (r, k) \<Rightarrow> (r, s, k))))"

text \<open>\<open>static_cast<int>\<close> of a length.\<close>

definition int_cast :: "nat \<Rightarrow> int" where
  "int_cast n = (int n + 2 ^ 31) mod 2 ^ 32 - 2 ^ 31"

text \<open>The result of a read: the outcome and the bytes.\<close>

definition sock_read :: "'k sys_api \<Rightarrow> nat \<Rightarrow> sock \<Rightarrow> 'k \<Rightarrow> io_result \<times> string \<times> 'k" where
  "sock_read A len s k =
     (if so_fd s < 0 then (ResError, [], k)
      else case so_ssl s of
        Some ssl \<Rightarrow>
          (case sy_ssl_read A ssl (int_cast len) k of
             ((rc, bytes), k) \<Rightarrow>
               if rc > 0 then (ResOk, bytes, k) else (case map_ssl_error A ssl rc k of (r, k) \<Rightarrow> (r, [], k)))
      | None \<Rightarrow>
          (case sy_recv A (so_fd s) len k of
             ((rc, bytes), k) \<Rightarrow>
               if rc > 0 then (ResOk, bytes, k)
               else if rc = 0 then (ResClosed, [], k)
               else if would_block (sy_errno A k) \<or> sy_errno A k = EINTR then (ResWantRead, [], k)
               else (ResError, [], k)))"

text \<open>The result of a write: the outcome and the number of bytes taken.\<close>

definition sock_write :: "'k sys_api \<Rightarrow> string \<Rightarrow> sock \<Rightarrow> 'k \<Rightarrow> io_result \<times> nat \<times> 'k" where
  "sock_write A data s k =
     (if so_fd s < 0 then (ResError, 0, k)
      else case so_ssl s of
        Some ssl \<Rightarrow>
          (case sy_ssl_write A ssl data (int_cast (length data)) k of
             (rc, k) \<Rightarrow>
               if rc > 0 then (ResOk, nat rc, k) else (case map_ssl_error A ssl rc k of (r, k) \<Rightarrow> (r, 0, k)))
      | None \<Rightarrow>
          (case sy_send A (so_fd s) data k of
             (rc, k) \<Rightarrow>
               if rc > 0 then (ResOk, nat rc, k)
               else if rc = 0 then (ResWantWrite, 0, k)
               else if would_block (sy_errno A k) \<or> sy_errno A k = EINTR then (ResWantWrite, 0, k)
               else if sy_errno A k = EPIPE \<or> sy_errno A k = ECONNRESET then (ResClosed, 0, k)
               else (ResError, 0, k)))"

text \<open>Sending from a file: the outcome, the new offset, the bytes sent.\<close>

definition sock_send_file :: "'k sys_api \<Rightarrow> int \<Rightarrow> nat \<Rightarrow> nat \<Rightarrow> sock \<Rightarrow> 'k \<Rightarrow> io_result \<times> nat \<times> nat \<times> 'k" where
  "sock_send_file A file offset len s k =
     (if so_fd s < 0 then (ResError, offset, 0, k)
      else if so_ssl s = None then
        (case sy_sendfile A (so_fd s) file offset len k of
           (rc, k) \<Rightarrow>
             if rc > 0 then (ResOk, offset + nat rc, nat rc, k)
             else if rc = 0 then (ResOk, offset, 0, k)
             else if would_block (sy_errno A k) \<or> sy_errno A k = EINTR then (ResWantWrite, offset, 0, k)
             else if sy_errno A k = EPIPE \<or> sy_errno A k = ECONNRESET then (ResClosed, offset, 0, k)
             else (ResError, offset, 0, k))
      else
        (case sy_pread A file offset (if len < 65536 then len else 65536) k of
           ((rd, chunk), k) \<Rightarrow>
             if rd < 0 then (ResError, offset, 0, k)
             else if rd = 0 then (ResOk, offset, 0, k)
             else (case sock_write A chunk s k of
                     (r, written, k) \<Rightarrow> if r = ResOk then (r, offset + written, written, k) else (r, offset, 0, k))))"

section \<open>Files\<close>

record file_handle =
  fh_fd :: int
  fh_size :: nat
  fh_mtime :: int

definition no_file :: file_handle where
  "no_file = \<lparr>fh_fd = -1, fh_size = 0, fh_mtime = 0\<rparr>"

definition file_close :: "'k sys_api \<Rightarrow> file_handle \<Rightarrow> 'k \<Rightarrow> file_handle \<times> 'k" where
  "file_close A f k = (no_file, if fh_fd f \<ge> 0 then sy_close A (fh_fd f) k else k)"

definition file_open :: "'k sys_api \<Rightarrow> string \<Rightarrow> file_handle \<Rightarrow> 'k \<Rightarrow> bool \<times> file_handle \<times> 'k" where
  "file_open A path f k =
     (case file_close A f k of
        (f, k) \<Rightarrow>
          (case sy_open A (c_str path) k of
             (fd, k) \<Rightarrow>
               if fd < 0 then (False, f, k)
               else (case sy_fstat A fd k of
                       (Some (True, sz, mtime), k) \<Rightarrow> (True, \<lparr>fh_fd = fd, fh_size = sz, fh_mtime = mtime\<rparr>, k)
                     | (_, k) \<Rightarrow> (False, f, sy_close A fd k))))"

text \<open>The loop of \<open>read_file_range\<close>; \<open>None\<close>: a read has failed. A positive result delivers that many bytes.\<close>

function read_range :: "'k sys_api \<Rightarrow> int \<Rightarrow> nat \<Rightarrow> nat \<Rightarrow> string \<Rightarrow> 'k \<Rightarrow> string option \<times> 'k" where
  "read_range A fd offset len got k =
     (if length got < len then
        (case sy_pread A fd (offset + length got) (len - length got) k of
           ((rc, bytes), k) \<Rightarrow>
             if rc < 0 then (None, k)
             else if rc = 0 \<or> bytes = [] then (Some got, k)
             else read_range A fd offset len (got @ bytes) k)
      else (Some got, k))"
  by pat_completeness auto
termination
  by (relation "measure (\<lambda>(A, fd, offset, len, got, k). len - length got)") (auto intro: diff_less_mono2)

declare read_range.simps [simp del]

definition read_file_range :: "'k sys_api \<Rightarrow> string \<Rightarrow> nat \<Rightarrow> nat \<Rightarrow> 'k \<Rightarrow> string option \<times> 'k" where
  "read_file_range A path offset len k =
     (case file_open A path no_file k of
        (False, f, k) \<Rightarrow> (None, k)
      | (True, f, k) \<Rightarrow>
          (case read_range A (fh_fd f) offset len [] k of (r, k) \<Rightarrow> (r, snd (file_close A f k))))"

section \<open>What the kernel is taken to promise\<close>

text \<open>
  Two views of the kernel's state that no program can look at: \<open>sent\<close>, the bytes a descriptor has been given, and
  \<open>fds\<close>, the descriptors that are open. \<open>transfers_ok\<close>: a transfer is of a prefix of what was offered, and not longer; a
  transfer from a file is of the bytes the file has there (its contents do not change). \<open>reads_ok\<close>: a read delivers a
  prefix of what the file has there, and nothing only at its end. \<open>fds_ok\<close>: opening and closing change the set, reading
  does not.
\<close>

definition transfers_ok :: "'k sys_api \<Rightarrow> ('k \<Rightarrow> string) \<Rightarrow> (int \<Rightarrow> string) \<Rightarrow> bool" where
  "transfers_ok A sent content \<longleftrightarrow>
     (\<forall>fd data k. let (rc, k') = sy_send A fd data k in
        rc \<le> int (length data) \<and> sent k' = sent k @ take (nat rc) data) \<and>
     (\<forall>ssl data n k. let (rc, k') = sy_ssl_write A ssl data n k in
        rc \<le> int (length data) \<and> sent k' = sent k @ take (nat rc) data) \<and>
     (\<forall>fd f off n k. let (rc, k') = sy_sendfile A fd f off n k in
        rc \<le> int n \<and> rc \<le> int (length (drop off (content f))) \<and> sent k' = sent k @ take (nat rc) (drop off (content f))) \<and>
     (\<forall>f off n k. sent (snd (sy_pread A f off n k)) = sent k) \<and> (\<forall>k. sent (sy_ssl_clear A k) = sent k)"

definition reads_ok :: "'k sys_api \<Rightarrow> (int \<Rightarrow> string) \<Rightarrow> bool" where
  "reads_ok A content \<longleftrightarrow>
     (\<forall>f off n k. let ((rc, bytes), k') = sy_pread A f off n k in
        (0 \<le> rc \<longrightarrow> int (length bytes) = rc \<and> length bytes \<le> n \<and> bytes = take (length bytes) (drop off (content f))) \<and>
        (rc = 0 \<and> 0 < n \<longrightarrow> length (content f) \<le> off))"

definition fds_ok :: "'k sys_api \<Rightarrow> ('k \<Rightarrow> int set) \<Rightarrow> bool" where
  "fds_ok A fds \<longleftrightarrow>
     (\<forall>p k. let (fd, k') = sy_open A p k in if fd < 0 then fds k' = fds k else fd \<notin> fds k \<and> fds k' = insert fd (fds k)) \<and>
     (\<forall>fd k. fds (snd (sy_fstat A fd k)) = fds k) \<and>
     (\<forall>f off n k. fds (snd (sy_pread A f off n k)) = fds k) \<and>
     (\<forall>fd k. fds (sy_close A fd k) = fds k - {fd})"

lemma transfers_send:
  "transfers_ok A sent content \<Longrightarrow> sy_send A fd data k = (rc, k') \<Longrightarrow>
     rc \<le> int (length data) \<and> sent k' = sent k @ take (nat rc) data"
  unfolding transfers_ok_def Let_def by (auto dest: spec split: prod.splits)

lemma transfers_ssl:
  "transfers_ok A sent content \<Longrightarrow> sy_ssl_write A ssl data n k = (rc, k') \<Longrightarrow>
     rc \<le> int (length data) \<and> sent k' = sent k @ take (nat rc) data"
  unfolding transfers_ok_def Let_def by (auto dest: spec split: prod.splits)

lemma transfers_file:
  "transfers_ok A sent content \<Longrightarrow> sy_sendfile A fd f off n k = (rc, k') \<Longrightarrow>
     rc \<le> int n \<and> rc \<le> int (length (drop off (content f))) \<and> sent k' = sent k @ take (nat rc) (drop off (content f))"
  unfolding transfers_ok_def Let_def by (auto dest: spec split: prod.splits)

lemma transfers_quiet:
  "transfers_ok A sent content \<Longrightarrow> sy_pread A f off n k = (r, k') \<Longrightarrow> sent k' = sent k"
  "transfers_ok A sent content \<Longrightarrow> sent (sy_ssl_clear A k) = sent k"
  unfolding transfers_ok_def by (metis snd_conv, blast)

lemma reads_pread:
  "reads_ok A content \<Longrightarrow> sy_pread A f off n k = ((rc, bytes), k') \<Longrightarrow>
     (0 \<le> rc \<longrightarrow> int (length bytes) = rc \<and> length bytes \<le> n \<and> bytes = take (length bytes) (drop off (content f))) \<and>
     (rc = 0 \<and> 0 < n \<longrightarrow> length (content f) \<le> off)"
  unfolding reads_ok_def Let_def by (force dest: spec split: prod.splits)

section \<open>Writing\<close>

lemma map_ssl_error_not_ok: "fst (map_ssl_error A ssl rc k) \<noteq> ResOk"
  by (simp add: map_ssl_error_def split: ssl_err.split)

lemma map_ssl_error_quiet: "transfers_ok A sent content \<Longrightarrow> sent (snd (map_ssl_error A ssl rc k)) = sent k"
  by (simp add: map_ssl_error_def transfers_quiet split: ssl_err.split)

text \<open>A write reports as many bytes as it has handed over, more than none with \<open>Ok\<close> and none otherwise.\<close>

lemma sock_write_taken:
  assumes "transfers_ok A sent content" "sock_write A data s k = (r, n, k')"
  shows "sent k' = sent k @ take n data \<and> n \<le> length data \<and> (r = ResOk \<longleftrightarrow> 0 < n)"
proof (cases "so_ssl s")
  case None
  show ?thesis
  proof (cases "so_fd s < 0")
    case True
    then show ?thesis using assms(2) by (auto simp: sock_write_def)
  next
    case False
    obtain rc k1 where w: "sy_send A (so_fd s) data k = (rc, k1)" by (metis surj_pair)
    show ?thesis
      using assms(2) None False transfers_send [OF assms(1) w] by (auto simp: sock_write_def w split: if_splits)
  qed
next
  case (Some ssl)
  show ?thesis
  proof (cases "so_fd s < 0")
    case True
    then show ?thesis using assms(2) by (auto simp: sock_write_def)
  next
    case False
    obtain rc k1 where w: "sy_ssl_write A ssl data (int_cast (length data)) k = (rc, k1)" by (metis surj_pair)
    obtain r2 k2 where e: "map_ssl_error A ssl rc k1 = (r2, k2)" by (metis surj_pair)
    have "r2 \<noteq> ResOk" "sent k2 = sent k1"
      using map_ssl_error_not_ok [of A ssl rc k1] map_ssl_error_quiet [OF assms(1), of ssl rc k1] e by auto
    then show ?thesis
      using assms(2) Some False transfers_ssl [OF assms(1) w] by (auto simp: sock_write_def w e split: if_splits)
  qed
qed

lemma int_cast_small: "n < 2 ^ 31 \<Longrightarrow> int_cast n = int n"
  by (simp add: int_cast_def)

text \<open>A length from 2 GiB on reaches OpenSSL as a negative number.\<close>

lemma int_cast_large: "2 ^ 31 \<le> n \<Longrightarrow> n < 2 ^ 32 \<Longrightarrow> int_cast n = int n - 2 ^ 32"
proof -
  assume a: "2 ^ 31 \<le> n" "n < 2 ^ 32"
  have "(int n + 2 ^ 31) mod 2 ^ 32 = (int n + 2 ^ 31 - 2 ^ 32) mod 2 ^ 32"
    by (metis minus_mod_self2)
  also have "\<dots> = int n + 2 ^ 31 - 2 ^ 32"
    using a by (intro mod_pos_pos_trivial) auto
  finally show ?thesis by (simp add: int_cast_def)
qed

section \<open>Sending a file\<close>

text \<open>
  Sending from a file never loses, repeats or invents a byte, whether by \<open>sendfile\<close> or through a TLS session, and
  whatever part of it the kernel takes. The bytes the peer has been sent grow by exactly the bytes of the file from the
  offset on, as many as are reported; the offset advances by that number; it is no more than was asked for, and none
  unless the outcome is \<open>Ok\<close>. A second call with the new offset therefore goes on where the first has stopped.
\<close>

lemma send_file_exact:
  assumes "transfers_ok A sent content" "reads_ok A content"
    and "sock_send_file A f off len s k = (r, off', n, k')"
  shows "sent k' = sent k @ take n (drop off (content f)) \<and> off' = off + n \<and> n \<le> len \<and> n \<le> length (drop off (content f)) \<and> (r \<noteq> ResOk \<longrightarrow> n = 0)"
proof -
  consider (shut) "so_fd s < 0" | (plain) "\<not> so_fd s < 0" "so_ssl s = None" | (tls) "\<not> so_fd s < 0" "so_ssl s \<noteq> None"
    by blast
  then show ?thesis
  proof cases
    case shut
    then show ?thesis using assms(3) by (auto simp: sock_send_file_def)
  next
    case plain
    obtain rc k1 where w: "sy_sendfile A (so_fd s) f off len k = (rc, k1)" by (metis surj_pair)
    show ?thesis
      using assms(3) plain transfers_file [OF assms(1) w] by (auto simp: sock_send_file_def w split: if_splits)
  next
    case tls
    let ?want = "if len < 65536 then len else 65536"
    obtain rd chunk k1 where p: "sy_pread A f off ?want k = ((rd, chunk), k1)" by (metis surj_pair)
    obtain r2 m k2 where w: "sock_write A chunk s k1 = (r2, m, k2)" by (metis prod_cases3)
    note rd = reads_pread [OF assms(2) p] and q = transfers_quiet(1) [OF assms(1) p]
      and wr = sock_write_taken [OF assms(1) w]
    show ?thesis
    proof (cases "rd \<le> 0")
      case True
      then show ?thesis using assms(3) tls q by (auto simp: sock_send_file_def p split: if_splits)
    next
      case False
      then have c: "chunk = take (length chunk) (drop off (content f))" "length chunk \<le> len"
        using rd by (auto split: if_splits)
      then have "take m chunk = take m (drop off (content f))"
        using wr by (metis min.absorb1 take_take)
      moreover have "off' = off + m \<and> n = m \<and> r = r2 \<and> k' = k2"
        using assms(3) tls False wr by (auto simp: sock_send_file_def p w split: if_splits)
      moreover have "length chunk \<le> length (drop off (content f))" using arg_cong [OF c(1), of length] by simp
      ultimately show ?thesis using wr q c(2) by auto
    qed
  qed
qed

section \<open>Reading a range\<close>

lemma read_range_content:
  "reads_ok A content \<Longrightarrow> read_range A f off len got k = (Some out, k') \<Longrightarrow> length got \<le> len \<Longrightarrow>
     got = take (length got) (drop off (content f)) \<Longrightarrow> out = take len (drop off (content f))"
proof (induction A f off len got k rule: read_range.induct)
  case (1 A f off len got k)
  show ?case
  proof (cases "length got < len")
    case False
    then have "length got = len" "out = got"
      using 1(3,4) by (auto simp: read_range.simps [of A f off len got k])
    then show ?thesis using 1(5) by simp
  next
    case True
    obtain rc bytes k1 where p: "sy_pread A f (off + length got) (len - length got) k = ((rc, bytes), k1)"
      by (metis surj_pair)
    note rd = reads_pread [OF 1(2) p]
    have nn: "\<not> rc < 0" using 1(3) True by (auto simp: read_range.simps [of A f off len got k] p)
    show ?thesis
    proof (cases "rc = 0 \<or> bytes = []")
      case True
      then have "rc = 0" using rd nn by auto
      then have "length (content f) \<le> off + length got" "out = got"
        using rd 1(3) \<open>length got < len\<close> by (auto simp: read_range.simps [of A f off len got k] p)
      moreover then have "drop off (content f) = take (length got) (drop off (content f))" by simp
      ultimately show ?thesis using 1(5) \<open>length got < len\<close> by (metis min.absorb2 less_imp_le take_take)
    next
      case False
      have step: "read_range A f off len (got @ bytes) k1 = (Some out, k')"
        using 1(3) True False nn by (simp add: read_range.simps [of A f off len got k] p)
      have "bytes = take (length bytes) (drop (length got) (drop off (content f)))" "length bytes \<le> len - length got"
        using rd nn by (auto simp: add.commute)
      then have "got @ bytes = take (length (got @ bytes)) (drop off (content f))"
        using 1(5) by (metis length_append take_add)
      moreover have "length (got @ bytes) \<le> len" using \<open>length bytes \<le> len - length got\<close> True by simp
      ultimately show ?thesis using 1(1) [OF True p [symmetric] refl nn False 1(2) step] by blast
    qed
  qed
qed

lemma fds_pread: "fds_ok A fds \<Longrightarrow> sy_pread A f off n k = (r, k') \<Longrightarrow> fds k' = fds k"
  unfolding fds_ok_def by (metis snd_conv)

lemma fds_fstat: "fds_ok A fds \<Longrightarrow> sy_fstat A f k = (r, k') \<Longrightarrow> fds k' = fds k"
  unfolding fds_ok_def by (metis snd_conv)

lemma fds_open: "fds_ok A fds \<Longrightarrow> sy_open A p k = (fd, k') \<Longrightarrow>
   if fd < 0 then fds k' = fds k else fd \<notin> fds k \<and> fds k' = insert fd (fds k)"
proof -
  assume a: "fds_ok A fds" and b: "sy_open A p k = (fd, k')"
  from a have "let (fd, k') = sy_open A p k in if fd < 0 then fds k' = fds k else fd \<notin> fds k \<and> fds k' = insert fd (fds k)"
    unfolding fds_ok_def by blast
  then show ?thesis by (simp add: b)
qed

lemma fds_close: "fds_ok A fds \<Longrightarrow> fds (sy_close A fd k) = fds k - {fd}"
  unfolding fds_ok_def by blast

lemma read_range_fds: "fds_ok A fds \<Longrightarrow> fds (snd (read_range A f off len got k)) = fds k"
proof (induction A f off len got k rule: read_range.induct)
  case (1 A f off len got k)
  obtain rc bytes k1 where p: "sy_pread A f (off + length got) (len - length got) k = ((rc, bytes), k1)"
    by (metis surj_pair)
  have q: "fds k1 = fds k" by (rule fds_pread [OF 1(2) p])
  show ?case
    using 1(1) [OF _ p [symmetric] refl _ _ 1(2)] q by (simp add: read_range.simps [of A f off len got k] p)
qed

lemma read_range_total:
  "(\<forall>f off n k. 0 \<le> fst (fst (sy_pread A f off n k))) \<Longrightarrow> fst (read_range A f off len got k) \<noteq> None"
proof (induction A f off len got k rule: read_range.induct)
  case (1 A f off len got k)
  obtain rc bytes k1 where p: "sy_pread A f (off + length got) (len - length got) k = ((rc, bytes), k1)"
    by (metis surj_pair)
  have nn: "\<not> rc < 0" using 1(2) p by (metis fst_conv not_less)
  show ?case
    using 1(1) [OF _ p [symmetric] refl nn _ 1(2)] nn by (simp add: read_range.simps [of A f off len got k] p)
qed

lemma file_close_none: "file_close A no_file k = (no_file, k)"
  by (simp add: file_close_def no_file_def)

lemma file_open_cases:
  assumes "file_open A path no_file k = (ok, f, k')"
  obtains (opened) fd sz mtime k1 where "ok" "sy_open A (c_str path) k = (fd, k1)" "0 \<le> fd"
      "sy_fstat A fd k1 = (Some (True, sz, mtime), k')" "f = \<lparr>fh_fd = fd, fh_size = sz, fh_mtime = mtime\<rparr>"
  | (absent) fd where "\<not> ok" "f = no_file" "sy_open A (c_str path) k = (fd, k')" "fd < 0"
  | (irregular) fd k1 r k2 where "\<not> ok" "f = no_file" "sy_open A (c_str path) k = (fd, k1)" "0 \<le> fd"
      "sy_fstat A fd k1 = (r, k2)" "k' = sy_close A fd k2"
proof -
  obtain fd k1 where op: "sy_open A (c_str path) k = (fd, k1)" by (metis surj_pair)
  obtain r k2 where st: "sy_fstat A fd k1 = (r, k2)" by (metis surj_pair)
  have go: "(if fd < 0 then (False, no_file, k1)
      else case r of Some (True, sz, mtime) \<Rightarrow> (True, \<lparr>fh_fd = fd, fh_size = sz, fh_mtime = mtime\<rparr>, k2)
        | _ \<Rightarrow> (False, no_file, sy_close A fd k2)) = (ok, f, k')"
    using assms by (cases "fd < 0") (simp_all add: file_open_def file_close_none op st)
  show thesis
  proof (cases "fd < 0")
    case True
    then show thesis using go op by (intro absent [of fd]) auto
  next
    case False
    show thesis
    proof (cases "\<exists>sz mtime. r = Some (True, sz, mtime)")
      case True
      then show thesis using go op st False by (elim exE, intro opened [of fd k1]) auto
    next
      case False
      then have "ok = False \<and> f = no_file \<and> k' = sy_close A fd k2"
        using go \<open>\<not> fd < 0\<close> by (auto split: option.splits prod.splits bool.splits)
      then show thesis using op st \<open>\<not> fd < 0\<close> by (intro irregular [of fd k1 r k2]) auto
    qed
  qed
qed

text \<open>A file that was not opened leaves no descriptor behind, a file that was leaves its own.\<close>

lemma file_open_fds:
  assumes "fds_ok A fds" "file_open A path no_file k = (ok, f, k')"
  shows "if ok then fh_fd f \<notin> fds k \<and> fds k' = insert (fh_fd f) (fds k) else fds k' = fds k"
  using assms(2)
proof (cases rule: file_open_cases)
  case (opened fd sz mtime k1)
  then show ?thesis using fds_open [OF assms(1) opened(2)] fds_fstat [OF assms(1) opened(4)] by auto
next
  case (absent fd)
  then show ?thesis using fds_open [OF assms(1) absent(3)] by auto
next
  case (irregular fd k1 r k2)
  then show ?thesis
    using fds_open [OF assms(1) irregular(3)] fds_fstat [OF assms(1) irregular(5)] fds_close [OF assms(1)] by auto
qed

text \<open>
  A range of a file is read whole and nothing is left open. However little each \<open>pread\<close> delivers, a result is
  exactly the bytes of the file from the offset on, as many as were asked for or as the file has; and when the function
  returns, after a read error as well as after success, the open descriptors are those that were open before.
\<close>

lemma read_file_range_exact:
  assumes "reads_ok A content" "fds_ok A fds"
    and "\<And>fd k k'. sy_open A (c_str path) k = (fd, k') \<Longrightarrow> 0 \<le> fd \<Longrightarrow> content fd = text"
    and "read_file_range A path off len k = (r, k')"
  shows "fds k' = fds k \<and> (r = None \<or> r = Some (take len (drop off text)))"
proof -
  obtain ok f k1 where o: "file_open A path no_file k = (ok, f, k1)" by (metis prod_cases3)
  obtain r2 k2 where g: "read_range A (fh_fd f) off len [] k1 = (r2, k2)" by (metis surj_pair)
  note fo = file_open_fds [OF assms(2) o]
  show ?thesis
  proof (cases ok)
    case False
    then show ?thesis using assms(4) fo o by (simp add: read_file_range_def)
  next
    case True
    from o True obtain fd k0 where fd: "sy_open A (c_str path) k = (fd, k0)" "0 \<le> fd" "fh_fd f = fd"
      by (cases rule: file_open_cases) auto
    have "fds k2 = insert fd (fds k)" "fd \<notin> fds k"
      using read_range_fds [OF assms(2), of "fh_fd f" off len "[]" k1] g fo True fd by auto
    moreover have "r2 = None \<or> r2 = Some (take len (drop off (content fd)))"
      using read_range_content [OF assms(1), of "fh_fd f" off len "[]" k1] g fd by (cases r2) auto
    moreover have "r = r2 \<and> k' = sy_close A fd k2"
      using assms(4) o g True fd by (auto simp: read_file_range_def file_close_def)
    ultimately show ?thesis using fds_close [OF assms(2)] assms(3) [OF fd(1,2)] by auto
  qed
qed

section \<open>Descriptors have one owner\<close>

lemma sock_close_twice:
  "(case sock_close A s k of (s', k') \<Rightarrow> sock_close A s' k') = sock_close A s k"
  by (auto simp: sock_close_def split: option.splits)

lemma sock_move_leaves_nothing: "sock_move s = (s', rest) \<Longrightarrow> s' = s \<and> so_ssl rest = None \<and> sock_close A rest k = (rest, k)"
  by (auto simp: sock_move_def sock_close_def)

text \<open>The flag of a finished handshake stays behind, but counts only beside a session.\<close>

lemma adopt_restarts_handshake: "so_handshaken (adopt_tls ssl s) = False \<and> so_ssl (adopt_tls ssl s) = Some ssl"
  by (simp add: adopt_tls_def)

section \<open>Witnesses\<close>

text \<open>A kernel that takes and delivers at most three bytes at a time, and opens one file.\<close>

record toy_kernel =
  tk_sent :: string
  tk_fds :: "int set"

definition toy_take :: "string \<Rightarrow> toy_kernel \<Rightarrow> int \<times> toy_kernel" where
  "toy_take data k = (int (min 3 (length data)), k\<lparr>tk_sent := tk_sent k @ take (min 3 (length data)) data\<rparr>)"

definition toy_sys :: "string \<Rightarrow> toy_kernel sys_api" where
  "toy_sys text =
     \<lparr>sy_errno = (\<lambda>k. EAGAIN), sy_recv = (\<lambda>fd n k. ((0, []), k)), sy_send = (\<lambda>fd data k. toy_take data k),
      sy_sendfile = (\<lambda>fd f off n k. toy_take (take n (drop off text)) k),
      sy_pread = (\<lambda>f off n k. ((int (length (take (min 3 n) (drop off text))), take (min 3 n) (drop off text)), k)),
      sy_close = (\<lambda>fd k. k\<lparr>tk_fds := tk_fds k - {fd}\<rparr>),
      sy_open = (\<lambda>p k. if 5 \<in> tk_fds k then (-1, k) else (5, k\<lparr>tk_fds := insert 5 (tk_fds k)\<rparr>)),
      sy_fstat = (\<lambda>fd k. (Some (True, length text, 0), k)), sy_fcntl = (\<lambda>fd c a k. (0, k)), sy_nodelay = (\<lambda>fd a k. (0, k)),
      sy_ssl_accept = (\<lambda>s k. (1, k)), sy_ssl_read = (\<lambda>s n k. ((0, []), k)), sy_ssl_write = (\<lambda>s data n k. toy_take data k),
      sy_ssl_error = (\<lambda>s rc k. SslZeroReturn), sy_ssl_clear = (\<lambda>k. k), sy_ssl_free = (\<lambda>s k. k)\<rparr>"

lemma toy_take_ok: "toy_take data k = (rc, k') \<Longrightarrow> rc \<le> int (length data) \<and> tk_sent k' = tk_sent k @ take (nat rc) data"
  by (auto simp: toy_take_def min_def)

lemma toy_transfers: "transfers_ok (toy_sys text) tk_sent (\<lambda>_. text)"
proof -
  have "rc \<le> int n \<and> rc \<le> int (length (drop off text)) \<and> tk_sent k' = tk_sent k @ take (nat rc) (drop off text)"
    if "toy_take (take n (drop off text)) k = (rc, k')" for n off k rc k'
    using that by (auto simp: toy_take_def min_def split: if_splits)
  then show ?thesis by (auto simp: transfers_ok_def toy_sys_def dest: toy_take_ok)
qed

lemma toy_reads: "reads_ok (toy_sys text) (\<lambda>_. text)"
  by (auto simp: reads_ok_def toy_sys_def min_def)

lemma toy_fds: "fds_ok (toy_sys text) tk_fds"
  by (auto simp: fds_ok_def toy_sys_def)

text \<open>Through a TLS session: three of the seven bytes from the seventh on.\<close>

lemma send_file_exact_example:
  "sock_send_file (toy_sys ''Hello, world'') 5 7 5 \<lparr>so_fd = 9, so_ssl = Some 1, so_handshaken = True, so_remote_ip = []\<rparr>
      \<lparr>tk_sent = ''>'', tk_fds = {5, 9}\<rparr> = (ResOk, 10, 3, \<lparr>tk_sent = ''>wor'', tk_fds = {5, 9}\<rparr>)
   \<and> ''>wor'' = ''>'' @ take 3 (drop 7 ''Hello, world'')"
proof -
  have run: "sock_send_file (toy_sys ''Hello, world'') 5 7 5 \<lparr>so_fd = 9, so_ssl = Some 1, so_handshaken = True, so_remote_ip = []\<rparr>
      \<lparr>tk_sent = ''>'', tk_fds = {5, 9}\<rparr> = (ResOk, 10, 3, \<lparr>tk_sent = ''>wor'', tk_fds = {5, 9}\<rparr>)"
    by (simp add: sock_send_file_def toy_sys_def toy_take_def sock_write_def)
  from send_file_exact [OF toy_transfers toy_reads run] run show ?thesis by simp
qed

lemma read_file_range_exact_example:
  "read_file_range (toy_sys ''Hello, world'') ''f'' 7 100 \<lparr>tk_sent = [], tk_fds = {9}\<rparr> =
     (Some ''world'', \<lparr>tk_sent = [], tk_fds = {9}\<rparr>)"
proof -
  let ?A = "toy_sys ''Hello, world''" and ?k = "\<lparr>tk_sent = [], tk_fds = {9}\<rparr>"
  obtain r k' where run: "read_file_range ?A ''f'' 7 100 ?k = (r, k')" by (metis surj_pair)
  have spec: "tk_fds k' = tk_fds ?k \<and> (r = None \<or> r = Some (take 100 (drop 7 ''Hello, world'')))"
    by (rule read_file_range_exact [OF toy_reads toy_fds _ run]) simp
  moreover have "r = Some ''world'' \<and> tk_sent k' = []"
    using run by (simp add: read_file_range_def file_open_def file_close_def no_file_def toy_sys_def c_str_def
        read_range.simps) (auto simp: read_range.simps)
  ultimately show ?thesis using run by (cases k') auto
qed

end
