(* ===== verification/Tls.thy ===== *)
theory Tls
  imports Sockets
begin

text \<open>
  The TLS context: \<open>include/socketify/tls.h\<close>, \<open>src/tls.cpp\<close> in its OpenSSL build. OpenSSL is an argument, a record of its
  functions on a state of its own; what is here is the order in which they are called, what each failure does, and who
  frees what.
\<close>

section \<open>Options\<close>

record tls_options =
  to_cert_file :: string
  to_key_file :: string
  to_min_version :: string
  to_cipher_list :: string

definition tls_from_env :: "(string \<Rightarrow> string option) \<Rightarrow> tls_options option" where
  "tls_from_env getenv =
     (case (getenv ''SOCKETIFY_CERT_FILE'', getenv ''SOCKETIFY_KEY_FILE'') of
        (Some cert, Some key) \<Rightarrow>
          if cert = [] \<or> key = [] then None
          else Some \<lparr>to_cert_file = cert, to_key_file = key, to_min_version = ''TLSv1.2'', to_cipher_list = []\<rparr>
      | _ \<Rightarrow> None)"

section \<open>OpenSSL\<close>

text \<open>Contexts and sessions are numbers; \<open>ss_errors\<close> is the error queue of the thread, which \<open>ERR_get_error\<close> pops.\<close>

record 'k ssl_api =
  ss_ctx_new :: "'k \<Rightarrow> nat option \<times> 'k"
  ss_ctx_free :: "nat \<Rightarrow> 'k \<Rightarrow> 'k"
  ss_min_proto :: "nat \<Rightarrow> nat \<Rightarrow> 'k \<Rightarrow> 'k"
  ss_options_modes :: "nat \<Rightarrow> 'k \<Rightarrow> 'k"
  ss_cipher_list :: "nat \<Rightarrow> string \<Rightarrow> 'k \<Rightarrow> int \<times> 'k"
  ss_use_chain :: "nat \<Rightarrow> string \<Rightarrow> 'k \<Rightarrow> int \<times> 'k"
  ss_use_key :: "nat \<Rightarrow> string \<Rightarrow> 'k \<Rightarrow> int \<times> 'k"
  ss_check_key :: "nat \<Rightarrow> 'k \<Rightarrow> int \<times> 'k"
  ss_errors :: "'k \<Rightarrow> nat list"
  ss_pop_errors :: "'k \<Rightarrow> 'k"
  ss_error_string :: "nat \<Rightarrow> string"
  ss_new :: "nat \<Rightarrow> 'k \<Rightarrow> nat option \<times> 'k"
  ss_set_fd :: "nat \<Rightarrow> int \<Rightarrow> 'k \<Rightarrow> int \<times> 'k"
  ss_accept_state :: "nat \<Rightarrow> 'k \<Rightarrow> 'k"
  ss_free :: "nat \<Rightarrow> 'k \<Rightarrow> 'k"

text \<open>The buffer of \<open>ERR_error_string_n\<close> holds 256 bytes, the last of them the terminator.\<close>

definition collect_errors :: "'k ssl_api \<Rightarrow> 'k \<Rightarrow> string \<times> 'k" where
  "collect_errors A k =
     (let out = fold (\<lambda>e out. (if out = [] then out else out @ ''; '') @ take 255 (ss_error_string A e)) (ss_errors A k) []
      in (if out = [] then ''unknown OpenSSL error'' else out, ss_pop_errors A k))"

section \<open>The context\<close>

record tls_context =
  tc_ctx :: "nat option"
  tc_last_error :: string

definition tls_min_version :: "tls_options \<Rightarrow> nat" where
  "tls_min_version opts = (if to_min_version opts = ''TLSv1.3'' then 0x304 else 0x303)"

text \<open>The way out of every failure after the context was made.\<close>

definition tls_give_up :: "'k ssl_api \<Rightarrow> nat \<Rightarrow> tls_context \<Rightarrow> 'k \<Rightarrow> bool \<times> tls_context \<times> 'k" where
  "tls_give_up A c t k =
     (case collect_errors A k of (e, k) \<Rightarrow> (False, t\<lparr>tc_ctx := None, tc_last_error := e\<rparr>, ss_ctx_free A c k))"

text \<open>\<open>||\<close> stops at the first of the three calls that fails.\<close>

definition tls_load_keys :: "'k ssl_api \<Rightarrow> nat \<Rightarrow> tls_options \<Rightarrow> 'k \<Rightarrow> bool \<times> 'k" where
  "tls_load_keys A c opts k =
     (case ss_use_chain A c (c_str (to_cert_file opts)) k of
        (rc, k) \<Rightarrow>
          if rc \<noteq> 1 then (False, k)
          else (case ss_use_key A c (c_str (to_key_file opts)) k of
                  (rc, k) \<Rightarrow>
                    if rc \<noteq> 1 then (False, k)
                    else (case ss_check_key A c k of (rc, k) \<Rightarrow> (rc = 1, k))))"

definition tls_set_ciphers :: "'k ssl_api \<Rightarrow> nat \<Rightarrow> tls_options \<Rightarrow> 'k \<Rightarrow> int \<times> 'k" where
  "tls_set_ciphers A c opts k =
     (if to_cipher_list opts = [] then (1, k) else ss_cipher_list A c (c_str (to_cipher_list opts)) k)"

definition tls_init :: "'k ssl_api \<Rightarrow> tls_options \<Rightarrow> tls_context \<Rightarrow> 'k \<Rightarrow> bool \<times> tls_context \<times> 'k" where
  "tls_init A opts t k =
     (let (t, k) = (case tc_ctx t of None \<Rightarrow> (t, k) | Some old \<Rightarrow> (t\<lparr>tc_ctx := None\<rparr>, ss_ctx_free A old k))
      in case ss_ctx_new A k of
           (None, k) \<Rightarrow> (case collect_errors A k of (e, k) \<Rightarrow> (False, t\<lparr>tc_last_error := e\<rparr>, k))
         | (Some c, k) \<Rightarrow>
             (let t = t\<lparr>tc_ctx := Some c\<rparr>;
                  k = ss_options_modes A c (ss_min_proto A c (tls_min_version opts) k)
              in case tls_set_ciphers A c opts k of
                   (rc, k) \<Rightarrow>
                     if rc \<noteq> 1 then tls_give_up A c t k
                     else (case tls_load_keys A c opts k of
                             (loaded, k) \<Rightarrow> if loaded then (True, t, k) else tls_give_up A c t k)))"

definition tls_new_session :: "'k ssl_api \<Rightarrow> tls_context \<Rightarrow> int \<Rightarrow> 'k \<Rightarrow> nat option \<times> 'k" where
  "tls_new_session A t fd k =
     (case tc_ctx t of
        None \<Rightarrow> (None, k)
      | Some c \<Rightarrow>
          (case ss_new A c k of
             (None, k) \<Rightarrow> (None, k)
           | (Some ssl, k) \<Rightarrow>
               (case ss_set_fd A ssl fd k of
                  (rc, k) \<Rightarrow> if rc \<noteq> 1 then (None, ss_free A ssl k) else (Some ssl, ss_accept_state A ssl k))))"

definition tls_destroy :: "'k ssl_api \<Rightarrow> tls_context \<Rightarrow> 'k \<Rightarrow> 'k" where
  "tls_destroy A t k = (case tc_ctx t of None \<Rightarrow> k | Some c \<Rightarrow> ss_ctx_free A c k)"

section \<open>What OpenSSL is taken to promise\<close>

text \<open>
  Views of the library's state: the contexts and the sessions that are allocated, and whether a context's certificate and
  key are a pair. Configuration calls allocate nothing, and \<open>SSL_CTX_check_private_key\<close> accepts pairs only.
\<close>

definition allocates :: "('k \<Rightarrow> nat option \<times> 'k) \<Rightarrow> ('k \<Rightarrow> nat set) \<Rightarrow> bool" where
  "allocates f live \<longleftrightarrow>
     (\<forall>k. case f k of
            (None, k') \<Rightarrow> live k' = live k
          | (Some c, k') \<Rightarrow> c \<notin> live k \<and> live k' = insert c (live k))"

definition ssl_ok :: "'k ssl_api \<Rightarrow> ('k \<Rightarrow> nat set) \<Rightarrow> ('k \<Rightarrow> nat set) \<Rightarrow> (nat \<Rightarrow> 'k \<Rightarrow> bool) \<Rightarrow> bool" where
  "ssl_ok A ctxs sess paired \<longleftrightarrow>
     allocates (ss_ctx_new A) ctxs \<and> (\<forall>c. allocates (ss_new A c) sess) \<and>
     (\<forall>c k. ctxs (ss_ctx_free A c k) = ctxs k - {c}) \<and>
     (\<forall>c v k. ctxs (ss_min_proto A c v k) = ctxs k) \<and> (\<forall>c k. ctxs (ss_options_modes A c k) = ctxs k) \<and>
     (\<forall>c s k. ctxs (snd (ss_cipher_list A c s k)) = ctxs k) \<and> (\<forall>c s k. ctxs (snd (ss_use_chain A c s k)) = ctxs k) \<and>
     (\<forall>c s k. ctxs (snd (ss_use_key A c s k)) = ctxs k) \<and> (\<forall>c k. ctxs (snd (ss_check_key A c k)) = ctxs k) \<and>
     (\<forall>k. ctxs (ss_pop_errors A k) = ctxs k) \<and>
     (\<forall>c k. fst (ss_check_key A c k) = 1 \<longrightarrow> paired c (snd (ss_check_key A c k))) \<and>
     (\<forall>s fd k. sess (snd (ss_set_fd A s fd k)) = sess k) \<and> (\<forall>s k. sess (ss_accept_state A s k) = sess k) \<and>
     (\<forall>s k. sess (ss_free A s k) = sess k - {s})"

lemma allocates_result:
  "allocates f live \<Longrightarrow> f k = (r, k') \<Longrightarrow>
     (case r of None \<Rightarrow> live k' = live k | Some c \<Rightarrow> c \<notin> live k \<and> live k' = insert c (live k))"
  by (drule allocates_def [THEN iffD1, THEN spec [of _ k]]) (simp split: option.splits)

lemma ssl_allocs:
  assumes "ssl_ok A ctxs sess paired"
  shows "allocates (ss_ctx_new A) ctxs" "allocates (ss_new A c) sess"
  using assms by (simp_all add: ssl_ok_def)

lemma ssl_ops:
  assumes "ssl_ok A ctxs sess paired"
  shows "ctxs (ss_ctx_free A c k) = ctxs k - {c}" "ctxs (ss_min_proto A c v k) = ctxs k"
    "ctxs (ss_options_modes A c k) = ctxs k" "ctxs (snd (ss_cipher_list A c s k)) = ctxs k"
    "ctxs (snd (ss_use_chain A c s k)) = ctxs k" "ctxs (snd (ss_use_key A c s k)) = ctxs k"
    "ctxs (snd (ss_check_key A c k)) = ctxs k" "ctxs (ss_pop_errors A k) = ctxs k"
    "sess (snd (ss_set_fd A s' fd k)) = sess k" "sess (ss_accept_state A s' k) = sess k"
    "sess (ss_free A s' k) = sess k - {s'}"
  using assms by (simp_all add: ssl_ok_def)

lemma ssl_checked: "ssl_ok A ctxs sess paired \<Longrightarrow> ss_check_key A c k = (1, k') \<Longrightarrow> paired c k'"
proof -
  assume a: "ssl_ok A ctxs sess paired" "ss_check_key A c k = (1, k')"
  have "fst (ss_check_key A c k) = 1 \<longrightarrow> paired c (snd (ss_check_key A c k))"
    using a(1) by (simp add: ssl_ok_def)
  then show ?thesis by (simp add: a(2))
qed

section \<open>The set-up\<close>

lemma tls_load_keys_loaded:
  assumes "ssl_ok A ctxs sess paired" "tls_load_keys A c opts k = (ok, k')"
  shows "ctxs k' = ctxs k \<and> (ok \<longrightarrow> paired c k')"
proof -
  obtain r1 k1 where 1: "ss_use_chain A c (c_str (to_cert_file opts)) k = (r1, k1)" by (metis surj_pair)
  obtain r2 k2 where 2: "ss_use_key A c (c_str (to_key_file opts)) k1 = (r2, k2)" by (metis surj_pair)
  obtain r3 k3 where 3: "ss_check_key A c k2 = (r3, k3)" by (metis surj_pair)
  have "ctxs k1 = ctxs k" "ctxs k2 = ctxs k1" "ctxs k3 = ctxs k2"
    using ssl_ops(5,6,7) [OF assms(1)] 1 2 3 by (metis snd_conv)+
  then show ?thesis
    using assms(2) ssl_checked [OF assms(1)] 3 by (auto simp: tls_load_keys_def 1 2 split: if_splits)
qed

lemma tls_give_up_frees:
  assumes "ssl_ok A ctxs sess paired" "tls_give_up A c t k = (ok, t', k')"
  shows "\<not> ok \<and> tc_ctx t' = None \<and> ctxs k' = ctxs k - {c}"
  using assms(2) ssl_ops(1,8) [OF assms(1)] by (auto simp: tls_give_up_def collect_errors_def Let_def)

text \<open>
  Setting TLS up is all or nothing. The context is usable exactly when the function has returned true; then the
  certificate and the key of the options are a pair and one context is allocated that was not; otherwise none is. In
  either case the previous context is freed: re-initialising neither leaks it nor leaves connections on old keys.
\<close>

lemma tls_init_all_or_nothing:
  assumes "ssl_ok A ctxs sess paired" "tls_init A opts t k = (ok, t', k')" "set_option (tc_ctx t) \<subseteq> ctxs k"
  shows "(ok \<longleftrightarrow> tc_ctx t' \<noteq> None) \<and> (\<forall>c\<in>set_option (tc_ctx t'). paired c k') \<and>
    ctxs k' = (ctxs k - set_option (tc_ctx t)) \<union> set_option (tc_ctx t')"
proof -
  define k0 where "k0 = (case tc_ctx t of None \<Rightarrow> k | Some old \<Rightarrow> ss_ctx_free A old k)"
  have base: "ctxs k0 = ctxs k - set_option (tc_ctx t)"
    using ssl_ops(1) [OF assms(1)] by (auto simp: k0_def split: option.split)
  have start: "(case tc_ctx t of None \<Rightarrow> (t, k) | Some old \<Rightarrow> (t\<lparr>tc_ctx := None\<rparr>, ss_ctx_free A old k)) = (t\<lparr>tc_ctx := None\<rparr>, k0)"
    by (auto simp: k0_def split: option.split)
  obtain c k1 where new: "ss_ctx_new A k0 = (c, k1)" by (metis surj_pair)
  note fresh = allocates_result [OF ssl_allocs(1) [OF assms(1)] new]
  show ?thesis
  proof (cases c)
    case None
    then show ?thesis
      using assms(2) fresh base ssl_ops(8) [OF assms(1)]
      by (auto simp: tls_init_def start new collect_errors_def Let_def)
  next
    case (Some x)
    define k2 where "k2 = ss_options_modes A x (ss_min_proto A x (tls_min_version opts) k1)"
    obtain ci k3 where ci: "tls_set_ciphers A x opts k2 = (ci, k3)" by (metis surj_pair)
    obtain lo k4 where lo: "tls_load_keys A x opts k3 = (lo, k4)" by (metis surj_pair)
    have k3: "ctxs k3 = insert x (ctxs k0)" "x \<notin> ctxs k0"
    proof -
      have "ctxs k2 = ctxs k1" by (simp add: k2_def ssl_ops(2,3) [OF assms(1)])
      moreover have "ctxs k3 = ctxs k2"
        using arg_cong [OF ci, of "\<lambda>r. ctxs (snd r)"] ssl_ops(4) [OF assms(1)]
        by (simp add: tls_set_ciphers_def split: if_splits)
      ultimately show "ctxs k3 = insert x (ctxs k0)" "x \<notin> ctxs k0" using fresh Some by simp_all
    qed
    note loaded = tls_load_keys_loaded [OF assms(1) lo]
    have res: "(if ci \<noteq> 1 then tls_give_up A x (t\<lparr>tc_ctx := Some x\<rparr>) k3
        else if lo then (True, t\<lparr>tc_ctx := Some x\<rparr>, k4) else tls_give_up A x (t\<lparr>tc_ctx := Some x\<rparr>) k4) = (ok, t', k')"
      using assms(2) ci lo unfolding k2_def by (cases "ci = 1") (simp_all add: tls_init_def start new Some Let_def)
    show ?thesis
    proof (cases "ci = 1 \<and> lo")
      case True
      then show ?thesis using res k3 loaded base by auto
    next
      case False
      then obtain k5 where "tls_give_up A x (t\<lparr>tc_ctx := Some x\<rparr>) k5 = (ok, t', k')" "ctxs k5 = ctxs k3"
        using res loaded by (cases "ci = 1") auto
      then show ?thesis using tls_give_up_frees [OF assms(1)] k3 base by fastforce
    qed
  qed
qed
text \<open>A session that cannot be bound to its descriptor is freed; without a context there is none.\<close>

lemma tls_new_session_owned:
  assumes "ssl_ok A ctxs sess paired" "tls_new_session A t fd k = (r, k')"
  shows "(tc_ctx t = None \<longrightarrow> r = None) \<and> sess k' - sess k \<subseteq> set_option r \<and> set_option r \<subseteq> sess k'"
proof (cases "tc_ctx t")
  case None
  then show ?thesis using assms(2) by (simp add: tls_new_session_def)
next
  case (Some c)
  obtain s k1 where new: "ss_new A c k = (s, k1)" by (metis surj_pair)
  note fresh = allocates_result [OF ssl_allocs(2) [OF assms(1)] new]
  show ?thesis
  proof (cases s)
    case None
    then show ?thesis using assms(2) Some new fresh by (auto simp: tls_new_session_def)
  next
    case s: (Some x)
    obtain rc k2 where fd: "ss_set_fd A x fd k1 = (rc, k2)" by (metis surj_pair)
    have "sess k2 = sess k1" using ssl_ops(9) [OF assms(1), of x fd k1] fd by simp
    then show ?thesis
      using assms(2) Some new s fd fresh ssl_ops(10,11) [OF assms(1)] by (auto simp: tls_new_session_def split: if_splits)
  qed
qed

lemma tls_destroy_frees: "ssl_ok A ctxs sess paired \<Longrightarrow> ctxs (tls_destroy A t k) = ctxs k - set_option (tc_ctx t)"
  by (auto simp: tls_destroy_def ssl_ops(1) split: option.split)

text \<open>Any minimum version other than ''TLSv1.3'' is TLS 1.2, a misspelt one included.\<close>

lemma min_version_falls_back: "tls_min_version opts = 0x304 \<longleftrightarrow> to_min_version opts = ''TLSv1.3''"
  by (simp add: tls_min_version_def)

section \<open>Witness\<close>

text \<open>A library in which a key fits the certificate of the same name.\<close>

record toy_ssl =
  ty_ctxs :: "nat set"
  ty_next :: nat
  ty_cert :: string
  ty_key :: string

definition toy_ssl_api :: "toy_ssl ssl_api" where
  "toy_ssl_api =
     \<lparr>ss_ctx_new = (\<lambda>k. if ty_next k \<in> ty_ctxs k then (None, k)
          else (Some (ty_next k), k\<lparr>ty_ctxs := insert (ty_next k) (ty_ctxs k), ty_next := Suc (ty_next k)\<rparr>)),
      ss_ctx_free = (\<lambda>c k. k\<lparr>ty_ctxs := ty_ctxs k - {c}\<rparr>),
      ss_min_proto = (\<lambda>c v k. k), ss_options_modes = (\<lambda>c k. k), ss_cipher_list = (\<lambda>c s k. (1, k)),
      ss_use_chain = (\<lambda>c s k. (1, k\<lparr>ty_cert := s\<rparr>)), ss_use_key = (\<lambda>c s k. (1, k\<lparr>ty_key := s\<rparr>)),
      ss_check_key = (\<lambda>c k. (if ty_cert k = ty_key k then 1 else 0, k)),
      ss_errors = (\<lambda>k. []), ss_pop_errors = (\<lambda>k. k), ss_error_string = (\<lambda>e. []),
      ss_new = (\<lambda>c k. (None, k)), ss_set_fd = (\<lambda>s fd k. (0, k)), ss_accept_state = (\<lambda>s k. k), ss_free = (\<lambda>s k. k)\<rparr>"

lemma toy_ssl_ok: "ssl_ok toy_ssl_api ty_ctxs (\<lambda>_. {}) (\<lambda>c k. ty_cert k = ty_key k)"
  by (auto simp: ssl_ok_def toy_ssl_api_def allocates_def)

lemma tls_init_all_or_nothing_example:
  "tls_init toy_ssl_api \<lparr>to_cert_file = ''a'', to_key_file = ''b'', to_min_version = ''TLSv1.2'', to_cipher_list = []\<rparr>
     \<lparr>tc_ctx = Some 1, tc_last_error = []\<rparr> \<lparr>ty_ctxs = {1}, ty_next = 2, ty_cert = ''a'', ty_key = ''a''\<rparr> =
   (False, \<lparr>tc_ctx = None, tc_last_error = ''unknown OpenSSL error''\<rparr>, \<lparr>ty_ctxs = {}, ty_next = 3, ty_cert = ''a'', ty_key = ''b''\<rparr>)"
proof -
  let ?t = "\<lparr>tc_ctx = Some 1, tc_last_error = []\<rparr>" and ?k = "\<lparr>ty_ctxs = {1}, ty_next = 2, ty_cert = ''a'', ty_key = ''a''\<rparr>"
  let ?o = "\<lparr>to_cert_file = ''a'', to_key_file = ''b'', to_min_version = ''TLSv1.2'', to_cipher_list = []\<rparr>"
  obtain ok t' k' where run: "tls_init toy_ssl_api ?o ?t ?k = (ok, t', k')" by (metis prod_cases3)
  have spec: "(ok \<longleftrightarrow> tc_ctx t' \<noteq> None) \<and> (\<forall>c\<in>set_option (tc_ctx t'). ty_cert k' = ty_key k') \<and>
      ty_ctxs k' = (ty_ctxs ?k - set_option (tc_ctx ?t)) \<union> set_option (tc_ctx t')"
    by (rule tls_init_all_or_nothing [OF toy_ssl_ok run]) simp
  have "ty_cert k' = ''a'' \<and> ty_key k' = ''b'' \<and> ty_next k' = 3 \<and> tc_last_error t' = ''unknown OpenSSL error''"
    using run by (auto simp: tls_init_def toy_ssl_api_def tls_load_keys_def tls_set_ciphers_def c_str_def tls_give_up_def
        collect_errors_def)
  then show ?thesis using run spec by (cases t', cases k') auto
qed

end
