(* ===== verification/ClientNet.thy ===== *)
theory ClientNet
  imports HttpClient
begin

text \<open>
  Under the HTTP client of \<open>HttpClient\<close>: the other half of \<open>src/http_client.cpp\<close>. Resolving and connecting, the plain and
  the TLS transport with their loops and destructors, and the request function over them. The system calls and OpenSSL
  are an argument. The loop that reads the response ends when the peer lets it end, so a request is \<open>None\<close> when it does
  not return.
\<close>

section \<open>The system\<close>

text \<open>Addresses, contexts and sessions are numbers. \<open>nt_setup\<close> is the configuration of a new session: descriptor and name.\<close>

record 'k net_api =
  nt_resolve :: "string \<Rightarrow> string \<Rightarrow> 'k \<Rightarrow> (string + nat list) \<times> 'k"
  nt_socket :: "nat \<Rightarrow> 'k \<Rightarrow> int \<times> 'k"
  nt_timeout :: "int \<Rightarrow> int \<Rightarrow> int \<Rightarrow> 'k \<Rightarrow> 'k"
  nt_connect :: "int \<Rightarrow> nat \<Rightarrow> 'k \<Rightarrow> int \<times> 'k"
  nt_close :: "int \<Rightarrow> 'k \<Rightarrow> 'k"
  nt_send :: "int \<Rightarrow> string \<Rightarrow> 'k \<Rightarrow> int \<times> 'k"
  nt_recv :: "int \<Rightarrow> nat \<Rightarrow> 'k \<Rightarrow> (int \<times> string) \<times> 'k"
  nt_ctx_new :: "'k \<Rightarrow> nat option \<times> 'k"
  nt_ctx_free :: "nat \<Rightarrow> 'k \<Rightarrow> 'k"
  nt_verify_paths :: "nat \<Rightarrow> 'k \<Rightarrow> 'k"
  nt_ssl_new :: "nat \<Rightarrow> 'k \<Rightarrow> nat option \<times> 'k"
  nt_setup :: "nat \<Rightarrow> int \<Rightarrow> string \<Rightarrow> 'k \<Rightarrow> 'k"
  nt_ssl_connect :: "nat \<Rightarrow> 'k \<Rightarrow> int \<times> 'k"
  nt_ssl_write :: "nat \<Rightarrow> string \<Rightarrow> 'k \<Rightarrow> int \<times> 'k"
  nt_ssl_read :: "nat \<Rightarrow> nat \<Rightarrow> 'k \<Rightarrow> (int \<times> string) \<times> 'k"
  nt_ssl_shutdown :: "nat \<Rightarrow> 'k \<Rightarrow> 'k"
  nt_ssl_free :: "nat \<Rightarrow> 'k \<Rightarrow> 'k"

section \<open>Connecting\<close>

text \<open>Seconds and microseconds; \<open>/\<close> and \<open>%\<close> of a positive number.\<close>

definition set_timeout :: "'k net_api \<Rightarrow> int \<Rightarrow> int \<Rightarrow> 'k \<Rightarrow> 'k" where
  "set_timeout A fd timeout_ms k =
     (if timeout_ms \<le> 0 then k else nt_timeout A fd (timeout_ms div 1000) (timeout_ms mod 1000 * 1000) k)"

text \<open>The loop over the addresses.\<close>

fun try_addresses :: "'k net_api \<Rightarrow> int \<Rightarrow> nat list \<Rightarrow> 'k \<Rightarrow> int \<times> 'k" where
  "try_addresses A timeout_ms [] k = (-1, k)"
| "try_addresses A timeout_ms (ai # ais) k =
     (case nt_socket A ai k of
        (fd, k) \<Rightarrow>
          if fd < 0 then try_addresses A timeout_ms ais k
          else (case nt_connect A fd ai (set_timeout A fd timeout_ms k) of
                  (rc, k) \<Rightarrow> if rc = 0 then (fd, k) else try_addresses A timeout_ms ais (nt_close A fd k)))"

definition dial :: "'k net_api \<Rightarrow> client_url \<Rightarrow> int \<Rightarrow> 'k \<Rightarrow> (string + int) \<times> 'k" where
  "dial A u timeout_ms k =
     (case nt_resolve A (cu_host u) (cu_port u) k of
        (Inl e, k) \<Rightarrow> (Inl (''dns: '' @ e), k)
      | (Inr ais, k) \<Rightarrow>
          (case try_addresses A timeout_ms ais k of
             (fd, k) \<Rightarrow> (if fd < 0 then Inl ''connect failed'' else Inr fd, k)))"

section \<open>Transports\<close>

datatype client_conn = PlainConn int | TlsConn int "nat option" "nat option"

text \<open>The destructors; a TLS transport has its descriptor, its context and its session as far as they were made.\<close>

definition conn_destroy :: "'k net_api \<Rightarrow> client_conn \<Rightarrow> 'k \<Rightarrow> 'k" where
  "conn_destroy A c k =
     (case c of
        PlainConn fd \<Rightarrow> if fd \<ge> 0 then nt_close A fd k else k
      | TlsConn fd ctx ssl \<Rightarrow>
          (let k = (case ssl of None \<Rightarrow> k | Some s \<Rightarrow> nt_ssl_free A s (nt_ssl_shutdown A s k));
               k = (case ctx of None \<Rightarrow> k | Some x \<Rightarrow> nt_ctx_free A x k)
           in if fd \<ge> 0 then nt_close A fd k else k))"

text \<open>\<open>TlsTransport::handshake\<close>: the error if it fails, and the transport in either case.\<close>

definition tls_handshake :: "'k net_api \<Rightarrow> int \<Rightarrow> string \<Rightarrow> 'k \<Rightarrow> string option \<times> client_conn \<times> 'k" where
  "tls_handshake A fd host k =
     (case nt_ctx_new A k of
        (None, k) \<Rightarrow> (Some ''SSL_CTX_new failed'', TlsConn fd None None, k)
      | (Some x, k) \<Rightarrow>
          (case nt_ssl_new A x (nt_verify_paths A x k) of
             (None, k) \<Rightarrow> (Some ''SSL_new failed'', TlsConn fd (Some x) None, k)
           | (Some s, k) \<Rightarrow>
               (case nt_ssl_connect A s (nt_setup A s fd (c_str host) k) of
                  (rc, k) \<Rightarrow> (if rc \<noteq> 1 then Some ''TLS handshake failed'' else None, TlsConn fd (Some x) (Some s), k))))"

text \<open>A session that was not made is never used.\<close>

definition conn_write :: "'k net_api \<Rightarrow> client_conn \<Rightarrow> string \<Rightarrow> 'k \<Rightarrow> int \<times> 'k" where
  "conn_write A c data k =
     (case c of
        PlainConn fd \<Rightarrow> nt_send A fd data k
      | TlsConn fd ctx (Some s) \<Rightarrow> nt_ssl_write A s data k
      | TlsConn fd ctx None \<Rightarrow> (-1, k))"

definition read_some :: "'k net_api \<Rightarrow> client_conn \<Rightarrow> nat \<Rightarrow> 'k \<Rightarrow> (int \<times> string) \<times> 'k" where
  "read_some A c len k =
     (case c of
        PlainConn fd \<Rightarrow> nt_recv A fd len k
      | TlsConn fd ctx (Some s) \<Rightarrow> nt_ssl_read A s len k
      | TlsConn fd ctx None \<Rightarrow> ((-1, []), k))"

text \<open>The loop of both \<open>write_all\<close>; the data are what is still unsent.\<close>

function write_all :: "'k net_api \<Rightarrow> client_conn \<Rightarrow> string \<Rightarrow> 'k \<Rightarrow> bool \<times> 'k" where
  "write_all A c data k =
     (if data = [] then (True, k)
      else (case conn_write A c data k of
              (n, k) \<Rightarrow> if n \<le> 0 then (False, k) else write_all A c (drop (nat n) data) k))"
  by pat_completeness auto
termination
  by (relation "measure (\<lambda>(A, c, data, k). length data)") auto

declare write_all.simps [simp del]

section \<open>The request\<close>

text \<open>Reading to the end: the bytes, or nothing after an error with none read.\<close>

partial_function (option) read_response :: "'k net_api \<Rightarrow> client_conn \<Rightarrow> string \<Rightarrow> 'k \<Rightarrow> (string option \<times> 'k) option" where
  "read_response A c raw k =
     (case read_some A c 16384 k of
        ((n, bytes), k) \<Rightarrow>
          if n > 0 then read_response A c (raw @ bytes) k
          else if n = 0 then Some (Some raw, k)
          else Some (if raw = [] then None else Some raw, k))"

definition client_failed :: "string \<Rightarrow> client_response" where
  "client_failed e = new_client_response\<lparr>cr_error := e\<rparr>"

text \<open>From a transport to the response.\<close>

definition exchange :: "'k net_api \<Rightarrow> client_conn \<Rightarrow> string \<Rightarrow> 'k \<Rightarrow> (client_response \<times> 'k) option" where
  "exchange A c wire k =
     (case write_all A c wire k of
        (False, k) \<Rightarrow> Some (client_failed ''write failed'', k)
      | (True, k) \<Rightarrow>
          Option.bind (read_response A c [] k)
            (\<lambda>(raw, k). case raw of
                None \<Rightarrow> Some (client_failed ''read failed'', k)
              | Some raw \<Rightarrow> map_option (\<lambda>r. (r, k)) (parse_response raw)))"

text \<open>The transport is destroyed on every way out.\<close>

definition with_conn :: "'k net_api \<Rightarrow> client_conn \<Rightarrow> (client_response \<times> 'k) option \<Rightarrow> (client_response \<times> 'k) option" where
  "with_conn A c res = map_option (\<lambda>(r, k). (r, conn_destroy A c k)) res"

definition net_request :: "'k net_api \<Rightarrow> bool \<Rightarrow> (header_map \<Rightarrow> header_map) \<Rightarrow> client_request \<Rightarrow> 'k \<Rightarrow>
    (client_response \<times> 'k) option" where
  "net_request A has_tls order rq k =
     (case parse_url (cq_url rq) of
        None \<Rightarrow> Some (client_failed (''invalid or unsupported URL: '' @ cq_url rq), k)
      | Some u \<Rightarrow>
          if \<not> has_tls \<and> cu_tls u then
            Some (client_failed ''https requires building Socketify with TLS (SOCKETIFY_WITH_TLS=ON)'', k)
          else (case dial A u (cq_timeout_ms rq) k of
                  (Inl e, k) \<Rightarrow> Some (client_failed e, k)
                | (Inr fd, k) \<Rightarrow>
                    if cu_tls u then
                      (case tls_handshake A fd (cu_host u) k of
                         (Some e, c, k) \<Rightarrow> with_conn A c (Some (client_failed e, k))
                       | (None, c, k) \<Rightarrow> with_conn A c (exchange A c (client_wire order u rq) k))
                    else with_conn A (PlainConn fd) (exchange A (PlainConn fd) (client_wire order u rq) k)))"
section \<open>What the system is taken to promise\<close>

text \<open>
  Two views of the system's state: the descriptors, contexts and sessions that are in use, and the bytes that the peer
  has been given. Making one adds it, freeing one removes it, a write hands over a prefix of its data, and nothing else
  changes either.
\<close>

datatype handle = HFd int | HCtx nat | HSsl nat

definition silent :: "('k \<Rightarrow> handle set) \<Rightarrow> ('k \<Rightarrow> string) \<Rightarrow> ('k \<Rightarrow> 'k) \<Rightarrow> bool" where
  "silent live sent f \<longleftrightarrow> (\<forall>k. live (f k) = live k \<and> sent (f k) = sent k)"

definition makes :: "('k \<Rightarrow> handle set) \<Rightarrow> ('k \<Rightarrow> string) \<Rightarrow> ('a \<Rightarrow> handle) \<Rightarrow> ('k \<Rightarrow> 'a option \<times> 'k) \<Rightarrow> bool" where
  "makes live sent H f \<longleftrightarrow>
     (\<forall>k. case f k of (r, k') \<Rightarrow> sent k' = sent k \<and>
        (case r of None \<Rightarrow> live k' = live k | Some x \<Rightarrow> H x \<notin> live k \<and> live k' = insert (H x) (live k)))"

definition frees :: "('k \<Rightarrow> handle set) \<Rightarrow> ('k \<Rightarrow> string) \<Rightarrow> handle \<Rightarrow> ('k \<Rightarrow> 'k) \<Rightarrow> bool" where
  "frees live sent h f \<longleftrightarrow> (\<forall>k. live (f k) = live k - {h} \<and> sent (f k) = sent k)"

definition writes :: "('k \<Rightarrow> handle set) \<Rightarrow> ('k \<Rightarrow> string) \<Rightarrow> (string \<Rightarrow> 'k \<Rightarrow> int \<times> 'k) \<Rightarrow> bool" where
  "writes live sent f \<longleftrightarrow>
     (\<forall>data k. case f data k of (n, k') \<Rightarrow>
        live k' = live k \<and> n \<le> int (length data) \<and> sent k' = sent k @ take (nat n) data)"

definition checked_socket :: "'k net_api \<Rightarrow> nat \<Rightarrow> 'k \<Rightarrow> int option \<times> 'k" where
  "checked_socket A ai k = (case nt_socket A ai k of (fd, k) \<Rightarrow> (if fd < 0 then None else Some fd, k))"

definition net_ok :: "'k net_api \<Rightarrow> ('k \<Rightarrow> handle set) \<Rightarrow> ('k \<Rightarrow> string) \<Rightarrow> bool" where
  "net_ok A live sent \<longleftrightarrow>
     (\<forall>ai. makes live sent HFd (checked_socket A ai)) \<and> makes live sent HCtx (nt_ctx_new A) \<and>
     (\<forall>x. makes live sent HSsl (nt_ssl_new A x)) \<and>
     (\<forall>fd. frees live sent (HFd fd) (nt_close A fd)) \<and> (\<forall>x. frees live sent (HCtx x) (nt_ctx_free A x)) \<and>
     (\<forall>s. frees live sent (HSsl s) (nt_ssl_free A s)) \<and>
     (\<forall>fd. writes live sent (nt_send A fd)) \<and> (\<forall>s. writes live sent (nt_ssl_write A s)) \<and>
     (\<forall>h p. silent live sent (\<lambda>k. snd (nt_resolve A h p k))) \<and> (\<forall>fd s us. silent live sent (nt_timeout A fd s us)) \<and>
     (\<forall>fd ai. silent live sent (\<lambda>k. snd (nt_connect A fd ai k))) \<and>
     (\<forall>fd n. silent live sent (\<lambda>k. snd (nt_recv A fd n k))) \<and> (\<forall>x. silent live sent (nt_verify_paths A x)) \<and>
     (\<forall>s fd h. silent live sent (nt_setup A s fd h)) \<and> (\<forall>s. silent live sent (\<lambda>k. snd (nt_ssl_connect A s k))) \<and>
     (\<forall>s n. silent live sent (\<lambda>k. snd (nt_ssl_read A s n k))) \<and> (\<forall>s. silent live sent (nt_ssl_shutdown A s))"

lemma silentD: "silent live sent f \<Longrightarrow> live (f k) = live k \<and> sent (f k) = sent k"
  by (simp add: silent_def)

lemma makesD: "makes live sent H f \<Longrightarrow> f k = (r, k') \<Longrightarrow> sent k' = sent k \<and>
    (case r of None \<Rightarrow> live k' = live k | Some x \<Rightarrow> H x \<notin> live k \<and> live k' = insert (H x) (live k))"
  by (drule makes_def [THEN iffD1, THEN spec [of _ k]]) simp

lemma freesD: "frees live sent h f \<Longrightarrow> live (f k) = live k - {h} \<and> sent (f k) = sent k"
  by (simp add: frees_def)

lemma writesD: "writes live sent f \<Longrightarrow> f data k = (n, k') \<Longrightarrow>
    live k' = live k \<and> n \<le> int (length data) \<and> sent k' = sent k @ take (nat n) data"
  by (drule writes_def [THEN iffD1, THEN spec [of _ data], THEN spec [of _ k]]) simp

lemma net_makes:
  assumes "net_ok A live sent"
  shows "makes live sent HFd (checked_socket A ai)" "makes live sent HCtx (nt_ctx_new A)" "makes live sent HSsl (nt_ssl_new A x)"
  using assms by (simp_all add: net_ok_def)

lemma net_frees:
  assumes "net_ok A live sent"
  shows "frees live sent (HFd fd) (nt_close A fd)" "frees live sent (HCtx x) (nt_ctx_free A x)"
    "frees live sent (HSsl s) (nt_ssl_free A s)"
  using assms by (simp_all add: net_ok_def)

lemma net_writes:
  assumes "net_ok A live sent"
  shows "writes live sent (nt_send A fd)" "writes live sent (nt_ssl_write A s)"
  using assms by (simp_all add: net_ok_def)

lemma net_silent:
  assumes "net_ok A live sent"
  shows "silent live sent (\<lambda>k. snd (nt_resolve A h p k))" "silent live sent (nt_timeout A fd sec us)"
    "silent live sent (\<lambda>k. snd (nt_connect A fd ai k))" "silent live sent (\<lambda>k. snd (nt_recv A fd n k))"
    "silent live sent (nt_verify_paths A x)" "silent live sent (nt_setup A s fd h)"
    "silent live sent (\<lambda>k. snd (nt_ssl_connect A s k))" "silent live sent (\<lambda>k. snd (nt_ssl_read A s n k))"
    "silent live sent (nt_ssl_shutdown A s)"
  using assms by (simp_all add: net_ok_def)

section \<open>Each step\<close>

lemma set_timeout_silent: "net_ok A live sent \<Longrightarrow> silent live sent (set_timeout A fd ms)"
  by (simp add: silent_def set_timeout_def silentD [OF net_silent(2)])

text \<open>Connecting leaves the one descriptor it returns, or none.\<close>

lemma try_addresses_opens:
  "net_ok A live sent \<Longrightarrow> try_addresses A ms ais k = (fd, k') \<Longrightarrow> sent k' = sent k \<and>
     (if fd < 0 then live k' = live k else HFd fd \<notin> live k \<and> live k' = insert (HFd fd) (live k))"
proof (induction ais arbitrary: k)
  case Nil
  then show ?case by simp
next
  case (Cons ai ais)
  obtain f k1 where s: "nt_socket A ai k = (f, k1)" by (metis surj_pair)
  then have "checked_socket A ai k = (if f < 0 then None else Some f, k1)" by (simp add: checked_socket_def)
  note made = makesD [OF net_makes(1) [OF Cons.prems(1)] this]
  show ?case
  proof (cases "f < 0")
    case True
    then show ?thesis using Cons.IH [OF Cons.prems(1), of k1] Cons.prems(2) s made by (simp split: if_splits)
  next
    case False
    obtain rc k2 where c: "nt_connect A f ai (set_timeout A f ms k1) = (rc, k2)" by (metis surj_pair)
    have k2: "live k2 = live k1 \<and> sent k2 = sent k1"
      using silentD [OF net_silent(3) [OF Cons.prems(1)], of f ai "set_timeout A f ms k1"] c
        silentD [OF set_timeout_silent [OF Cons.prems(1)], of f ms k1] by simp
    show ?thesis
    proof (cases "rc = 0")
      case True
      then show ?thesis using Cons.prems(2) s c k2 made False by auto
    next
      case rc: False
      have k3: "live (nt_close A f k2) = live k \<and> sent (nt_close A f k2) = sent k"
        using freesD [OF net_frees(1) [OF Cons.prems(1)], of f k2] k2 made False by simp
      show ?thesis using Cons.IH [OF Cons.prems(1), of "nt_close A f k2"] Cons.prems(2) s c False rc k3
        by (simp split: if_splits)
    qed
  qed
qed

lemma dial_opens:
  assumes "net_ok A live sent" "dial A u ms k = (r, k')"
  shows "sent k' = sent k \<and>
     (case r of Inl e \<Rightarrow> live k' = live k | Inr fd \<Rightarrow> 0 \<le> fd \<and> HFd fd \<notin> live k \<and> live k' = insert (HFd fd) (live k))"
proof -
  obtain a k1 where rs: "nt_resolve A (cu_host u) (cu_port u) k = (a, k1)" by (metis surj_pair)
  have k1: "live k1 = live k \<and> sent k1 = sent k"
    using silentD [OF net_silent(1) [OF assms(1)], of "cu_host u" "cu_port u" k] rs by simp
  show ?thesis
  proof (cases a)
    case (Inl e)
    then show ?thesis using assms(2) rs k1 by (auto simp: dial_def)
  next
    case (Inr ais)
    obtain fd k2 where t: "try_addresses A ms ais k1 = (fd, k2)" by (metis surj_pair)
    show ?thesis
      using assms(2) rs Inr t k1 try_addresses_opens [OF assms(1) t] by (auto simp: dial_def split: if_splits)
  qed
qed

text \<open>What a transport holds, and that its destructor lets go of it.\<close>

definition held :: "client_conn \<Rightarrow> handle set" where
  "held c = (case c of PlainConn fd \<Rightarrow> {HFd fd}
     | TlsConn fd ctx ssl \<Rightarrow> insert (HFd fd) (HCtx ` set_option ctx \<union> HSsl ` set_option ssl))"

definition conn_fd :: "client_conn \<Rightarrow> int" where
  "conn_fd c = (case c of PlainConn fd \<Rightarrow> fd | TlsConn fd _ _ \<Rightarrow> fd)"

lemma conn_destroy_frees:
  assumes "net_ok A live sent" "0 \<le> conn_fd c"
  shows "live (conn_destroy A c k) = live k - held c \<and> sent (conn_destroy A c k) = sent k"
  using assms(2) freesD [OF net_frees(1) [OF assms(1)]] freesD [OF net_frees(2) [OF assms(1)]]
    freesD [OF net_frees(3) [OF assms(1)]] silentD [OF net_silent(9) [OF assms(1)]]
  by (auto simp: conn_destroy_def held_def conn_fd_def split: client_conn.split option.split)

lemma tls_handshake_holds:
  assumes "net_ok A live sent" "tls_handshake A fd host k = (e, c, k')" "live k = insert (HFd fd) L" "HFd fd \<notin> L"
  shows "conn_fd c = fd \<and> sent k' = sent k \<and> live k' = held c \<union> L \<and> held c \<inter> L = {}"
proof -
  obtain x k1 where cn: "nt_ctx_new A k = (x, k1)" by (metis surj_pair)
  note made1 = makesD [OF net_makes(2) [OF assms(1)] cn]
  show ?thesis
  proof (cases x)
    case None
    then have "c = TlsConn fd None None" "k' = k1" using assms(2) cn by (simp_all add: tls_handshake_def)
    then show ?thesis using None made1 assms(3,4) by (simp add: conn_fd_def held_def)
  next
    case (Some c0)
    obtain s k2 where sn: "nt_ssl_new A c0 (nt_verify_paths A c0 k1) = (s, k2)" by (metis surj_pair)
    note made2 = makesD [OF net_makes(3) [OF assms(1)] sn] and vp = silentD [OF net_silent(5) [OF assms(1)], of c0 k1]
    have k1: "live k1 = insert (HCtx c0) (insert (HFd fd) L)" "HCtx c0 \<notin> L" "sent k1 = sent k"
      using made1 Some assms(3) by auto
    show ?thesis
    proof (cases s)
      case None
      then have "c = TlsConn fd (Some c0) None" "k' = k2" using assms(2) cn Some sn by (simp_all add: tls_handshake_def)
      then show ?thesis using None made2 vp k1 assms(4) by (simp add: conn_fd_def held_def insert_commute)
    next
      case s: (Some s0)
      obtain rc k3 where co: "nt_ssl_connect A s0 (nt_setup A s0 fd (c_str host) k2) = (rc, k3)" by (metis surj_pair)
      have k3: "live k3 = live k2 \<and> sent k3 = sent k2"
        using silentD [OF net_silent(7) [OF assms(1)], of s0 "nt_setup A s0 fd (c_str host) k2"] co
          silentD [OF net_silent(6) [OF assms(1)], of s0 fd "c_str host" k2] by simp
      have k2: "live k2 = insert (HSsl s0) (live k1)" "HSsl s0 \<notin> L" "sent k2 = sent k1"
        using made2 s vp k1(1) by auto
      have "c = TlsConn fd (Some c0) (Some s0)" "k' = k3"
        using assms(2) cn Some sn s co by (simp_all add: tls_handshake_def)
      then show ?thesis using k1 k2 k3 assms(4) by (simp add: conn_fd_def held_def insert_commute)
    qed
  qed
qed

section \<open>The exchange\<close>

lemma conn_write_hands_over:
  assumes "net_ok A live sent" "conn_write A c data k = (n, k')"
  shows "live k' = live k \<and> n \<le> int (length data) \<and> sent k' = sent k @ take (nat n) data"
proof (cases c)
  case (PlainConn fd)
  then show ?thesis using writesD [OF net_writes(1) [OF assms(1)]] assms(2) by (simp add: conn_write_def)
next
  case (TlsConn fd ctx s)
  then show ?thesis
    using writesD [OF net_writes(2) [OF assms(1)]] assms(2) by (cases s) (auto simp: conn_write_def)
qed

lemma read_some_silent: "net_ok A live sent \<Longrightarrow> silent live sent (\<lambda>k. snd (read_some A c n k))"
  by (cases c) (simp_all add: read_some_def silent_def silentD [OF net_silent(4)] silentD [OF net_silent(8)]
      split: option.split)

lemma write_all_sends:
  "net_ok A live sent \<Longrightarrow> write_all A c data k = (ok, k') \<Longrightarrow>
     live k' = live k \<and> (\<exists>n. sent k' = sent k @ take n data) \<and> (ok \<longrightarrow> sent k' = sent k @ data)"
proof (induction A c data k rule: write_all.induct)
  case (1 A c data k)
  show ?case
  proof (cases "data = []")
    case True
    then show ?thesis using 1(3) by (simp add: write_all.simps)
  next
    case False
    obtain n k1 where w: "conn_write A c data k = (n, k1)" by (metis surj_pair)
    note got = conn_write_hands_over [OF 1(2) w]
    show ?thesis
    proof (cases "n \<le> 0")
      case True
      then have "ok = False \<and> k' = k1" using 1(3) False w by (simp add: write_all.simps [of A c data k])
      then show ?thesis using got by auto
    next
      case n: False
      have "write_all A c (drop (nat n) data) k1 = (ok, k')"
        using 1(3) False w n by (simp add: write_all.simps [of A c data k])
      then obtain m where "live k' = live k1" "sent k' = sent k1 @ take m (drop (nat n) data)"
          "ok \<longrightarrow> sent k' = sent k1 @ drop (nat n) data"
        using 1(1) [OF False w [symmetric] n 1(2)] by blast
      moreover have "take (nat n) data @ take m (drop (nat n) data) = take (nat n + m) data" by (simp add: take_add)
      ultimately show ?thesis using got by auto
    qed
  qed
qed

lemma read_response_silent:
  assumes "read_response A c raw k = Some (r, k')" "net_ok A live sent"
  shows "live k' = live k \<and> sent k' = sent k"
proof -
  have "live (snd p) = live k \<and> sent (snd p) = sent k" if "read_response A c raw k = Some p" for p
    using that assms(2)
  proof (induction rule: read_response.raw_induct [rotated 1, consumes 1])
    case (1 f A c raw k p)
    obtain n bytes k1 where rd: "read_some A c 16384 k = ((n, bytes), k1)" by (metis prod.collapse)
    have k1: "live k1 = live k \<and> sent k1 = sent k" using silentD [OF read_some_silent [OF 1(3)], of c 16384 k] rd by simp
    show ?case
    proof (cases "n > 0")
      case True
      then have "f A c (raw @ bytes) k1 = Some p" using 1(2) rd by simp
      then show ?thesis using 1(1) [of A c "raw @ bytes" k1 p] 1(3) k1 by simp
    next
      case False
      then have "snd p = k1" using 1(2) rd by (auto split: if_splits)
      then show ?thesis using k1 by simp
    qed
  qed
  then show ?thesis using assms(1) by fastforce
qed

lemma exchange_clean:
  assumes "net_ok A live sent" "exchange A c wire k = Some (r, k')"
  shows "live k' = live k \<and> (\<exists>n. sent k' = sent k @ take n wire) \<and> (cr_error r = [] \<longrightarrow> sent k' = sent k @ wire)"
proof -
  obtain ok k1 where w: "write_all A c wire k = (ok, k1)" by (metis surj_pair)
  note wr = write_all_sends [OF assms(1) w]
  show ?thesis
  proof (cases ok)
    case False
    then show ?thesis using assms(2) w wr by (auto simp: exchange_def client_failed_def new_client_response_def)
  next
    case True
    then obtain raw k2 where rd: "read_response A c [] k1 = Some (raw, k2)" and k': "k' = k2"
      using assms(2) w by (auto simp: exchange_def bind_eq_Some_conv split: option.splits)
    then show ?thesis using wr True read_response_silent [OF rd assms(1)] k' by (metis order_refl take_all)
  qed
qed

lemma exchange_released:
  assumes "net_ok A live sent" "0 \<le> conn_fd c" "live k = held c \<union> L" "held c \<inter> L = {}"
    and "with_conn A c (exchange A c wire k) = Some (r, k')"
  shows "live k' = L \<and> (\<exists>n. sent k' = sent k @ take n wire) \<and> (cr_error r = [] \<longrightarrow> sent k' = sent k @ wire)"
proof -
  obtain k2 where ex: "exchange A c wire k = Some (r, k2)" and k': "k' = conn_destroy A c k2"
    using assms(5) by (auto simp: with_conn_def)
  have "live k' = L" "sent k' = sent k2"
    using conn_destroy_frees [OF assms(1,2), of k2] exchange_clean [OF assms(1) ex] k' assms(3,4) by auto
  then show ?thesis using exchange_clean [OF assms(1) ex] by simp
qed

lemma dial_error: "dial A u ms k = (Inl e, k') \<Longrightarrow> e \<noteq> []"
  by (auto simp: dial_def split: prod.splits sum.splits if_splits)

lemma tls_handshake_error: "tls_handshake A fd h k = (Some e, c, k') \<Longrightarrow> e \<noteq> []"
  by (auto simp: tls_handshake_def split: prod.splits option.splits if_splits)

lemma failed_error: "cr_error (client_failed e) = e"
  by (simp add: client_failed_def new_client_response_def)

text \<open>From the open descriptor on.\<close>

lemma opened_request_clean:
  assumes "net_ok A live sent" "0 \<le> fd" "HFd fd \<notin> L" "live k = insert (HFd fd) L"
    and "(if tls then
            (case tls_handshake A fd host k of
               (Some e, c, k) \<Rightarrow> with_conn A c (Some (client_failed e, k))
             | (None, c, k) \<Rightarrow> with_conn A c (exchange A c wire k))
          else with_conn A (PlainConn fd) (exchange A (PlainConn fd) wire k)) = Some (r, k')"
  shows "live k' = L \<and> (\<exists>n. sent k' = sent k @ take n wire) \<and> (cr_error r = [] \<longrightarrow> sent k' = sent k @ wire)"
proof (cases tls)
  case False
  then show ?thesis
    using exchange_released [OF assms(1), of "PlainConn fd" k L] assms by (simp add: conn_fd_def held_def)
next
  case True
  obtain e c k1 where h: "tls_handshake A fd host k = (e, c, k1)" by (metis prod_cases3)
  note hs = tls_handshake_holds [OF assms(1) h assms(4,3)]
  have fd: "0 \<le> conn_fd c" using hs assms(2) by simp
  show ?thesis
  proof (cases e)
    case None
    then have "with_conn A c (exchange A c wire k1) = Some (r, k')" using assms(5) True h by simp
    then show ?thesis using exchange_released [OF assms(1) fd, of k1 L wire r k'] hs by simp
  next
    case (Some x)
    then have r: "r = client_failed x" "k' = conn_destroy A c k1" using assms(5) True h by (auto simp: with_conn_def)
    have "live k' = L" "sent k' = sent k"
      using conn_destroy_frees [OF assms(1) fd, of k1] hs r(2) by auto
    moreover have "cr_error r \<noteq> []" using tls_handshake_error h Some r(1) by (simp add: failed_error)
    ultimately show ?thesis by (auto intro: exI [of _ 0])
  qed
qed

text \<open>
  C0: a request leaves nothing behind. Whatever the resolver, the peer, the system and the TLS library answer, on every
  way out - a bad URL, no address, no connection, a failed handshake, a broken write or read, a malformed response, or
  success - the descriptors, contexts and sessions in use are those that were in use before, each freed once; what the
  peer has been given is a prefix of the request as written, and the whole of it unless an error is reported.
\<close>

theorem client_request_clean:
  assumes "net_ok A live sent" "net_request A has_tls order rq k = Some (r, k')"
  shows "live k' = live k \<and>
    (sent k' = sent k \<or> (\<exists>u n. parse_url (cq_url rq) = Some u \<and> sent k' = sent k @ take n (client_wire order u rq))) \<and>
    (cr_error r = [] \<longrightarrow> (\<exists>u. parse_url (cq_url rq) = Some u \<and> sent k' = sent k @ client_wire order u rq))"
proof (cases "parse_url (cq_url rq)")
  case None
  then show ?thesis using assms(2) by (auto simp: net_request_def failed_error)
next
  case u: (Some u)
  obtain d k1 where dl: "dial A u (cq_timeout_ms rq) k = (d, k1)" by (metis surj_pair)
  note opened = dial_opens [OF assms(1) dl]
  consider (no_tls) "\<not> has_tls \<and> cu_tls u" | (refused) e where "has_tls \<or> \<not> cu_tls u" "d = Inl e"
    | (up) fd where "has_tls \<or> \<not> cu_tls u" "d = Inr fd" by (cases d) auto
  then show ?thesis
  proof cases
    case no_tls
    then show ?thesis using assms(2) u by (auto simp: net_request_def failed_error)
  next
    case refused
    then have nt: "(\<not> has_tls \<and> cu_tls u) = False" by blast
    have "r = client_failed e" "k' = k1"
      using assms(2) [unfolded net_request_def u option.case nt if_False dl prod.case refused(2) sum.case] by simp_all
    then show ?thesis using opened refused(2) dial_error [OF dl [unfolded refused(2)]] by (simp add: failed_error)
  next
    case up
    have nt: "(\<not> has_tls \<and> cu_tls u) = False" using up by blast
    have fd: "0 \<le> fd" "HFd fd \<notin> live k" "live k1 = insert (HFd fd) (live k)" using opened up(2) by simp_all
    note run = assms(2) [unfolded net_request_def u option.case nt if_False dl prod.case up(2) sum.case]
    have "live k' = live k \<and> (\<exists>n. sent k' = sent k1 @ take n (client_wire order u rq)) \<and>
        (cr_error r = [] \<longrightarrow> sent k' = sent k1 @ client_wire order u rq)"
      by (rule opened_request_clean [OF assms(1) fd(1,2,3) run])
    then show ?thesis using u opened by simp
  qed
qed
section \<open>The client over an abstract transport\<close>

text \<open>The reads of a connection until the peer or an error ends them: the pieces, and whether it was an error.\<close>

inductive read_trace :: "'k net_api \<Rightarrow> client_conn \<Rightarrow> 'k \<Rightarrow> string list \<Rightarrow> bool \<Rightarrow> 'k \<Rightarrow> bool" where
  eof: "read_some A c 16384 k = ((0, b), k') \<Longrightarrow> read_trace A c k [] False k'"
| broken: "read_some A c 16384 k = ((n, b), k') \<Longrightarrow> n < 0 \<Longrightarrow> read_trace A c k [] True k'"
| piece: "read_some A c 16384 k = ((n, b), k1) \<Longrightarrow> n > 0 \<Longrightarrow> b \<noteq> [] \<Longrightarrow> read_trace A c k1 ss failed k' \<Longrightarrow>
    read_trace A c k (b # ss) failed k'"

text \<open>The loop over the system is the loop over the pieces.\<close>

lemma read_response_trace:
  "read_trace A c k ss failed k' \<Longrightarrow> read_response A c raw k = Some (read_all ss failed raw, k')"
proof (induction arbitrary: raw rule: read_trace.induct)
  case (eof A c k b k')
  then show ?case by (subst read_response.simps) simp
next
  case (broken A c k n b k')
  then show ?case by (subst read_response.simps) simp
next
  case (piece A c k n b k1 ss failed k')
  then show ?case by (subst read_response.simps) simp
qed

text \<open>How a connection came up: plainly, or with a handshake.\<close>

definition comes_up :: "'k net_api \<Rightarrow> client_url \<Rightarrow> int \<Rightarrow> 'k \<Rightarrow> client_conn \<Rightarrow> 'k \<Rightarrow> bool" where
  "comes_up A u ms k c k' \<longleftrightarrow>
     (\<exists>fd k1. dial A u ms k = (Inr fd, k1) \<and>
        (if cu_tls u then tls_handshake A fd (cu_host u) k1 = (None, c, k') else c = PlainConn fd \<and> k' = k1))"

text \<open>
  \<open>HttpClient\<close> takes the network as an argument; here is what it abstracts. When the connection comes up and the reads end,
  the request over the system is the request over the transport that the system amounts to, failures and divergence
  included; when it does not come up, the error is that of dialling or of the handshake.
\<close>

lemma net_request_refines:
  assumes "parse_url (cq_url rq) = Some u" "has_tls \<or> \<not> cu_tls u" "comes_up A u (cq_timeout_ms rq) k c k1"
    and "write_all A c (client_wire order u rq) k1 = (w, k2)" "w \<Longrightarrow> read_trace A c k2 ss failed k3"
  shows "map_option fst (net_request A has_tls order rq k) =
    client_send (\<lambda>_ _. Inr \<lparr>tp_write = \<lambda>_. w, tp_reads = ss, tp_failed = failed\<rparr>) has_tls order rq"
proof -
  have nt: "\<not> (\<not> has_tls \<and> cu_tls u)" using assms(2) by blast
  have "net_request A has_tls order rq k = with_conn A c (exchange A c (client_wire order u rq) k1)"
    using assms(3) unfolding comes_up_def
    by (auto simp: net_request_def assms(1) if_not_P [OF nt] split: if_splits)
  moreover have "map_option fst (with_conn A c (exchange A c (client_wire order u rq) k1)) =
      map_option fst (exchange A c (client_wire order u rq) k1)"
    by (simp add: with_conn_def option.map_comp comp_def case_prod_beta)
  moreover have "map_option fst (exchange A c (client_wire order u rq) k1) =
      (if \<not> w then Some (client_failed ''write failed'')
       else case read_all ss failed [] of None \<Rightarrow> Some (client_failed ''read failed'') | Some raw \<Rightarrow> parse_response raw)"
    using read_response_trace [OF assms(5)]
    by (cases w) (auto simp: exchange_def assms(4) option.map_comp comp_def option.map_ident split: option.split)
  moreover have "client_send (\<lambda>_ _. Inr \<lparr>tp_write = \<lambda>_. w, tp_reads = ss, tp_failed = failed\<rparr>) has_tls order rq =
      (if \<not> w then Some (client_failed ''write failed'')
       else case read_all ss failed [] of None \<Rightarrow> Some (client_failed ''read failed'') | Some raw \<Rightarrow> parse_response raw)"
    unfolding client_send_def Let_def assms(1) option.case if_not_P [OF nt]
    by (simp add: client_failed_def split: option.split)
  ultimately show ?thesis by simp
qed

lemma net_request_refused:
  assumes "parse_url (cq_url rq) = Some u" "has_tls \<or> \<not> cu_tls u" "dial A u (cq_timeout_ms rq) k = (Inl e, k1)"
  shows "map_option fst (net_request A has_tls order rq k) = client_send (\<lambda>_ _. Inl e) has_tls order rq"
proof -
  have nt: "\<not> (\<not> has_tls \<and> cu_tls u)" using assms(2) by blast
  show ?thesis
    unfolding client_send_def Let_def net_request_def assms(1,3) option.case if_not_P [OF nt] by (simp add: client_failed_def)
qed

section \<open>Witness\<close>

text \<open>A system with two addresses of which the second answers, and a peer that fails every handshake.\<close>

record toy_net =
  tn_live :: "handle set"
  tn_sent :: string

definition toy_make :: "handle \<Rightarrow> 'a \<Rightarrow> toy_net \<Rightarrow> 'a option \<times> toy_net" where
  "toy_make h x k = (if h \<in> tn_live k then (None, k) else (Some x, k\<lparr>tn_live := insert h (tn_live k)\<rparr>))"

definition toy_give :: "string \<Rightarrow> toy_net \<Rightarrow> int \<times> toy_net" where
  "toy_give data k = (int (length data), k\<lparr>tn_sent := tn_sent k @ data\<rparr>)"

definition toy_net_api :: "toy_net net_api" where
  "toy_net_api =
     \<lparr>nt_resolve = (\<lambda>h p k. (Inr [0, 1], k)),
      nt_socket = (\<lambda>ai k. case toy_make (HFd 7) 7 k of (r, k) \<Rightarrow> (case r of None \<Rightarrow> -1 | Some fd \<Rightarrow> fd, k)),
      nt_timeout = (\<lambda>fd s us k. k), nt_connect = (\<lambda>fd ai k. (if ai = 1 then 0 else -1, k)),
      nt_close = (\<lambda>fd k. k\<lparr>tn_live := tn_live k - {HFd fd}\<rparr>),
      nt_send = (\<lambda>fd. toy_give), nt_recv = (\<lambda>fd n k. ((0, []), k)),
      nt_ctx_new = toy_make (HCtx 3) 3, nt_ctx_free = (\<lambda>x k. k\<lparr>tn_live := tn_live k - {HCtx x}\<rparr>),
      nt_verify_paths = (\<lambda>x k. k), nt_ssl_new = (\<lambda>x. toy_make (HSsl 4) 4), nt_setup = (\<lambda>s fd h k. k),
      nt_ssl_connect = (\<lambda>s k. (-1, k)), nt_ssl_write = (\<lambda>s. toy_give), nt_ssl_read = (\<lambda>s n k. ((0, []), k)),
      nt_ssl_shutdown = (\<lambda>s k. k), nt_ssl_free = (\<lambda>s k. k\<lparr>tn_live := tn_live k - {HSsl s}\<rparr>)\<rparr>"

lemma toy_net_ok: "net_ok toy_net_api tn_live tn_sent"
  by (auto simp: net_ok_def toy_net_api_def makes_def frees_def writes_def silent_def toy_make_def toy_give_def
      checked_socket_def)

theorem client_request_clean_witness:
  "parse_url ''https://h/'' \<noteq> None \<and>
   net_request toy_net_api True (\<lambda>hs. hs) (new_client_request\<lparr>cq_url := ''https://h/''\<rparr>) \<lparr>tn_live = {HFd 2}, tn_sent = []\<rparr> =
     Some (client_failed ''TLS handshake failed'', \<lparr>tn_live = {HFd 2}, tn_sent = []\<rparr>)"
proof -
  let ?rq = "new_client_request\<lparr>cq_url := ''https://h/''\<rparr>" and ?k = "\<lparr>tn_live = {HFd 2}, tn_sent = []\<rparr>"
  let ?u = "\<lparr>cu_tls = True, cu_host = ''h'', cu_port = ''443'', cu_target = ''/''\<rparr>"
  have u: "parse_url (cq_url ?rq) = Some ?u" by code_simp
  have "\<exists>k'. net_request toy_net_api True (\<lambda>hs. hs) ?rq ?k = Some (client_failed ''TLS handshake failed'', k') \<and> tn_sent k' = []"
    unfolding net_request_def u
    by (simp add: dial_def toy_net_api_def set_timeout_def toy_make_def tls_handshake_def with_conn_def conn_destroy_def
        new_client_request_def c_str_def)
  then obtain k' where run: "net_request toy_net_api True (\<lambda>hs. hs) ?rq ?k = Some (client_failed ''TLS handshake failed'', k')"
    and "tn_sent k' = []" by blast
  moreover have "tn_live k' = {HFd 2}" using client_request_clean [OF toy_net_ok run] by simp
  moreover have "cq_url ?rq = ''https://h/''" by simp
  ultimately show ?thesis using u by (cases k') auto
qed

end
