(* ===== verification/Cli.thy ===== *)
theory Cli
  imports StaticFiles
begin

text \<open>
  The command-line tool: \<open>tools/socketify_cli/main.cpp\<close>. The arguments, the exit code and what is printed; for
  \<open>--run-http\<close> the static-files options and the address the server is run with. The file system and the server are
  arguments.
\<close>

section \<open>What is printed\<close>

definition nl :: "string \<Rightarrow> string" where
  "nl s = s @ [LF]"

definition usage :: "string \<Rightarrow> string" where
  "usage argv0 =
     nl (''Usage: '' @ argv0 @ '' [options]'') @ nl [] @ nl ''Options:''
     @ nl ''  -V, --version           Print Socketify version and exit''
     @ nl ''  -h, --help              Show this help''
     @ nl ''      --info              Version and build feature flags''
     @ nl ''      --run-http <dir>    Serve static files from <dir>''
     @ nl ''      --host <addr>       Bind address (default 0.0.0.0)''
     @ nl ''      --port <n>          Bind port (default 8080)''
     @ nl ''      --index <name>      Index filename for directories''
     @ nl [] @ nl ''Examples:'' @ nl (''  '' @ argv0 @ '' --version'') @ nl (''  '' @ argv0 @ '' --run-http ./public --port 8080'')"

text \<open>The build: the version and the five features.\<close>

record build_info =
  bi_version :: string
  bi_tls :: bool
  bi_sqlite :: bool
  bi_postgres :: bool
  bi_mysql :: bool
  bi_mongo :: bool

definition yes_no :: "bool \<Rightarrow> string" where
  "yes_no b = (if b then ''yes'' else ''no'')"

definition info_text :: "build_info \<Rightarrow> string" where
  "info_text b =
     nl (''Socketify '' @ bi_version b) @ nl (''  TLS:      '' @ yes_no (bi_tls b)) @ nl (''  SQLite:   '' @ yes_no (bi_sqlite b))
     @ nl (''  Postgres: '' @ yes_no (bi_postgres b)) @ nl (''  MySQL:    '' @ yes_no (bi_mysql b))
     @ nl (''  Mongo:    '' @ yes_no (bi_mongo b))"

section \<open>The arguments\<close>

record cli_state =
  cs_version :: bool
  cs_help :: bool
  cs_info :: bool
  cs_dir :: string
  cs_host :: string
  cs_port :: nat
  cs_index :: string

definition cli_start :: cli_state where
  "cli_start = \<lparr>cs_version = False, cs_help = False, cs_info = False, cs_dir = [], cs_host = ''0.0.0.0'', cs_port = 8080, cs_index = []\<rparr>"

text \<open>The exit code, standard output and standard error.\<close>

datatype cli_exit = CliExit nat string string

definition cli_missing :: "string \<Rightarrow> cli_exit" where
  "cli_missing flag = CliExit 2 [] (nl (''error: '' @ flag @ '' requires an argument''))"

text \<open>\<open>strtol\<close> and the check of where it stopped: the port, unless it is refused.\<close>

definition cli_port :: "string \<Rightarrow> nat option" where
  "cli_port s =
     (case strtoll 10 s of
        (v, e, _) \<Rightarrow> if e < length (c_str s) \<or> v \<le> 0 \<or> v > 65535 then None else Some (nat v))"

text \<open>An option that takes a value, and what it does with it.\<close>

definition cli_value_option :: "string \<Rightarrow> (string \<Rightarrow> cli_state \<Rightarrow> cli_exit + cli_state) option" where
  "cli_value_option a =
     (if a = ''--run-http'' then Some (\<lambda>v s. Inr (s\<lparr>cs_dir := v\<rparr>))
      else if a = ''--host'' then Some (\<lambda>v s. Inr (s\<lparr>cs_host := v\<rparr>))
      else if a = ''--port'' then
        Some (\<lambda>v s. case cli_port v of
            None \<Rightarrow> Inl (CliExit 2 [] (nl (''error: invalid --port: '' @ v)))
          | Some p \<Rightarrow> Inr (s\<lparr>cs_port := p\<rparr>))
      else if a = ''--index'' then Some (\<lambda>v s. Inr (s\<lparr>cs_index := v\<rparr>))
      else None)"

text \<open>An option without a value.\<close>

definition cli_flag :: "string \<Rightarrow> (cli_state \<Rightarrow> cli_state) option" where
  "cli_flag a =
     (if a = ''-V'' \<or> a = ''--version'' then Some (\<lambda>s. s\<lparr>cs_version := True\<rparr>)
      else if a = ''-h'' \<or> a = ''--help'' then Some (\<lambda>s. s\<lparr>cs_help := True\<rparr>)
      else if a = ''--info'' then Some (\<lambda>s. s\<lparr>cs_info := True\<rparr>)
      else None)"

fun cli_args :: "string \<Rightarrow> string list \<Rightarrow> cli_state \<Rightarrow> cli_exit + cli_state" where
  "cli_args argv0 [] s = Inr s"
| "cli_args argv0 [a] s =
     (case cli_flag a of
        Some f \<Rightarrow> Inr (f s)
      | None \<Rightarrow>
          (case cli_value_option a of
             Some g \<Rightarrow> Inl (cli_missing a)
           | None \<Rightarrow> Inl (CliExit 2 [] (nl (''error: unknown option: '' @ a) @ usage argv0))))"
| "cli_args argv0 (a # v # args) s =
     (case cli_flag a of
        Some f \<Rightarrow> cli_args argv0 (v # args) (f s)
      | None \<Rightarrow>
          (case cli_value_option a of
             Some g \<Rightarrow> (case g v s of Inl e \<Rightarrow> Inl e | Inr s \<Rightarrow> cli_args argv0 args s)
           | None \<Rightarrow> Inl (CliExit 2 [] (nl (''error: unknown option: '' @ a) @ usage argv0))))"

section \<open>Serving a directory\<close>

text \<open>\<open>absolute\<close>: the path, or an error; \<open>run\<close>: does the server come up with these options, host and port.\<close>

definition run_http :: "(string \<Rightarrow> string option) \<Rightarrow> (string \<Rightarrow> bool) \<Rightarrow> (static_options \<Rightarrow> string \<Rightarrow> nat \<Rightarrow> bool) \<Rightarrow>
    string \<Rightarrow> string \<Rightarrow> nat \<Rightarrow> string \<Rightarrow> cli_exit" where
  "run_http absolute is_dir run dir host port index =
     (case absolute dir of
        None \<Rightarrow> CliExit 1 [] (nl (''error: not a directory: '' @ dir))
      | Some root \<Rightarrow>
          if \<not> is_dir root then CliExit 1 [] (nl (''error: not a directory: '' @ dir))
          else
            (let so = (default_static_options root)\<lparr>sf_mount := ''/'', sf_fallthrough := False, sf_directory_listing := True,
                   sf_auto_index := True\<rparr>;
                 so = (if index \<noteq> [] then so\<lparr>sf_index_names := [index]\<rparr> else so);
                 said = nl (''Serving '' @ root @ '' on http://'' @ host @ '':'' @ show_nat port)
             in if run so host port then CliExit 0 said []
                else CliExit 1 said (nl (''error: failed to bind '' @ host @ '':'' @ show_nat port))))"

text \<open>\<open>main\<close>: the program's name and its arguments.\<close>

definition cli_main :: "(string \<Rightarrow> string option) \<Rightarrow> (string \<Rightarrow> bool) \<Rightarrow> (static_options \<Rightarrow> string \<Rightarrow> nat \<Rightarrow> bool) \<Rightarrow>
    build_info \<Rightarrow> string \<Rightarrow> string list \<Rightarrow> cli_exit" where
  "cli_main absolute is_dir run b argv0 args =
     (case cli_args argv0 args cli_start of
        Inl e \<Rightarrow> e
      | Inr s \<Rightarrow>
          if cs_help s \<or> args = [] then CliExit (if cs_help s then 0 else 2) [] (usage argv0)
          else if cs_version s then CliExit 0 (nl (''Socketify '' @ bi_version b)) []
          else if cs_info s then CliExit 0 (info_text b) []
          else if cs_dir s \<noteq> [] then run_http absolute is_dir run (cs_dir s) (cs_host s) (cs_port s) (cs_index s)
          else CliExit 2 [] (usage argv0))"

section \<open>The grammar of the command line\<close>

text \<open>What the arguments mean, option by option, whatever their order.\<close>

datatype cli_option = OptVersion bool | OptHelp bool | OptInfo | OptDir string | OptHost string | OptPort string | OptIndex string

fun option_words :: "cli_option \<Rightarrow> string list" where
  "option_words (OptVersion short) = [if short then ''-V'' else ''--version'']"
| "option_words (OptHelp short) = [if short then ''-h'' else ''--help'']"
| "option_words OptInfo = [''--info'']"
| "option_words (OptDir d) = [''--run-http'', d]"
| "option_words (OptHost h) = [''--host'', h]"
| "option_words (OptPort p) = [''--port'', p]"
| "option_words (OptIndex i) = [''--index'', i]"

fun option_effect :: "cli_option \<Rightarrow> cli_state \<Rightarrow> cli_state" where
  "option_effect (OptVersion _) s = s\<lparr>cs_version := True\<rparr>"
| "option_effect (OptHelp _) s = s\<lparr>cs_help := True\<rparr>"
| "option_effect OptInfo s = s\<lparr>cs_info := True\<rparr>"
| "option_effect (OptDir d) s = s\<lparr>cs_dir := d\<rparr>"
| "option_effect (OptHost h) s = s\<lparr>cs_host := h\<rparr>"
| "option_effect (OptPort p) s = (case cli_port p of None \<Rightarrow> s | Some n \<Rightarrow> s\<lparr>cs_port := n\<rparr>)"
| "option_effect (OptIndex i) s = s\<lparr>cs_index := i\<rparr>"

definition option_valid :: "cli_option \<Rightarrow> bool" where
  "option_valid q = (case q of OptPort p \<Rightarrow> cli_port p \<noteq> None | _ \<Rightarrow> True)"

lemma cli_args_flag: "cli_flag a = Some f \<Longrightarrow> cli_args argv0 (a # args) s = cli_args argv0 args (f s)"
  by (cases args) simp_all

lemma cli_args_option:
  "option_valid q \<Longrightarrow> cli_args argv0 (option_words q @ args) s = cli_args argv0 args (option_effect q s)"
  by (cases q) (auto simp: cli_args_flag cli_flag_def cli_value_option_def option_valid_def)

lemma cli_args_accepts:
  "\<forall>q\<in>set qs. option_valid q \<Longrightarrow> cli_args argv0 (concat (map option_words qs)) s = Inr (fold option_effect qs s)"
  by (induction qs arbitrary: s) (simp_all add: cli_args_option)

lemma flag_option: "cli_flag a = Some f \<Longrightarrow> \<exists>q. option_valid q \<and> option_words q = [a] \<and> f s = option_effect q s"
  by (rule exI [of _ "if a = ''-V'' \<or> a = ''--version'' then OptVersion (a = ''-V'')
      else if a = ''-h'' \<or> a = ''--help'' then OptHelp (a = ''-h'') else OptInfo"])
     (auto simp: cli_flag_def option_valid_def split: if_splits)

lemma value_option: "cli_value_option a = Some g \<Longrightarrow> g v s = Inr s' \<Longrightarrow>
    \<exists>q. option_valid q \<and> option_words q = [a, v] \<and> s' = option_effect q s"
  by (rule exI [of _ "if a = ''--run-http'' then OptDir v else if a = ''--host'' then OptHost v
      else if a = ''--port'' then OptPort v else OptIndex v"])
     (auto simp: cli_value_option_def option_valid_def split: if_splits option.splits)

lemma cli_args_only:
  "cli_args argv0 args s = Inr s' \<Longrightarrow>
     \<exists>qs. (\<forall>q\<in>set qs. option_valid q) \<and> args = concat (map option_words qs) \<and> s' = fold option_effect qs s"
proof (induction argv0 args s rule: cli_args.induct)
  case (1 argv0 s)
  then show ?case by (intro exI [of _ "[]"]) simp
next
  case (2 argv0 a s)
  then obtain f where "cli_flag a = Some f" "s' = f s" by (auto split: option.splits)
  then obtain q where "option_valid q" "option_words q = [a]" "s' = option_effect q s" using flag_option by blast
  then show ?case by (intro exI [of _ "[q]"]) simp
next
  case (3 argv0 a v args s)
  show ?case
  proof (cases "cli_flag a")
    case (Some f)
    then obtain q where q: "option_valid q" "option_words q = [a]" "f s = option_effect q s" using flag_option by blast
    moreover obtain qs where "\<forall>q\<in>set qs. option_valid q" "v # args = concat (map option_words qs)" "s' = fold option_effect qs (f s)"
      using 3 Some by auto
    ultimately show ?thesis by (intro exI [of _ "q # qs"]) simp
  next
    case None
    then obtain g s1 where g: "cli_value_option a = Some g" "g v s = Inr s1" "cli_args argv0 args s1 = Inr s'"
      using 3(3) by (auto split: option.splits sum.splits)
    then obtain q where "option_valid q" "option_words q = [a, v]" "s1 = option_effect q s" using value_option by blast
    moreover obtain qs where "\<forall>q\<in>set qs. option_valid q" "args = concat (map option_words qs)" "s' = fold option_effect qs s1"
      using 3(1) [OF None g(1,2)] g(3) by blast
    ultimately show ?thesis by (intro exI [of _ "q # qs"]) simp
  qed
qed

text \<open>
  The arguments are accepted exactly when they are a sequence of the options that the usage text names, each port in
  range, and then they mean what the options mean, the last of a kind deciding.
\<close>

lemma cli_grammar:
  "cli_args argv0 args s = Inr s' \<longleftrightarrow>
     (\<exists>qs. (\<forall>q\<in>set qs. option_valid q) \<and> args = concat (map option_words qs) \<and> s' = fold option_effect qs s)"
  using cli_args_only cli_args_accepts by blast

lemma cli_port_range: "cli_port s = Some p \<Longrightarrow> 1 \<le> p \<and> p \<le> 65535"
  by (auto simp: cli_port_def split: prod.splits if_splits)

text \<open>White space, a sign and leading zeros are part of a port.\<close>

lemma cli_port_lenient: "cli_port '' +0080'' = Some 80 \<and> cli_port ''80 '' = None \<and> cli_port ''0'' = None"
  by (simp add: cli_port_def strtoll_def scan_int_def c_str_def is_space_def hex_prefix_def is_digit_in_def digit_value_def)

lemma option_effect_port: "1 \<le> cs_port s \<and> cs_port s \<le> 65535 \<Longrightarrow> 1 \<le> cs_port (option_effect q s) \<and> cs_port (option_effect q s) \<le> 65535"
  by (cases q) (auto dest: cli_port_range split: option.split)

text \<open>Whatever the arguments, the server is only ever run on a port in range.\<close>

lemma cli_port_always_valid:
  assumes "cli_args argv0 args cli_start = Inr s"
  shows "1 \<le> cs_port s \<and> cs_port s \<le> 65535"
proof -
  have "1 \<le> cs_port (fold option_effect qs t) \<and> cs_port (fold option_effect qs t) \<le> 65535"
    if "1 \<le> cs_port t \<and> cs_port t \<le> 65535" for qs t
    using that
  proof (induction qs arbitrary: t)
    case Nil
    then show ?case by simp
  next
    case (Cons q qs)
    then show ?case using Cons.IH [OF option_effect_port] by simp
  qed
  then show ?thesis using cli_args_only [OF assms] by (force simp: cli_start_def)
qed

end
