(* ===== verification/Deflate.thy ===== *)
theory Deflate
  imports Cors
begin

text \<open>
  Compressing a body: \<open>gzip_compress\<close> and \<open>deflate_compress\<close> of \<open>src/compression.cpp\<close>, which feed a zlib stream until it
  says that it has ended. zlib is an argument; what its manual promises is \<open>zlib_ok\<close>, over views of its state. The loop
  has no bound of its own, so it is \<open>None\<close> when it does not return; that it returns is the theorem.
\<close>

section \<open>Definitions\<close>

datatype z_result = ZOk | ZStreamEnd | ZStreamError | ZOther

text \<open>
  \<open>zs_init\<close> gets the level and the window bits. \<open>zs_deflate\<close> gets the stream, the input that is left, the room for output
  and whether to finish; it returns how much of the input it has taken and the output.
\<close>

record 'k zstream_api =
  zs_init :: "int \<Rightarrow> int \<Rightarrow> 'k \<Rightarrow> nat option \<times> 'k"
  zs_deflate :: "nat \<Rightarrow> string \<Rightarrow> nat \<Rightarrow> bool \<Rightarrow> 'k \<Rightarrow> z_result \<times> nat \<times> string \<times> 'k"
  zs_end :: "nat \<Rightarrow> 'k \<Rightarrow> 'k"

partial_function (option) deflate_loop :: "'k zstream_api \<Rightarrow> nat \<Rightarrow> string \<Rightarrow> string \<Rightarrow> 'k \<Rightarrow> (string option \<times> 'k) option" where
  "deflate_loop A z inp out k =
     (case zs_deflate A z inp 16384 (inp = []) k of
        (ret, used, have, k) \<Rightarrow>
          if ret = ZStreamError then Some (None, k)
          else if ret = ZStreamEnd then Some (Some (out @ have), k)
          else deflate_loop A z (drop used inp) (out @ have) k)"

text \<open>The length of the input is cast to 32 bits.\<close>

definition deflate_with :: "'k zstream_api \<Rightarrow> int \<Rightarrow> string \<Rightarrow> int \<Rightarrow> 'k \<Rightarrow> (string option \<times> 'k) option" where
  "deflate_with A window src level k =
     (case zs_init A level window k of
        (None, k) \<Rightarrow> Some (None, k)
      | (Some z, k) \<Rightarrow>
          map_option (\<lambda>(r, k). (r, zs_end A z k)) (deflate_loop A z (take (length src mod 2 ^ 32) src) [] k))"

definition gzip_compress :: "'k zstream_api \<Rightarrow> string \<Rightarrow> int \<Rightarrow> 'k \<Rightarrow> (string option \<times> 'k) option" where
  "gzip_compress A src level k = deflate_with A (15 + 16) src level k"

definition deflate_compress :: "'k zstream_api \<Rightarrow> string \<Rightarrow> int \<Rightarrow> 'k \<Rightarrow> (string option \<times> 'k) option" where
  "deflate_compress A src level k = deflate_with A 15 src level k"

section \<open>What zlib is taken to promise\<close>

text \<open>
  Of each stream: what it has taken, what it has given, and whether it is in use. A call takes a prefix of its input; with
  room for output it makes progress unless it ends or fails; the output stays below a bound that depends on the input; a
  stream ends only when told to finish with no input left, and has then given the encoding of all that it took.
\<close>

record 'k zlib_view =
  zv_taken :: "nat \<Rightarrow> 'k \<Rightarrow> string"
  zv_given :: "nat \<Rightarrow> 'k \<Rightarrow> string"
  zv_live :: "'k \<Rightarrow> nat set"

definition init_ok :: "'k zstream_api \<Rightarrow> 'k zlib_view \<Rightarrow> bool" where
  "init_ok A V \<longleftrightarrow>
     (\<forall>level wb k. case zs_init A level wb k of
        (None, k') \<Rightarrow> zv_live V k' = zv_live V k
      | (Some z, k') \<Rightarrow> z \<notin> zv_live V k \<and> zv_live V k' = insert z (zv_live V k) \<and> zv_taken V z k' = [] \<and> zv_given V z k' = [])"

definition deflate_ok :: "'k zstream_api \<Rightarrow> 'k zlib_view \<Rightarrow> (string \<Rightarrow> nat) \<Rightarrow> (string \<Rightarrow> string) \<Rightarrow> bool" where
  "deflate_ok A V bound enc \<longleftrightarrow>
     (\<forall>z inp room fin k. case zs_deflate A z inp room fin k of (ret, used, have, k') \<Rightarrow>
        zv_live V k' = zv_live V k \<and> used \<le> length inp \<and>
        zv_taken V z k' = zv_taken V z k @ take used inp \<and> zv_given V z k' = zv_given V z k @ have \<and>
        (length (zv_given V z k) \<le> bound (zv_taken V z k @ inp) \<longrightarrow> length (zv_given V z k') \<le> bound (zv_taken V z k @ inp)) \<and>
        (0 < room \<and> (inp \<noteq> [] \<or> fin) \<and> ret \<noteq> ZStreamEnd \<and> ret \<noteq> ZStreamError \<longrightarrow> 0 < used \<or> have \<noteq> []) \<and>
        (ret = ZStreamEnd \<longrightarrow> fin \<and> used = length inp \<and> zv_given V z k' = enc (zv_taken V z k')))"

definition end_ok :: "'k zstream_api \<Rightarrow> 'k zlib_view \<Rightarrow> bool" where
  "end_ok A V \<longleftrightarrow> (\<forall>z k. zv_live V (zs_end A z k) = zv_live V k - {z})"

lemma deflate_okD:
  assumes "deflate_ok A V bound enc" "zs_deflate A z inp room fin k = (ret, used, have, k')"
  shows "zv_live V k' = zv_live V k" "used \<le> length inp" "zv_taken V z k' = zv_taken V z k @ take used inp"
    "zv_given V z k' = zv_given V z k @ have" "length (zv_given V z k) \<le> bound (zv_taken V z k @ inp) \<Longrightarrow> length (zv_given V z k') \<le> bound (zv_taken V z k @ inp)"
    "0 < room \<Longrightarrow> inp \<noteq> [] \<or> fin \<Longrightarrow> ret \<noteq> ZStreamEnd \<Longrightarrow> ret \<noteq> ZStreamError \<Longrightarrow> 0 < used \<or> have \<noteq> []"
    "ret = ZStreamEnd \<Longrightarrow> fin \<and> used = length inp \<and> zv_given V z k' = enc (zv_taken V z k')"
  using spec [OF spec [OF spec [OF spec [OF spec [OF assms(1) [unfolded deflate_ok_def], of z], of inp], of room], of fin], of k]
  unfolding assms(2) prod.case by blast+

section \<open>The loop ends\<close>

text \<open>Each round takes input or gives output, and both are bounded by what was there at the start.\<close>

lemma deflate_loop_returns:
  assumes "deflate_ok A V bound enc"
  shows "zv_given V z k = out \<Longrightarrow> length out \<le> bound (zv_taken V z k @ inp) \<Longrightarrow>
    \<exists>r k'. deflate_loop A z inp out k = Some (r, k') \<and> zv_live V k' = zv_live V k \<and>
      (r = None \<or> r = Some (enc (zv_taken V z k @ inp)))"
proof (induction "length inp + (bound (zv_taken V z k @ inp) - length out)" arbitrary: inp out k rule: less_induct)
  case less
  obtain ret used have' k1 where d: "zs_deflate A z inp 16384 (inp = []) k = (ret, used, have', k1)" by (metis prod_cases4)
  note ok = deflate_okD [OF assms d]
  show ?case
  proof (cases "ret = ZStreamError \<or> ret = ZStreamEnd")
    case True
    then show ?thesis
      using ok(1,3,4) ok(7) less.prems(1) by (subst deflate_loop.simps) (auto simp: d)
  next
    case False
    have prog: "0 < used \<or> have' \<noteq> []" using ok(6) False by simp
    have whole: "zv_taken V z k1 @ drop used inp = zv_taken V z k @ inp" using ok(3) by simp
    have room: "length (out @ have') \<le> bound (zv_taken V z k @ inp)"
      using ok(5) ok(4) less.prems by simp
    have "\<exists>r k'. deflate_loop A z (drop used inp) (out @ have') k1 = Some (r, k') \<and> zv_live V k' = zv_live V k1 \<and>
        (r = None \<or> r = Some (enc (zv_taken V z k1 @ drop used inp)))"
    proof (rule less.hyps)
      have "0 < used \<or> 0 < length have'" using prog by simp
      moreover have "length out + length have' \<le> bound (zv_taken V z k @ inp)" using room by simp
      ultimately show "length (drop used inp) + (bound (zv_taken V z k1 @ drop used inp) - length (out @ have')) <
          length inp + (bound (zv_taken V z k @ inp) - length out)"
        unfolding whole length_drop length_append using ok(2) by linarith
    qed (use ok(4) less.prems(1) whole room in simp_all)
    moreover have "deflate_loop A z inp out k = deflate_loop A z (drop used inp) (out @ have') k1"
      using False by (subst deflate_loop.simps) (simp add: d)
    ultimately show ?thesis using ok(1) whole by simp
  qed
qed

lemma deflate_with_returns:
  assumes "init_ok A V" "deflate_ok A V bound enc" "end_ok A V"
  shows "\<exists>r k'. deflate_with A wb src level k = Some (r, k') \<and> zv_live V k' = zv_live V k \<and>
    (r = None \<or> r = Some (enc (take (length src mod 2 ^ 32) src)))"
proof -
  obtain z k1 where i: "zs_init A level wb k = (z, k1)" by (metis surj_pair)
  have made: "case z of None \<Rightarrow> zv_live V k1 = zv_live V k
      | Some z \<Rightarrow> z \<notin> zv_live V k \<and> zv_live V k1 = insert z (zv_live V k) \<and> zv_taken V z k1 = [] \<and> zv_given V z k1 = []"
    using spec [OF spec [OF spec [OF assms(1) [unfolded init_ok_def], of level], of wb], of k] unfolding i prod.case .
  show ?thesis
  proof (cases z)
    case None
    then show ?thesis using i made by (simp add: deflate_with_def)
  next
    case (Some s)
    obtain r k2 where l: "deflate_loop A s (take (length src mod 2 ^ 32) src) [] k1 = Some (r, k2)" "zv_live V k2 = zv_live V k1"
        "r = None \<or> r = Some (enc (take (length src mod 2 ^ 32) src))"
      using deflate_loop_returns [OF assms(2), of s k1 "[]" "take (length src mod 2 ^ 32) src"] made Some by auto
    have "zv_live V (zs_end A s k2) = zv_live V k" using assms(3) l(2) made Some by (auto simp: end_ok_def)
    then show ?thesis using i Some l by (auto simp: deflate_with_def)
  qed
qed


text \<open>A body of exactly 4 GiB is compressed to the encoding of nothing.\<close>

lemma four_gib_lost:
  assumes "init_ok A V" "deflate_ok A V bound enc" "end_ok A V" "length src = 2 ^ 32" "gzip_compress A src level k = Some (Some out, k')"
  shows "out = enc []"
proof -
  have "take (length src mod 2 ^ 32) src = []" using assms(4) by simp
  then show ?thesis
    using deflate_with_returns [OF assms(1-3), of "15 + 16" src level k] assms(5) by (auto simp: gzip_compress_def)
qed

section \<open>Witness\<close>

text \<open>A zlib that stores: it takes two bytes at a time, gives them back, and ends with a full stop.\<close>

record toy_zlib =
  tz_live :: "nat set"
  tz_taken :: string
  tz_given :: string

definition toy_zstream :: "toy_zlib zstream_api" where
  "toy_zstream =
     \<lparr>zs_init = (\<lambda>level wb k. if 1 \<in> tz_live k then (None, k) else (Some 1, k\<lparr>tz_live := insert 1 (tz_live k), tz_taken := [], tz_given := []\<rparr>)),
      zs_deflate = (\<lambda>z inp room fin k.
        if length (tz_given k) > length (tz_taken k) then (ZStreamError, 0, [], k)
        else if inp = [] then
          (if fin \<and> tz_given k = tz_taken k then (ZStreamEnd, 0, ''.'', k\<lparr>tz_given := tz_given k @ ''.''\<rparr>) else (ZStreamError, 0, [], k))
        else (ZOk, length (take 2 inp), take 2 inp, k\<lparr>tz_taken := tz_taken k @ take 2 inp, tz_given := tz_given k @ take 2 inp\<rparr>)),
      zs_end = (\<lambda>z k. k\<lparr>tz_live := tz_live k - {z}\<rparr>)\<rparr>"

definition toy_zview :: "toy_zlib zlib_view" where
  "toy_zview = \<lparr>zv_taken = (\<lambda>_. tz_taken), zv_given = (\<lambda>_. tz_given), zv_live = tz_live\<rparr>"

lemma toy_zlib_ok:
  "init_ok toy_zstream toy_zview" "deflate_ok toy_zstream toy_zview (\<lambda>s. Suc (length s)) (\<lambda>s. s @ ''.'')" "end_ok toy_zstream toy_zview"
  by (auto simp: init_ok_def deflate_ok_def end_ok_def toy_zstream_def toy_zview_def min_def split: if_splits)


end
