(* ===== verification/DbConnect.thy ===== *)
theory DbConnect
  imports DbEngines
begin

text \<open>
  How the SQL engines open and close their connections: the constructors and destructors in
  \<open>src/db/sqlite_engine.cpp\<close>, \<open>postgres_engine.cpp\<close> and \<open>mysql_engine.cpp\<close>. Handles are numbers and the drivers are
  arguments; a constructor throws its error, or leaves the handle in the engine.
\<close>

section \<open>Definitions\<close>

text \<open>SQLite may hand out a handle although opening failed. The flags are \<open>SQLITE_OPEN_READWRITE\<close>, \<open>CREATE\<close> and \<open>URI\<close>.\<close>

record 'k sqlite_open_api =
  sqo_open :: "string \<Rightarrow> nat \<Rightarrow> 'k \<Rightarrow> (bool \<times> nat option) \<times> 'k"
  sqo_errmsg :: "nat \<Rightarrow> 'k \<Rightarrow> string"
  sqo_close :: "nat \<Rightarrow> 'k \<Rightarrow> 'k"
  sqo_pragma :: "nat \<Rightarrow> string \<Rightarrow> 'k \<Rightarrow> 'k"
  sqo_busy :: "nat \<Rightarrow> int \<Rightarrow> 'k \<Rightarrow> 'k"

definition sqlite_open_args :: "string \<Rightarrow> string \<times> nat" where
  "sqlite_open_args path =
     (if path = '':memory:'' then (''file:socketify_shared_mem?mode=memory&cache=shared'', 2 + 4 + 64) else (path, 2 + 4))"

definition sqlite_connect :: "'k sqlite_open_api \<Rightarrow> string \<Rightarrow> 'k \<Rightarrow> (string + nat option) \<times> 'k" where
  "sqlite_connect A path k =
     (case sqlite_open_args path of
        (open_path, flags) \<Rightarrow>
          (case sqo_open A (c_str open_path) flags k of
             ((ok, db), k) \<Rightarrow>
               if ok then
                 (case db of
                    None \<Rightarrow> (Inr None, k)
                  | Some d \<Rightarrow> (Inr (Some d), sqo_busy A d 5000 (sqo_pragma A d ''PRAGMA foreign_keys = ON;'' k)))
               else
                 (case db of
                    None \<Rightarrow> (Inl ''sqlite open failed'', k)
                  | Some d \<Rightarrow> (Inl (sqo_errmsg A d k), sqo_close A d k))))"

definition sqlite_disconnect :: "'k sqlite_open_api \<Rightarrow> nat option \<Rightarrow> 'k \<Rightarrow> 'k" where
  "sqlite_disconnect A db k = (case db of None \<Rightarrow> k | Some d \<Rightarrow> sqo_close A d k)"

text \<open>PostgreSQL: a handle in any case; its status says whether it is connected.\<close>

record 'k pg_open_api =
  pgo_connect :: "string \<Rightarrow> 'k \<Rightarrow> nat \<times> 'k"
  pgo_ok :: "nat \<Rightarrow> 'k \<Rightarrow> bool"
  pgo_errmsg :: "nat \<Rightarrow> 'k \<Rightarrow> string"
  pgo_finish :: "nat \<Rightarrow> 'k \<Rightarrow> 'k"

definition pg_connect :: "'k pg_open_api \<Rightarrow> string \<Rightarrow> nat \<Rightarrow> string \<Rightarrow> string \<Rightarrow> string \<Rightarrow> 'k \<Rightarrow> (string + nat) \<times> 'k" where
  "pg_connect A host port db user password k =
     (case pgo_connect A (c_str (pg_conninfo host port db user password)) k of
        (c, k) \<Rightarrow> if pgo_ok A c k then (Inr c, k) else (Inl (pgo_errmsg A c k), pgo_finish A c k))"

text \<open>MySQL: a handle first, then the connection on it.\<close>

record 'k my_open_api =
  myo_init :: "'k \<Rightarrow> nat option \<times> 'k"
  myo_connect :: "nat \<Rightarrow> string \<Rightarrow> string \<Rightarrow> string \<Rightarrow> string \<Rightarrow> nat \<Rightarrow> 'k \<Rightarrow> bool \<times> 'k"
  myo_error :: "nat \<Rightarrow> 'k \<Rightarrow> string"
  myo_close :: "nat \<Rightarrow> 'k \<Rightarrow> 'k"

definition my_connect :: "'k my_open_api \<Rightarrow> string \<Rightarrow> string \<Rightarrow> string \<Rightarrow> string \<Rightarrow> nat \<Rightarrow> 'k \<Rightarrow> (string + nat) \<times> 'k" where
  "my_connect A host user password db port k =
     (case myo_init A k of
        (None, k) \<Rightarrow> (Inl ''mysql_init failed'', k)
      | (Some c, k) \<Rightarrow>
          (case myo_connect A c (c_str host) (c_str user) (c_str password) (c_str db) port k of
             (ok, k) \<Rightarrow> if ok then (Inr c, k) else (Inl (myo_error A c k), myo_close A c k)))"

section \<open>No handle is lost\<close>

text \<open>\<open>live\<close>: the handles that are in use. Opening adds the one it hands out, closing removes it.\<close>

definition sqlite_handles_ok :: "'k sqlite_open_api \<Rightarrow> ('k \<Rightarrow> nat set) \<Rightarrow> bool" where
  "sqlite_handles_ok A live \<longleftrightarrow>
     (\<forall>p f k. case sqo_open A p f k of ((ok, db), k') \<Rightarrow> set_option db \<inter> live k = {} \<and> live k' = live k \<union> set_option db) \<and>
     (\<forall>d k. live (sqo_close A d k) = live k - {d}) \<and> (\<forall>d s k. live (sqo_pragma A d s k) = live k) \<and>
     (\<forall>d n k. live (sqo_busy A d n k) = live k)"

definition pg_handles_ok :: "'k pg_open_api \<Rightarrow> ('k \<Rightarrow> nat set) \<Rightarrow> bool" where
  "pg_handles_ok A live \<longleftrightarrow>
     (\<forall>s k. case pgo_connect A s k of (c, k') \<Rightarrow> c \<notin> live k \<and> live k' = insert c (live k)) \<and>
     (\<forall>c k. live (pgo_finish A c k) = live k - {c})"

definition my_handles_ok :: "'k my_open_api \<Rightarrow> ('k \<Rightarrow> nat set) \<Rightarrow> bool" where
  "my_handles_ok A live \<longleftrightarrow>
     (\<forall>k. case myo_init A k of (db, k') \<Rightarrow> set_option db \<inter> live k = {} \<and> live k' = live k \<union> set_option db) \<and>
     (\<forall>c h u p d n k. live (snd (myo_connect A c h u p d n k)) = live k) \<and>
     (\<forall>c k. live (myo_close A c k) = live k - {c})"

text \<open>A constructor that throws has given back what it was given; one that returns keeps exactly its handle.\<close>

lemma sqlite_connect_clean:
  assumes "sqlite_handles_ok A live" "sqlite_connect A path k = (r, k')"
  shows "live k' = live k \<union> (case r of Inl e \<Rightarrow> {} | Inr db \<Rightarrow> set_option db)"
proof -
  obtain p f where args: "sqlite_open_args path = (p, f)" by (metis surj_pair)
  obtain ok db k1 where op: "sqo_open A (c_str p) f k = ((ok, db), k1)" by (metis prod.collapse)
  have opened: "set_option db \<inter> live k = {}" "live k1 = live k \<union> set_option db"
    using assms(1) [unfolded sqlite_handles_ok_def, THEN conjunct1, THEN spec [of _ "c_str p"], THEN spec [of _ f], THEN spec [of _ k]]
    by (simp_all add: op)
  have quiet: "live (sqo_close A d x) = live x - {d}" "live (sqo_pragma A d s x) = live x" "live (sqo_busy A d n x) = live x" for d s n x
    using assms(1) by (simp_all add: sqlite_handles_ok_def)
  show ?thesis
    using assms(2) opened quiet by (cases ok; cases db) (auto simp: sqlite_connect_def args op)
qed

lemma pg_connect_clean:
  assumes "pg_handles_ok A live" "pg_connect A host port db user password k = (r, k')"
  shows "live k' = live k \<union> (case r of Inl e \<Rightarrow> {} | Inr c \<Rightarrow> {c})"
proof -
  let ?s = "c_str (pg_conninfo host port db user password)"
  obtain c k1 where op: "pgo_connect A ?s k = (c, k1)" by (metis surj_pair)
  have opened: "c \<notin> live k" "live k1 = insert c (live k)"
    using assms(1) [unfolded pg_handles_ok_def, THEN conjunct1, THEN spec [of _ ?s], THEN spec [of _ k]] by (simp_all add: op)
  have quiet: "live (pgo_finish A d x) = live x - {d}" for d x
    using assms(1) by (simp add: pg_handles_ok_def)
  show ?thesis using assms(2) opened quiet by (cases "pgo_ok A c k1") (auto simp: pg_connect_def op)
qed

lemma my_connect_clean:
  assumes "my_handles_ok A live" "my_connect A host user password db port k = (r, k')"
  shows "live k' = live k \<union> (case r of Inl e \<Rightarrow> {} | Inr c \<Rightarrow> {c})"
proof -
  obtain c k1 where op: "myo_init A k = (c, k1)" by (metis surj_pair)
  have opened: "set_option c \<inter> live k = {}" "live k1 = live k \<union> set_option c"
    using assms(1) [unfolded my_handles_ok_def, THEN conjunct1, THEN spec [of _ k]] by (simp_all add: op)
  have quiet: "live (snd (myo_connect A d h u p b n x)) = live x" "live (myo_close A d x) = live x - {d}" for d h u p b n x
    using assms(1) by (simp_all add: my_handles_ok_def)
  show ?thesis
  proof (cases c)
    case None
    then show ?thesis using assms(2) opened by (auto simp: my_connect_def op)
  next
    case (Some d)
    obtain ok k2 where co: "myo_connect A d (c_str host) (c_str user) (c_str password) (c_str db) port k1 = (ok, k2)"
      by (metis surj_pair)
    have "live k2 = live k1" using quiet(1) [of d "c_str host" "c_str user" "c_str password" "c_str db" port k1] co by simp
    then show ?thesis using assms(2) opened quiet(2) Some co by (cases ok) (auto simp: my_connect_def op)
  qed
qed

text \<open>All connections to \<open>:memory:\<close> are to one shared database.\<close>

lemma memory_is_shared: "fst (sqlite_open_args '':memory:'') = ''file:socketify_shared_mem?mode=memory&cache=shared''"
  by (simp add: sqlite_open_args_def)

end
