(* ===== verification/Timestamps.thy ===== *)
theory Timestamps
  imports HttpDate Logging
begin

text \<open>
  Time stamps as text: the default sink of \<open>src/logging.cpp\<close> and \<open>now_iso_\<close> of \<open>db/model.h\<close>. The time is milliseconds or
  microseconds since 1970, the local time zone an argument.
\<close>

section \<open>Definitions\<close>

text \<open>\<open>%0wd\<close> of a number that is not negative.\<close>

definition padded :: "nat \<Rightarrow> nat \<Rightarrow> string" where
  "padded w n = replicate (w - length (show_nat n)) CHR ''0'' @ show_nat n"

definition stamp_text :: "tm \<Rightarrow> string" where
  "stamp_text t =
     show_nat (tm_year t) @ ''-'' @ padded 2 (tm_mon t + 1) @ ''-'' @ padded 2 (tm_mday t) @ '' ''
     @ padded 2 (tm_hour t) @ '':'' @ padded 2 (tm_min t) @ '':'' @ padded 2 (tm_sec t)"

text \<open>\<open>%.*s\<close> stops at a NUL byte.\<close>

definition default_sink :: "(nat \<Rightarrow> tm) \<Rightarrow> nat \<Rightarrow> log_level \<Rightarrow> string \<Rightarrow> string" where
  "default_sink localtime now_ms lvl msg =
     stamp_text (localtime (now_ms div 1000)) @ ''.'' @ padded 3 (now_ms mod 1000) @ '' ['' @ level_tag lvl @ ''] ''
     @ c_str msg @ [LF]"

definition gmtime :: "nat \<Rightarrow> tm" where
  "gmtime secs =
     (case civil_from_days (int secs div 86400) of
        (y, m, d) \<Rightarrow>
          \<lparr>tm_sec = secs mod 60, tm_min = secs div 60 mod 60, tm_hour = secs div 3600 mod 24, tm_mday = nat d,
           tm_mon = nat (m - 1), tm_year = nat y\<rparr>)"

definition now_iso :: "nat \<Rightarrow> string" where
  "now_iso now_us =
     (let t = gmtime (now_us div 1000000)
      in padded 4 (tm_year t) @ ''-'' @ padded 2 (tm_mon t + 1) @ ''-'' @ padded 2 (tm_mday t) @ ''T''
         @ padded 2 (tm_hour t) @ '':'' @ padded 2 (tm_min t) @ '':'' @ padded 2 (tm_sec t) @ ''.''
         @ padded 6 (now_us mod 1000000) @ ''Z'')"

section \<open>The texts\<close>

lemma iso_example: "now_iso 784111777000042 = ''1994-11-06T08:49:37.000042Z''"
proof -
  have "civil_from_days 9075 = (1994, 11, 6)" by code_simp
  moreover have "show_nat 1994 = ''1994''" "show_nat 11 = ''11''" "show_nat 6 = ''6''" "show_nat 8 = ''8''" "show_nat 49 = ''49''"
      "show_nat 37 = ''37''" "show_nat 42 = ''42''"
    by code_simp+
  moreover have "replicate 4 CHR ''0'' = ''0000''" by (simp add: eval_nat_numeral)
  ultimately show ?thesis by (simp add: now_iso_def gmtime_def padded_def)
qed

text \<open>A message in the log ends at its first NUL byte.\<close>

lemma c_str_nul: "c_str (a @ NUL # b) = c_str a"
  by (induction a) (simp_all add: c_str_def)

lemma log_cut_at_nul: "default_sink lt now lvl (a @ NUL # b) = default_sink lt now lvl a"
  by (simp add: default_sink_def c_str_nul)

end
