(* ===== verification/Wire.thy ===== *)
theory Wire
  imports Server Sockets
begin

text \<open>
  The worker's loops over a real socket: the writing loops of \<open>flush_output_\<close> and the reading loop of \<open>on_readable_\<close>
  (\<open>src/server.cpp\<close>) over \<open>Socket::write\<close>, \<open>Socket::send_file\<close> and \<open>Socket::read\<close>. \<open>Server\<close> runs the same loops over a
  script of results. Here the two are brought together: whatever the system does is one of the scripts, so what \<open>ServerLaws\<close>
  proves for every script holds over every system.
\<close>

section \<open>The loops\<close>

text \<open>\<open>off\<close> is \<open>out_off\<close>. The loop ends if the socket makes progress; it has no bound of its own.\<close>

partial_function (option) sock_drain :: "'k sys_api \<Rightarrow> sock \<Rightarrow> string \<Rightarrow> nat \<Rightarrow> 'k \<Rightarrow> (nat \<times> io_end \<times> 'k) option" where
  "sock_drain A s out off k =
     (if off < length out then
        (case sock_write A (drop off out) s k of
           (r, n, k) \<Rightarrow>
             if r = ResOk then sock_drain A s out (off + n) k
             else if r = ResWantWrite \<or> r = ResWantRead then Some (off, Blocked, k)
             else Some (off, Failed, k))
      else Some (off, Done, k))"

text \<open>\<open>off\<close> and \<open>end\<close> are \<open>file_off\<close> and \<open>file_end\<close>.\<close>

partial_function (option) sock_stream :: "'k sys_api \<Rightarrow> sock \<Rightarrow> int \<Rightarrow> nat \<Rightarrow> nat \<Rightarrow> 'k \<Rightarrow> (nat \<times> io_end \<times> 'k) option" where
  "sock_stream A s f fend off k =
     (if off < fend then
        (case sock_send_file A f off (fend - off) s k of
           (r, off, n, k) \<Rightarrow>
             if r = ResOk then (if n = 0 then Some (off, Eof, k) else sock_stream A s f fend off k)
             else if r = ResWantWrite \<or> r = ResWantRead then Some (off, Blocked, k)
             else Some (off, Failed, k))
      else Some (off, Done, k))"

text \<open>The input buffer, whether data came, whether the stream has ended.\<close>

partial_function (option) sock_fill :: "'k sys_api \<Rightarrow> sock \<Rightarrow> buffer \<Rightarrow> bool \<Rightarrow> 'k \<Rightarrow> ((buffer \<times> bool \<times> bool) \<times> 'k) option" where
  "sock_fill A s b got k =
     (case sock_read A 16384 s k of
        (r, bytes, k) \<Rightarrow>
          if r = ResOk then sock_fill A s (buf_append bytes b) True k
          else if r = ResWantRead \<or> r = ResWantWrite then Some ((b, got, False), k)
          else Some ((b, got, True), k))"

section \<open>Every run is a script\<close>

lemma sock_drain_script:
  assumes "transfers_ok A sent content"
  shows "off \<le> length out \<Longrightarrow>
    \<exists>off' e k' script. sock_drain A s out off k = Some (off', e, k') \<and> write_loop script (drop off out) = ([], off' - off, e) \<and>
      off \<le> off' \<and> sent k' = sent k @ take (off' - off) (drop off out)"
proof (induction "length out - off" arbitrary: off k rule: less_induct)
  case less
  show ?case
  proof (cases "off < length out")
    case False
    then show ?thesis by (subst sock_drain.simps) (auto simp: write_loop.simps)
  next
    case True
    obtain r n k1 where w: "sock_write A (drop off out) s k = (r, n, k1)" by (metis prod_cases3)
    note wr = sock_write_taken [OF assms w]
    have step: "sock_drain A s out off k =
        (if r = ResOk then sock_drain A s out (off + n) k1
         else if r = ResWantWrite \<or> r = ResWantRead then Some (off, Blocked, k1) else Some (off, Failed, k1))"
      using True by (subst sock_drain.simps) (simp add: w)
    show ?thesis
    proof (cases "r = ResOk")
      case ok: True
      have n: "0 < n" "off + n \<le> length out" using wr ok True by auto
      have lt: "length out - (off + n) < length out - off" using n by simp
      obtain off' e k' sc where IH: "sock_drain A s out (off + n) k1 = Some (off', e, k')"
          "write_loop sc (drop (off + n) out) = ([], off' - (off + n), e)" "off + n \<le> off'"
          "sent k' = sent k1 @ take (off' - (off + n)) (drop (off + n) out)"
        using less.hyps [OF lt n(2), of k1] by blast
      have "min n (length (drop off out)) = n" "drop n (drop off out) = drop (off + n) out" "drop off out \<noteq> []"
        using n True by (simp_all add: add.commute)
      then have "write_loop (IoOk n # sc) (drop off out) = ([], n + (off' - (off + n)), e)"
        using IH(2) by (simp add: write_loop.simps [of "IoOk n # sc"])
      then have "write_loop (IoOk n # sc) (drop off out) = ([], off' - off, e)" using IH(3) by simp
      moreover have "sent k' = sent k @ take (off' - off) (drop off out)"
      proof -
        have "take (off' - off) (drop off out) = take n (drop off out) @ take (off' - (off + n)) (drop (off + n) out)"
          using IH(3) take_add [of n "off' - (off + n)" "drop off out"] by (simp add: add.commute)
        then show ?thesis using IH(4) wr by simp
      qed
      ultimately show ?thesis using IH(1,3) step ok by auto
    next
      case False
      have "write_loop [if r = ResWantWrite \<or> r = ResWantRead then IoWant else IoFail] (drop off out) =
          ([], 0, if r = ResWantWrite \<or> r = ResWantRead then Blocked else Failed)"
        using True by (simp add: write_loop.simps)
      then show ?thesis using step False wr by (auto intro!: exI)
    qed
  qed
qed

lemma sock_stream_script:
  assumes "transfers_ok A sent content" "reads_ok A content"
  shows "\<exists>off' e k' script. sock_stream A s f fend off k = Some (off', e, k') \<and>
      file_loop script (fend - off) (drop off (content f)) = ([], off' - off, e) \<and>
      off \<le> off' \<and> sent k' = sent k @ take (off' - off) (drop off (content f))"
proof (induction "fend - off" arbitrary: off k rule: less_induct)
  case less
  show ?case
  proof (cases "off < fend")
    case False
    then show ?thesis by (subst sock_stream.simps) (auto simp: file_loop.simps)
  next
    case True
    obtain r off1 n k1 where w: "sock_send_file A f off (fend - off) s k = (r, off1, n, k1)" by (metis prod_cases4)
    note wr = send_file_exact [OF assms w]
    have step: "sock_stream A s f fend off k =
        (if r = ResOk then (if n = 0 then Some (off1, Eof, k1) else sock_stream A s f fend off1 k1)
         else if r = ResWantWrite \<or> r = ResWantRead then Some (off1, Blocked, k1) else Some (off1, Failed, k1))"
      using True by (subst sock_stream.simps) (simp add: w)
    consider (more) "r = ResOk" "0 < n" | (eof) "r = ResOk" "n = 0" | (stop) "r \<noteq> ResOk" by blast
    then show ?thesis
    proof cases
      case more
      have n: "off1 = off + n" "n \<le> fend - off" "n \<le> length (drop off (content f))" using wr by simp_all
      have lt: "fend - off1 < fend - off" using True more(2) n(1) by simp
      obtain off' e k' sc where IH: "sock_stream A s f fend off1 k1 = Some (off', e, k')"
          "file_loop sc (fend - off1) (drop off1 (content f)) = ([], off' - off1, e)" "off1 \<le> off'"
          "sent k' = sent k1 @ take (off' - off1) (drop off1 (content f))"
        using less.hyps [OF lt, of k1] by blast
      have "min n (min (fend - off) (length (drop off (content f)))) = n" using n by linarith
      then have "file_loop (IoOk n # sc) (fend - off) (drop off (content f)) = ([], off' - off, e)"
        using IH(2,3) n(1) more(2) True by (simp add: file_loop.simps [of "IoOk n # sc"] add.commute)
      moreover have "sent k' = sent k @ take (off' - off) (drop off (content f))"
      proof -
        have "take (off' - off) (drop off (content f)) = take n (drop off (content f)) @ take (off' - off1) (drop off1 (content f))"
          using IH(3) n(1) take_add [of n "off' - off1" "drop off (content f)"] by (simp add: add.commute)
        then show ?thesis using IH(4) wr by simp
      qed
      ultimately show ?thesis using IH(1,3) step more n(1) by auto
    next
      case eof
      have "file_loop [IoOk 0] (fend - off) (drop off (content f)) = ([], 0, Eof)" using True by (simp add: file_loop.simps)
      then show ?thesis using step eof wr by (auto intro!: exI)
    next
      case stop
      have "file_loop [if r = ResWantWrite \<or> r = ResWantRead then IoWant else IoFail] (fend - off) (drop off (content f)) =
          ([], 0, if r = ResWantWrite \<or> r = ResWantRead then Blocked else Failed)"
        using True by (simp add: file_loop.simps)
      then show ?thesis using step stop wr by (auto intro!: exI)
    qed
  qed
qed

text \<open>Reading ends when the system says so; if it does, the pieces are a list of reads.\<close>

lemma sock_fill_reads:
  assumes "sock_fill A s b got k = Some p"
  shows "\<exists>reads g. read_loop reads b = (fst (fst p), g, snd (snd (fst p))) \<and> fst (snd (fst p)) = (got \<or> g)"
  using assms
proof (induction rule: sock_fill.raw_induct [rotated 1, consumes 1])
  case (1 f A s b got k p)
  obtain r bytes k1 where rd: "sock_read A 16384 s k = (r, bytes, k1)" by (metis prod_cases3)
  show ?case
  proof (cases "r = ResOk")
    case True
    then have "f A s (buf_append bytes b) True k1 = Some p" using 1(2) rd by simp
    then obtain reads g where "read_loop reads (buf_append bytes b) = (fst (fst p), g, snd (snd (fst p)))" "fst (snd (fst p))"
      using 1(1) by blast
    then have "read_loop (RdOk bytes # reads) b = (fst (fst p), True, snd (snd (fst p))) \<and> fst (snd (fst p)) = (got \<or> True)" by simp
    then show ?thesis by blast
  next
    case False
    then have "read_loop [if r = ResWantRead \<or> r = ResWantWrite then RdWant else RdEnd] b = (fst (fst p), False, snd (snd (fst p)))
        \<and> fst (snd (fst p)) = (got \<or> False)"
      using 1(2) rd by (auto split: if_splits)
    then show ?thesis by blast
  qed
qed

section \<open>The property\<close>

text \<open>
  C0: writing over a real socket is writing by script, and it ends. Over every system that keeps the kernel's promises,
  plain or TLS, the two loops of \<open>flush_output_\<close> return; there are scripts of results for which the loops of the server's
  model accept as many bytes and end the same way; and the peer has been sent exactly those bytes: of the output buffer
  from its offset on, then of the file from its offset on.
\<close>

theorem socket_writes_are_scripts:
  assumes "transfers_ok A sent content" "reads_ok A content" "off \<le> length out"
  shows "\<exists>off' e k' script foff' fe k'' fscript.
    sock_drain A s out off k = Some (off', e, k') \<and> write_loop script (drop off out) = ([], off' - off, e) \<and>
    sock_stream A s f fend foff k' = Some (foff', fe, k'') \<and>
    file_loop fscript (fend - foff) (drop foff (content f)) = ([], foff' - foff, fe) \<and>
    sent k'' = sent k @ take (off' - off) (drop off out) @ take (foff' - foff) (drop foff (content f))"
proof -
  obtain off' e k' sc where d: "sock_drain A s out off k = Some (off', e, k')"
      "write_loop sc (drop off out) = ([], off' - off, e)" "sent k' = sent k @ take (off' - off) (drop off out)"
    using sock_drain_script [OF assms(1,3)] by blast
  obtain foff' fe k'' fsc where "sock_stream A s f fend foff k' = Some (foff', fe, k'')"
      "file_loop fsc (fend - foff) (drop foff (content f)) = ([], foff' - foff, fe)"
      "sent k'' = sent k' @ take (foff' - foff) (drop foff (content f))"
    using sock_stream_script [OF assms(1,2)] by blast
  then show ?thesis using d by (auto intro!: exI)
qed

theorem socket_writes_are_scripts_witness:
  "sock_drain (toy_sys ''file'') (no_sock\<lparr>so_fd := 9\<rparr>) ''head'' 0 \<lparr>tk_sent = [], tk_fds = {5, 9}\<rparr> =
     Some (4, Done, \<lparr>tk_sent = ''head'', tk_fds = {5, 9}\<rparr>) \<and>
   sock_stream (toy_sys ''file'') (no_sock\<lparr>so_fd := 9\<rparr>) 5 4 1 \<lparr>tk_sent = ''head'', tk_fds = {5, 9}\<rparr> =
     Some (4, Done, \<lparr>tk_sent = ''headile'', tk_fds = {5, 9}\<rparr>)"
proof -
  let ?A = "toy_sys ''file''" and ?s = "no_sock\<lparr>so_fd := 9\<rparr>" and ?k = "\<lparr>tk_sent = [], tk_fds = {5, 9}\<rparr>"
  let ?h = "\<lparr>tk_sent = ''head'', tk_fds = {5, 9}\<rparr>"
  have d: "sock_drain ?A ?s ''head'' 0 ?k = Some (4, Done, ?h)"
    by (simp add: sock_drain.simps sock_write_def toy_sys_def toy_take_def no_sock_def)
  obtain off' e k' script foff' fe k'' fscript where w: "sock_drain ?A ?s ''head'' 0 ?k = Some (off', e, k')"
      "sock_stream ?A ?s 5 4 1 k' = Some (foff', fe, k'')"
      "tk_sent k'' = tk_sent ?k @ take (off' - 0) (drop 0 ''head'') @ take (foff' - 1) (drop 1 ''file'')"
    using socket_writes_are_scripts [OF toy_transfers toy_reads, of 0 "''head''" "''file''" ?s ?k 5 4 1] by auto
  have "k' = ?h" using w(1) d by simp
  then have "foff' = 4 \<and> fe = Done \<and> tk_fds k'' = {5, 9}"
    using w(2) by (auto simp: sock_stream.simps sock_send_file_def toy_sys_def toy_take_def no_sock_def)
  then have "k'' = \<lparr>tk_sent = ''headile'', tk_fds = {5, 9}\<rparr> \<and> foff' = 4 \<and> fe = Done"
    using w(3) w(1) d by (cases k'') simp
  then show ?thesis using w(2) d \<open>k' = ?h\<close> by simp
qed

end
