(* ===== verification/Spec2Isabelle.thy ===== *)
theory Spec2Isabelle
  imports FramingLaws Digest RouterLaws Cors Respond PulseChannel PulseMedia PulseEasy Sse ServerLaws Cache Sessions Database DbModel DbDocument StaticFiles HttpClient RateLimit Body Config Validation Logging HttpDate EventLoop Worker Lifecycle DbEngines Sockets Tls ClientNet Cli Deflate DbConnect Timestamps Wire
begin

text \<open>
  A model of Socketify, a C++20 web framework: an HTTP/1.1 server with a router and middleware, WebSocket
  channels (called Pulse), server-sent events, sessions, a cache, static files, an HTTP client and a database layer.
  Paths below are relative to the repository's root; headers are in \<open>include/socketify/\<close>.

  \<^bold>\<open>The parts and how they interact.\<close> A worker thread (\<open>src/server.cpp\<close>) owns its connections. Bytes that
  arrive go to the incremental request parser (\<open>src/detail/http_parser_sm.cpp\<close>); a finished message becomes a
  request, which the router (\<open>src/router.cpp\<close>) sends through a chain of middleware to a handler. The handler fills
  in a response (\<open>src/response.cpp\<close>); the worker serializes it into the output buffer (\<open>detail/buffer.h\<close>) and writes
  it when the socket allows, then goes on with the next pipelined request. A handler may also turn the connection into an
  event stream (\<open>src/sse.cpp\<close>) or into a Pulse channel (\<open>src/pulse.cpp\<close>). Sessions, CORS, rate limiting, logging,
  static files are middleware; the cache, the client and the database layer are used by handlers.

  \<^bold>\<open>Theories, in the order of their imports.\<close>
  \<^item> \<open>Prelude\<close>: bytes, searching in strings, 64-bit sums, association lists as maps (locale \<open>keyed_map\<close> and its
    interpretation \<open>pm\<close>), consumers of cut streams (locale \<open>incremental\<close>). \<open>CLib\<close>: \<open>strtoll\<close>, \<open>strtoull\<close>,
    printing of numbers.
  \<^item> \<open>Utils\<close>: \<open>detail/utils.h\<close> and the hex and comparison parts of \<open>src/detail/utils.cpp\<close>; \<open>HttpDate\<close>: its dates, both ways;
    \<open>Base64\<close> and
    \<open>Digest\<close> (SHA-256, HMAC, SHA-1 on machine words, buffered updates equal to hashing at once): the rest of it.
  \<^item> \<open>Http\<close>: methods, status codes, MIME types, case-insensitive headers (locale \<open>hashed_map\<close>): \<open>http.h\<close>, \<open>src/http.cpp\<close>.
  \<^item> \<open>HttpParser\<close>: the parser's handlers, and a machine that reads one byte at a time; \<open>ParserLaws\<close>: the former
    refines the latter, cutting the input is invisible, requests are parsed back, limits; \<open>FramingLaws\<close>: no completed
    request has ambiguous framing.
  \<^item> \<open>Messages\<close>: requests, responses, cookies (\<open>src/request.cpp\<close>, \<open>src/response.cpp\<close>, \<open>src/cookies.cpp\<close>);
    \<open>Body\<close>: forms and uploads (\<open>src/body.cpp\<close>).
  \<^item> \<open>Router\<close>, \<open>RouterLaws\<close>: \<open>src/router.cpp\<close> and \<open>src/middleware.cpp\<close>. A middleware is an interaction tree over
    the world it shares with the others (return, throw, or call the rest of the chain and go on).
  \<^item> \<open>Cors\<close> (\<open>src/cors.cpp\<close>, the policy of \<open>src/compression.cpp\<close>; \<open>Deflate\<close>: the loops that compress), \<open>RateLimit\<close> (\<open>src/ratelimit.cpp\<close>), \<open>Logging\<close>
    (\<open>src/logging.cpp\<close>; with \<open>Timestamps\<close> for what the default sink prints), \<open>Sessions\<close> (\<open>src/sessions.cpp\<close>; locale \<open>session_store\<close> for the stores, interpreted by
    the memory store), \<open>StaticFiles\<close> (\<open>src/static_files.cpp\<close>): the other middleware.
  \<^item> \<open>Respond\<close>: \<open>serialize_response_\<close> and the output buffer (locale \<open>byte_queue\<close>); \<open>Server\<close>: the connection and
    every handler of a worker's loop; \<open>ServerLaws\<close>: the invariant, order and delivery, closing, deadlines.
  \<^item> \<open>EventLoop\<close> (\<open>src/detail/loop_epoll.cpp\<close>): interest, waiting, and the queue of posted tasks, with every interleaving of
    the loop and the threads that post as a step relation. \<open>Worker\<close>: a worker's connections, accepting, its turns, stopping;
    \<open>Lifecycle\<close>: listeners, \<open>Run\<close> and \<open>Stop\<close> (\<open>src/server.cpp\<close>). \<open>Sockets\<close> (\<open>src/detail/socket_posix.cpp\<close>,
    \<open>file_io_posix.cpp\<close>) and \<open>Tls\<close> (\<open>src/tls.cpp\<close>): outcomes of reads and writes, owners of descriptors and contexts.
  \<^item> \<open>PulseFrame\<close>, \<open>PulseChannel\<close>: frames, handshake, channels and hub (\<open>src/pulse.cpp\<close>); \<open>PulseMedia\<close>
    (\<open>src/pulse_media.cpp\<close>), \<open>PulseEasy\<close> (\<open>src/pulse_easy.cpp\<close>); \<open>Sse\<close>: event streams.
  \<^item> \<open>Cache\<close> (\<open>src/cache.cpp\<close>), \<open>Config\<close> (\<open>src/config.cpp\<close>), \<open>Json\<close> and \<open>Validation\<close> (\<open>src/json.cpp\<close>,
    \<open>src/validate.cpp\<close>). \<open>HttpClient\<close> (\<open>src/http_client.cpp\<close>) with the network as an argument, and \<open>ClientNet\<close>, the rest
    of that file, which the former abstracts (\<open>net_request_refines\<close>).
  \<^item> \<open>DbSchema\<close>, \<open>DbQuery\<close>, \<open>Database\<close>, \<open>DbModel\<close>, \<open>DbDocument\<close>: schemas, query builder, pool and transactions,
    active records, documents (\<open>db/*.h\<close>, \<open>src/db/*.cpp\<close>); \<open>DbEngines\<close>: the engines over the four drivers,
    \<open>DbConnect\<close>: their connections.
  \<^item> \<open>Cli\<close> (\<open>tools/socketify_cli/main.cpp\<close>): the command-line tool and the grammar of its arguments.

  \<^bold>\<open>How the code is rendered.\<close> A class is a record and its methods are functions from the state to the state; a
  method guarded by a mutex is one step. Shared objects (channels, sessions of an event stream) are cells of a heap, a
  function from addresses; handlers given by the application are indices or functions. An \<open>unordered_map\<close> is an
  association list; where the code walks over it, the order is arbitrary or an argument. A sum of \<open>size_t\<close> values that an
  input can make wrap is taken modulo 2 to the 64; a \<open>double\<close> is a rational number. Errors are values: an option, or a
  sum of error and result. What is not code of the repository is an argument: the JSON library (\<open>json_api\<close>),
  zlib, regular expressions, the file system (\<open>fs_api\<close>), the results of system calls (a script of \<open>io\<close> results),
  the clock, the random generator, the database engines. The laws about them that a property needs are its hypotheses.

  \<^bold>\<open>Fuel.\<close> \<open>run_chain\<close> takes the number of middleware as fuel: the index that all calls share only grows, so the chain
  never runs out (\<open>dispatch_terminates\<close>). \<open>flush_output\<close> and the input loop call each other; every round consumes
  buffered input or ends, so the number of buffered input bytes is enough (\<open>flush_terminates\<close>). \<open>sha_pad\<close> has fuel 64, and at most
  63 bytes of padding are written. Loops that may run for ever are \<open>partial_function\<close>s: \<open>stream_loop\<close> of a channel,
  \<open>dechunk_from\<close> of the client, which do run for ever on some input, as is proved, and \<open>read_response\<close>
  and \<open>sock_fill\<close>, which read until the peer lets them end. \<open>sock_drain\<close>, \<open>sock_stream\<close> and \<open>deflate_loop\<close> have no bound of their own
  either; that they return, over any system or zlib that keeps its promises, is proved.

  \<^bold>\<open>Where the system begins.\<close> System calls, epoll, eventfd, OpenSSL and the database drivers are arguments of the
  definitions that call them: records of functions on a state of their own, or scripts of results. What a property takes
  them to promise is a definition of its own (\<open>transfers_ok\<close>, \<open>fds_ok\<close>, \<open>ssl_ok\<close>, \<open>net_ok\<close>, \<open>honest_net\<close>,
  \<open>escape_law\<close>), stated over views of that state - the bytes that were sent, the descriptors that are open - and a witness
  shows a system that keeps the promise. The connection of \<open>Server\<close> takes the results of its reads and writes from such a
  script; \<open>Sockets\<close> says how the results come about, and \<open>Wire\<close> that every run over it is one of the scripts.

  \<^bold>\<open>Not modelled.\<close> Builds without an optional library, whose functions return an error, and the printing of the peer's
  address. Examples, tests and benchmarks use the
  library, and the SQLite sources under the examples are not the repository's. Data races are not visible: the parts
  that lock are taken as atomic.
\<close>

end
